(* ===== verification/Prelude.thy ===== *)
theory Prelude
  imports Main "HOL-Library.Sublist"
begin

text \<open>
  What every component of the development shares.  The package reports a failure as a Go
  \<open>error\<close> value: a sentinel that \<open>errors.Is\<close> finds in the chain, and a message that
  \<open>fmt\<close> renders from a format and its arguments.  \<open>goerr\<close> keeps the sentinel, the
  format and the arguments (not the rendered text), and \<open>'a res\<close> is the pair
  \<open>(value, error)\<close> of a Go function that can fail.  The rest is generic: lemmas on lists
  that several components use, and the collections their proofs draw on.
\<close>

named_theorems res_simps "unfolding the result type of functions that can fail"
named_theorems go_simps "evaluation of the modelled standard library"
named_theorems clause_simps "well-formedness of the clauses of a statement"
named_theorems lex_simps "rewriting the lexer over rendered T-SQL text"

section \<open>Error values\<close>

text \<open>The sentinels of \<open>errors.go\<close>.\<close>

datatype sentinel =
    ErrNotFound
  | ErrAmbiguous
  | ErrSchemaRequired
  | ErrHandleNotLoaded
  | ErrUnsupportedVersion
  | ErrUnsupported
  | ErrDefinitionHidden
  | ErrInvalidRequest

text \<open>An argument of a format: text for \<open>%s\<close> and \<open>%q\<close>, a number for \<open>%d\<close>.\<close>

datatype fmt_arg = AText string | ANum int

text \<open>
  An error number of the server as the driver reports it (\<open>mssql.Error\<close>): number, state,
  severity class, text, server, procedure, line, and every message of its batch.  The driver's
  other errors, and those of the standard library the code asks about, are \<open>outside\<close>.
\<close>

datatype msError = MsError (msNumber: int) (msState: nat) (msClass: nat) (msMessage: string)
  (msServer: string) (msProc: string) (msLine: int) (msAll: "msError list")

datatype outside =
    Canceled | DeadlineExceeded | RetryableError | BadConn | EOF | StreamError | ServerError
  | NetError | OtherError string

text \<open>
  \<open>Bare s\<close> is a sentinel returned as it is, \<open>Fmt s f as\<close> the value \<open>notFoundf\<close>,
  \<open>invalidf\<close>, \<open>unsupportedf\<close> or \<open>fmt.Errorf\<close> (no sentinel) builds,
  \<open>Wrapped f as e\<close> an \<open>fmt.Errorf\<close> whose format ends in \<open>%w\<close> and
  \<open>Caused s f as e\<close> such a format under one of the package's constructors.  The wrappers of the
  package with fields of their own are \<open>Entry\<close> (\<open>EntryError\<close>) and \<open>Multi\<close>
  (\<open>multiMessageError\<close>).
\<close>

datatype goerr =
    Bare sentinel
  | Fmt "sentinel option" string "fmt_arg list"
  | Wrapped string "fmt_arg list" goerr
  | Caused sentinel string "fmt_arg list" goerr
  | Entry string goerr
  | Multi goerr string
  | Driver msError
  | Outside outside

type_synonym 'a res = "goerr + 'a"

text \<open>\<open>errors.Is\<close> against a sentinel of the package.\<close>

fun errors_is :: "goerr \<Rightarrow> sentinel \<Rightarrow> bool" where
  "errors_is (Bare s) t = (s = t)"
| "errors_is (Fmt s f as) t = (s = Some t)"
| "errors_is (Wrapped f as e) t = errors_is e t"
| "errors_is (Caused s f as e) t = (s = t \<or> errors_is e t)"
| "errors_is (Entry db e) t = errors_is e t"
| "errors_is (Multi e u) t = errors_is e t"
| "errors_is (Driver m) t = False"
| "errors_is (Outside x) t = False"

definition notFoundf :: "string \<Rightarrow> fmt_arg list \<Rightarrow> goerr" where
  "notFoundf f as = Fmt (Some ErrNotFound) f as"

definition unsupportedVersionf :: "string \<Rightarrow> fmt_arg list \<Rightarrow> goerr" where
  "unsupportedVersionf f as = Fmt (Some ErrUnsupportedVersion) f as"

definition unsupportedf :: "string \<Rightarrow> fmt_arg list \<Rightarrow> goerr" where
  "unsupportedf f as = Fmt (Some ErrUnsupported) f as"

definition invalidf :: "string \<Rightarrow> fmt_arg list \<Rightarrow> goerr" where
  "invalidf f as = Fmt (Some ErrInvalidRequest) f as"

definition errorf :: "string \<Rightarrow> fmt_arg list \<Rightarrow> goerr" where
  "errorf f as = Fmt None f as"

lemma errors_is_constructors [simp]:
  "errors_is (notFoundf f as) t \<longleftrightarrow> t = ErrNotFound"
  "errors_is (unsupportedVersionf f as) t \<longleftrightarrow> t = ErrUnsupportedVersion"
  "errors_is (unsupportedf f as) t \<longleftrightarrow> t = ErrUnsupported"
  "errors_is (invalidf f as) t \<longleftrightarrow> t = ErrInvalidRequest"
  "\<not> errors_is (errorf f as) t"
  by (auto simp: notFoundf_def unsupportedVersionf_def unsupportedf_def invalidf_def errorf_def)

section \<open>Results\<close>

text \<open>\<open>v, err := e; if err != nil { return err }\<close> followed by the rest.\<close>

fun res_bind :: "'e + 'a \<Rightarrow> ('a \<Rightarrow> 'e + 'b) \<Rightarrow> 'e + 'b" where
  "res_bind (Inl e) f = Inl e"
| "res_bind (Inr v) f = f v"

definition isOk :: "'e + 'a \<Rightarrow> bool" where
  "isOk r \<longleftrightarrow> (case r of Inl _ \<Rightarrow> False | Inr _ \<Rightarrow> True)"

lemma isOk_simps [simp]: "isOk (Inr v)" "\<not> isOk (Inl e)"
  by (simp_all add: isOk_def)

lemma isOk_iff: "isOk r \<longleftrightarrow> (\<exists>v. r = Inr v)"
  by (cases r) auto

lemma res_bind_Inr [res_simps]:
  "res_bind r f = Inr w \<longleftrightarrow> (\<exists>v. r = Inr v \<and> f v = Inr w)"
  by (cases r) auto

lemma res_bind_Inl [res_simps]:
  "res_bind r f = Inl e \<longleftrightarrow> r = Inl e \<or> (\<exists>v. r = Inr v \<and> f v = Inl e)"
  by (cases r) auto

text \<open>The loop \<open>for _, x := range xs { v, err := f(x); \<dots> append }\<close>.\<close>

fun res_map :: "('a \<Rightarrow> 'e + 'b) \<Rightarrow> 'a list \<Rightarrow> 'e + 'b list" where
  "res_map f [] = Inr []"
| "res_map f (x # xs) = res_bind (f x) (\<lambda>y. res_bind (res_map f xs) (\<lambda>ys. Inr (y # ys)))"

lemma res_map_Inr: "res_map f xs = Inr ys \<longleftrightarrow> list_all2 (\<lambda>x y. f x = Inr y) xs ys"
  by (induction xs arbitrary: ys) (auto simp: res_simps list_all2_Cons1)

lemma res_map_Inl: "res_map f xs = Inl e \<Longrightarrow> \<exists>x \<in> set xs. f x = Inl e"
  by (induction xs) (auto simp: res_simps)

text \<open>The first of several checks that fails decides: \<open>if c { return e }\<close> in sequence.\<close>

fun first_failing :: "(bool \<times> 'e) list \<Rightarrow> 'e option" where
  "first_failing [] = None"
| "first_failing ((c, e) # cs) = (if c then Some e else first_failing cs)"

lemma first_failing_None: "first_failing cs = None \<longleftrightarrow> (\<forall>(c, e) \<in> set cs. \<not> c)"
  by (induction cs rule: first_failing.induct) auto

lemma first_failing_Some: "first_failing cs = Some e \<Longrightarrow> (True, e) \<in> set cs"
  by (induction cs rule: first_failing.induct) (auto split: if_splits)

section \<open>Lists\<close>

lemma drop_Cons_nth: "i < length s \<Longrightarrow> drop i s = s ! i # drop (Suc i) s"
  by (rule Cons_nth_drop_Suc [symmetric])

text \<open>A slice \<open>s[i:j]\<close> of a string.\<close>

definition slice :: "'a list \<Rightarrow> nat \<Rightarrow> nat \<Rightarrow> 'a list" where
  "slice s i j = take (j - i) (drop i s)"

lemma length_slice: "j \<le> length s \<Longrightarrow> length (slice s i j) = j - i"
  by (auto simp: slice_def)

lemma slice_append: "i \<le> j \<Longrightarrow> j \<le> k \<Longrightarrow> slice s i j @ slice s j k = slice s i k"
proof -
  assume "i \<le> j" "j \<le> k"
  then have "k - i = (j - i) + (k - j)" and "drop j s = drop (j - i) (drop i s)"
    by simp_all
  then show ?thesis by (simp only: slice_def take_add)
qed

lemma slice_all [simp]: "slice s 0 (length s) = s"
  by (simp add: slice_def)

lemma slice_Nil [simp]: "slice s i i = []"
  by (simp add: slice_def)

end
