(* ===== verification/GoStrings.thy ===== *)
theory GoStrings
  imports Prelude
begin

text \<open>
  The functions of Go's \<open>strings\<close> and \<open>strconv\<close> packages the program calls.  A Go string
  is a sequence of bytes, which a HOL \<open>string\<close> (a list of 8-bit characters) is too; an index
  into it is a \<open>nat\<close>, and the \<open>-1\<close> of a search that finds nothing is \<open>None\<close>.
\<close>

section \<open>Constants that cannot be written between quotes\<close>

definition dquote :: char where "dquote = CHR 0x22"
definition squote :: char where "squote = CHR 0x27"
definition bslash :: char where "bslash = CHR 0x5C"
definition nl :: char where "nl = CHR 0x0A"
definition tab :: char where "tab = CHR 0x09"
definition cr :: char where "cr = CHR 0x0D"

lemmas char_consts = dquote_def squote_def bslash_def nl_def tab_def cr_def

lemma quote_chars_neq [simp]:
  "dquote \<noteq> CHR ''[''" "CHR ''['' \<noteq> dquote" "dquote \<noteq> CHR '']''" "CHR '']'' \<noteq> dquote"
  "squote \<noteq> CHR ''[''" "CHR ''['' \<noteq> squote" "squote \<noteq> CHR '']''" "CHR '']'' \<noteq> squote"
  "dquote \<noteq> CHR ''.''" "CHR ''.'' \<noteq> dquote" "squote \<noteq> CHR ''.''" "CHR ''.'' \<noteq> squote"
  "squote \<noteq> dquote" "dquote \<noteq> squote" "squote \<noteq> CHR ''N''" "CHR ''N'' \<noteq> squote"
  "squote \<noteq> CHR ''n''" "CHR ''n'' \<noteq> squote" "dquote \<noteq> CHR ''N''" "dquote \<noteq> CHR ''n''"
  "CHR ''N'' \<noteq> dquote" "CHR ''n'' \<noteq> dquote"
  by (simp_all add: dquote_def squote_def)

section \<open>Prefixes, suffixes and searching\<close>

fun has_prefix :: "string \<Rightarrow> string \<Rightarrow> bool" where
  "has_prefix s [] = True"
| "has_prefix [] (p # ps) = False"
| "has_prefix (c # s) (p # ps) = (c = p \<and> has_prefix s ps)"

definition has_suffix :: "string \<Rightarrow> string \<Rightarrow> bool" where
  "has_suffix s p = has_prefix (rev s) (rev p)"

lemma has_prefix_iff: "has_prefix s p \<longleftrightarrow> (\<exists>t. s = p @ t)"
  by (induction s p rule: has_prefix.induct) auto

lemma has_prefix_prefix: "has_prefix s p \<longleftrightarrow> prefix p s"
  by (auto simp: has_prefix_iff prefix_def)

lemma has_suffix_iff: "has_suffix s p \<longleftrightarrow> (\<exists>t. s = t @ p)"
proof -
  have "rev s = rev p @ t \<longleftrightarrow> s = rev t @ p" for t
    by (metis rev_append rev_rev_ident)
  then show ?thesis
    by (metis has_suffix_def has_prefix_iff rev_rev_ident)
qed

lemma has_prefix_append [simp]: "has_prefix (p @ s) p"
  by (auto simp: has_prefix_iff)

lemma has_prefix_length: "has_prefix s p \<Longrightarrow> length p \<le> length s"
  by (auto simp: has_prefix_iff)

definition trim_prefix :: "string \<Rightarrow> string \<Rightarrow> string" where
  "trim_prefix s p = (if has_prefix s p then drop (length p) s else s)"

definition trim_suffix :: "string \<Rightarrow> string \<Rightarrow> string" where
  "trim_suffix s p = (if has_suffix s p then take (length s - length p) s else s)"

lemma trim_suffix_append [simp]: "trim_suffix (s @ p) p = s"
  by (simp add: trim_suffix_def has_suffix_iff)

text \<open>\<open>strings.IndexByte\<close>.\<close>

fun index_byte :: "string \<Rightarrow> char \<Rightarrow> nat option" where
  "index_byte [] c = None"
| "index_byte (x # s) c = (if x = c then Some 0 else map_option Suc (index_byte s c))"

lemma index_byte_None: "index_byte s c = None \<longleftrightarrow> c \<notin> set s"
  by (induction s) auto

lemma index_byte_Some:
  "index_byte s c = Some j \<Longrightarrow> j < length s \<and> s ! j = c \<and> c \<notin> set (take j s)"
  by (induction s arbitrary: j) (auto split: if_splits)

lemma index_byte_append:
  "c \<notin> set a \<Longrightarrow> index_byte (a @ c # b) c = Some (length a)"
  by (induction a) auto

text \<open>\<open>strings.Contains\<close> and \<open>strings.Index\<close>.\<close>

fun contains :: "string \<Rightarrow> string \<Rightarrow> bool" where
  "contains [] p = (p = [])"
| "contains (c # s) p = (has_prefix (c # s) p \<or> contains s p)"

lemma contains_iff: "contains s p \<longleftrightarrow> (\<exists>a b. s = a @ p @ b)"
proof (induction s)
  case Nil
  then show ?case by simp
next
  case (Cons c s)
  show ?case
    by (auto simp: Cons.IH has_prefix_iff) (metis Cons_eq_append_conv append_Cons)+
qed

fun index_sub :: "string \<Rightarrow> string \<Rightarrow> nat option" where
  "index_sub [] p = (if p = [] then Some 0 else None)"
| "index_sub (c # s) p =
     (if has_prefix (c # s) p then Some 0 else map_option Suc (index_sub s p))"

text \<open>\<open>strings.LastIndexAny\<close> and \<open>strings.LastIndex\<close> of one byte.\<close>

definition last_index_any :: "string \<Rightarrow> string \<Rightarrow> nat option" where
  "last_index_any s cs =
     (let r = dropWhile (\<lambda>c. c \<notin> set cs) (rev s)
      in if r = [] then None else Some (length r - 1))"

lemma last_index_any_None: "last_index_any s cs = None \<longleftrightarrow> set s \<inter> set cs = {}"
  by (auto simp: last_index_any_def Let_def dropWhile_eq_Nil_conv)

lemma last_index_any_append:
  "c \<in> set cs \<Longrightarrow> set b \<inter> set cs = {} \<Longrightarrow> last_index_any (a @ c # b) cs = Some (length a)"
proof -
  assume c: "c \<in> set cs" and b: "set b \<inter> set cs = {}"
  have "dropWhile (\<lambda>c. c \<notin> set cs) (rev b @ c # rev a) = c # rev a"
    using b c by (subst dropWhile_append2) auto
  then show ?thesis by (simp add: last_index_any_def)
qed

lemma last_index_any_Some:
  assumes "last_index_any s cs = Some i"
  shows "i < length s \<and> s ! i \<in> set cs \<and> set (drop (Suc i) s) \<inter> set cs = {}"
proof -
  let ?r = "dropWhile (\<lambda>c. c \<notin> set cs) (rev s)" and ?t = "takeWhile (\<lambda>c. c \<notin> set cs) (rev s)"
  from assms have ne: "?r \<noteq> []" and i: "i = length ?r - 1"
    by (auto simp: last_index_any_def Let_def split: if_splits)
  obtain c r where cr: "?r = c # r" using ne by (cases ?r) auto
  have c: "c \<in> set cs" using hd_dropWhile [OF ne] cr by simp
  have "rev s = ?t @ c # r" using cr takeWhile_dropWhile_id by metis
  then have s: "s = rev r @ c # rev ?t" by (metis append_Cons append_assoc append_Nil rev_append rev_rev_ident rev.simps(2))
  have "i = length r" using i cr by simp
  moreover have "set ?t \<inter> set cs = {}" by (auto dest: set_takeWhileD)
  moreover have "drop (Suc i) s = rev ?t" "s ! i = c" "i < length s"
    by (subst s; simp add: \<open>i = length r\<close> nth_append)+
  ultimately show ?thesis using c by simp
qed

section \<open>Replacing\<close>

text \<open>
  \<open>strings.ReplaceAll(s, old, new)\<close> for a non-empty \<open>old\<close>, which every call in the program
  has: the leftmost occurrences, not overlapping.
\<close>

function replace_all :: "string \<Rightarrow> string \<Rightarrow> string \<Rightarrow> string" where
  "replace_all [] old new = []"
| "replace_all (c # s) old new =
     (if old \<noteq> [] \<and> has_prefix (c # s) old
      then new @ replace_all (drop (length old) (c # s)) old new
      else c # replace_all s old new)"
  by pat_completeness auto
termination
  by (relation "measure (\<lambda>(s, _, _). length s)") auto

text \<open>\<open>strings.Count\<close> of a non-empty substring.\<close>

function count_sub :: "string \<Rightarrow> string \<Rightarrow> nat" where
  "count_sub [] p = 0"
| "count_sub (c # s) p =
     (if p \<noteq> [] \<and> has_prefix (c # s) p
      then Suc (count_sub (drop (length p) (c # s)) p) else count_sub s p)"
  by pat_completeness auto
termination
  by (relation "measure (\<lambda>(s, _). length s)") auto

text \<open>Replacing one byte is a map over the bytes.\<close>

lemma replace_byte: "replace_all s [c] r = concat (map (\<lambda>x. if x = c then r else [x]) s)"
  by (induction s) auto

lemma replace_byte_Nil [simp]: "c \<notin> set s \<Longrightarrow> replace_all s [c] r = s"
  by (induction s) auto

lemma replace_byte_append:
  "replace_all (s @ t) [c] r = replace_all s [c] r @ replace_all t [c] r"
  by (simp add: replace_byte)

lemma count_byte: "count_sub s [c] = count_list s c"
  by (induction s) auto

text \<open>Doubling a byte, and undoing it.\<close>

definition double :: "char \<Rightarrow> string \<Rightarrow> string" where
  "double c s = concat (map (\<lambda>x. if x = c then [c, c] else [x]) s)"

lemma double_simps [simp]:
  "double c [] = []"
  "double c (x # s) = (if x = c then c # c # double c s else x # double c s)"
  by (simp_all add: double_def)

lemma double_id [simp]: "c \<notin> set s \<Longrightarrow> double c s = s"
  by (induction s) auto

lemma double_append: "double c (s @ t) = double c s @ double c t"
  by (simp add: double_def)

lemma replace_all_double: "replace_all s [c] [c, c] = double c s"
  by (simp add: replace_byte double_def)

lemma replace_pair_double: "replace_all (double c s) [c, c] [c] = s"
proof (induction s)
  case Nil
  then show ?case by simp
next
  case (Cons x s)
  then show ?case by (cases "double c s") auto
qed

lemma count_double_single: "count_sub (double c s) [c] = 2 * count_list s c"
  by (induction s) (auto simp: count_byte)

lemma count_double_pair: "count_sub (double c s) [c, c] = count_list s c"
proof (induction s)
  case Nil
  then show ?case by simp
next
  case (Cons x s)
  then show ?case by (cases "double c s") auto
qed

lemma double_inject: "double c s = double c t \<longleftrightarrow> s = t"
  by (metis replace_pair_double)

section \<open>Splitting and joining\<close>

text \<open>\<open>strings.Split\<close> by one byte: always at least one part.\<close>

fun split_byte :: "string \<Rightarrow> char \<Rightarrow> string list" where
  "split_byte [] c = [[]]"
| "split_byte (x # s) c =
     (if x = c then [] # split_byte s c
      else (case split_byte s c of [] \<Rightarrow> [[x]] | p # ps \<Rightarrow> (x # p) # ps))"

fun str_join :: "string \<Rightarrow> string list \<Rightarrow> string" where
  "str_join sep [] = []"
| "str_join sep [x] = x"
| "str_join sep (x # y # xs) = x @ sep @ str_join sep (y # xs)"

lemma split_byte_ne [simp]: "split_byte s c \<noteq> []"
  by (induction s) (auto split: list.splits)

lemma join_split: "str_join [c] (split_byte s c) = s"
proof (induction s)
  case Nil
  then show ?case by simp
next
  case (Cons x s)
  obtain p ps where p: "split_byte s c = p # ps" by (cases "split_byte s c") auto
  show ?case
  proof (cases "x = c")
    case True
    with Cons p show ?thesis by simp
  next
    case False
    with Cons p show ?thesis by (cases ps) auto
  qed
qed

lemma split_byte_no_sep: "c \<notin> set s \<Longrightarrow> split_byte s c = [s]"
  by (induction s) auto

lemma split_byte_append: "c \<notin> set a \<Longrightarrow> split_byte (a @ c # s) c = a # split_byte s c"
  by (induction a) (auto split: list.splits)

lemma split_join:
  "xs \<noteq> [] \<Longrightarrow> \<forall>x \<in> set xs. c \<notin> set x \<Longrightarrow> split_byte (str_join [c] xs) c = xs"
  by (induction "[c]" xs rule: str_join.induct) (auto simp: split_byte_no_sep split_byte_append)

lemma str_join_concat: "str_join [] xs = concat xs"
  by (induction "[] :: string" xs rule: str_join.induct) auto

lemma str_join_Cons: "str_join sep (x # xs) = x @ (if xs = [] then [] else sep @ str_join sep xs)"
  by (cases xs) auto

section \<open>Trimming\<close>

text \<open>\<open>strings.TrimLeft(s, cutset)\<close>, \<open>TrimRight\<close> and \<open>Trim\<close>, for ASCII cut sets.\<close>

definition trim_left :: "string \<Rightarrow> string \<Rightarrow> string" where
  "trim_left s cs = dropWhile (\<lambda>c. c \<in> set cs) s"

definition trim_right :: "string \<Rightarrow> string \<Rightarrow> string" where
  "trim_right s cs = rev (dropWhile (\<lambda>c. c \<in> set cs) (rev s))"

definition trim_both :: "string \<Rightarrow> string \<Rightarrow> string" where
  "trim_both s cs = trim_right (trim_left s cs) cs"

section \<open>Characters\<close>

definition is_digit :: "char \<Rightarrow> bool" where
  "is_digit c \<longleftrightarrow> 48 \<le> (of_char c :: nat) \<and> (of_char c :: nat) \<le> 57"

definition is_upper :: "char \<Rightarrow> bool" where
  "is_upper c \<longleftrightarrow> 65 \<le> (of_char c :: nat) \<and> (of_char c :: nat) \<le> 90"

definition is_lower :: "char \<Rightarrow> bool" where
  "is_lower c \<longleftrightarrow> 97 \<le> (of_char c :: nat) \<and> (of_char c :: nat) \<le> 122"

definition upper_char :: "char \<Rightarrow> char" where
  "upper_char c = (if is_lower c then char_of ((of_char c :: nat) - 32) else c)"

definition lower_char :: "char \<Rightarrow> char" where
  "lower_char c = (if is_upper c then char_of ((of_char c :: nat) + 32) else c)"

definition is_ascii :: "string \<Rightarrow> bool" where
  "is_ascii s \<longleftrightarrow> list_all (\<lambda>c. (of_char c :: nat) < 128) s"

section \<open>Decimal numbers\<close>

definition digit_char :: "nat \<Rightarrow> char" where
  "digit_char n = char_of (48 + n)"

definition digit_val :: "char \<Rightarrow> nat" where
  "digit_val c = of_char c - 48"

fun nat_itoa :: "nat \<Rightarrow> string" where
  "nat_itoa n = (if n < 10 then [digit_char n] else nat_itoa (n div 10) @ [digit_char (n mod 10)])"

declare nat_itoa.simps [simp del]

text \<open>\<open>strconv.Itoa\<close>, and \<open>%d\<close>.\<close>

definition itoa :: "int \<Rightarrow> string" where
  "itoa i = (if i < 0 then CHR ''-'' # nat_itoa (nat (- i)) else nat_itoa (nat i))"

text \<open>The number a digit string denotes.\<close>

fun digits_val :: "nat \<Rightarrow> string \<Rightarrow> nat" where
  "digits_val a [] = a"
| "digits_val a (c # s) = digits_val (10 * a + digit_val c) s"

lemma digit_char_val [simp]: "n < 10 \<Longrightarrow> digit_val (digit_char n) = n"
  by (simp add: digit_char_def digit_val_def)

lemma digit_char_is_digit [simp]: "n < 10 \<Longrightarrow> is_digit (digit_char n)"
  by (simp add: digit_char_def is_digit_def)

lemma digits_val_append: "digits_val a (s @ t) = digits_val (digits_val a s) t"
  by (induction s arbitrary: a) auto

lemma nat_itoa_val: "digits_val 0 (nat_itoa n) = n"
proof (induction n rule: nat_itoa.induct)
  case (1 n)
  then show ?case by (subst nat_itoa.simps) (auto simp: digits_val_append)
qed

lemma nat_itoa_digits: "list_all is_digit (nat_itoa n)"
proof (induction n rule: nat_itoa.induct)
  case (1 n)
  then show ?case by (subst nat_itoa.simps) auto
qed

lemma nat_itoa_ne [simp]: "nat_itoa n \<noteq> []"
  by (subst nat_itoa.simps) simp

lemma nat_itoa_inject [simp]: "nat_itoa m = nat_itoa n \<longleftrightarrow> m = n"
  by (metis nat_itoa_val)

lemma is_digit_minus [simp]: "\<not> is_digit (CHR ''-'')"
  by (simp add: is_digit_def)

lemma itoa_inject [simp]: "itoa i = itoa j \<longleftrightarrow> i = j"
proof -
  have hd: "hd (nat_itoa n) \<noteq> CHR ''-''" for n
    using nat_itoa_digits [of n] nat_itoa_ne [of n]
    by (cases "nat_itoa n") (auto simp: is_digit_minus)
  have neq: "CHR ''-'' # s \<noteq> nat_itoa n" for s n
    using hd [of n] by (metis list.sel(1))
  show ?thesis
    using neq neq [symmetric] by (auto simp: itoa_def split: if_splits)
qed

section \<open>Numbers by their digits\<close>

lemma high_digit: "(a :: nat) < b \<Longrightarrow> x < m \<Longrightarrow> a * m + x < b * m + y"
proof -
  assume "a < b" "x < m"
  then have "(a + 1) * m \<le> b * m" by (intro mult_right_mono) auto
  with \<open>x < m\<close> show ?thesis by simp
qed

lemma trim_zeros:
  assumes "list_all is_digit s"
  shows "list_all is_digit (trim_left s ''0'')" "digits_val 0 (trim_left s ''0'') = digits_val 0 s"
    "trim_left s ''0'' = [] \<or> hd (trim_left s ''0'') \<noteq> CHR ''0''"
proof -
  have z: "digit_val (CHR ''0'') = 0" by (simp add: digit_val_def)
  show "list_all is_digit (trim_left s ''0'')"
    using assms by (auto simp: trim_left_def list_all_iff dest: set_dropWhileD)
  show "digits_val 0 (trim_left s ''0'') = digits_val 0 s"
    using z by (induction s) (auto simp: trim_left_def)
  show "trim_left s ''0'' = [] \<or> hd (trim_left s ''0'') \<noteq> CHR ''0''"
    using hd_dropWhile [of "\<lambda>c. c \<in> set ''0''" s] by (auto simp: trim_left_def)
qed

lemma digits_val_foldl: "digits_val k s = k * 10 ^ length s + digits_val 0 s"
proof (induction s arbitrary: k)
  case (Cons c s)
  show ?case using Cons [of "k * 10 + digit_val c"] Cons [of "digit_val c"] by (simp add: algebra_simps)
qed simp

lemma digits_val_Cons: "digits_val 0 (c # s) = digit_val c * 10 ^ length s + digits_val 0 s"
  using digits_val_foldl [of "digit_val c" s] by simp

lemma digits_bound: "list_all is_digit s \<Longrightarrow> digits_val 0 s < 10 ^ length s"
proof (induction s)
  case (Cons c s)
  then have "digit_val c < 10" by (auto simp: is_digit_def digit_val_def)
  then show ?case
    using high_digit [of "digit_val c" 10 "digits_val 0 s" "10 ^ length s" 0] Cons
    by (simp add: digits_val_Cons del: digits_val.simps)
qed simp

lemma leading_digit:
  assumes "t \<noteq> []" "list_all is_digit t" "hd t \<noteq> CHR ''0''"
  shows "10 ^ (length t - 1) \<le> digits_val 0 t"
proof -
  obtain c u where t: "t = c # u" using assms(1) by (cases t) auto
  have "of_char c \<noteq> (48 :: nat)"
  proof
    assume "of_char c = (48 :: nat)"
    then have "of_char c = (of_char (CHR ''0'') :: nat)" by simp
    then have "c = CHR ''0''" by (simp only: of_char_eq_iff)
    then show False using assms(3) t by simp
  qed
  then have "0 < digit_val c" using assms(2) t by (auto simp: is_digit_def digit_val_def)
  then have "1 * 10 ^ length u \<le> digit_val c * 10 ^ length u" by (intro mult_right_mono) auto
  then have "10 ^ length u \<le> digits_val 0 (c # u)" unfolding digits_val_Cons by linarith
  then show ?thesis by (simp add: t del: digits_val.simps)
qed

lemma shorter_less:
  assumes "length s < length t" "list_all is_digit s" "list_all is_digit t" "hd t \<noteq> CHR ''0''"
  shows "digits_val 0 s < digits_val 0 t"
proof -
  have "10 ^ (length t - 1) \<le> digits_val 0 t" by (rule leading_digit) (use assms in auto)
  moreover have "digits_val 0 s < 10 ^ length s" using digits_bound assms(2) by blast
  moreover have "(10 :: nat) ^ length s \<le> 10 ^ (length t - 1)" using assms(1) by simp
  ultimately show ?thesis by linarith
qed

text \<open>Without its leading zeros, a number below a power of ten has no more digits than its exponent.\<close>

lemma trimmed_length:
  assumes "list_all is_digit s"
  shows "length (trim_left s ''0'') \<le> n \<longleftrightarrow> digits_val 0 s < 10 ^ n"
proof -
  define t where "t = trim_left s ''0''"
  note t = trim_zeros [OF assms, folded t_def]
  have "digits_val 0 t < 10 ^ n" if "length t \<le> n"
    using digits_bound [OF t(1)] that by (meson less_le_trans one_le_numeral power_increasing)
  moreover have "length t \<le> n" if "digits_val 0 t < 10 ^ n"
  proof (cases "t = []")
    case False
    then have "hd t \<noteq> CHR ''0''" using t(3) by simp
    from leading_digit [OF False t(1) this] that have "10 ^ (length t - 1) < (10 :: nat) ^ n" by (rule le_less_trans)
    then have "length t - 1 < n" by (rule power_less_imp_less_exp [rotated]) simp
    then show ?thesis by simp
  qed simp
  ultimately show ?thesis using t(2) by (auto simp: t_def)
qed

end
