(* ===== verification/Quote.thy ===== *)
theory Quote
  imports GoStrings
begin

text \<open>
  Quoting: \<open>tsql/quote.go\<close> and \<open>quoting.go\<close>.  The four quoted forms of T-SQL text, their
  inverse \<open>UnquoteName\<close>, the splitter of multi-part names, and the decision whether a name
  may stay bare.  The exported wrappers of \<open>quoting.go\<close> forward to the \<open>tsql\<close> functions of
  the same name, so one definition stands for both.
\<close>

section \<open>tsql/quote.go\<close>

definition QuoteName :: "string \<Rightarrow> string" where
  "QuoteName name = ''['' @ replace_all name '']'' '']]'' @ '']''"

definition QualifiedName :: "string \<Rightarrow> string \<Rightarrow> string" where
  "QualifiedName schema name =
     (if schema = [] then QuoteName name else QuoteName schema @ ''.'' @ QuoteName name)"

definition UnquoteName :: "string \<Rightarrow> string" where
  "UnquoteName name =
     (if length name < 2 then name
      else
        (let closer =
               (if hd name = CHR ''['' \<and> last name = CHR '']'' then Some (CHR '']'')
                else if hd name = dquote \<and> last name = dquote then Some dquote
                else None)
         in case closer of
              None \<Rightarrow> name
            | Some c \<Rightarrow>
                (let inner = slice name 1 (length name - 1)
                 in if count_sub inner [c, c] * 2 \<noteq> count_sub inner [c] then name
                    else replace_all inner [c, c] [c])))"

definition QuoteAnsiLiteral :: "string \<Rightarrow> string" where
  "QuoteAnsiLiteral s = [squote] @ replace_all s [squote] [squote, squote] @ [squote]"

definition QuoteLiteral :: "string \<Rightarrow> string" where
  "QuoteLiteral s = ''N'' @ QuoteAnsiLiteral s"

text \<open>\<open>helpers.go\<close>: the escape without the quotes, and the nullable literal.\<close>

definition escapeSingle :: "string \<Rightarrow> string" where
  "escapeSingle s = replace_all s [squote] [squote, squote]"

definition nullableStr :: "string \<Rightarrow> string" where
  "nullableStr s = (if s = [] then ''NULL'' else ''N'' @ [squote] @ escapeSingle s @ [squote])"

definition boolToInt :: "bool \<Rightarrow> int" where
  "boolToInt b = (if b then 1 else 0)"

lemma QuoteName_double: "QuoteName n = CHR ''['' # double (CHR '']'') n @ [CHR '']'']"
  by (simp add: QuoteName_def replace_all_double)

lemma QuoteAnsiLiteral_double: "QuoteAnsiLiteral s = squote # double squote s @ [squote]"
  by (simp add: QuoteAnsiLiteral_def replace_all_double)

lemma QuoteLiteral_double: "QuoteLiteral s = CHR ''N'' # squote # double squote s @ [squote]"
  by (simp add: QuoteLiteral_def QuoteAnsiLiteral_double)

lemmas quoted_double = QuoteName_double QuoteAnsiLiteral_double QuoteLiteral_double

lemma nullableStr_literal: "s \<noteq> [] \<Longrightarrow> nullableStr s = QuoteLiteral s"
  by (simp add: nullableStr_def escapeSingle_def QuoteLiteral_def QuoteAnsiLiteral_def)

lemma QuoteName_inject [simp]: "QuoteName a = QuoteName b \<longleftrightarrow> a = b"
  by (simp add: QuoteName_double double_inject)

lemma QuoteLiteral_inject [simp]: "QuoteLiteral a = QuoteLiteral b \<longleftrightarrow> a = b"
  by (simp add: QuoteLiteral_double double_inject)

section \<open>UnquoteName undoes both quoted identifiers\<close>

lemma slice_inner: "slice (a # s @ [b]) (Suc 0) (Suc (length s)) = s"
  by (simp add: slice_def)

lemma UnquoteName_bracketed:
  "UnquoteName (CHR ''['' # s @ [CHR '']'']) =
     (if count_sub s ('']]'') * 2 \<noteq> count_sub s ('']'') then CHR ''['' # s @ [CHR '']'']
      else replace_all s ('']]'') ('']''))"
  by (simp add: UnquoteName_def slice_inner Let_def)

lemma UnquoteName_dquoted:
  "UnquoteName (dquote # s @ [dquote]) =
     (if count_sub s [dquote, dquote] * 2 \<noteq> count_sub s [dquote] then dquote # s @ [dquote]
      else replace_all s [dquote, dquote] [dquote])"
  by (simp add: UnquoteName_def slice_inner Let_def dquote_def)

lemma UnquoteName_double_quoted: "UnquoteName (dquote # double dquote s @ [dquote]) = s"
  by (simp add: UnquoteName_dquoted count_double_single count_double_pair replace_pair_double)

text \<open>A text whose closers all come in pairs is the doubling of one text.\<close>

lemma paired_is_double:
  "count_sub s [c, c] * 2 = count_sub s [c] \<Longrightarrow> \<exists>t. s = double c t"
proof -
  have le: "count_sub s [c, c] * 2 \<le> count_sub s [c]" for s
  proof (induction s "[c, c]" rule: count_sub.induct)
    case 1
    then show ?case by simp
  next
    case (2 x s)
    then show ?case by (cases s) (auto split: if_splits)
  qed
  show "count_sub s [c, c] * 2 = count_sub s [c] \<Longrightarrow> \<exists>t. s = double c t"
  proof (induction s "[c, c]" rule: count_sub.induct)
    case 1
    then show ?case by (metis double_simps(1))
  next
    case (2 x s)
    show ?case
    proof (cases "has_prefix (x # s) [c, c]")
      case True
      then obtain u where u: "x = c" "s = c # u" by (cases s) auto
      with 2 True obtain t where "u = double c t" by auto
      with u have "x # s = double c (c # t)" by simp
      then show ?thesis by blast
    next
      case False
      with "2.prems" le [of s] have "x \<noteq> c" "count_sub s [c, c] * 2 = count_sub s [c]"
        by (auto split: if_splits)
      with 2 False obtain t where "s = double c t" by auto
      with \<open>x \<noteq> c\<close> have "x # s = double c (x # t)" by simp
      then show ?thesis by blast
    qed
  qed
qed

section \<open>quoting.go: names that may stay bare\<close>

definition isRegularIdentifier :: "string \<Rightarrow> bool" where
  "isRegularIdentifier name =
     (case name of
        [] \<Rightarrow> False
      | c # cs \<Rightarrow>
          (is_upper c \<or> is_lower c \<or> c = CHR ''_'') \<and>
          list_all (\<lambda>c. is_upper c \<or> is_lower c \<or> c = CHR ''_'' \<or>
                        is_digit c \<or> c \<in> {CHR ''@'', CHR ''#'', CHR ''$''}) cs)"

definition reservedKeywords :: "string list" where
  "reservedKeywords =
   [
    ''ADD'', ''ALL'', ''ALTER'', ''AND'', ''ANY'', ''AS'', ''ASC'', ''AUTHORIZATION'',
    ''BACKUP'', ''BEGIN'', ''BETWEEN'', ''BREAK'', ''BROWSE'', ''BULK'', ''BY'', ''CASCADE'',
    ''CASE'', ''CHECK'', ''CHECKPOINT'', ''CLOSE'', ''CLUSTERED'', ''COALESCE'', ''COLLATE'',
    ''COLUMN'', ''COMMIT'', ''COMPUTE'', ''CONSTRAINT'', ''CONTAINS'', ''CONTAINSTABLE'',
    ''CONTINUE'', ''CONVERT'', ''CREATE'', ''CROSS'', ''CURRENT'', ''CURRENT_DATE'',
    ''CURRENT_TIME'', ''CURRENT_TIMESTAMP'', ''CURRENT_USER'', ''CURSOR'', ''DATABASE'',
    ''DBCC'', ''DEALLOCATE'', ''DECLARE'', ''DEFAULT'', ''DELETE'', ''DENY'', ''DESC'',
    ''DISK'', ''DISTINCT'', ''DISTRIBUTED'', ''DOUBLE'', ''DROP'', ''DUMP'', ''ELSE'', ''END'',
    ''ERRLVL'', ''ESCAPE'', ''EXCEPT'', ''EXEC'', ''EXECUTE'', ''EXISTS'', ''EXIT'',
    ''EXTERNAL'', ''FETCH'', ''FILE'', ''FILLFACTOR'', ''FOR'', ''FOREIGN'', ''FREETEXT'',
    ''FREETEXTTABLE'', ''FROM'', ''FULL'', ''FUNCTION'', ''GOTO'', ''GRANT'', ''GROUP'',
    ''HAVING'', ''HOLDLOCK'', ''IDENTITY'', ''IDENTITY_INSERT'', ''IDENTITYCOL'', ''IF'',
    ''IN'', ''INDEX'', ''INNER'', ''INSERT'', ''INTERSECT'', ''INTO'', ''IS'', ''JOIN'',
    ''KEY'', ''KILL'', ''LEFT'', ''LIKE'', ''LINENO'', ''LOAD'', ''MERGE'', ''NATIONAL'',
    ''NOCHECK'', ''NONCLUSTERED'', ''NOT'', ''NULL'', ''NULLIF'', ''OF'', ''OFF'', ''OFFSETS'',
    ''ON'', ''OPEN'', ''OPENDATASOURCE'', ''OPENQUERY'', ''OPENROWSET'', ''OPENXML'',
    ''OPTION'', ''OR'', ''ORDER'', ''OUTER'', ''OVER'', ''PERCENT'', ''PIVOT'', ''PLAN'',
    ''PRECISION'', ''PRIMARY'', ''PRINT'', ''PROC'', ''PROCEDURE'', ''PUBLIC'', ''RAISERROR'',
    ''READ'', ''READTEXT'', ''RECONFIGURE'', ''REFERENCES'', ''REPLICATION'', ''RESTORE'',
    ''RESTRICT'', ''RETURN'', ''REVERT'', ''REVOKE'', ''RIGHT'', ''ROLLBACK'', ''ROWCOUNT'',
    ''ROWGUIDCOL'', ''RULE'', ''SAVE'', ''SCHEMA'', ''SECURITYAUDIT'', ''SELECT'',
    ''SEMANTICKEYPHRASETABLE'', ''SEMANTICSIMILARITYDETAILSTABLE'',
    ''SEMANTICSIMILARITYTABLE'', ''SESSION_USER'', ''SET'', ''SETUSER'', ''SHUTDOWN'',
    ''SOME'', ''STATISTICS'', ''SYSTEM_USER'', ''TABLE'', ''TABLESAMPLE'', ''TEXTSIZE'',
    ''THEN'', ''TO'', ''TOP'', ''TRAN'', ''TRANSACTION'', ''TRIGGER'', ''TRUNCATE'',
    ''TRY_CONVERT'', ''TSEQUAL'', ''UNION'', ''UNIQUE'', ''UNPIVOT'', ''UPDATE'',
    ''UPDATETEXT'', ''USE'', ''USER'', ''VALUES'', ''VARYING'', ''VIEW'', ''WAITFOR'',
    ''WHEN'', ''WHERE'', ''WHILE'', ''WITH'', ''WRITETEXT''
   ]"

text \<open>
  \<open>strings.ToUpper\<close>, as far as membership in a list of ASCII words can tell: outside ASCII
  only U+0131 (bytes C4 B1) and U+017F (bytes C5 BF) have an ASCII upper case, \<open>I\<close> and \<open>S\<close>;
  every other rune goes to a rune that is in no keyword, and is left as it stands here.
\<close>

fun to_upper_kw :: "string \<Rightarrow> string" where
  "to_upper_kw [] = []"
| "to_upper_kw [c] = [upper_char c]"
| "to_upper_kw (c # d # s) =
     (if c = CHR 0xC4 \<and> d = CHR 0xB1 then CHR ''I'' # to_upper_kw s
      else if c = CHR 0xC5 \<and> d = CHR 0xBF then CHR ''S'' # to_upper_kw s
      else upper_char c # to_upper_kw (d # s))"

definition IsReservedKeyword :: "string \<Rightarrow> bool" where
  "IsReservedKeyword word \<longleftrightarrow> to_upper_kw word \<in> set reservedKeywords"

definition QuoteNameIfNeeded :: "string \<Rightarrow> string" where
  "QuoteNameIfNeeded name =
     (if isRegularIdentifier name \<and> \<not> IsReservedKeyword name then name else QuoteName name)"

section \<open>quoting.go: SplitName\<close>

text \<open>
  The loops of \<open>SplitName\<close>, on the text from position \<open>i\<close> on: white space, a quoted part up
  to its closer, a bare part up to a dot or white space.
\<close>

definition isSpace :: "char \<Rightarrow> bool" where
  "isSpace c \<longleftrightarrow> c \<in> {CHR '' '', tab, cr, nl}"

definition skipSpace :: "string \<Rightarrow> string" where
  "skipSpace s = dropWhile isSpace s"

function readQuoted :: "char \<Rightarrow> string \<Rightarrow> (string \<times> string) option" where
  "readQuoted closer s =
     (case index_byte s closer of
        None \<Rightarrow> None
      | Some j \<Rightarrow>
          (case drop (Suc j) s of
             [] \<Rightarrow> Some (take j s, [])
           | c # rest \<Rightarrow>
               if c = closer
               then map_option (\<lambda>(p, r). (take j s @ [closer] @ p, r)) (readQuoted closer rest)
               else Some (take j s, c # rest)))"
  by pat_completeness auto
termination
proof (relation "measure (\<lambda>(_, s). length s)", simp, clarsimp)
  fix j :: nat and s rest :: string and c :: char
  assume "drop (Suc j) s = c # rest"
  then have "length (drop (Suc j) s) = Suc (length rest)" by simp
  then show "length rest < length s" by simp
qed

declare readQuoted.simps [simp del]

fun readBare :: "string \<Rightarrow> (string \<times> string) option" where
  "readBare [] = Some ([], [])"
| "readBare (c # s) =
     (if c = CHR ''.'' \<or> isSpace c then Some ([], c # s)
      else if c = CHR ''['' \<or> c = CHR '']'' \<or> c = dquote then None
      else map_option (\<lambda>(p, r). (c # p, r)) (readBare s))"

text \<open>One part: the reason of a refusal, or the part and the text after it.\<close>

definition readPart :: "string \<Rightarrow> string + (string \<times> string)" where
  "readPart s =
     (case s of
        c # rest \<Rightarrow>
          if c = CHR ''['' \<or> c = dquote
          then (let closer = (if c = CHR ''['' then CHR '']'' else c)
                in case readQuoted closer rest of
                     None \<Rightarrow> Inl (''unterminated '' @ [closer])
                   | Some pr \<Rightarrow> Inr pr)
          else (case readBare s of
                  None \<Rightarrow> Inl ''a bracket or quote inside an unquoted part''
                | Some pr \<Rightarrow> Inr pr)
      | [] \<Rightarrow> Inr ([], []))"

lemma readQuoted_length: "readQuoted c s = Some (p, r) \<Longrightarrow> length r < length s"
proof (induction c s arbitrary: p r rule: readQuoted.induct)
  case (1 c s)
  from "1.prems" obtain j where j: "index_byte s c = Some j"
    by (auto simp: readQuoted.simps [of c s] split: option.splits)
  then have "j < length s" by (simp add: index_byte_Some)
  show ?case
  proof (cases "drop (Suc j) s")
    case Nil
    with 1 j \<open>j < length s\<close> show ?thesis by (auto simp: readQuoted.simps [of c s])
  next
    case (Cons d rest)
    then have len: "Suc (length rest) = length s - Suc j" by (metis length_Cons length_drop)
    show ?thesis
    proof (cases "d = c")
      case True
      with "1.prems" j Cons obtain p' where "readQuoted c rest = Some (p', r)"
        by (auto simp: readQuoted.simps [of c s])
      with "1.IH" [OF j Cons True] len show ?thesis by auto
    next
      case False
      with "1.prems" j Cons len \<open>j < length s\<close> show ?thesis
        by (auto simp: readQuoted.simps [of c s])
    qed
  qed
qed

lemma readBare_length: "readBare s = Some (p, r) \<Longrightarrow> length r \<le> length s"
  by (induction s arbitrary: p r) (auto split: if_splits)

lemma readPart_length: "readPart s = Inr (p, r) \<Longrightarrow> length r \<le> length s"
  by (auto simp: readPart_def Let_def dest: readQuoted_length readBare_length
      split: list.splits if_splits option.splits)

lemma skipSpace_length: "length (skipSpace s) \<le> length s"
  by (simp add: skipSpace_def length_dropWhile_le)

function splitParts :: "string \<Rightarrow> string + string list" where
  "splitParts s =
     (case readPart (skipSpace s) of
        Inl why \<Rightarrow> Inl why
      | Inr (part, rest) \<Rightarrow>
          (case skipSpace rest of
             [] \<Rightarrow> Inr [part]
           | c # rest' \<Rightarrow>
               if c \<noteq> CHR ''.'' then Inl (''text after a part that is not a '' @ [squote] @ ''.'' @ [squote])
               else (case splitParts rest' of
                       Inl why \<Rightarrow> Inl why
                     | Inr parts \<Rightarrow> Inr (part # parts))))"
  by pat_completeness auto
termination
proof (relation "measure length", simp, clarsimp)
  fix s part rest rest' :: string
  assume "readPart (skipSpace s) = Inr (part, rest)" and r: "skipSpace rest = CHR ''.'' # rest'"
  then have "length rest \<le> length s"
    using readPart_length skipSpace_length le_trans by blast
  moreover have "Suc (length rest') \<le> length rest"
    using skipSpace_length [of rest] r by simp
  ultimately show "length rest' < length s" by simp
qed

declare splitParts.simps [simp del]

definition SplitName :: "string \<Rightarrow> string list res" where
  "SplitName name =
     (let fail = (\<lambda>why. Inl (invalidf ''gosmo: %q is not a multi-part name: %s'' [AText name, AText why]))
      in case splitParts name of
           Inl why \<Rightarrow> fail why
         | Inr parts \<Rightarrow>
             if length parts > 4 then fail ''more than four parts''
             else if hd parts = [] \<or> last parts = [] then fail ''an empty first or last part''
             else Inr parts)"

section \<open>The delimited forms as one interface\<close>

text \<open>
  What the readers of quoted text (\<open>SplitName\<close>, and the scanner of \<open>tsql/scan.go\<close>) rely on:
  the text is an opening, the value with each closer doubled, and one closer.
\<close>

locale delimited =
  fixes opener :: string and closer :: char and quote :: "string \<Rightarrow> string"
  assumes quote_double: "quote s = opener @ double closer s @ [closer]"
begin

lemma quote_inject: "quote a = quote b \<longleftrightarrow> a = b"
  by (simp add: quote_double double_inject)

lemma quote_ne: "quote s \<noteq> []"
  by (simp add: quote_double)

lemma last_quote: "last (quote s) = closer"
  by (simp add: quote_double)

lemma length_quote: "length (quote s) = length opener + length s + count_list s closer + 1"
proof -
  have "length (double closer s) = length s + count_list s closer"
    by (induction s) auto
  then show ?thesis by (simp add: quote_double)
qed

end

definition quoteDouble :: "string \<Rightarrow> string" where
  "quoteDouble n = dquote # double dquote n @ [dquote]"

interpretation bracket: delimited "''[''" "CHR '']''" QuoteName
  by unfold_locales (simp add: QuoteName_double)

interpretation dquoted: delimited "[dquote]" dquote quoteDouble
  by unfold_locales (simp add: quoteDouble_def)

interpretation ansi: delimited "[squote]" squote QuoteAnsiLiteral
  by unfold_locales (simp add: QuoteAnsiLiteral_double)

interpretation nlit: delimited "[CHR ''N'', squote]" squote QuoteLiteral
  by unfold_locales (simp add: QuoteLiteral_double)

text \<open>Reading the value back, whatever follows the closer.\<close>

lemma readQuoted_double:
  "(rest = [] \<or> hd rest \<noteq> c) \<Longrightarrow> readQuoted c (double c s @ c # rest) = Some (s, rest)"
proof (induction "count_list s c" arbitrary: s rule: less_induct)
  case less
  show ?case
  proof (cases "c \<in> set s")
    case False
    then have "double c s = s" by simp
    moreover have "index_byte (s @ c # rest) c = Some (length s)"
      using False by (rule index_byte_append)
    ultimately show ?thesis
      using less.prems by (subst readQuoted.simps) (auto split: list.splits)
  next
    case True
    then obtain a b where s: "s = a @ c # b" "c \<notin> set a" by (meson split_list_first)
    then have "double c a = a" by simp
    then have d: "double c s @ c # rest = a @ c # c # double c b @ c # rest"
      by (simp add: s double_append)
    have "index_byte (a @ c # c # double c b @ c # rest) c = Some (length a)"
      using s(2) by (rule index_byte_append)
    moreover have "readQuoted c (double c b @ c # rest) = Some (b, rest)"
      using less.hyps [of b] less.prems s by simp
    ultimately show ?thesis
      unfolding d by (subst readQuoted.simps) (simp add: s)
  qed
qed

section \<open>SplitName reads back every spelling of a name\<close>

text \<open>The ways one part of a name can be written.\<close>

definition bare :: "string \<Rightarrow> bool" where
  "bare n \<longleftrightarrow> list_all (\<lambda>c. c \<noteq> CHR ''.'' \<and> \<not> isSpace c \<and> c \<notin> {CHR ''['', CHR '']'', dquote}) n"

definition spelling :: "string \<Rightarrow> string \<Rightarrow> bool" where
  "spelling n s \<longleftrightarrow> s = QuoteName n \<or> s = quoteDouble n \<or> (s = n \<and> bare n)"

lemma isSpace_simps [simp]:
  "\<not> isSpace (CHR ''.'')" "\<not> isSpace (CHR ''['')" "\<not> isSpace dquote"
  by (simp_all add: isSpace_def char_consts)

lemma readBare_bare:
  "bare n \<Longrightarrow> rest = [] \<or> hd rest = CHR ''.'' \<Longrightarrow> readBare (n @ rest) = Some (n, rest)"
  by (induction n) (cases rest; auto simp: bare_def)+

lemma skipSpace_dot: "rest = [] \<or> hd rest = CHR ''.'' \<Longrightarrow> skipSpace rest = rest"
  by (cases rest) (auto simp: skipSpace_def)

lemma readPart_spelling:
  assumes "spelling n s" and rest: "rest = [] \<or> hd rest = CHR ''.''"
  shows "readPart (skipSpace (s @ rest)) = Inr (n, rest)"
proof -
  from assms(1) consider "s = QuoteName n" | "s = quoteDouble n" | "s = n" "bare n"
    by (auto simp: spelling_def)
  then show ?thesis
  proof cases
    case 1
    then show ?thesis
      using rest by (auto simp: skipSpace_def readPart_def QuoteName_double readQuoted_double)
  next
    case 2
    then show ?thesis
      using rest by (auto simp: skipSpace_def readPart_def quoteDouble_def readQuoted_double)
  next
    case 3
    show ?thesis
    proof (cases n)
      case Nil
      then show ?thesis
        using 3 rest by (cases rest) (auto simp: skipSpace_def readPart_def)
    next
      case (Cons c cs)
      then have "skipSpace (s @ rest) = s @ rest"
        using 3 by (simp add: skipSpace_def bare_def)
      then show ?thesis
        using 3 Cons readBare_bare [OF 3(2) rest] by (simp add: readPart_def bare_def)
    qed
  qed
qed

lemma splitParts_spelling:
  "ns \<noteq> [] \<Longrightarrow> list_all2 spelling ns ss \<Longrightarrow> splitParts (str_join ''.'' ss) = Inr ns"
proof (induction ns arbitrary: ss)
  case Nil
  then show ?case by simp
next
  case (Cons n ns)
  then obtain s ss' where ss: "ss = s # ss'" "spelling n s" "list_all2 spelling ns ss'"
    by (auto simp: list_all2_Cons1)
  let ?rest = "if ss' = [] then [] else ''.'' @ str_join ''.'' ss'"
  have "readPart (skipSpace (s @ ?rest)) = Inr (n, ?rest)"
    using ss(2) by (rule readPart_spelling) simp
  moreover have "skipSpace ?rest = ?rest" by (rule skipSpace_dot) simp
  moreover have "ns \<noteq> [] \<Longrightarrow> splitParts (str_join ''.'' ss') = Inr ns"
    using Cons.IH ss(3) by simp
  moreover have "ss' = [] \<longleftrightarrow> ns = []" using ss(3) by auto
  ultimately show ?case
    unfolding ss(1) str_join_Cons by (subst splitParts.simps) (cases "ns = []", auto)
qed

lemma regular_bare: "isRegularIdentifier n \<Longrightarrow> bare n"
  by (auto simp: isRegularIdentifier_def bare_def is_upper_def is_lower_def is_digit_def
      isSpace_def char_consts list_all_iff split: list.splits)

lemma spelling_QuoteNameIfNeeded: "spelling n (QuoteNameIfNeeded n)"
  by (simp add: spelling_def QuoteNameIfNeeded_def regular_bare)

section \<open>Properties\<close>

lemma regular_unquoted: "isRegularIdentifier n \<Longrightarrow> UnquoteName n = n"
proof -
  assume "isRegularIdentifier n"
  then have "hd n \<noteq> CHR ''[''" "hd n \<noteq> dquote"
    by (auto simp: isRegularIdentifier_def is_upper_def is_lower_def dquote_def split: list.splits)
  then show ?thesis by (simp add: UnquoteName_def)
qed

lemma UnquoteName_changes:
  assumes "UnquoteName s \<noteq> s"
  shows "\<exists>u. s = CHR ''['' # u @ [CHR '']''] \<or> s = dquote # u @ [dquote]"
proof -
  have len: "2 \<le> length s" using assms by (auto simp: UnquoteName_def split: if_splits)
  then obtain a t where s: "s = a # t" "t \<noteq> []" by (cases s; cases "tl s") auto
  then obtain u b where t: "t = u @ [b]" by (meson rev_exhaust)
  have "(a = CHR ''['' \<and> b = CHR '']'') \<or> (a = dquote \<and> b = dquote)"
    using assms s t by (auto simp: UnquoteName_def split: if_splits)
  then show ?thesis using s t by auto
qed

text \<open>
  \<open>UnquoteName\<close> is exactly the inverse of quoting one identifier: it undoes
  \<open>QuoteName\<close> and the double-quoted form for every name, and a text that is neither quoted
  form of what it returns comes back unchanged.
\<close>

theorem UnquoteName_inverse:
  "UnquoteName (QuoteName n) = n \<and> UnquoteName (quoteDouble n) = n \<and>
   UnquoteName (QuoteNameIfNeeded n) = n \<and>
   (UnquoteName s = s \<or> s = QuoteName (UnquoteName s) \<or> s = quoteDouble (UnquoteName s))"
proof (intro conjI)
  have Q: "UnquoteName (QuoteName n) = n" for n
    by (simp add: QuoteName_double UnquoteName_bracketed count_double_single count_double_pair
        replace_pair_double)
  then show "UnquoteName (QuoteName n) = n" .
  show "UnquoteName (QuoteNameIfNeeded n) = n"
    by (simp add: QuoteNameIfNeeded_def Q regular_unquoted)
  have D: "UnquoteName (quoteDouble n) = n" for n
    by (simp add: quoteDouble_def UnquoteName_double_quoted)
  then show "UnquoteName (quoteDouble n) = n" .
  show "UnquoteName s = s \<or> s = QuoteName (UnquoteName s) \<or> s = quoteDouble (UnquoteName s)"
  proof (cases "UnquoteName s = s")
    case False
    from UnquoteName_changes [OF this] obtain u
      where "s = CHR ''['' # u @ [CHR '']''] \<or> s = dquote # u @ [dquote]" ..
    then show ?thesis
    proof
      assume s: "s = CHR ''['' # u @ [CHR '']'']"
      with False have "count_sub u ('']]'') * 2 = count_sub u ('']'')"
        by (auto simp: UnquoteName_bracketed split: if_splits)
      from paired_is_double [OF this] obtain w where "s = QuoteName w"
        by (auto simp: s QuoteName_double)
      then show ?thesis by (simp add: Q)
    next
      assume s: "s = dquote # u @ [dquote]"
      with False have "count_sub u [dquote, dquote] * 2 = count_sub u [dquote]"
        by (auto simp: UnquoteName_dquoted split: if_splits)
      from paired_is_double [OF this] obtain w where "s = quoteDouble w"
        by (auto simp: s quoteDouble_def)
      then show ?thesis by (simp add: D)
    qed
  qed simp
qed

text \<open>
  C7: \<open>SplitName\<close> reads back a multi-part name in any mix of its spellings (bracketed,
  double-quoted, bare where the part allows it): joining one to four parts with dots, the
  outer two not empty, and splitting gives the parts.
\<close>

theorem SplitName_roundtrip:
  assumes "list_all2 spelling ns ss" and "ns \<noteq> []" and "length ns \<le> 4"
    and "hd ns \<noteq> []" and "last ns \<noteq> []"
  shows "SplitName (str_join ''.'' ss) = Inr ns"
  using splitParts_spelling [OF assms(2,1)] assms(3-5) by (simp add: SplitName_def)

lemma SplitName_roundtrip_witness:
  "SplitName (str_join ''.'' [QuoteName ''my.d]b'', [], quoteDouble ''t 1'']) =
     Inr [''my.d]b'', [], ''t 1'']"
proof -
  have "list_all2 spelling [''my.d]b'', [], ''t 1''] [QuoteName ''my.d]b'', [], quoteDouble ''t 1'']"
    by (simp add: spelling_def bare_def)
  then show ?thesis by (rule SplitName_roundtrip) simp_all
qed

end
