(* ===== verification/Scan.thy ===== *)
theory Scan
  imports Quote
begin

text \<open>
  The lexical walk of \<open>tsql/scan.go\<close>: \<open>Spans\<close> splits T-SQL text into the runs the server
  reads differently.  The first part is the code, over positions in the text; the second is
  its specification, a tokenizer over the text itself (\<open>tokens\<close>), and the proof that \<open>Spans\<close>
  computes it.
\<close>

section \<open>The code\<close>

datatype SpanKind =
    SpanCode
  | SpanLineComment
  | SpanBlockComment
  | SpanLiteral
  | SpanNLiteral
  | SpanBracketIdent
  | SpanQuotedIdent

record Span =
  spKind :: SpanKind
  spStart :: nat
  spEnd :: nat
  spClosed :: bool

definition mkSpan :: "SpanKind \<Rightarrow> nat \<Rightarrow> nat \<Rightarrow> bool \<Rightarrow> Span" where
  "mkSpan k i j c = \<lparr>spKind = k, spStart = i, spEnd = j, spClosed = c\<rparr>"

lemma mkSpan_sel [simp]:
  "spKind (mkSpan k i j c) = k" "spStart (mkSpan k i j c) = i"
  "spEnd (mkSpan k i j c) = j" "spClosed (mkSpan k i j c) = c"
  by (simp_all add: mkSpan_def)

definition isIdentByte :: "char \<Rightarrow> bool" where
  "isIdentByte c \<longleftrightarrow> c \<in> {CHR ''_'', CHR ''@'', CHR ''#'', CHR ''$''} \<or>
                     is_digit c \<or> is_lower c \<or> is_upper c"

text \<open>The loop of \<open>scanDelimited\<close>: the position after the closer, if there is one.\<close>

function findCloser :: "string \<Rightarrow> nat \<Rightarrow> char \<Rightarrow> nat option" where
  "findCloser s j closer =
     (if j < length s then
        if s ! j \<noteq> closer then findCloser s (Suc j) closer
        else if Suc j < length s \<and> s ! (Suc j) = closer then findCloser s (Suc (Suc j)) closer
        else Some (Suc j)
      else None)"
  by pat_completeness auto
termination
  by (relation "measure (\<lambda>(s, j, _). length s - j)") auto

declare findCloser.simps [simp del]

definition scanDelimited :: "string \<Rightarrow> nat \<Rightarrow> nat \<Rightarrow> SpanKind \<Rightarrow> char \<Rightarrow> Span" where
  "scanDelimited s start open kind closer =
     (case findCloser s (open + 1) closer of
        Some e \<Rightarrow> mkSpan kind start e True
      | None \<Rightarrow> mkSpan kind start (length s) False)"

text \<open>The nesting count of a block comment: the depth and position where the loop stops.\<close>

function blockLoop :: "string \<Rightarrow> nat \<Rightarrow> nat \<Rightarrow> nat \<times> nat" where
  "blockLoop s depth j =
     (if j < length s \<and> depth > 0 then
        if has_prefix (drop j s) ''/*'' then blockLoop s (depth + 1) (Suc (Suc j))
        else if has_prefix (drop j s) ''*/'' then blockLoop s (depth - 1) (Suc (Suc j))
        else blockLoop s depth (Suc j)
      else (depth, j))"
  by pat_completeness auto
termination
  by (relation "measure (\<lambda>(s, _, j). length s - j)") auto

declare blockLoop.simps [simp del]

text \<open>The \<open>switch\<close> at position \<open>i\<close>: the span that opens there, or none (the default).\<close>

definition spanAt :: "string \<Rightarrow> nat \<Rightarrow> Span option" where
  "spanAt s i =
     (let c = s ! i in
      if c = squote then Some (scanDelimited s i i SpanLiteral squote)
      else if (c = CHR ''N'' \<or> c = CHR ''n'') \<and> i + 1 < length s \<and> s ! (i + 1) = squote \<and>
              (i = 0 \<or> \<not> isIdentByte (s ! (i - 1)))
      then Some (scanDelimited s i (i + 1) SpanNLiteral squote)
      else if c = CHR ''['' then Some (scanDelimited s i i SpanBracketIdent (CHR '']''))
      else if c = dquote then Some (scanDelimited s i i SpanQuotedIdent dquote)
      else if has_prefix (drop i s) ''--''
      then Some (mkSpan SpanLineComment i
             (case index_byte (drop i s) nl of Some j \<Rightarrow> i + j | None \<Rightarrow> length s) True)
      else if has_prefix (drop i s) ''/*''
      then (let (depth, j) = blockLoop s 1 (i + 2)
            in Some (mkSpan SpanBlockComment i j (depth = 0)))
      else None)"

lemma findCloser_bounds: "findCloser s j c = Some e \<Longrightarrow> j < e \<and> e \<le> length s"
proof (induction s j c rule: findCloser.induct)
  case (1 s j c)
  then show ?case by (auto simp: findCloser.simps [of s j c] split: if_splits)
qed

lemma blockLoop_bounds:
  "blockLoop s d j = (d', e) \<Longrightarrow> j \<le> length s \<Longrightarrow> j \<le> e \<and> e \<le> length s"
proof (induction s d j rule: blockLoop.induct)
  case (1 s d j)
  have len: "has_prefix (drop j s) p \<Longrightarrow> length p = 2 \<Longrightarrow> j + 2 \<le> length s" for p
    using has_prefix_length [of "drop j s" p] "1.prems"(2) by auto
  show ?case
    using 1 len by (auto simp: blockLoop.simps [of s d j] split: if_splits)
qed

lemma scanDelimited_sel [simp]:
  "spKind (scanDelimited s i p k c) = k" "spStart (scanDelimited s i p k c) = i"
  by (auto simp: scanDelimited_def split: option.splits)

lemma scanDelimited_bounds:
  "i \<le> p \<Longrightarrow> p < length s \<Longrightarrow>
   i < spEnd (scanDelimited s i p k c) \<and> spEnd (scanDelimited s i p k c) \<le> length s"
  by (auto simp: scanDelimited_def split: option.splits dest: findCloser_bounds)

lemma spanAt_bounds:
  assumes "spanAt s i = Some sp" and i: "i < length s"
  shows "spStart sp = i \<and> i < spEnd sp \<and> spEnd sp \<le> length s \<and> spKind sp \<noteq> SpanCode"
proof -
  have two: "has_prefix (drop i s) (a # b # []) \<Longrightarrow> i + 2 \<le> length s" for a b
    using has_prefix_length [of "drop i s" "[a, b]"] i by simp
  have line: "has_prefix (drop i s) ''--'' \<Longrightarrow> index_byte (drop i s) nl = Some j \<Longrightarrow>
      0 < j \<and> i + j \<le> length s" for j
  proof -
    assume pre: "has_prefix (drop i s) ''--''" and ix: "index_byte (drop i s) nl = Some j"
    from index_byte_Some [OF ix] have "j < length (drop i s)" "drop i s ! j = nl" by simp_all
    moreover have "drop i s ! 0 = CHR ''-''" using pre by (cases "drop i s") auto
    ultimately show ?thesis by (cases j) (auto simp: nl_def)
  qed
  show ?thesis
    using assms two line scanDelimited_bounds [of i i s] scanDelimited_bounds [of i "i + 1" s]
    by (auto simp: spanAt_def Let_def split: if_splits option.splits prod.splits
        dest!: blockLoop_bounds)
qed

text \<open>The outer loop: \<open>i\<close> is the position, \<open>code\<close> where the pending code span starts.\<close>

function spansFrom :: "string \<Rightarrow> nat \<Rightarrow> nat \<Rightarrow> Span list" where
  "spansFrom s i code =
     (if i < length s then
        (case spanAt s i of
           None \<Rightarrow> spansFrom s (i + 1) code
         | Some sp \<Rightarrow>
             (if code < spStart sp then [mkSpan SpanCode code (spStart sp) True] else []) @
             sp # spansFrom s (spEnd sp) (spEnd sp))
      else if code < length s then [mkSpan SpanCode code (length s) True] else [])"
  by pat_completeness auto
termination
  by (relation "measure (\<lambda>(s, i, _). length s - i)") (auto dest: spanAt_bounds)

declare spansFrom.simps [simp del]

definition Spans :: "string \<Rightarrow> Span list" where
  "Spans s = spansFrom s 0 0"

definition IsQuoted :: "Span \<Rightarrow> bool" where
  "IsQuoted sp \<longleftrightarrow> spKind sp \<in> {SpanLiteral, SpanNLiteral, SpanBracketIdent, SpanQuotedIdent}"

definition IsLiteral :: "Span \<Rightarrow> bool" where
  "IsLiteral sp \<longleftrightarrow> spKind sp = SpanLiteral \<or> spKind sp = SpanNLiteral"

definition IsComment :: "Span \<Rightarrow> bool" where
  "IsComment sp \<longleftrightarrow> spKind sp = SpanLineComment \<or> spKind sp = SpanBlockComment"

definition Unescape :: "Span \<Rightarrow> string \<Rightarrow> string" where
  "Unescape sp s =
     (let quoted = (\<lambda>from closer.
            replace_all (slice s from (if spClosed sp then spEnd sp - 1 else spEnd sp))
              [closer, closer] [closer])
      in case spKind sp of
           SpanLiteral \<Rightarrow> quoted (spStart sp + 1) squote
         | SpanNLiteral \<Rightarrow> quoted (spStart sp + 2) squote
         | SpanBracketIdent \<Rightarrow> quoted (spStart sp + 1) (CHR '']'')
         | SpanQuotedIdent \<Rightarrow> quoted (spStart sp + 1) dquote
         | _ \<Rightarrow> slice s (spStart sp) (spEnd sp))"

section \<open>The tokenizer\<close>

text \<open>
  A token is a run of text with what it is and whether it is closed.  The tokenizer walks the
  text once; \<open>p\<close> is the character before it (none at the start) and \<open>acc\<close> the code read
  since the last token.
\<close>

type_synonym token = "SpanKind \<times> string \<times> bool"

text \<open>Up to and including the closer that ends a quoted run, and what is left.\<close>

fun splitClose :: "char \<Rightarrow> string \<Rightarrow> string \<times> string \<times> bool" where
  "splitClose c [] = ([], [], False)"
| "splitClose c [x] = ([x], [], x = c)"
| "splitClose c (x # y # t) =
     (if x \<noteq> c then (let (b, r, cl) = splitClose c (y # t) in (x # b, r, cl))
      else if y = c then (let (b, r, cl) = splitClose c t in (x # y # b, r, cl))
      else ([x], y # t, True))"

text \<open>Up to the end of a block comment of which \<open>d\<close> levels are open.\<close>

fun splitBlock :: "nat \<Rightarrow> string \<Rightarrow> string \<times> string \<times> bool" where
  "splitBlock 0 t = ([], t, True)"
| "splitBlock (Suc d) [] = ([], [], False)"
| "splitBlock (Suc d) [x] = ([x], [], False)"
| "splitBlock (Suc d) (x # y # t) =
     (if x = CHR ''/'' \<and> y = CHR ''*''
      then (let (b, r, cl) = splitBlock (Suc (Suc d)) t in (x # y # b, r, cl))
      else if x = CHR ''*'' \<and> y = CHR ''/''
      then (let (b, r, cl) = splitBlock d t in (x # y # b, r, cl))
      else (let (b, r, cl) = splitBlock (Suc d) (y # t) in (x # b, r, cl)))"

definition notNl :: "char \<Rightarrow> bool" where
  "notNl c \<longleftrightarrow> c \<noteq> nl"

lemma notNl_iff: "notNl c \<longleftrightarrow> c \<noteq> nl"
  by (simp add: notNl_def)

text \<open>The token that opens at the head of the text: what it is, its text, the rest.\<close>

definition opens :: "char option \<Rightarrow> string \<Rightarrow> (SpanKind \<times> string \<times> string \<times> bool) option" where
  "opens p t =
     (case t of
        [] \<Rightarrow> None
      | c # t1 \<Rightarrow>
        (if c = squote
         then (let (b, r, cl) = splitClose squote t1 in Some (SpanLiteral, c # b, r, cl))
         else if (c = CHR ''N'' \<or> c = CHR ''n'') \<and> has_prefix t1 [squote] \<and>
                 (case p of None \<Rightarrow> True | Some x \<Rightarrow> \<not> isIdentByte x)
         then (let (b, r, cl) = splitClose squote (tl t1)
               in Some (SpanNLiteral, c # squote # b, r, cl))
         else if c = CHR ''[''
         then (let (b, r, cl) = splitClose (CHR '']'') t1 in Some (SpanBracketIdent, c # b, r, cl))
         else if c = dquote
         then (let (b, r, cl) = splitClose dquote t1 in Some (SpanQuotedIdent, c # b, r, cl))
         else if has_prefix t ''--''
         then Some (SpanLineComment, takeWhile notNl t, dropWhile notNl t, True)
         else if has_prefix t ''/*''
         then (let (b, r, cl) = splitBlock 1 (drop 2 t)
               in Some (SpanBlockComment, ''/*'' @ b, r, cl))
         else None))"

lemma splitClose_append: "splitClose c t = (b, r, cl) \<Longrightarrow> t = b @ r"
  by (induction c t arbitrary: b r cl rule: splitClose.induct)
     (auto split: if_splits prod.splits)

lemma splitBlock_append: "splitBlock d t = (b, r, cl) \<Longrightarrow> t = b @ r"
  by (induction d t arbitrary: b r cl rule: splitBlock.induct)
     (auto split: if_splits prod.splits)

lemma has_prefix_two: "has_prefix t [a, b] \<Longrightarrow> t = a # b # drop 2 t"
  by (cases t; cases "tl t") auto

lemma opens_append:
  assumes "opens p t = Some (k, raw, r, cl)"
  shows "t = raw @ r \<and> raw \<noteq> [] \<and> k \<noteq> SpanCode"
proof -
  have one: "has_prefix t1 [squote] \<Longrightarrow> tl t1 = b @ r \<Longrightarrow> t1 = squote # b @ r" for t1 b
    by (cases t1) auto
  show ?thesis
    using assms one has_prefix_two [of t "CHR ''-''" "CHR ''-''"]
      has_prefix_two [of t "CHR ''/''" "CHR ''*''"]
    by (auto simp: opens_def Let_def notNl_def nl_def split: list.splits if_splits prod.splits
        dest!: splitClose_append splitBlock_append)
qed

lemma opens_length: "opens p t = Some (k, raw, r, cl) \<Longrightarrow> length r < length t"
  using opens_append by fastforce

definition flush :: "string \<Rightarrow> token list" where
  "flush acc = (if acc = [] then [] else [(SpanCode, acc, True)])"

function tokens :: "char option \<Rightarrow> string \<Rightarrow> string \<Rightarrow> token list" where
  "tokens p acc [] = flush acc"
| "tokens p acc (c # t) =
     (case opens p (c # t) of
        None \<Rightarrow> tokens (Some c) (acc @ [c]) t
      | Some (k, raw, r, cl) \<Rightarrow> flush acc @ (k, raw, cl) # tokens (Some (last raw)) [] r)"
  by pat_completeness auto
termination
  by (relation "measure (\<lambda>(_, _, t). length t)") (auto dest: opens_length)

declare tokens.simps(2) [simp del]

section \<open>Spans computes the tokens\<close>

lemma slice_Cons: "j < e \<Longrightarrow> j < length s \<Longrightarrow> slice s j e = s ! j # slice s (Suc j) e"
  by (simp add: slice_def drop_Cons_nth take_Cons' Suc_diff_Suc [symmetric])

lemma slice_to_end: "slice s j (length s) = drop j s"
  by (simp add: slice_def)

lemma splitClose_findCloser:
  "j \<le> length s \<Longrightarrow>
   splitClose c (drop j s) =
     (case findCloser s j c of
        Some e \<Rightarrow> (slice s j e, drop e s, True)
      | None \<Rightarrow> (drop j s, [], False))"
proof (induction s j c rule: findCloser.induct)
  case (1 s j c)
  show ?case
  proof (cases "j < length s")
    case False
    then show ?thesis using "1.prems" by (subst findCloser.simps) simp
  next
    case j: True
    then have d: "drop j s = s ! j # drop (Suc j) s" by (rule drop_Cons_nth)
    show ?thesis
    proof (cases "Suc j < length s")
      case False
      then have "length s = Suc j" using j by simp
      then have "drop (Suc j) s = []" and "\<not> Suc j < length s" by simp_all
      then show ?thesis
        using d j by (simp add: findCloser.simps [of s j c] findCloser.simps [of s "Suc j" c]
            slice_def take_Suc_conv_app_nth)
    next
      case sj: True
      then have d2: "drop (Suc j) s = s ! Suc j # drop (Suc (Suc j)) s" by (rule drop_Cons_nth)
      consider "s ! j \<noteq> c" | "s ! j = c" "s ! Suc j = c" | "s ! j = c" "s ! Suc j \<noteq> c" by blast
      then show ?thesis
      proof cases
        case 1
        with "1.IH"(1) j sj have "splitClose c (drop (Suc j) s) =
            (case findCloser s (Suc j) c of Some e \<Rightarrow> (slice s (Suc j) e, drop e s, True)
             | None \<Rightarrow> (drop (Suc j) s, [], False))" by simp
        with 1 j d d2 show ?thesis
          by (cases "findCloser s (Suc j) c")
             (auto simp: findCloser.simps [of s j c] slice_Cons dest: findCloser_bounds)
      next
        case 2
        with "1.IH"(2) j sj have "splitClose c (drop (Suc (Suc j)) s) =
            (case findCloser s (Suc (Suc j)) c of Some e \<Rightarrow> (slice s (Suc (Suc j)) e, drop e s, True)
             | None \<Rightarrow> (drop (Suc (Suc j)) s, [], False))" by simp
        with 2 j sj d d2 show ?thesis
          by (cases "findCloser s (Suc (Suc j)) c")
             (auto simp: findCloser.simps [of s j c] slice_Cons dest!: findCloser_bounds)
      next
        case 3
        with j sj d d2 show ?thesis
          by (simp add: findCloser.simps [of s j c] slice_Cons)
      qed
    qed
  qed
qed

lemma splitBlock_blockLoop:
  "j \<le> length s \<Longrightarrow>
   splitBlock d (drop j s) =
     (let (d', e) = blockLoop s d j in (slice s j e, drop e s, d' = 0))"
proof (induction s d j rule: blockLoop.induct)
  case (1 s d j)
  show ?case
  proof (cases "j < length s \<and> d > 0")
    case False
    then show ?thesis
      using "1.prems" by (subst blockLoop.simps) (cases d; auto)
  next
    case jd: True
    then obtain d0 where d0: "d = Suc d0" by (cases d) auto
    have d: "drop j s = s ! j # drop (Suc j) s" using jd by (simp add: drop_Cons_nth)
    show ?thesis
    proof (cases "Suc j < length s")
      case False
      then have "length s = Suc j" using jd by simp
      then have "drop (Suc j) s = []" and l: "\<not> Suc j < length s" "length s = Suc j" by simp_all
      then show ?thesis
        using d jd d0 by (subst blockLoop.simps) (simp add: blockLoop.simps [of s _ "Suc j"] slice_def)
    next
      case sj: True
      then have d2: "drop (Suc j) s = s ! Suc j # drop (Suc (Suc j)) s" by (rule drop_Cons_nth)
      let ?open = "s ! j = CHR ''/'' \<and> s ! Suc j = CHR ''*''"
      let ?close = "s ! j = CHR ''*'' \<and> s ! Suc j = CHR ''/''"
      have hp: "has_prefix (drop j s) ''/*'' = ?open" "has_prefix (drop j s) ''*/'' = ?close"
        using d d2 by auto
      consider "?open" | "\<not> ?open" "?close" | "\<not> ?open" "\<not> ?close" by blast
      then show ?thesis
      proof cases
        case 1
        with "1.IH"(1) jd sj hp have "splitBlock (Suc d) (drop (Suc (Suc j)) s) =
            (let (d', e) = blockLoop s (Suc d) (Suc (Suc j)) in (slice s (Suc (Suc j)) e, drop e s, d' = 0))"
          by simp
        moreover obtain d' e where e: "blockLoop s (Suc d) (Suc (Suc j)) = (d', e)"
          by (cases "blockLoop s (Suc d) (Suc (Suc j))")
        moreover have "Suc (Suc j) \<le> e" using blockLoop_bounds [OF e] sj by simp
        ultimately show ?thesis
          using 1 hp jd sj d d2 d0 by (simp add: blockLoop.simps [of s "Suc d0" j] slice_Cons)
      next
        case 2
        with "1.IH"(2) jd sj hp have "splitBlock d0 (drop (Suc (Suc j)) s) =
            (let (d', e) = blockLoop s d0 (Suc (Suc j)) in (slice s (Suc (Suc j)) e, drop e s, d' = 0))"
          by (simp add: d0)
        moreover obtain d' e where e: "blockLoop s d0 (Suc (Suc j)) = (d', e)"
          by (cases "blockLoop s d0 (Suc (Suc j))")
        moreover have "Suc (Suc j) \<le> e" using blockLoop_bounds [OF e] sj by simp
        ultimately show ?thesis
          using 2 hp jd sj d d2 d0 by (auto simp: blockLoop.simps [of s "Suc d0" j] slice_Cons)
      next
        case 3
        with "1.IH"(3) jd sj hp have "splitBlock d (drop (Suc j) s) =
            (let (d', e) = blockLoop s d (Suc j) in (slice s (Suc j) e, drop e s, d' = 0))"
          by simp
        moreover obtain d' e where e: "blockLoop s d (Suc j) = (d', e)"
          by (cases "blockLoop s d (Suc j)")
        moreover have "Suc j \<le> e" using blockLoop_bounds [OF e] sj by simp
        ultimately show ?thesis
          using 3 hp jd sj d d2 d0 by (auto simp: blockLoop.simps [of s "Suc d0" j] slice_Cons)
      qed
    qed
  qed
qed

text \<open>The character before position \<open>i\<close>.\<close>

definition prevChar :: "string \<Rightarrow> nat \<Rightarrow> char option" where
  "prevChar s i = (if i = 0 then None else Some (s ! (i - 1)))"

definition tokenOf :: "string \<Rightarrow> Span \<Rightarrow> token" where
  "tokenOf s sp = (spKind sp, slice s (spStart sp) (spEnd sp), spClosed sp)"

lemma index_byte_takeWhile:
  "(case index_byte t nl of Some j \<Rightarrow> take j t = takeWhile notNl t \<and> drop j t = dropWhile notNl t
    | None \<Rightarrow> takeWhile notNl t = t \<and> dropWhile notNl t = [])"
proof (induction t)
  case Nil
  then show ?case by simp
next
  case (Cons a t)
  then show ?case
    by (cases "a = nl"; cases "index_byte t nl") (simp_all add: notNl_iff)
qed

lemma opens_line:
  "has_prefix t ''--'' \<Longrightarrow>
   opens p t = Some (SpanLineComment, takeWhile notNl t, dropWhile notNl t, True)"
  by (cases t) (auto simp: opens_def squote_def dquote_def)

text \<open>Whether the character before lets an \<open>N\<close> start a word.\<close>

definition wordStart :: "char option \<Rightarrow> bool" where
  "wordStart p \<longleftrightarrow> (case p of None \<Rightarrow> True | Some x \<Rightarrow> \<not> isIdentByte x)"

definition delimTok :: "SpanKind \<Rightarrow> char \<Rightarrow> string \<Rightarrow> string \<Rightarrow> (SpanKind \<times> string \<times> string \<times> bool) option" where
  "delimTok k closer pre t = (let (b, r, cl) = splitClose closer t in Some (k, pre @ b, r, cl))"

lemma opens_delims:
  "opens p (squote # t) = delimTok SpanLiteral squote [squote] t"
  "opens p (CHR ''['' # t) = delimTok SpanBracketIdent (CHR '']'') ''['' t"
  "opens p (dquote # t) = delimTok SpanQuotedIdent dquote [dquote] t"
  "wordStart p \<Longrightarrow> c = CHR ''N'' \<or> c = CHR ''n'' \<Longrightarrow>
   opens p (c # squote # t) = delimTok SpanNLiteral squote [c, squote] t"
  by (auto simp: opens_def delimTok_def wordStart_def)

lemma opens_default:
  assumes "c \<noteq> squote" "c \<noteq> CHR ''[''" "c \<noteq> dquote"
    and "\<not> ((c = CHR ''N'' \<or> c = CHR ''n'') \<and> has_prefix t [squote] \<and> wordStart p)"
    and "\<not> has_prefix (c # t) ''--''" "\<not> has_prefix (c # t) ''/*''"
  shows "opens p (c # t) = None"
  using assms by (auto simp: opens_def wordStart_def)

lemma opens_block:
  "opens p (CHR ''/'' # CHR ''*'' # t) =
     (let (b, r, cl) = splitBlock 1 t in Some (SpanBlockComment, ''/*'' @ b, r, cl))"
  by (simp add: opens_def squote_def dquote_def)

lemma spanAt_comments:
  "has_prefix (drop i s) ''--'' \<Longrightarrow> i < length s \<Longrightarrow>
   spanAt s i = Some (mkSpan SpanLineComment i
     (case index_byte (drop i s) nl of Some j \<Rightarrow> i + j | None \<Rightarrow> length s) True)"
  "has_prefix (drop i s) ''/*'' \<Longrightarrow> i < length s \<Longrightarrow>
   spanAt s i = (let (depth, j) = blockLoop s 1 (i + 2)
            in Some (mkSpan SpanBlockComment i j (depth = 0)))"
  using drop_Cons_nth [of i s] by (auto simp: spanAt_def squote_def dquote_def Let_def)

lemma opens_spanAt:
  assumes i: "i < length s"
  shows "opens (prevChar s i) (drop i s) =
    map_option (\<lambda>sp. (spKind sp, slice s i (spEnd sp), drop (spEnd sp) s, spClosed sp)) (spanAt s i)"
proof -
  let ?c = "s ! i"
  have d: "drop i s = ?c # drop (Suc i) s" using i by (rule drop_Cons_nth)
  have hp: "has_prefix (drop (Suc i) s) [squote] \<longleftrightarrow> Suc i < length s \<and> s ! Suc i = squote"
    using drop_Cons_nth [of "Suc i" s] by (cases "Suc i < length s") auto
  have prev: "wordStart (prevChar s i) \<longleftrightarrow> i = 0 \<or> \<not> isIdentByte (s ! (i - 1))"
    by (simp add: prevChar_def wordStart_def)
  have delim: "delimTok k c (slice s i (Suc p)) (drop (Suc p) s) =
      Some (k, slice s i (spEnd (scanDelimited s i p k c)),
        drop (spEnd (scanDelimited s i p k c)) s, spClosed (scanDelimited s i p k c))"
    if "i \<le> p" "p < length s" for c p k
    using that splitClose_findCloser [of "Suc p" s c]
    by (cases "findCloser s (Suc p) c")
       (auto simp: delimTok_def scanDelimited_def slice_append slice_to_end [symmetric]
         dest: findCloser_bounds)
  have one: "slice s i (Suc i) = [?c]" using i by (simp add: slice_Cons)
  show ?thesis
  proof (cases "has_prefix (drop i s) ''/*''")
    case True
    have two: "drop i s = CHR ''/'' # CHR ''*'' # drop (Suc (Suc i)) s"
      using has_prefix_two [OF True] by simp
    then have "length (drop i s) = Suc (Suc (length (drop (Suc (Suc i)) s)))" by simp
    then have len: "Suc (Suc i) \<le> length s" by simp
    obtain d' e where e: "blockLoop s 1 (Suc (Suc i)) = (d', e)"
      by (cases "blockLoop s 1 (Suc (Suc i))")
    then have "Suc (Suc i) \<le> e" using blockLoop_bounds len by blast
    have "slice s i (Suc (Suc i)) = ''/*''" using two by (simp add: slice_def)
    then have sl: "slice s i e = ''/*'' @ slice s (Suc (Suc i)) e"
      using slice_append [of i "Suc (Suc i)" e s] \<open>Suc (Suc i) \<le> e\<close> by simp
    show ?thesis
      unfolding spanAt_comments(2) [OF True i]
      using e sl splitBlock_blockLoop [OF len, of 1] by (simp add: two opens_block)
  next
    case nb: False
    show ?thesis
    proof (cases "has_prefix (drop i s) ''--''")
      case True
      have dr: "drop (i + j) s = drop j (drop i s)" "slice s i (i + j) = take j (drop i s)" for j
        by (simp_all add: slice_def add.commute)
      show ?thesis
        unfolding spanAt_comments(1) [OF True i] opens_line [OF True]
        using index_byte_takeWhile [of "drop i s"] dr slice_to_end [of s i]
        by (cases "index_byte (drop i s) nl") simp_all
    next
      case nl: False
      consider "?c = squote" | "?c = CHR ''[''" | "?c = dquote"
        | "?c = CHR ''N'' \<or> ?c = CHR ''n''" "Suc i < length s" "s ! Suc i = squote"
          "wordStart (prevChar s i)"
        | "?c \<noteq> squote" "?c \<noteq> CHR ''[''" "?c \<noteq> dquote"
          "\<not> ((?c = CHR ''N'' \<or> ?c = CHR ''n'') \<and> has_prefix (drop (Suc i) s) [squote] \<and>
             wordStart (prevChar s i))"
        using hp by blast
      then show ?thesis
      proof cases
        case 1
        then show ?thesis
          using i delim [of i SpanLiteral squote] one
          by (simp add: d opens_delims spanAt_def)
      next
        case 2
        then show ?thesis
          using i delim [of i SpanBracketIdent "CHR '']''"] one
          by (simp add: d opens_delims spanAt_def)
      next
        case 3
        then show ?thesis
          using i delim [of i SpanQuotedIdent dquote] one
          by (simp add: d opens_delims spanAt_def)
      next
        case 4
        have d2: "drop (Suc i) s = squote # drop (Suc (Suc i)) s"
          using 4 by (metis drop_Cons_nth)
        have "slice s i (Suc (Suc i)) = [?c, squote]" using i 4 by (simp add: slice_Cons)
        then show ?thesis
          using i 4 delim [of "Suc i" SpanNLiteral squote] prev
          by (auto simp: d d2 opens_delims spanAt_def)
      next
        case 5
        then have "spanAt s i = None" using nb nl hp prev by (auto simp: spanAt_def Let_def)
        then show ?thesis using 5 nb nl by (simp add: d opens_default)
      qed
    qed
  qed
qed

section \<open>The outer loop\<close>

lemma tokens_spansFrom:
  "code \<le> i \<Longrightarrow> i \<le> length s \<Longrightarrow>
   tokens (prevChar s i) (slice s code i) (drop i s) = map (tokenOf s) (spansFrom s i code)"
proof (induction s i code rule: spansFrom.induct)
  case (1 s i code)
  have fl: "code \<le> j \<Longrightarrow> j \<le> length s \<Longrightarrow> flush (slice s code j) =
      map (tokenOf s) (if code < j then [mkSpan SpanCode code j True] else [])" for j
    using length_slice [of j s code] by (auto simp: flush_def tokenOf_def)
  show ?case
  proof (cases "i < length s")
    case False
    with "1.prems" have "i = length s" by simp
    then show ?thesis
      using fl [of "length s"] "1.prems" by (subst spansFrom.simps) (auto split: if_splits)
  next
    case i: True
    then have d: "drop i s = s ! i # drop (Suc i) s" by (rule drop_Cons_nth)
    show ?thesis
    proof (cases "spanAt s i")
      case None
      have "slice s code i @ [s ! i] = slice s code (Suc i)"
        using slice_append [of code i "Suc i" s] i "1.prems" by (simp add: slice_Cons)
      moreover have "prevChar s (Suc i) = Some (s ! i)" by (simp add: prevChar_def)
      moreover have "opens (prevChar s i) (s ! i # drop (Suc i) s) = None"
        using opens_spanAt [OF i] None d by simp
      ultimately show ?thesis
        using "1.IH"(1) [OF i None] i "1.prems" None
        by (simp add: d tokens.simps(2) spansFrom.simps [of s i code])
    next
      case (Some sp)
      from spanAt_bounds [OF Some i] have b: "spStart sp = i" "i < spEnd sp" "spEnd sp \<le> length s"
        by auto
      let ?e = "spEnd sp"
      have "last (slice s i ?e) = s ! (?e - 1)"
      proof -
        have "slice s i ?e = slice s i (?e - 1) @ slice s (?e - 1) ?e"
          using b by (simp add: slice_append)
        moreover have "slice s (?e - 1) ?e = [s ! (?e - 1)]"
          using b slice_Cons [of "?e - 1" ?e s] by simp
        ultimately show ?thesis by simp
      qed
      then have "prevChar s ?e = Some (last (slice s i ?e))" using b by (simp add: prevChar_def)
      moreover have "opens (prevChar s i) (s ! i # drop (Suc i) s) =
          Some (spKind sp, slice s i ?e, drop ?e s, spClosed sp)"
        using opens_spanAt [OF i] Some d by simp
      ultimately show ?thesis
        using "1.IH"(2) [OF i Some] i "1.prems" Some b fl [of i]
        by (simp add: d tokens.simps(2) spansFrom.simps [of s i code] tokenOf_def)
    qed
  qed
qed

lemma Spans_tokens: "map (tokenOf s) (Spans s) = tokens None [] s"
  using tokens_spansFrom [of 0 0 s] by (simp add: Spans_def prevChar_def slice_def)

section \<open>Spans tile the text\<close>

fun tiles :: "nat \<Rightarrow> Span list \<Rightarrow> nat \<Rightarrow> bool" where
  "tiles i [] j = (i = j)"
| "tiles i (sp # sps) j = (spStart sp = i \<and> i < spEnd sp \<and> tiles (spEnd sp) sps j)"

fun noAdjacentCode :: "Span list \<Rightarrow> bool" where
  "noAdjacentCode (a # b # sps) =
     (\<not> (spKind a = SpanCode \<and> spKind b = SpanCode) \<and> noAdjacentCode (b # sps))"
| "noAdjacentCode sps = True"

lemma tiles_append: "tiles i (a @ b) k \<longleftrightarrow> (\<exists>j. tiles i a j \<and> tiles j b k)"
  by (induction a arbitrary: i) auto

lemma spansFrom_tiles: "code \<le> i \<Longrightarrow> i \<le> length s \<Longrightarrow> tiles code (spansFrom s i code) (length s)"
proof (induction s i code rule: spansFrom.induct)
  case (1 s i code)
  show ?case
  proof (cases "i < length s")
    case False
    then show ?thesis using "1.prems" by (subst spansFrom.simps) auto
  next
    case i: True
    show ?thesis
    proof (cases "spanAt s i")
      case None
      then show ?thesis using "1.IH"(1) [OF i None] i "1.prems" by (simp add: spansFrom.simps [of s i])
    next
      case (Some sp)
      from spanAt_bounds [OF Some i] have "spStart sp = i" "i < spEnd sp" "spEnd sp \<le> length s"
        by auto
      then show ?thesis
        using "1.IH"(2) [OF i Some] i "1.prems" Some by (auto simp: spansFrom.simps [of s i code])
    qed
  qed
qed

lemma tiles_concat:
  "tiles i sps j \<Longrightarrow> concat (map (\<lambda>sp. slice s (spStart sp) (spEnd sp)) sps) = slice s i j \<and> i \<le> j"
proof (induction sps arbitrary: i)
  case Nil
  then show ?case by simp
next
  case (Cons sp sps)
  then show ?case using slice_append [of i "spEnd sp" j s] by fastforce
qed

lemma noAdjacentCode_Cons:
  "noAdjacentCode sps \<Longrightarrow> sps = [] \<or> spKind a \<noteq> SpanCode \<Longrightarrow> noAdjacentCode (a # sps)"
  by (cases sps) auto

lemma spansFrom_noAdjacent: "noAdjacentCode (spansFrom s i code)"
proof (induction s i code rule: spansFrom.induct)
  case (1 s i code)
  show ?case
  proof (cases "i < length s")
    case False
    then show ?thesis by (subst spansFrom.simps) simp
  next
    case i: True
    show ?thesis
    proof (cases "spanAt s i")
      case None
      then show ?thesis using "1.IH"(1) [OF i None] i by (simp add: spansFrom.simps [of s i])
    next
      case (Some sp)
      from spanAt_bounds [OF Some i] have "spKind sp \<noteq> SpanCode" by auto
      then show ?thesis
        using "1.IH"(2) [OF i Some] i Some
        by (auto simp: spansFrom.simps [of s i code] intro: noAdjacentCode_Cons)
    qed
  qed
qed

lemma Spans_tiling:
  "tiles 0 (Spans s) (length s)"
  "concat (map (\<lambda>sp. slice s (spStart sp) (spEnd sp)) (Spans s)) = s"
  "noAdjacentCode (Spans s)"
  using spansFrom_tiles [of 0 0 s] tiles_concat [of 0 "Spans s" "length s" s]
    spansFrom_noAdjacent [of s 0 0]
  by (simp_all add: Spans_def)

section \<open>Values of quoted tokens\<close>

definition tokenValue :: "token \<Rightarrow> string" where
  "tokenValue t =
     (case t of (k, raw, cl) \<Rightarrow>
        (let quoted = (\<lambda>from closer.
               replace_all (slice raw from (if cl then length raw - 1 else length raw))
                 [closer, closer] [closer])
         in case k of
              SpanLiteral \<Rightarrow> quoted 1 squote
            | SpanNLiteral \<Rightarrow> quoted 2 squote
            | SpanBracketIdent \<Rightarrow> quoted 1 (CHR '']'')
            | SpanQuotedIdent \<Rightarrow> quoted 1 dquote
            | _ \<Rightarrow> raw))"

lemma slice_slice:
  "j \<le> length s \<Longrightarrow> i \<le> j \<Longrightarrow> b \<le> j - i \<Longrightarrow> slice (slice s i j) a b = slice s (i + a) (i + b)"
  by (auto simp: slice_def drop_take min_def add.commute)

lemma Unescape_tokenValue:
  "spStart sp \<le> spEnd sp \<Longrightarrow> spEnd sp \<le> length s \<Longrightarrow> Unescape sp s = tokenValue (tokenOf s sp)"
proof -
  assume b: "spStart sp \<le> spEnd sp" "spEnd sp \<le> length s"
  then have "length (slice s (spStart sp) (spEnd sp)) = spEnd sp - spStart sp"
    by (simp add: length_slice)
  moreover have "slice (slice s (spStart sp) (spEnd sp)) a (spEnd sp - spStart sp) =
      slice s (spStart sp + a) (spEnd sp)" for a
    using b by (simp add: slice_slice)
  moreover have "slice (slice s (spStart sp) (spEnd sp)) a (spEnd sp - spStart sp - Suc 0) =
      slice s (spStart sp + a) (spEnd sp - Suc 0)" for a
    using b by (cases "spStart sp = spEnd sp") (simp_all add: slice_slice, simp add: slice_def)
  ultimately show ?thesis
    by (simp add: Unescape_def tokenValue_def tokenOf_def split: SpanKind.splits)
qed

lemma Spans_bounds: "sp \<in> set (Spans s) \<Longrightarrow> spStart sp < spEnd sp \<and> spEnd sp \<le> length s"
proof -
  have "tiles i sps j \<Longrightarrow> sp \<in> set sps \<Longrightarrow> spStart sp < spEnd sp \<and> spEnd sp \<le> j" for i j sps
  proof (induction sps arbitrary: i)
    case (Cons a sps)
    then show ?case using tiles_concat [of "spEnd a" sps j] by auto
  qed simp
  then show "sp \<in> set (Spans s) \<Longrightarrow> spStart sp < spEnd sp \<and> spEnd sp \<le> length s"
    using Spans_tiling(1) by blast
qed

lemma Unescape_Spans: "sp \<in> set (Spans s) \<Longrightarrow> Unescape sp s = tokenValue (tokenOf s sp)"
  using Spans_bounds Unescape_tokenValue by (metis less_imp_le)

text \<open>
  \<open>Spans\<close> tiles its text: the spans start at 0, each is non-empty and starts where the one
  before it ends, the last ends at the end of the text, together they are the text, and two
  code spans never follow each other.
\<close>

theorem Spans_tile:
  "tiles 0 (Spans s) (length s) \<and>
   concat (map (\<lambda>sp. slice s (spStart sp) (spEnd sp)) (Spans s)) = s \<and>
   noAdjacentCode (Spans s)"
  using Spans_tiling by blast

end
