(* ===== verification/Pieces.thy ===== *)
theory Pieces
  imports Scan
begin

text \<open>
  How the scanner of \<open>tsql/scan.go\<close> reads text that is put together: each quoting form is one
  token (an interface, \<open>scanned\<close>, with the code's quoting functions as its instances), and a
  statement rendered from code text and quoted pieces reads back as those pieces.  The
  components that build statements are checked against this.
\<close>

section \<open>Texts put together\<close>

text \<open>
  A quoting form the scanner knows: after its opening the text is a token of one kind up to
  the closer, provided the token may start there.
\<close>

locale scanned = delimited opener closer quote
  for opener :: string and closer :: char and quote :: "string \<Rightarrow> string" +
  fixes kind :: SpanKind and starts :: "char option \<Rightarrow> bool"
  assumes opens_opener: "starts p \<Longrightarrow> opens p (opener @ t) = delimTok kind closer opener t"
    and quoted_val: "tokenValue (kind, quote s, True) = s"
begin

lemma splitClose_double:
  "rest = [] \<or> hd rest \<noteq> closer \<Longrightarrow>
   splitClose closer (double closer s @ closer # rest) = (double closer s @ [closer], rest, True)"
proof (induction s)
  case Nil
  then show ?case by (cases rest) auto
next
  case (Cons x s)
  then show ?case by (cases "double closer s") (auto split: prod.splits)
qed

lemma opens_quote:
  "starts p \<Longrightarrow> rest = [] \<or> hd rest \<noteq> closer \<Longrightarrow>
   opens p (quote s @ rest) = Some (kind, quote s, rest, True)"
  using opens_opener [of p "double closer s @ closer # rest"] splitClose_double [of rest s]
  by (simp add: quote_double delimTok_def)

lemma tokens_quote:
  assumes "starts p" and "rest = [] \<or> hd rest \<noteq> closer"
  shows "tokens p acc (quote s @ rest) = flush acc @ (kind, quote s, True) # tokens (Some closer) [] rest"
proof -
  obtain c t where ct: "quote s @ rest = c # t" using quote_ne [of s] by (cases "quote s") auto
  show ?thesis
    using opens_quote [OF assms, of s] unfolding ct
    by (simp add: tokens.simps(2) last_quote)
qed

lemma tokens_alone: "starts None \<Longrightarrow> tokens None [] (quote s) = [(kind, quote s, True)]"
  using tokens_quote [of None "[]" "[]" s] by (simp add: flush_def)

lemma Spans_quote:
  assumes "starts None"
  shows "Spans (quote s) = [mkSpan kind 0 (length (quote s)) True]"
    and "map (\<lambda>sp. Unescape sp (quote s)) (Spans (quote s)) = [s]"
proof -
  have t: "map (tokenOf (quote s)) (Spans (quote s)) = [(kind, quote s, True)]"
    using Spans_tokens tokens_alone [OF assms] by simp
  then obtain sp where sp: "Spans (quote s) = [sp]" by (cases "Spans (quote s)") auto
  have "tiles 0 (Spans (quote s)) (length (quote s))" using Spans_tiling(1) by blast
  with sp t show "Spans (quote s) = [mkSpan kind 0 (length (quote s)) True]"
    by (cases sp) (simp add: mkSpan_def tokenOf_def)
  show "map (\<lambda>sp. Unescape sp (quote s)) (Spans (quote s)) = [s]"
    using t sp Unescape_Spans [of sp "quote s"] quoted_val by simp
qed

end

lemma value_quoted:
  "tokenValue (SpanBracketIdent, QuoteName s, True) = s"
  "tokenValue (SpanQuotedIdent, quoteDouble s, True) = s"
  "tokenValue (SpanLiteral, QuoteAnsiLiteral s, True) = s"
  "tokenValue (SpanNLiteral, QuoteLiteral s, True) = s"
  using replace_pair_double
  by (simp_all add: tokenValue_def slice_def quoted_double quoteDouble_def)

interpretation scan_bracket: scanned "''[''" "CHR '']''" QuoteName SpanBracketIdent "\<lambda>_. True"
  by unfold_locales (simp_all add: opens_delims value_quoted)

interpretation scan_dquoted: scanned "[dquote]" dquote quoteDouble SpanQuotedIdent "\<lambda>_. True"
  by unfold_locales (simp_all add: opens_delims value_quoted)

interpretation scan_ansi: scanned "[squote]" squote QuoteAnsiLiteral SpanLiteral "\<lambda>_. True"
  by unfold_locales (simp_all add: opens_delims value_quoted)

interpretation scan_nlit: scanned "[CHR ''N'', squote]" squote QuoteLiteral SpanNLiteral wordStart
  by unfold_locales (simp_all add: opens_delims value_quoted)

text \<open>
  Quoted text is one token: for every name or value, whatever bytes it holds, the scanner
  reads its quoted form as a single closed span of the right kind that reaches to the end, and
  \<open>Unescape\<close> gives the name or value back.
\<close>

theorem quoted_text_is_one_span:
  "Spans (QuoteName n) = [mkSpan SpanBracketIdent 0 (length (QuoteName n)) True] \<and>
   Spans (QuoteLiteral n) = [mkSpan SpanNLiteral 0 (length (QuoteLiteral n)) True] \<and>
   Spans (QuoteAnsiLiteral n) = [mkSpan SpanLiteral 0 (length (QuoteAnsiLiteral n)) True] \<and>
   map (\<lambda>sp. Unescape sp (QuoteName n)) (Spans (QuoteName n)) = [n] \<and>
   map (\<lambda>sp. Unescape sp (QuoteLiteral n)) (Spans (QuoteLiteral n)) = [n] \<and>
   map (\<lambda>sp. Unescape sp (QuoteAnsiLiteral n)) (Spans (QuoteAnsiLiteral n)) = [n]"
  using scan_bracket.Spans_quote scan_nlit.Spans_quote scan_ansi.Spans_quote
  by (simp add: wordStart_def)

text \<open>
  Statement text as pieces: code written by the program, and quoted names and values that come
  from its caller.
\<close>

datatype piece =
    Raw string
  | Ident string
  | NStr string
  | AStr string

fun renderPiece :: "piece \<Rightarrow> string" where
  "renderPiece (Raw r) = r"
| "renderPiece (Ident n) = QuoteName n"
| "renderPiece (NStr s) = QuoteLiteral s"
| "renderPiece (AStr s) = QuoteAnsiLiteral s"

definition render :: "piece list \<Rightarrow> string" where
  "render ps = concat (map renderPiece ps)"

lemma render_simps [simp]:
  "render [] = []"
  "render (p # ps) = renderPiece p @ render ps"
  "render (ps @ qs) = render ps @ render qs"
  by (simp_all add: render_def)

fun firstOf :: "string \<Rightarrow> char option \<Rightarrow> char option" where
  "firstOf [] d = d"
| "firstOf (c # _) d = Some c"

fun lastOf :: "char option \<Rightarrow> string \<Rightarrow> char option" where
  "lastOf p [] = p"
| "lastOf p (c # t) = lastOf (Some c) t"

lemma firstOf_append [simp]: "firstOf (a @ b) d = firstOf a (firstOf b d)"
  by (cases a) auto

lemma lastOf_ne: "t \<noteq> [] \<Longrightarrow> lastOf p t = Some (last t)"
  by (induction t arbitrary: p) auto

lemma lastOf_append [simp]: "lastOf p (a @ b) = lastOf (lastOf p a) b"
  by (induction a arbitrary: p) auto

fun firstPiece :: "piece list \<Rightarrow> char option" where
  "firstPiece [] = None"
| "firstPiece (Raw r # ps) = firstOf r (firstPiece ps)"
| "firstPiece (Ident n # ps) = Some (CHR ''['')"
| "firstPiece (NStr s # ps) = Some (CHR ''N'')"
| "firstPiece (AStr s # ps) = Some squote"

text \<open>Code text in which nothing opens a token, given the characters before and after it.\<close>

fun plain :: "char option \<Rightarrow> string \<Rightarrow> char option \<Rightarrow> bool" where
  "plain p [] d = True"
| "plain p (c # t) d =
     (c \<noteq> squote \<and> c \<noteq> CHR ''['' \<and> c \<noteq> dquote \<and>
      \<not> (c = CHR ''-'' \<and> firstOf t d = Some (CHR ''-'')) \<and>
      \<not> (c = CHR ''/'' \<and> firstOf t d = Some (CHR ''*'')) \<and>
      \<not> ((c = CHR ''N'' \<or> c = CHR ''n'') \<and> firstOf t d = Some squote \<and> wordStart p) \<and>
      plain (Some c) t d)"

fun wfPieces :: "char option \<Rightarrow> piece list \<Rightarrow> bool" where
  "wfPieces p [] = True"
| "wfPieces p (Raw r # ps) = (plain p r (firstPiece ps) \<and> wfPieces (lastOf p r) ps)"
| "wfPieces p (Ident n # ps) =
     (firstPiece ps \<noteq> Some (CHR '']'') \<and> wfPieces (Some (CHR '']'')) ps)"
| "wfPieces p (NStr s # ps) =
     (wordStart p \<and> firstPiece ps \<noteq> Some squote \<and> wfPieces (Some squote) ps)"
| "wfPieces p (AStr s # ps) = (firstPiece ps \<noteq> Some squote \<and> wfPieces (Some squote) ps)"

text \<open>The tokens the pieces stand for: adjacent code runs into one span.\<close>

fun pieceTokens :: "string \<Rightarrow> piece list \<Rightarrow> token list" where
  "pieceTokens acc [] = flush acc"
| "pieceTokens acc (Raw r # ps) = pieceTokens (acc @ r) ps"
| "pieceTokens acc (Ident n # ps) = flush acc @ (SpanBracketIdent, QuoteName n, True) # pieceTokens [] ps"
| "pieceTokens acc (NStr s # ps) = flush acc @ (SpanNLiteral, QuoteLiteral s, True) # pieceTokens [] ps"
| "pieceTokens acc (AStr s # ps) = flush acc @ (SpanLiteral, QuoteAnsiLiteral s, True) # pieceTokens [] ps"

lemma firstPiece_render: "firstPiece ps = (case render ps of [] \<Rightarrow> None | c # _ \<Rightarrow> Some c)"
proof (induction ps rule: firstPiece.induct)
  case (2 r ps)
  then show ?case by (cases r) auto
qed (simp_all add: quoted_double)

lemma firstPiece_hd: "firstPiece ps \<noteq> Some c \<Longrightarrow> render ps = [] \<or> hd (render ps) \<noteq> c"
  by (auto simp: firstPiece_render split: list.splits)

lemma opens_plain:
  assumes "plain p (c # t) (firstOf rest None)"
  shows "opens p (c # t @ rest) = None"
proof (rule opens_default)
  have f: "has_prefix (t @ rest) [x] \<longleftrightarrow> firstOf t (firstOf rest None) = Some x" for x
    by (cases t; cases rest) auto
  show "\<not> ((c = CHR ''N'' \<or> c = CHR ''n'') \<and> has_prefix (t @ rest) [squote] \<and> wordStart p)"
    and "\<not> has_prefix (c # t @ rest) ''--''" and "\<not> has_prefix (c # t @ rest) ''/*''"
    using assms f by auto
qed (use assms in auto)

lemma tokens_plain:
  "plain p t (firstOf rest None) \<Longrightarrow>
   tokens p acc (t @ rest) = tokens (lastOf p t) (acc @ t) rest"
proof (induction t arbitrary: p acc)
  case Nil
  then show ?case by simp
next
  case (Cons c t)
  from opens_plain [OF Cons.prems] Cons.prems Cons.IH [of "Some c" "acc @ [c]"]
  show ?case by (simp add: tokens.simps(2))
qed

lemma tokens_render: "wfPieces p ps \<Longrightarrow> tokens p acc (render ps) = pieceTokens acc ps"
proof (induction p ps arbitrary: acc rule: wfPieces.induct)
  case (2 p r ps)
  have "firstOf (render ps) None = firstPiece ps"
    by (simp add: firstPiece_render split: list.splits)
  with 2 show ?case by (simp add: tokens_plain)
qed (simp_all add: firstPiece_hd scan_bracket.tokens_quote scan_nlit.tokens_quote
      scan_ansi.tokens_quote)

lemma Spans_render: "wfPieces None ps \<Longrightarrow> map (tokenOf (render ps)) (Spans (render ps)) = pieceTokens [] ps"
  by (simp add: Spans_tokens tokens_render)

section \<open>What a statement says, and what it only quotes\<close>

definition quotedValues :: "string \<Rightarrow> string list" where
  "quotedValues s = map (\<lambda>sp. Unescape sp s) (filter IsQuoted (Spans s))"

text \<open>The statement with every quoted text blanked: what its author, not its caller, wrote.\<close>

definition skeleton :: "string \<Rightarrow> (SpanKind \<times> string) list" where
  "skeleton s =
     map (\<lambda>sp. (spKind sp, if IsQuoted sp then [] else slice s (spStart sp) (spEnd sp))) (Spans s)"

definition allClosed :: "string \<Rightarrow> bool" where
  "allClosed s \<longleftrightarrow> list_all spClosed (Spans s)"

definition quotedKind :: "SpanKind \<Rightarrow> bool" where
  "quotedKind k \<longleftrightarrow> k \<in> {SpanLiteral, SpanNLiteral, SpanBracketIdent, SpanQuotedIdent}"

definition tokenValues :: "token list \<Rightarrow> string list" where
  "tokenValues ts = map tokenValue (filter (\<lambda>t. quotedKind (fst t)) ts)"

definition tokenSkeleton :: "token list \<Rightarrow> (SpanKind \<times> string) list" where
  "tokenSkeleton ts = map (\<lambda>(k, raw, cl). (k, if quotedKind k then [] else raw)) ts"

lemma token_views:
  "quotedValues s = tokenValues (tokens None [] s)"
  "skeleton s = tokenSkeleton (tokens None [] s)"
  "allClosed s = list_all (\<lambda>(k, raw, cl). cl) (tokens None [] s)"
proof -
  have "filter (\<lambda>t. quotedKind (fst t)) (map (tokenOf s) (Spans s)) =
        map (tokenOf s) (filter IsQuoted (Spans s))"
    by (simp add: filter_map o_def tokenOf_def quotedKind_def IsQuoted_def [abs_def])
  then show "quotedValues s = tokenValues (tokens None [] s)"
    by (simp add: quotedValues_def tokenValues_def Spans_tokens [symmetric] Unescape_Spans)
  show "skeleton s = tokenSkeleton (tokens None [] s)"
    by (simp add: skeleton_def tokenSkeleton_def Spans_tokens [symmetric] tokenOf_def
        quotedKind_def IsQuoted_def)
  show "allClosed s = list_all (\<lambda>(k, raw, cl). cl) (tokens None [] s)"
    by (simp add: allClosed_def Spans_tokens [symmetric] tokenOf_def list.pred_map o_def)
qed

fun pieceVals :: "piece list \<Rightarrow> string list" where
  "pieceVals [] = []"
| "pieceVals (Raw r # ps) = pieceVals ps"
| "pieceVals (Ident n # ps) = n # pieceVals ps"
| "pieceVals (NStr s # ps) = s # pieceVals ps"
| "pieceVals (AStr s # ps) = s # pieceVals ps"

text \<open>Code runs with a mark where something is quoted.\<close>

definition codeRun :: "string \<Rightarrow> (SpanKind \<times> string) list" where
  "codeRun acc = (if acc = [] then [] else [(SpanCode, acc)])"

fun pieceSkeleton :: "string \<Rightarrow> piece list \<Rightarrow> (SpanKind \<times> string) list" where
  "pieceSkeleton acc [] = codeRun acc"
| "pieceSkeleton acc (Raw r # ps) = pieceSkeleton (acc @ r) ps"
| "pieceSkeleton acc (Ident n # ps) = codeRun acc @ (SpanBracketIdent, []) # pieceSkeleton [] ps"
| "pieceSkeleton acc (NStr s # ps) = codeRun acc @ (SpanNLiteral, []) # pieceSkeleton [] ps"
| "pieceSkeleton acc (AStr s # ps) = codeRun acc @ (SpanLiteral, []) # pieceSkeleton [] ps"

lemma tokenValues_simps [simp]:
  "tokenValues [] = []" "tokenValues (a @ b) = tokenValues a @ tokenValues b"
  "tokenValues (t # ts) = (if quotedKind (fst t) then [tokenValue t] else []) @ tokenValues ts"
  by (simp_all add: tokenValues_def)

lemma tokenSkeleton_simps [simp]:
  "tokenSkeleton [] = []" "tokenSkeleton (a @ b) = tokenSkeleton a @ tokenSkeleton b"
  "tokenSkeleton ((k, raw, cl) # ts) = (k, if quotedKind k then [] else raw) # tokenSkeleton ts"
  by (simp_all add: tokenSkeleton_def)

lemma flush_views [simp]:
  "tokenValues (flush acc) = []" "tokenSkeleton (flush acc) = codeRun acc"
  "list_all (\<lambda>(k, raw, cl). cl) (flush acc)"
  by (simp_all add: flush_def codeRun_def quotedKind_def)

lemma pieceTokens_views:
  "tokenValues (pieceTokens acc ps) = pieceVals ps \<and>
   tokenSkeleton (pieceTokens acc ps) = pieceSkeleton acc ps \<and>
   list_all (\<lambda>(k, raw, cl). cl) (pieceTokens acc ps)"
  by (induction acc ps rule: pieceTokens.induct) (simp_all add: value_quoted quotedKind_def)

text \<open>
  C1: a statement put together from code text and quoted pieces reads as it was put together:
  where the pieces are well formed (no code text opens a token, nothing that follows a quoted
  piece continues it) the scanner finds exactly the quoted values, in order, everything else is
  code with the same text whatever the values are, and nothing is left open.
\<close>

theorem rendered_statement_reads_back:
  assumes "wfPieces None ps"
  shows "quotedValues (render ps) = pieceVals ps \<and>
         skeleton (render ps) = pieceSkeleton [] ps \<and> allClosed (render ps)"
  using pieceTokens_views [of "[]" ps] by (simp add: token_views tokens_render [OF assms])

lemma rendered_statement_reads_back_witness:
  "quotedValues (render [Raw ''DROP LOGIN '', Ident ''a]; DROP TABLE t --'', Raw '' = '', NStr ''x'']) =
     [''a]; DROP TABLE t --'', ''x''] \<and>
   skeleton (render [Raw ''DROP LOGIN '', Ident ''a]; DROP TABLE t --'', Raw '' = '', NStr ''x'']) =
     [(SpanCode, ''DROP LOGIN ''), (SpanBracketIdent, []), (SpanCode, '' = ''), (SpanNLiteral, [])]"
proof -
  have "wfPieces None [Raw ''DROP LOGIN '', Ident ''a]; DROP TABLE t --'', Raw '' = '', NStr ''x'']"
    by code_simp
  from rendered_statement_reads_back [OF this] show ?thesis
    by (simp add: codeRun_def)
qed

end
