(* ===== verification/Clauses.thy ===== *)
theory Clauses
  imports Pieces
begin

text \<open>
  Statements put together clause by clause: when lists of pieces are well formed one after the
  other, and the clauses a builder joins with commas and spaces.  The statement builders of the
  other theories are checked with these lemmas.
\<close>

section \<open>Well-formed pieces before a given character\<close>

fun firstPieceD :: "piece list \<Rightarrow> char option \<Rightarrow> char option" where
  "firstPieceD [] d = d"
| "firstPieceD (Raw r # ps) d = firstOf r (firstPieceD ps d)"
| "firstPieceD (Ident n # ps) d = Some (CHR ''['')"
| "firstPieceD (NStr s # ps) d = Some (CHR ''N'')"
| "firstPieceD (AStr s # ps) d = Some squote"

fun wfD :: "char option \<Rightarrow> piece list \<Rightarrow> char option \<Rightarrow> bool" where
  "wfD p [] d = True"
| "wfD p (Raw r # ps) d = (plain p r (firstPieceD ps d) \<and> wfD (lastOf p r) ps d)"
| "wfD p (Ident n # ps) d = (firstPieceD ps d \<noteq> Some (CHR '']'') \<and> wfD (Some (CHR '']'')) ps d)"
| "wfD p (NStr s # ps) d = (wordStart p \<and> firstPieceD ps d \<noteq> Some squote \<and> wfD (Some squote) ps d)"
| "wfD p (AStr s # ps) d = (firstPieceD ps d \<noteq> Some squote \<and> wfD (Some squote) ps d)"

fun lastPiece :: "char option \<Rightarrow> piece list \<Rightarrow> char option" where
  "lastPiece p [] = p"
| "lastPiece p (Raw r # ps) = lastPiece (lastOf p r) ps"
| "lastPiece p (Ident n # ps) = lastPiece (Some (CHR '']'')) ps"
| "lastPiece p (NStr s # ps) = lastPiece (Some squote) ps"
| "lastPiece p (AStr s # ps) = lastPiece (Some squote) ps"

lemma firstPieceD_None: "firstPieceD ps None = firstPiece ps"
  by (induction ps rule: firstPiece.induct) auto

lemma wfD_None: "wfD p ps None = wfPieces p ps"
  by (induction p ps rule: wfPieces.induct) (auto simp: firstPieceD_None)

lemma firstPieceD_append [simp]: "firstPieceD (ps @ qs) d = firstPieceD ps (firstPieceD qs d)"
  by (induction ps d rule: firstPieceD.induct) auto

lemma lastPiece_append [simp]: "lastPiece p (ps @ qs) = lastPiece (lastPiece p ps) qs"
  by (induction p ps rule: lastPiece.induct) auto

lemma wfD_append [simp]: "wfD p (ps @ qs) d \<longleftrightarrow> wfD p ps (firstPieceD qs d) \<and> wfD (lastPiece p ps) qs d"
  by (induction p ps d rule: wfD.induct) auto

lemma plain_append: "plain p (a @ b) d \<longleftrightarrow> plain p a (firstOf b d) \<and> plain (lastOf p a) b d"
  by (induction a arbitrary: p) auto

section \<open>Separators\<close>

text \<open>A character that ends every token and starts none.\<close>

definition sepc :: "char option \<Rightarrow> bool" where
  "sepc d \<longleftrightarrow> d = None \<or> d \<in> Some ` set ('' ,;()='' @ [nl, tab])"

lemma sepc_facts:
  assumes "sepc d"
  shows "d \<noteq> Some (CHR '']'')" "d \<noteq> Some squote" "d \<noteq> Some (CHR ''-'')" "d \<noteq> Some (CHR ''*'')" "wordStart d"
  using assms
  by (auto simp: sepc_def char_consts wordStart_def isIdentByte_def is_digit_def is_lower_def is_upper_def)

lemmas sepc_chars [clause_simps] = sepc_facts sepc_facts [unfolded char_consts] char_consts

lemma sepc_simps [simp]:
  "sepc None" "sepc (Some (CHR '' ''))" "sepc (Some (CHR '',''))" "sepc (Some (CHR '';''))"
  "sepc (Some nl)" "sepc (Some (CHR ''(''))" "sepc (Some (CHR '')''))" "sepc (Some (CHR 0x0A))"
  "sepc (Some (CHR ''=''))" "sepc (Some tab)"
  by (simp_all add: sepc_def nl_def)

lemma wordStart_simps [simp]:
  "wordStart None" "wordStart (Some (CHR '' ''))" "wordStart (Some (CHR '',''))"
  "wordStart (Some (CHR '';''))" "wordStart (Some nl)" "wordStart (Some (CHR ''(''))"
  "wordStart (Some (CHR 0x0A))" "wordStart (Some (CHR ''=''))"
  by (simp_all add: wordStart_def isIdentByte_def nl_def is_digit_def is_lower_def is_upper_def)

text \<open>A clause: well formed between any two separators.\<close>

definition okClause :: "piece list \<Rightarrow> bool" where
  "okClause ps \<longleftrightarrow> (\<forall>p d. sepc p \<longrightarrow> sepc d \<longrightarrow> wfD p ps d)"

lemma okClauseI: "(\<And>p d. sepc p \<Longrightarrow> sepc d \<Longrightarrow> wfD p ps d) \<Longrightarrow> okClause ps"
  by (simp add: okClause_def)

lemma okClauseD: "okClause ps \<Longrightarrow> sepc p \<Longrightarrow> sepc d \<Longrightarrow> wfD p ps d"
  by (simp add: okClause_def)

text \<open>Numbers are plain.\<close>

lemma digit_plain:
  "is_digit c \<Longrightarrow> c \<noteq> squote \<and> c \<noteq> CHR ''['' \<and> c \<noteq> dquote \<and> c \<noteq> CHR ''-'' \<and> c \<noteq> CHR ''/'' \<and>
     c \<noteq> CHR ''N'' \<and> c \<noteq> CHR ''n'' \<and> c \<noteq> CHR '']'' \<and> c \<noteq> CHR ''*''"
  by (auto simp: is_digit_def char_consts)

lemma digits_plain: "list_all is_digit s \<Longrightarrow> plain p s d"
proof (induction s arbitrary: p)
  case (Cons c s)
  then show ?case using digit_plain [of c] by simp
qed simp

lemma itoa_plain [simp]: "plain p (itoa n) d"
proof -
  have "firstOf (nat_itoa k) d \<noteq> Some (CHR ''-'')" for k
  proof (cases "nat_itoa k")
    case (Cons c t)
    then have "is_digit c" using nat_itoa_digits [of k] by simp
    then show ?thesis using Cons digit_plain [of c] by simp
  qed (use nat_itoa_ne in simp)
  then show ?thesis
    using digits_plain nat_itoa_digits by (auto simp: itoa_def char_consts)
qed

section \<open>Values and shape\<close>

lemma pieceVals_append [simp]: "pieceVals (ps @ qs) = pieceVals ps @ pieceVals qs"
  by (induction ps rule: pieceVals.induct) auto

lemma pieceVals_concat: "pieceVals (concat pss) = concat (map pieceVals pss)"
  by (induction pss) auto

fun blankPiece :: "piece \<Rightarrow> piece" where
  "blankPiece (Raw r) = Raw r"
| "blankPiece (Ident n) = Ident []"
| "blankPiece (NStr s) = NStr []"
| "blankPiece (AStr s) = AStr []"

lemma pieceSkeleton_blank: "pieceSkeleton acc (map blankPiece ps) = pieceSkeleton acc ps"
  by (induction acc ps rule: pieceSkeleton.induct) auto

lemma pieceSkeleton_shape:
  "map blankPiece ps = map blankPiece qs \<Longrightarrow> pieceSkeleton acc ps = pieceSkeleton acc qs"
  using pieceSkeleton_blank by metis

text \<open>What a rendered statement says, in one bundle.\<close>

lemma rendered:
  assumes "wfPieces None ps" and "s = render ps"
  shows "quotedValues s = pieceVals ps" "skeleton s = pieceSkeleton [] ps" "allClosed s"
  using pieceTokens_views [of "[]" ps] tokens_render [OF assms(1)] assms(2) by (simp_all add: token_views)

section \<open>Joined clauses\<close>

fun joinPieces :: "string \<Rightarrow> piece list list \<Rightarrow> piece list" where
  "joinPieces sep [] = []"
| "joinPieces sep [c] = c"
| "joinPieces sep (c # cs) = c @ Raw sep # joinPieces sep cs"

lemma render_append [simp]: "render (concat pss) = concat (map render pss)"
  by (induction pss) auto

lemma render_join: "render (joinPieces sep cs) = str_join sep (map render cs)"
  by (induction sep cs rule: joinPieces.induct) auto

definition sepText :: "string \<Rightarrow> bool" where
  "sepText s \<longleftrightarrow> s \<noteq> [] \<and> sepc (Some (hd s)) \<and> sepc (Some (last s)) \<and> (\<forall>p d. sepc p \<longrightarrow> sepc d \<longrightarrow> plain p s d) \<and>
     (\<forall>p d. plain p s d)"

lemma okClause_join:
  "sepText sep \<Longrightarrow> \<forall>c \<in> set cs. okClause c \<Longrightarrow> okClause (joinPieces sep cs)"
proof (induction sep cs rule: joinPieces.induct)
  case (3 sep c c' cs)
  then have IH: "okClause (joinPieces sep (c' # cs))" by simp
  from "3.prems" have s: "sep \<noteq> []" "sepc (Some (hd sep))" "sepc (Some (last sep))" "\<And>p d. plain p sep d"
    by (auto simp: sepText_def)
  show ?case
  proof (rule okClauseI)
    fix p d assume pd: "sepc p" "sepc d"
    have "firstOf sep e = Some (hd sep)" "lastOf q sep = Some (last sep)" for e q
      using s(1) lastOf_ne by (cases sep; simp)+
    then show "wfD p (joinPieces sep (c # c' # cs)) d"
      using s IH "3.prems"(2) pd by (simp add: okClauseD)
  qed
qed (auto simp: okClause_def)

lemma pieceVals_join: "pieceVals (joinPieces sep cs) = concat (map pieceVals cs)"
  by (induction sep cs rule: joinPieces.induct) auto

lemma blank_join: "map blankPiece (joinPieces sep cs) = joinPieces sep (map (map blankPiece) cs)"
  by (induction sep cs rule: joinPieces.induct) auto

end
