(* ===== verification/Utf8.thy ===== *)
theory Utf8
  imports GoStrings
begin

text \<open>
  Runes: what \<open>for _, r := range s\<close> and \<open>utf8.DecodeRuneInString\<close> read from a string, and what
  \<open>strings.Builder.WriteRune\<close> writes.  A rune is a \<open>nat\<close>; a byte that starts no valid sequence
  reads as the replacement rune U+FFFD of width one.
\<close>

definition byte :: "char \<Rightarrow> nat" where
  "byte c = of_char c"

definition runeError :: nat where
  "runeError = 0xFFFD"

text \<open>The length of a multi-byte sequence by its first byte, and the range of its second.\<close>

definition seqInfo :: "nat \<Rightarrow> (nat \<times> nat \<times> nat) option" where
  "seqInfo b =
     (if 0xC2 \<le> b \<and> b \<le> 0xDF then Some (2, 0x80, 0xBF)
      else if b = 0xE0 then Some (3, 0xA0, 0xBF)
      else if b = 0xED then Some (3, 0x80, 0x9F)
      else if 0xE1 \<le> b \<and> b \<le> 0xEF then Some (3, 0x80, 0xBF)
      else if b = 0xF0 then Some (4, 0x90, 0xBF)
      else if b = 0xF4 then Some (4, 0x80, 0x8F)
      else if 0xF1 \<le> b \<and> b \<le> 0xF3 then Some (4, 0x80, 0xBF)
      else None)"

definition cont :: "char \<Rightarrow> bool" where
  "cont c \<longleftrightarrow> 0x80 \<le> byte c \<and> byte c \<le> 0xBF"

text \<open>\<open>utf8.DecodeRuneInString\<close>: the rune and its width.\<close>

definition decodeRune :: "string \<Rightarrow> nat \<times> nat" where
  "decodeRune s =
     (case s of
        [] \<Rightarrow> (runeError, 0)
      | c0 # t \<Rightarrow>
        (if byte c0 < 0x80 then (byte c0, 1)
         else (case (seqInfo (byte c0), t) of
             (Some (n, lo, hi), c1 # t1) \<Rightarrow>
               (if \<not> (lo \<le> byte c1 \<and> byte c1 \<le> hi) then (runeError, 1)
                else if n = 2 then ((byte c0 mod 32) * 64 + byte c1 mod 64, 2)
                else (case t1 of
                    c2 # t2 \<Rightarrow>
                      (if \<not> cont c2 then (runeError, 1)
                       else if n = 3
                       then ((byte c0 mod 16) * 4096 + (byte c1 mod 64) * 64 + byte c2 mod 64, 3)
                       else (case t2 of
                           c3 # _ \<Rightarrow>
                             (if \<not> cont c3 then (runeError, 1)
                              else ((byte c0 mod 8) * 262144 + (byte c1 mod 64) * 4096 +
                                    (byte c2 mod 64) * 64 + byte c3 mod 64, 4))
                         | [] \<Rightarrow> (runeError, 1)))
                  | [] \<Rightarrow> (runeError, 1)))
           | _ \<Rightarrow> (runeError, 1))))"

lemma decodeRune_width: "s \<noteq> [] \<Longrightarrow> 0 < snd (decodeRune s)"
  by (auto simp: decodeRune_def split: list.splits option.splits)

lemma decodeRune_bound: "snd (decodeRune s) \<le> length s"
  by (auto simp: decodeRune_def split: list.splits option.splits)

text \<open>The runes of a string, in order.\<close>

function runes :: "string \<Rightarrow> nat list" where
  "runes [] = []"
| "runes (c # s) =
     (let (r, w) = decodeRune (c # s) in r # runes (drop w (c # s)))"
  by pat_completeness auto
termination
proof (relation "measure length", simp)
  fix c s x r w
  assume "x = decodeRune (c # s)" "(r, w) = x"
  then have "0 < w" using decodeRune_width [of "c # s"] by (metis list.distinct(1) snd_conv)
  then show "(drop w (c # s), c # s) \<in> measure length" by simp
qed

text \<open>\<open>utf8.AppendRune\<close>, behind \<open>WriteRune\<close>.\<close>

definition encodeRune :: "nat \<Rightarrow> string" where
  "encodeRune r =
     (if r < 0x80 then [char_of r]
      else if r < 0x800 then [char_of (0xC0 + r div 64), char_of (0x80 + r mod 64)]
      else if (0xD800 \<le> r \<and> r \<le> 0xDFFF) \<or> 0x10FFFF < r
      then [char_of (0xEF :: nat), char_of (0xBF :: nat), char_of (0xBD :: nat)]
      else if r < 0x10000
      then [char_of (0xE0 + r div 4096), char_of (0x80 + r div 64 mod 64), char_of (0x80 + r mod 64)]
      else [char_of (0xF0 + r div 262144), char_of (0x80 + r div 4096 mod 64),
            char_of (0x80 + r div 64 mod 64), char_of (0x80 + r mod 64)])"

text \<open>\<open>strings.Map\<close> for a mapping that drops nothing.\<close>

definition strings_map :: "(nat \<Rightarrow> nat) \<Rightarrow> string \<Rightarrow> string" where
  "strings_map f s = concat (map (\<lambda>r. encodeRune (f r)) (runes s))"

text \<open>
  \<open>unicode.IsSpace\<close> and \<open>strings.TrimSpace\<close>, on the byte sequences of the runes.
\<close>

definition isSpaceRune :: "nat \<Rightarrow> bool" where
  "isSpaceRune r \<longleftrightarrow> r \<in> {9, 10, 11, 12, 13, 32, 0x85, 0xA0, 0x1680, 0x2028, 0x2029, 0x202F, 0x205F, 0x3000} \<or>
     (0x2000 \<le> r \<and> r \<le> 0x200A)"

function runeChunks :: "string \<Rightarrow> string list" where
  "runeChunks [] = []"
| "runeChunks (c # s) =
     (let w = snd (decodeRune (c # s)) in take w (c # s) # runeChunks (drop w (c # s)))"
  by pat_completeness auto
termination
  by (relation "measure length") (auto simp: decodeRune_width)

definition trim_space :: "string \<Rightarrow> string" where
  "trim_space s =
     (let sp = (\<lambda>b. isSpaceRune (fst (decodeRune b)))
      in concat (rev (dropWhile sp (rev (dropWhile sp (runeChunks s))))))"

text \<open>A rune outside ASCII is written in bytes outside ASCII.\<close>

lemma byte_char_of [simp]: "n < 256 \<Longrightarrow> byte (char_of n) = n"
  by (simp add: byte_def)

lemma byte_less [simp]: "byte c < 256"
  by (simp add: byte_def)

lemma byte_inject [simp]: "byte c = byte d \<longleftrightarrow> c = d"
  by (simp add: byte_def)

lemma char_of_iff: "n < 256 \<Longrightarrow> char_of n = c \<longleftrightarrow> n = byte c"
  by (metis byte_char_of byte_inject)

lemma encodeRune_ascii: "r < 0x80 \<Longrightarrow> encodeRune r = [char_of r]"
  by (simp add: encodeRune_def)

lemma encodeRune_high:
  assumes "0x80 \<le> r" and "c \<in> set (encodeRune r)"
  shows "0x80 \<le> byte c"
proof -
  have b: "r div 64 < 32" if "r < 0x800" using that by auto
  have b3: "r div 4096 < 16" if "r < 0x10000" using that by auto
  have b4: "r div 262144 < 5" if "\<not> 0x10FFFF < r" using that by auto
  have m: "r div 4096 mod 64 < 64" "r div 64 mod 64 < 64" "r mod 64 < 64" by simp_all
  show ?thesis
    using assms b b3 b4 m
    by (auto simp: encodeRune_def split: if_splits)
qed

lemma encodeRune_ne [simp]: "encodeRune r \<noteq> []"
  by (simp add: encodeRune_def)

lemma encodeRune_char: "byte c < 0x80 \<Longrightarrow> c \<in> set (encodeRune r) \<longleftrightarrow> r = byte c"
proof
  assume c: "byte c < 0x80" "c \<in> set (encodeRune r)"
  then have r: "r < 0x80" using encodeRune_high [of r c] by (meson not_le)
  with c(2) have "c = char_of r" by (simp add: encodeRune_ascii)
  with r show "r = byte c" by simp
next
  assume "byte c < 0x80" "r = byte c"
  then show "c \<in> set (encodeRune r)" by (simp add: encodeRune_ascii byte_def)
qed

text \<open>Decoding what was written gives the rune back, for every Unicode scalar value.\<close>

lemma base64_digits:
  "(r :: nat) = (r div 64) * 64 + r mod 64"
  "r = (r div 4096) * 4096 + (r div 64 mod 64) * 64 + r mod 64"
  "r = (r div 262144) * 262144 + (r div 4096 mod 64) * 4096 + (r div 64 mod 64) * 64 + r mod 64"
proof -
  show one: "r = (r div 64) * 64 + r mod 64" for r :: nat
    by simp
  have d: "r div 4096 = r div 64 div 64" "r div 262144 = r div 4096 div 64"
    by (simp_all add: div_mult2_eq [symmetric])
  show two: "r = (r div 4096) * 4096 + (r div 64 mod 64) * 64 + r mod 64"
    using one [of r] one [of "r div 64"] unfolding d by linarith
  show "r = (r div 262144) * 262144 + (r div 4096 mod 64) * 4096 + (r div 64 mod 64) * 64 + r mod 64"
    using two one [of "r div 4096"] unfolding d(2) by linarith
qed

lemma decode_encode2: "0x80 \<le> r \<Longrightarrow> r < 0x800 \<Longrightarrow> decodeRune (encodeRune r @ t) = (r, length (encodeRune r))"
proof -
  assume two: "0x80 \<le> r" "r < 0x800"
  then have q: "2 \<le> r div 64" "r div 64 < 32" by auto
  have "(192 + r div 64) mod 32 = r div 64" "(128 + r mod 64) mod 64 = r mod 64"
    using q mod_less [OF q(2)] by (simp_all add: mod_add_eq [symmetric])
  with two q show ?thesis
    by (simp add: encodeRune_def decodeRune_def seqInfo_def)
qed

lemma decode_encode3:
  assumes "0x800 \<le> r" "r < 0x10000" "\<not> (0xD800 \<le> r \<and> r \<le> 0xDFFF)"
  shows "decodeRune (encodeRune r @ t) = (r, length (encodeRune r))"
proof -
  define a b c where abc: "a = r div 4096" "b = r div 64 mod 64" "c = r mod 64"
  have r: "r = a * 4096 + b * 64 + c" unfolding abc by (rule base64_digits)
  have q: "a < 16" "b < 64" "c < 64" using assms(2) by (auto simp: abc)
  have z: "a = 0 \<Longrightarrow> 32 \<le> b" using assms(1) r q by linarith
  have d: "a = 13 \<Longrightarrow> b \<le> 31" using assms(3) r q by linarith
  have e: "encodeRune r = [char_of (0xE0 + a), char_of (0x80 + b), char_of (0x80 + c)]"
    using assms by (auto simp: encodeRune_def abc)
  have m: "(224 + a) mod 16 = a" "(128 + b) mod 64 = b" "(128 + c) mod 64 = c"
    using mod_less [OF q(1)] mod_less [OF q(2)] mod_less [OF q(3)]
    by (simp_all add: mod_add_eq [symmetric])
  have s: "seqInfo (0xE0 + a) = Some (3, if a = 0 then 0xA0 else 0x80, if a = 13 then 0x9F else 0xBF)"
    using q(1) by (auto simp: seqInfo_def)
  show ?thesis
    unfolding e using q m z d r s by (simp add: decodeRune_def cont_def)
qed

lemma decode_encode4:
  assumes "0x10000 \<le> r" "r \<le> 0x10FFFF"
  shows "decodeRune (encodeRune r @ t) = (r, length (encodeRune r))"
proof -
  define a b c d where abcd: "a = r div 262144" "b = r div 4096 mod 64" "c = r div 64 mod 64" "d = r mod 64"
  have r: "r = a * 262144 + b * 4096 + c * 64 + d" unfolding abcd by (rule base64_digits)
  have q: "a < 5" "b < 64" "c < 64" "d < 64" using assms(2) by (auto simp: abcd)
  have z: "a = 0 \<Longrightarrow> 16 \<le> b" using assms(1) r q by linarith
  have w: "a = 4 \<Longrightarrow> b \<le> 15" using assms(2) r q by linarith
  have e: "encodeRune r = [char_of (0xF0 + a), char_of (0x80 + b), char_of (0x80 + c), char_of (0x80 + d)]"
    using assms by (auto simp: encodeRune_def abcd)
  have "a < 8" using q by simp
  then have m: "(240 + a) mod 8 = a" "(128 + b) mod 64 = b" "(128 + c) mod 64 = c" "(128 + d) mod 64 = d"
    using mod_less [of a 8] mod_less [OF q(2)] mod_less [OF q(3)] mod_less [OF q(4)]
    by (simp_all add: mod_add_eq [symmetric])
  have s: "seqInfo (0xF0 + a) = Some (4, if a = 0 then 0x90 else 0x80, if a = 4 then 0x8F else 0xBF)"
    using q(1) by (auto simp: seqInfo_def)
  show ?thesis
    unfolding e using q m z w r s by (simp add: decodeRune_def cont_def)
qed

lemma decode_encode:
  assumes "r \<le> 0x10FFFF" and "\<not> (0xD800 \<le> r \<and> r \<le> 0xDFFF)"
  shows "decodeRune (encodeRune r @ t) = (r, length (encodeRune r))"
proof -
  consider "r < 0x80" | "0x80 \<le> r" "r < 0x800" | "0x800 \<le> r" "r < 0x10000" | "0x10000 \<le> r"
    by linarith
  then show ?thesis
  proof cases
    case 1
    then show ?thesis by (simp add: encodeRune_def decodeRune_def)
  qed (use assms decode_encode2 decode_encode3 decode_encode4 in blast)+
qed

lemma runes_encode:
  "\<forall>r \<in> set rs. r \<le> 0x10FFFF \<and> \<not> (0xD800 \<le> r \<and> r \<le> 0xDFFF) \<Longrightarrow>
   runes (concat (map encodeRune rs)) = rs"
proof (induction rs)
  case Nil
  then show ?case by simp
next
  case (Cons r rs)
  let ?t = "concat (map encodeRune rs)"
  have d: "decodeRune (encodeRune r @ ?t) = (r, length (encodeRune r))"
    using Cons.prems by (intro decode_encode) auto
  obtain c u where cu: "encodeRune r @ ?t = c # u" by (cases "encodeRune r") auto
  have "runes (encodeRune r @ ?t) = r # runes (drop (length (encodeRune r)) (encodeRune r @ ?t))"
    using d unfolding cu by simp
  then show ?case using Cons by simp
qed

text \<open>An ASCII string is its own runes.\<close>

lemma runes_ascii: "is_ascii s \<Longrightarrow> runes s = map byte s"
proof (induction s)
  case Nil
  then show ?case by simp
next
  case (Cons c s)
  then have "decodeRune (c # s) = (byte c, 1)" by (simp add: decodeRune_def is_ascii_def byte_def)
  with Cons show ?case by (simp add: is_ascii_def)
qed

lemma encode_ascii: "is_ascii s \<Longrightarrow> concat (map encodeRune (map byte s)) = s"
  by (induction s) (auto simp: is_ascii_def encodeRune_ascii byte_def)

text \<open>Text that needs no trimming.\<close>

lemma trim_space_ascii:
  assumes "is_ascii s" "list_all (\<lambda>c. \<not> isSpaceRune (byte c)) s"
  shows "trim_space s = s"
proof -
  have chunks: "runeChunks s = map (\<lambda>c. [c]) s \<and> (\<forall>c \<in> set s. \<not> isSpaceRune (fst (decodeRune [c])))"
    using assms
  proof (induction s rule: runeChunks.induct)
    case (2 c s)
    then have "decodeRune (c # s) = (byte c, 1)" "decodeRune [c] = (byte c, 1)"
      by (simp_all add: decodeRune_def is_ascii_def byte_def)
    with 2 show ?case by (simp add: is_ascii_def)
  qed simp
  have none: "dropWhile p xs = xs" if "\<forall>x \<in> set xs. \<not> p x" for p and xs :: "string list"
    using that by (cases xs) auto
  have "concat (map (\<lambda>c. [c]) s) = s" by (induction s) auto
  then show ?thesis
    using chunks by (simp add: trim_space_def Let_def none del: runeChunks.simps)
qed

text \<open>An ASCII byte is a rune of its own: the text before it and the text after it read on their own.\<close>

lemma decodeRune_ascii_cut:
  assumes c: "byte c < 0x80"
  shows "decodeRune ((x # a) @ c # b) = decodeRune (x # a)"
proof (cases "seqInfo (byte x)")
  case None
  then show ?thesis by (simp add: decodeRune_def split: list.split)
next
  case (Some i)
  obtain n lo hi where i: "i = (n, lo, hi)" by (cases i)
  then have lo: "0x80 \<le> lo" using Some by (auto simp: seqInfo_def split: if_splits)
  have nc: "\<not> cont c" "\<not> lo \<le> byte c" using c lo by (auto simp: cont_def)
  show ?thesis
  proof (cases a)
    case Nil
    then show ?thesis using nc Some i by (simp add: decodeRune_def)
  next
    case a: (Cons c1 a1)
    show ?thesis
    proof (cases a1)
      case Nil
      then show ?thesis using nc Some i a by (simp add: decodeRune_def)
    next
      case a1: (Cons c2 a2)
      then show ?thesis using nc Some i a by (cases a2) (simp_all add: decodeRune_def)
    qed
  qed
qed

lemma runes_cut: "byte c < 0x80 \<Longrightarrow> runes (a @ c # b) = runes a @ byte c # runes b"
proof (induction a rule: runes.induct)
  case 1
  then show ?case by (simp add: decodeRune_def)
next
  case (2 x a)
  obtain r w where rw: "decodeRune (x # a) = (r, w)" by (cases "decodeRune (x # a)")
  have e: "decodeRune (x # a @ c # b) = (r, w)" using decodeRune_ascii_cut [OF "2.prems", of x a b] rw by simp
  have "w \<le> length (x # a)" using decodeRune_bound [of "x # a"] rw by simp
  then have d: "drop w (x # a @ c # b) = drop w (x # a) @ c # b" by (cases w) auto
  show ?case using "2.IH" [OF rw [symmetric] refl "2.prems"] rw e d by simp
qed

text \<open>\<open>utf16.RuneLen\<close> of a decoded rune.\<close>

definition RuneLen :: "nat \<Rightarrow> nat" where
  "RuneLen r = (if r < 0x10000 then 1 else 2)"

text \<open>The UTF-16 code units of a text, the length \<open>nvarchar\<close> counts.\<close>

definition utf16Units :: "string \<Rightarrow> nat" where
  "utf16Units s = sum_list (map RuneLen (runes s))"

lemma RuneLen_width:
  assumes "s \<noteq> []"
  shows "RuneLen (fst (decodeRune s)) \<le> snd (decodeRune s)"
proof -
  have two: "RuneLen r \<le> 2" "RuneLen runeError = 1" for r by (simp_all add: RuneLen_def runeError_def)
  have one: "RuneLen (byte c) = 1" if "byte c < 0x80" for c using that by (simp add: RuneLen_def)
  have up: "RuneLen r \<le> 3" "RuneLen r \<le> 4" for r by (simp_all add: RuneLen_def)
  show ?thesis using assms
    by (auto simp: decodeRune_def two one up split: list.splits option.splits)
qed

lemma units_le_bytes: "utf16Units s \<le> length s"
proof (induction s rule: runes.induct)
  case 1
  then show ?case by (simp add: utf16Units_def)
next
  case (2 c s)
  obtain r w where rw: "decodeRune (c # s) = (r, w)" by (meson surj_pair)
  then have "utf16Units (c # s) = RuneLen r + utf16Units (drop w (c # s))"
    by (simp add: utf16Units_def)
  moreover have "RuneLen r \<le> w" "w \<le> length (c # s)"
    using RuneLen_width [of "c # s"] decodeRune_bound [of "c # s"] rw by simp_all
  moreover have "utf16Units (drop w (c # s)) \<le> length (drop w (c # s))" using 2 [OF rw [symmetric] refl] .
  ultimately show ?case by simp
qed

end
