(* ===== verification/Names.thy ===== *)
theory Names
  imports Utf8 Quote
begin

text \<open>
  Names as the server compares them (\<open>collation.go\<close>, \<open>helpers.go\<close>) and paths on the server's
  own file system (\<open>server_path.go\<close>).  \<open>unicode.SimpleFold\<close> is a table of the standard library:
  it is the argument \<open>sf\<close> of the definitions that use it, and \<open>simpleFold\<close> states what its
  documentation promises.
\<close>

section \<open>unicode.SimpleFold\<close>

text \<open>No folding orbit has more runes than this (the longest have four).\<close>

definition orbitFuel :: nat where
  "orbitFuel = 8"

definition orbit :: "(nat \<Rightarrow> nat) \<Rightarrow> nat \<Rightarrow> nat set" where
  "orbit sf r = {(sf ^^ n) r | n. True}"

definition upRune :: "nat \<Rightarrow> nat" where
  "upRune r = (if 97 \<le> r \<and> r \<le> 122 then r - 32 else r)"

definition validRune :: "nat \<Rightarrow> bool" where
  "validRune r \<longleftrightarrow> r \<le> 0x10FFFF \<and> \<not> (0xD800 \<le> r \<and> r \<le> 0xDFFF)"

text \<open>
  \<open>SimpleFold\<close> iterates over the code points equivalent under simple case folding: each orbit
  is a cycle, run through in ascending order, and within ASCII it pairs the letters.
\<close>

definition simpleFold :: "(nat \<Rightarrow> nat) \<Rightarrow> bool" where
  "simpleFold sf \<longleftrightarrow>
     (\<forall>r. \<exists>n. 0 < n \<and> n \<le> orbitFuel \<and> (sf ^^ n) r = r) \<and>
     (\<forall>r. \<forall>s \<in> orbit sf r. r < s \<longrightarrow> r < sf r \<and> sf r \<le> s) \<and>
     (\<forall>r. validRune r \<longrightarrow> validRune (sf r)) \<and>
     (\<forall>r < 0x80. \<forall>s < 0x80. s \<in> orbit sf r \<longleftrightarrow> upRune s = upRune r)"

section \<open>collation.go\<close>

definition CollationIgnoresCase :: "string \<Rightarrow> bool" where
  "CollationIgnoresCase collation \<longleftrightarrow>
     (\<forall>tok \<in> set (split_byte (to_upper_kw collation) (CHR ''_'')). tok \<notin> {''CS'', ''BIN'', ''BIN2''})"

text \<open>The loop of \<open>foldKeyRune\<close>: \<open>f\<close> is the rune under consideration.\<close>

fun foldMin :: "nat \<Rightarrow> (nat \<Rightarrow> nat) \<Rightarrow> nat \<Rightarrow> nat \<Rightarrow> nat \<Rightarrow> nat" where
  "foldMin 0 sf r f least = least"
| "foldMin (Suc n) sf r f least =
     (if f = r then least else foldMin n sf r (sf f) (min least f))"

definition foldKeyRune :: "(nat \<Rightarrow> nat) \<Rightarrow> nat \<Rightarrow> nat" where
  "foldKeyRune sf r =
     (if r < 0x80 then (if 97 \<le> r \<and> r \<le> 122 then r - (97 - 65) else r)
      else foldMin orbitFuel sf r (sf r) r)"

definition NameKey :: "(nat \<Rightarrow> nat) \<Rightarrow> string \<Rightarrow> string \<Rightarrow> string" where
  "NameKey sf collation name =
     (if \<not> CollationIgnoresCase collation then name else strings_map (foldKeyRune sf) name)"

definition SameName :: "(nat \<Rightarrow> nat) \<Rightarrow> string \<Rightarrow> string \<Rightarrow> string \<Rightarrow> bool" where
  "SameName sf collation a b \<longleftrightarrow> NameKey sf collation a = NameKey sf collation b"

section \<open>strings.EqualFold\<close>

text \<open>The standard library's comparison of two runes, the smaller one first.\<close>

fun equalLoop :: "nat \<Rightarrow> (nat \<Rightarrow> nat) \<Rightarrow> nat \<Rightarrow> nat \<Rightarrow> nat \<Rightarrow> nat" where
  "equalLoop 0 sf sr tr r = r"
| "equalLoop (Suc n) sf sr tr r =
     (if r \<noteq> sr \<and> r < tr then equalLoop n sf sr tr (sf r) else r)"

definition equalRune :: "(nat \<Rightarrow> nat) \<Rightarrow> nat \<Rightarrow> nat \<Rightarrow> bool" where
  "equalRune sf s t \<longleftrightarrow>
     (if s = t then True
      else (let sr = min s t; tr = max s t
            in if tr < 0x80 then 65 \<le> sr \<and> sr \<le> 90 \<and> tr = sr + 32
               else equalLoop orbitFuel sf sr tr (sf sr) = tr))"

definition EqualFold :: "(nat \<Rightarrow> nat) \<Rightarrow> string \<Rightarrow> string \<Rightarrow> bool" where
  "EqualFold sf s t \<longleftrightarrow> list_all2 (equalRune sf) (runes s) (runes t)"

section \<open>helpers.go: matchName, requireSchema, requireID, likeEscape\<close>

text \<open>The loop of \<open>matchName\<close>: the last folded match so far, and how many there were.\<close>

fun matchLoop :: "(nat \<Rightarrow> nat) \<Rightarrow> ('a \<Rightarrow> string) \<Rightarrow> string \<Rightarrow> 'a option \<Rightarrow> nat \<Rightarrow> 'a list \<Rightarrow> 'a res" where
  "matchLoop sf key name folded n [] =
     (if n = 0 then Inl (Bare ErrNotFound)
      else if n = 1 then (case folded of Some it \<Rightarrow> Inr it | None \<Rightarrow> Inl (Bare ErrNotFound))
      else Inl (Bare ErrAmbiguous))"
| "matchLoop sf key name folded n (it # items) =
     (if key it = name then Inr it
      else if EqualFold sf (key it) name then matchLoop sf key name (Some it) (n + 1) items
      else matchLoop sf key name folded n items)"

definition matchName :: "(nat \<Rightarrow> nat) \<Rightarrow> 'a list \<Rightarrow> string \<Rightarrow> ('a \<Rightarrow> string) \<Rightarrow> 'a res" where
  "matchName sf items name key = matchLoop sf key name None 0 items"

definition requireSchema :: "string \<Rightarrow> string \<Rightarrow> string \<Rightarrow> goerr option" where
  "requireSchema what schema name =
     (if schema = []
      then Some (Wrapped ''gosmo: %s %q: %w'' [AText what, AText name] (Bare ErrSchemaRequired)) else None)"

definition requireID :: "string \<Rightarrow> bool \<Rightarrow> goerr option" where
  "requireID what ok =
     (if \<not> ok then Some (Wrapped ''gosmo: %s: %w'' [AText what] (Bare ErrHandleNotLoaded)) else None)"

definition likeEscape :: "string \<Rightarrow> string" where
  "likeEscape s =
     concat (map (\<lambda>c. if c = bslash \<or> c = CHR ''%'' \<or> c = CHR ''_'' \<or> c = CHR ''['' then [bslash, c] else [c]) s)"

section \<open>server\_path.go\<close>

definition separators :: string where
  "separators = [CHR ''/'', bslash]"

definition serverPathSeparator :: "string \<Rightarrow> string" where
  "serverPathSeparator path = (if contains path [bslash] then [bslash] else ''/'')"

definition JoinServerPath :: "string \<Rightarrow> string \<Rightarrow> string" where
  "JoinServerPath dir file =
     (if dir = [] then file
      else if has_suffix dir [bslash] \<or> has_suffix dir ''/'' then dir @ file
      else dir @ serverPathSeparator dir @ file)"

definition ServerPathBase :: "string \<Rightarrow> string" where
  "ServerPathBase path =
     (case last_index_any path separators of Some i \<Rightarrow> drop (i + 1) path | None \<Rightarrow> path)"

definition ServerPathDir :: "string \<Rightarrow> string" where
  "ServerPathDir path =
     (case last_index_any path separators of
        None \<Rightarrow> []
      | Some i \<Rightarrow>
          (let dir = take i path
           in if dir = [] \<or> (length dir = 2 \<and> dir ! 1 = CHR '':'') then take (i + 1) path else dir))"

definition ServerPathExt :: "string \<Rightarrow> string" where
  "ServerPathExt path =
     (let base = ServerPathBase path
      in case last_index_any base ''.'' of
           Some i \<Rightarrow> (if i > 0 then drop i base else [])
         | None \<Rightarrow> [])"

section \<open>Folding orbits\<close>

lemma orbit_refl [simp]: "r \<in> orbit sf r"
  by (force simp: orbit_def intro: exI [of _ 0])

lemma orbit_step: "s \<in> orbit sf r \<Longrightarrow> sf s \<in> orbit sf r"
proof -
  assume "s \<in> orbit sf r"
  then obtain n where "s = (sf ^^ n) r" by (auto simp: orbit_def)
  then have "sf s = (sf ^^ Suc n) r" by simp
  then show ?thesis unfolding orbit_def by blast
qed

lemma orbit_trans: "t \<in> orbit sf s \<Longrightarrow> s \<in> orbit sf r \<Longrightarrow> t \<in> orbit sf r"
proof -
  assume "t \<in> orbit sf s" "s \<in> orbit sf r"
  then obtain m n where "t = (sf ^^ m) s" "s = (sf ^^ n) r" by (auto simp: orbit_def)
  then have "t = (sf ^^ (m + n)) r" by (simp add: funpow_add)
  then show ?thesis unfolding orbit_def by blast
qed

lemma funpow_cycle: "(sf ^^ n) r = r \<Longrightarrow> (sf ^^ (n * k)) r = (r :: 'a)"
  by (induction k) (simp_all add: funpow_add)

lemma cycle:
  assumes "simpleFold sf"
  obtains n where "0 < n" "n \<le> orbitFuel" "(sf ^^ n) r = r"
  using assms unfolding simpleFold_def by blast

lemma ascending: "simpleFold sf \<Longrightarrow> s \<in> orbit sf r \<Longrightarrow> r < s \<Longrightarrow> r < sf r \<and> sf r \<le> s"
  unfolding simpleFold_def by blast

lemma ascii_orbit: "simpleFold sf \<Longrightarrow> r < 0x80 \<Longrightarrow> s < 0x80 \<Longrightarrow> s \<in> orbit sf r \<longleftrightarrow> upRune s = upRune r"
  unfolding simpleFold_def by blast

lemma orbit_bounded:
  assumes sf: "simpleFold sf" and s: "s \<in> orbit sf r"
  shows "\<exists>k < orbitFuel. s = (sf ^^ k) r"
proof -
  from s obtain m where m: "s = (sf ^^ m) r" by (auto simp: orbit_def)
  obtain n where n: "0 < n" "n \<le> orbitFuel" "(sf ^^ n) r = r" by (rule cycle [OF sf])
  have "m = m mod n + n * (m div n)" by simp
  then have "(sf ^^ m) r = (sf ^^ (m mod n)) ((sf ^^ (n * (m div n))) r)"
    by (metis comp_apply funpow_add)
  then have "s = (sf ^^ (m mod n)) r" using m funpow_cycle [OF n(3)] by simp
  moreover have "m mod n < orbitFuel" using n by (meson mod_less_divisor order_less_le_trans)
  ultimately show ?thesis by blast
qed

lemma orbit_sym:
  assumes sf: "simpleFold sf" and s: "s \<in> orbit sf r"
  shows "orbit sf s = orbit sf r"
proof -
  from s obtain k where k: "s = (sf ^^ k) r" by (auto simp: orbit_def)
  obtain n where n: "0 < n" "(sf ^^ n) r = r" by (rule cycle [OF sf])
  have "k + (n * k - k) = n * k" using n(1) by simp
  then have "(sf ^^ (n * k - k)) s = (sf ^^ (n * k)) r"
    unfolding k by (metis add.commute comp_apply funpow_add)
  then have "r = (sf ^^ (n * k - k)) s" using funpow_cycle [OF n(2), of k] by simp
  then have "r \<in> orbit sf s" unfolding orbit_def by blast
  then show ?thesis using s orbit_trans by blast
qed

lemma orbit_finite: "simpleFold sf \<Longrightarrow> finite (orbit sf r)"
proof -
  assume "simpleFold sf"
  then have "orbit sf r \<subseteq> (\<lambda>k. (sf ^^ k) r) ` {..<orbitFuel}" using orbit_bounded by blast
  then show ?thesis by (rule finite_subset) simp
qed

text \<open>The loop of \<open>foldKeyRune\<close> sees the whole orbit.\<close>

lemma foldMin_eq:
  "(sf ^^ m) f = r \<Longrightarrow> m \<le> n \<Longrightarrow>
   foldMin n sf r f least = Min (insert least ((\<lambda>i. (sf ^^ i) f) ` {..<LEAST i. (sf ^^ i) f = r}))"
proof (induction n arbitrary: m f least)
  case 0
  then show ?case by simp
next
  case (Suc n)
  show ?case
  proof (cases "f = r")
    case True
    then have "(LEAST i. (sf ^^ i) f = r) = 0" by (intro Least_eq_0) simp
    with True show ?thesis by simp
  next
    case False
    let ?L = "LEAST i. (sf ^^ i) f = r" and ?L' = "LEAST i. (sf ^^ i) (sf f) = r"
    obtain m' where m': "m = Suc m'" using Suc.prems(1) False by (cases m) auto
    have e: "(sf ^^ Suc i) f = (sf ^^ i) (sf f)" for i by (simp add: funpow_swap1)
    have L: "?L = Suc ?L'"
      using Least_Suc [of "\<lambda>i. (sf ^^ i) f = r", OF Suc.prems(1)] False unfolding e by simp
    have s: "(\<lambda>i. (sf ^^ i) f) ` {..<Suc k} = insert f ((\<lambda>i. (sf ^^ i) (sf f)) ` {..<k})" for k
      unfolding lessThan_Suc_eq_insert_0 image_insert image_image e by simp
    have "foldMin (Suc n) sf r f least = foldMin n sf r (sf f) (min least f)" using False by simp
    also have "\<dots> = Min (insert (min least f) ((\<lambda>i. (sf ^^ i) (sf f)) ` {..<?L'}))"
      using Suc.IH [of m' "sf f"] Suc.prems e m' by simp
    also have "\<dots> = Min (insert least (insert f ((\<lambda>i. (sf ^^ i) (sf f)) ` {..<?L'})))"
      by (cases "{..<?L'} = {}") (simp_all add: min.assoc)
    finally show ?thesis unfolding L s .
  qed
qed

lemma orbit_as_loop:
  assumes sf: "simpleFold sf"
  shows "insert r ((\<lambda>i. (sf ^^ i) (sf r)) ` {..<LEAST i. (sf ^^ i) (sf r) = r}) = orbit sf r"
    (is "insert r (?f ` {..<?L}) = _")
proof
  have "?f i \<in> orbit sf r" for i
    using orbit_step [OF orbit_refl] by (rule orbit_trans [rotated]) (auto simp: orbit_def)
  then show "insert r (?f ` {..<?L}) \<subseteq> orbit sf r" by auto
  obtain n where n: "0 < n" "(sf ^^ n) r = r" by (rule cycle [OF sf])
  then obtain n' where "?f n' = r" by (cases n) (auto simp: funpow_swap1)
  then have "?f ?L = r" by (rule LeastI)
  then have L: "(sf ^^ Suc ?L) r = r" by (simp add: funpow_swap1)
  show "orbit sf r \<subseteq> insert r (?f ` {..<?L})"
  proof
    fix s assume "s \<in> orbit sf r"
    then obtain m where m: "s = (sf ^^ m) r" by (auto simp: orbit_def)
    let ?k = "m mod Suc ?L"
    have "m = ?k + Suc ?L * (m div Suc ?L)" by (rule mod_mult_div_eq [symmetric])
    then have "s = (sf ^^ ?k) r"
      unfolding m using funpow_cycle [OF L, of "m div Suc ?L"] by (metis comp_apply funpow_add)
    moreover have "?k < Suc ?L" by simp
    ultimately show "s \<in> insert r (?f ` {..<?L})"
      by (cases ?k) (auto simp: funpow_swap1)
  qed
qed

lemma foldKeyRune_Min:
  assumes sf: "simpleFold sf"
  shows "foldKeyRune sf r = Min (orbit sf r)"
proof (cases "r < 0x80")
  case True
  have "foldKeyRune sf r = upRune r" using True by (simp add: foldKeyRune_def upRune_def)
  moreover have "upRune r \<in> orbit sf r"
    using ascii_orbit [OF sf True, of "upRune r"] True by (auto simp: upRune_def)
  moreover have "upRune r \<le> s" if "s \<in> orbit sf r" for s
  proof (cases "s < 0x80")
    case True
    then have "upRune s = upRune r" using ascii_orbit [OF sf] that \<open>r < 0x80\<close> by blast
    then show ?thesis by (auto simp: upRune_def split: if_splits)
  qed (use True in \<open>auto simp: upRune_def\<close>)
  ultimately show ?thesis using orbit_finite [OF sf] by (metis Min_eqI)
next
  case False
  obtain n where n: "0 < n" "n \<le> orbitFuel" "(sf ^^ n) r = r" by (rule cycle [OF sf])
  then obtain m where "n = Suc m" by (cases n) auto
  with n have "(sf ^^ m) (sf r) = r" "m \<le> orbitFuel" by (auto simp: funpow_swap1)
  from foldMin_eq [OF this, of r] show ?thesis
    using False orbit_as_loop [OF sf] by (simp add: foldKeyRune_def)
qed

lemma foldKeyRune_eq:
  assumes sf: "simpleFold sf"
  shows "foldKeyRune sf a = foldKeyRune sf b \<longleftrightarrow> b \<in> orbit sf a"
proof
  have i: "foldKeyRune sf r \<in> orbit sf r" for r
    unfolding foldKeyRune_Min [OF sf] using orbit_finite [OF sf] orbit_refl by (metis Min_in empty_iff)
  assume "foldKeyRune sf a = foldKeyRune sf b"
  then have "orbit sf a = orbit sf b" using i orbit_sym [OF sf] by metis
  then show "b \<in> orbit sf a" using orbit_refl by blast
next
  assume "b \<in> orbit sf a"
  then show "foldKeyRune sf a = foldKeyRune sf b" using orbit_sym [OF sf] foldKeyRune_Min [OF sf] by metis
qed

lemma equalLoop_orbit: "r \<in> orbit sf sr \<Longrightarrow> equalLoop n sf sr tr r \<in> orbit sf sr"
  by (induction n arbitrary: r) (auto intro: orbit_step)

lemma equalLoop_reaches:
  "simpleFold sf \<Longrightarrow> (sf ^^ m) r = tr \<Longrightarrow> m \<le> n \<Longrightarrow> sr < r \<Longrightarrow> r \<le> tr \<Longrightarrow> equalLoop n sf sr tr r = tr"
proof (induction n arbitrary: r m)
  case (Suc n)
  show ?case
  proof (cases "r = tr")
    case False
    then obtain k where k: "m = Suc k" using Suc.prems(2) by (cases m) auto
    have "tr \<in> orbit sf r" using Suc.prems(2) by (auto simp: orbit_def)
    then have "r < sf r" "sf r \<le> tr" using ascending [OF Suc.prems(1)] False Suc.prems(5) by auto
    then show ?thesis using Suc.IH [of k "sf r"] Suc.prems k False by (simp add: funpow_swap1)
  qed (use Suc.prems in simp)
qed simp

lemma equalRune_ordered:
  assumes sf: "simpleFold sf" and lt: "s < t"
  shows "equalRune sf s t \<longleftrightarrow> t \<in> orbit sf s"
proof (cases "t < 0x80")
  case True
  then have "t \<in> orbit sf s \<longleftrightarrow> upRune t = upRune s"
    using ascii_orbit [OF sf] lt by auto
  also have "\<dots> \<longleftrightarrow> 65 \<le> s \<and> s \<le> 90 \<and> t = s + 32"
    using lt by (auto simp: upRune_def split: if_splits)
  finally show ?thesis using True lt by (simp add: equalRune_def min_def max_def)
next
  case ge: False
  have "equalLoop orbitFuel sf s t (sf s) = t \<longleftrightarrow> t \<in> orbit sf s"
  proof
    assume "equalLoop orbitFuel sf s t (sf s) = t"
    then show "t \<in> orbit sf s" using equalLoop_orbit [OF orbit_step [OF orbit_refl]] by metis
  next
    assume t: "t \<in> orbit sf s"
    then obtain k where k: "k < orbitFuel" "t = (sf ^^ k) s" using orbit_bounded [OF sf] by blast
    then obtain j where j: "k = Suc j" using lt by (cases k) auto
    have "s < sf s" "sf s \<le> t" using ascending [OF sf t lt] by auto
    then show "equalLoop orbitFuel sf s t (sf s) = t"
      using equalLoop_reaches [OF sf, of j "sf s" t orbitFuel s] k j by (simp add: funpow_swap1)
  qed
  then show ?thesis using ge lt by (simp add: equalRune_def min_def max_def)
qed

lemma equalRune_orbit:
  assumes sf: "simpleFold sf"
  shows "equalRune sf a b \<longleftrightarrow> b \<in> orbit sf a"
proof (cases a b rule: linorder_cases)
  case greater
  have "equalRune sf a b = equalRune sf b a" by (auto simp: equalRune_def min.commute max.commute)
  also have "\<dots> \<longleftrightarrow> a \<in> orbit sf b" by (rule equalRune_ordered [OF sf greater])
  also have "\<dots> \<longleftrightarrow> b \<in> orbit sf a" using orbit_sym [OF sf] orbit_refl by metis
  finally show ?thesis .
qed (use equalRune_ordered [OF sf] in \<open>simp_all add: equalRune_def\<close>)

text \<open>Remainders of a range that does not wrap.\<close>

lemma mod_offset: "(m :: nat) * q \<le> x \<Longrightarrow> x < m * q + m \<Longrightarrow> x mod m = x - m * q"
  by (metis add_diff_inverse_nat add_less_cancel_left mod_less mod_mult_self4 not_less)

lemma mod_at_most: "0 < m \<Longrightarrow> (x :: nat) mod m \<le> m - 1"
  using mod_less_divisor [of m x] by linarith

lemma decodeRune_valid: "validRune (fst (decodeRune s))"
proof -
  have b: "byte c mod m < m" if "0 < m" for c m using that by simp
  have three: "validRune ((x mod 16) * 4096 + (y mod 64) * 64 + z mod 64)"
    if "seqInfo x = Some (3, lo, hi)" "lo \<le> y" "y \<le> hi" for x y z lo hi :: nat
  proof (cases "x = 0xED")
    case True
    with that have "0x80 \<le> y" "y \<le> 0x9F" by (auto simp: seqInfo_def split: if_splits)
    then have "y mod 64 \<le> 31" using mod_offset [of 64 2 y] by simp
    moreover have "z mod 64 \<le> 63" using mod_at_most [of 64 z] by simp
    ultimately show ?thesis using True by (simp add: validRune_def)
  next
    case False
    with that have "0xE0 \<le> x" "x \<le> 0xEF" by (auto simp: seqInfo_def split: if_splits)
    then have "x mod 16 = x - 0xE0" using mod_offset [of 16 14 x] by simp
    moreover have "y mod 64 \<le> 63" "z mod 64 \<le> 63" using mod_at_most [of 64] by simp_all
    moreover have "x - 0xE0 \<le> 12 \<or> 14 \<le> x - 0xE0 \<and> x - 0xE0 \<le> 15" using \<open>x \<le> 0xEF\<close> \<open>0xE0 \<le> x\<close> False by auto
    ultimately show ?thesis unfolding validRune_def by (elim disjE) auto
  qed
  have four: "validRune ((x mod 8) * 262144 + (y mod 64) * 4096 + (z mod 64) * 64 + w mod 64)"
    if q: "seqInfo x = Some (4, lo, hi)" "lo \<le> y" "y \<le> hi" for x y z w lo hi :: nat
  proof -
    have val: "validRune (h * 262144 + i * 4096 + j * 64 + k)"
      if "h = 4 \<and> i \<le> 15 \<or> h = 0 \<and> 16 \<le> i \<and> i \<le> 63 \<or> 1 \<le> h \<and> h \<le> 3 \<and> i \<le> 63" "j \<le> 63" "k \<le> 63"
      for h i j k :: nat
      using that unfolding validRune_def by linarith
    have z: "y mod 64 \<le> 63" "z mod 64 \<le> 63" "w mod 64 \<le> 63" using mod_at_most [of 64] by simp_all
    have "x = 0xF4 \<and> y mod 64 \<le> 15 \<or> x = 0xF0 \<and> 16 \<le> y mod 64 \<or> 0xF1 \<le> x \<and> x \<le> 0xF3"
    proof -
      have "x = 0xF4 \<and> 0x80 \<le> y \<and> y \<le> 0x8F \<or> x = 0xF0 \<and> 0x90 \<le> y \<and> y \<le> 0xBF \<or> 0xF1 \<le> x \<and> x \<le> 0xF3"
        using q by (auto simp: seqInfo_def split: if_splits)
      moreover have "0x80 \<le> y \<Longrightarrow> y \<le> 0x8F \<Longrightarrow> y mod 64 \<le> 15" using mod_offset [of 64 2 y] by simp
      moreover have "0x90 \<le> y \<Longrightarrow> y \<le> 0xBF \<Longrightarrow> 16 \<le> y mod 64"
        using mod_offset [of 64 2 y] by simp
      ultimately show ?thesis by blast
    qed
    then have "x mod 8 = 4 \<and> y mod 64 \<le> 15 \<or> x mod 8 = 0 \<and> 16 \<le> y mod 64 \<and> y mod 64 \<le> 63 \<or>
        1 \<le> x mod 8 \<and> x mod 8 \<le> 3 \<and> y mod 64 \<le> 63"
    proof -
      have "x = 0xF4 \<Longrightarrow> x mod 8 = 4" "x = 0xF0 \<Longrightarrow> x mod 8 = 0" by simp_all
      moreover have "0xF1 \<le> x \<Longrightarrow> x \<le> 0xF3 \<Longrightarrow> 1 \<le> x mod 8 \<and> x mod 8 \<le> 3"
        using mod_offset [of 8 30 x] by auto
      ultimately show ?thesis using z \<open>x = 0xF4 \<and> y mod 64 \<le> 15 \<or> _\<close> by blast
    qed
    then show ?thesis by (rule val) (rule z)+
  qed
  have two: "validRune ((x mod 32) * 64 + y mod 64)" for x y :: nat
  proof -
    have "x mod 32 \<le> 31" "y mod 64 \<le> 63" using mod_at_most [of 32 x] mod_at_most [of 64 y] by simp_all
    then show ?thesis by (simp add: validRune_def)
  qed
  have err: "validRune runeError" by (simp add: validRune_def runeError_def)
  show ?thesis
  proof (cases s)
    case (Cons c0 t)
    show ?thesis
    proof (cases "byte c0 < 0x80")
      case True
      then show ?thesis using Cons by (simp add: decodeRune_def validRune_def)
    next
      case high: False
      show ?thesis
      proof (cases "seqInfo (byte c0)")
        case (Some i)
        obtain n lo hi where i: "i = (n, lo, hi)" by (cases i)
        then have n: "n = 2 \<or> n = 3 \<or> n = 4"
          using Some by (auto simp: seqInfo_def split: if_splits)
        show ?thesis
        proof (cases t)
          case t: (Cons c1 t1)
          show ?thesis
          proof (cases "lo \<le> byte c1 \<and> byte c1 \<le> hi")
            case ok: True
            note defs = decodeRune_def Cons t high Some i ok err two
            show ?thesis
            proof (cases t1)
              case t1: (Cons c2 t2)
              then show ?thesis
              proof (cases t2)
                case (Cons c3 t3)
                then show ?thesis using n three [of "byte c0" lo hi "byte c1" "byte c2"]
                  four [of "byte c0" lo hi "byte c1" "byte c2" "byte c3"] t1
                  by (elim disjE) (simp_all add: defs)
              qed (use n three [of "byte c0" lo hi "byte c1" "byte c2"] in \<open>elim disjE; simp add: defs\<close>)
            qed (use n in \<open>elim disjE; simp add: defs\<close>)
          qed (use high Some i Cons t err in \<open>simp add: decodeRune_def\<close>)
        qed (use high Some i Cons err in \<open>simp add: decodeRune_def\<close>)
      qed (use high Cons err in \<open>simp add: decodeRune_def\<close>)
    qed
  qed (use err in \<open>simp add: decodeRune_def\<close>)
qed

lemma runes_valid: "r \<in> set (runes s) \<Longrightarrow> validRune r"
proof (induction s rule: runes.induct)
  case (2 c s)
  then show ?case
    using decodeRune_valid [of "c # s"] by (cases "decodeRune (c # s)") (auto simp: Let_def)
qed simp

lemma orbit_valid: "simpleFold sf \<Longrightarrow> validRune r \<Longrightarrow> s \<in> orbit sf r \<Longrightarrow> validRune s"
proof -
  assume sf: "simpleFold sf" and r: "validRune r" and "s \<in> orbit sf r"
  then obtain n where "s = (sf ^^ n) r" by (auto simp: orbit_def)
  moreover have "validRune ((sf ^^ n) r)"
    using sf r unfolding simpleFold_def by (induction n) auto
  ultimately show ?thesis by simp
qed

lemma foldKeyRune_orbit: "simpleFold sf \<Longrightarrow> foldKeyRune sf r \<in> orbit sf r"
  using foldKeyRune_Min orbit_finite orbit_refl by (metis Min_in empty_iff)

lemma encode_inject:
  assumes "list_all validRune as" and "list_all validRune bs"
  shows "concat (map encodeRune as) = concat (map encodeRune bs) \<longleftrightarrow> as = bs"
proof -
  have "runes (concat (map encodeRune rs)) = rs" if "list_all validRune rs" for rs
    using that by (intro runes_encode) (auto simp: list_all_iff validRune_def)
  then show ?thesis using assms by metis
qed

lemma NameKey_folded:
  assumes sf: "simpleFold sf"
  shows "strings_map (foldKeyRune sf) a = strings_map (foldKeyRune sf) b \<longleftrightarrow> EqualFold sf a b"
proof -
  have v: "list_all validRune (map (foldKeyRune sf) (runes s))" for s
    using runes_valid orbit_valid [OF sf] foldKeyRune_orbit [OF sf] by (fastforce simp: list_all_iff)
  have "strings_map (foldKeyRune sf) a = strings_map (foldKeyRune sf) b \<longleftrightarrow>
      map (foldKeyRune sf) (runes a) = map (foldKeyRune sf) (runes b)"
    using encode_inject [OF v v] by (simp add: strings_map_def o_def)
  also have "\<dots> \<longleftrightarrow> list_all2 (\<lambda>x y. foldKeyRune sf x = foldKeyRune sf y) (runes a) (runes b)"
    by (simp add: list.rel_map list.rel_eq [symmetric])
  also have "\<dots> \<longleftrightarrow> EqualFold sf a b"
    by (simp add: EqualFold_def equalRune_orbit [OF sf, abs_def] foldKeyRune_eq [OF sf])
  finally show ?thesis .
qed

text \<open>
  \<open>SameName\<close> is what its documentation says: byte equality under a case-sensitive or binary
  collation, and otherwise exactly \<open>strings.EqualFold\<close>, also on names with runes outside ASCII or
  bytes that are no valid UTF-8 -- so the keys of \<open>NameKey\<close> agree with it.  This rests on what
  the documentation of \<open>unicode.SimpleFold\<close> promises.
\<close>

theorem SameName_is_EqualFold:
  assumes "simpleFold sf"
  shows "SameName sf collation a b \<longleftrightarrow>
    (if CollationIgnoresCase collation then EqualFold sf a b else a = b)"
  using NameKey_folded [OF assms] by (simp add: SameName_def NameKey_def)

text \<open>The folding of ASCII alone is a simple folding.\<close>

definition asciiFold :: "nat \<Rightarrow> nat" where
  "asciiFold r = (if 65 \<le> r \<and> r \<le> 90 then r + 32 else if 97 \<le> r \<and> r \<le> 122 then r - 32 else r)"

lemma asciiFold_twice: "asciiFold (asciiFold r) = r"
  by (auto simp: asciiFold_def)

lemma asciiFold_orbit: "orbit asciiFold r = {r, asciiFold r}"
proof -
  have "(asciiFold ^^ n) r \<in> {r, asciiFold r}" for n
    by (induction n) (auto simp: asciiFold_twice)
  then show ?thesis using orbit_step [OF orbit_refl] orbit_refl by (auto simp: orbit_def)
qed

lemma simpleFold_ascii: "simpleFold asciiFold"
proof -
  have "0 < (2 :: nat) \<and> 2 \<le> orbitFuel \<and> (asciiFold ^^ 2) r = r" for r
    by (simp add: orbitFuel_def asciiFold_twice numeral_2_eq_2)
  then have "\<forall>r. \<exists>n. 0 < n \<and> n \<le> orbitFuel \<and> (asciiFold ^^ n) r = r" by blast
  moreover have "r < s \<longrightarrow> r < asciiFold r \<and> asciiFold r \<le> s" if "s \<in> orbit asciiFold r" for r s
    using that unfolding asciiFold_orbit by auto
  moreover have "validRune r \<longrightarrow> validRune (asciiFold r)" for r
    by (auto simp: validRune_def asciiFold_def)
  moreover have "s \<in> orbit asciiFold r \<longleftrightarrow> upRune s = upRune r" if "r < 0x80" "s < 0x80" for r s
    unfolding asciiFold_orbit by (auto simp: asciiFold_def upRune_def split: if_splits)
  ultimately show ?thesis unfolding simpleFold_def by blast
qed

lemma SameName_is_EqualFold_witness:
  "SameName asciiFold ''SQL_Latin1_General_CP1_CI_AS'' ''Sales'' ''sALES'' \<and>
   \<not> SameName asciiFold ''Latin1_General_BIN2'' ''Sales'' ''sALES''"
  unfolding SameName_is_EqualFold [OF simpleFold_ascii]
  by code_simp

section \<open>matchName\<close>

text \<open>The only element of a list.\<close>

fun onlyOne :: "'a list \<Rightarrow> 'a res" where
  "onlyOne [] = Inl (Bare ErrNotFound)"
| "onlyOne [it] = Inr it"
| "onlyOne _ = Inl (Bare ErrAmbiguous)"

lemma matchLoop_spec:
  "n = length ms \<Longrightarrow> folded = (if ms = [] then None else Some (last ms)) \<Longrightarrow>
   matchLoop sf key name folded n items =
     (case find (\<lambda>it. key it = name) items of
        Some it \<Rightarrow> Inr it
      | None \<Rightarrow> onlyOne (ms @ filter (\<lambda>it. EqualFold sf (key it) name) items))"
proof (induction items arbitrary: folded n ms)
  case Nil
  then show ?case by (cases ms rule: onlyOne.cases) auto
next
  case (Cons it items)
  from Cons.IH [of n ms folded] Cons.IH [of "Suc n" "ms @ [it]" "Some it"] Cons.prems
  show ?case by (simp split: option.split)
qed

text \<open>
  \<open>matchName\<close> picks the first item that is named exactly; with none, the only item named
  the same up to case; it refuses with \<open>ErrAmbiguous\<close> exactly when two or more items match up to
  case and none exactly, and with \<open>ErrNotFound\<close> exactly when none matches up to case.
\<close>

theorem matchName_spec:
  "matchName sf items name key =
     (case find (\<lambda>it. key it = name) items of
        Some it \<Rightarrow> Inr it
      | None \<Rightarrow> onlyOne (filter (\<lambda>it. EqualFold sf (key it) name) items))"
  using matchLoop_spec [of 0 "[]" None sf key name items]
  by (simp add: matchName_def split: option.split)

section \<open>likeEscape\<close>

text \<open>
  A LIKE pattern under \<open>ESCAPE '\'\<close>, as the server documents it: what each element matches.
\<close>

datatype like_elem = LChar char | LAny | LOne | LClass

fun like_read :: "string \<Rightarrow> like_elem list" where
  "like_read [] = []"
| "like_read (c # t) =
     (if c = bslash then (case t of [] \<Rightarrow> [] | d # t' \<Rightarrow> LChar d # like_read t')
      else (if c = CHR ''%'' then LAny else if c = CHR ''_'' then LOne
            else if c = CHR ''['' then LClass else LChar c) # like_read t)"

text \<open>
  \<open>likeEscape\<close> takes every wildcard out: read with its ESCAPE clause, the escaped text
  matches literally the characters it was given, and nothing of it is a wildcard or a class;
  between the \<open>%\<close> signs the listings add, it is the literal text they search for.
\<close>

theorem likeEscape_literal:
  "like_read (''%'' @ likeEscape s @ ''%'') = LAny # map LChar s @ [LAny]"
proof -
  have "like_read (likeEscape s @ t) = map LChar s @ like_read t" for t
    by (induction s) (auto simp: likeEscape_def char_consts)
  then show ?thesis by (simp add: bslash_def)
qed

section \<open>Server paths\<close>

lemma set_separators: "set separators = {CHR ''/'', bslash}"
  by (simp add: separators_def)

lemma contains_single: "contains s [c] \<longleftrightarrow> c \<in> set s"
  by (auto simp: contains_iff in_set_conv_decomp)

lemma has_suffix_single: "has_suffix s [c] \<longleftrightarrow> s \<noteq> [] \<and> last s = c"
  by (cases s rule: rev_cases) (auto simp: has_suffix_def)

definition bareName :: "string \<Rightarrow> bool" where
  "bareName f \<longleftrightarrow> bslash \<notin> set f \<and> CHR ''/'' \<notin> set f"

lemma bareName_disjoint: "bareName f \<longleftrightarrow> set f \<inter> set separators = {}"
  by (auto simp: bareName_def set_separators)

lemma join_shape:
  "dir \<noteq> [] \<Longrightarrow> \<exists>d c. JoinServerPath dir file = d @ c # file \<and> c \<in> set separators \<and>
     (d @ [c] = dir \<or> d = dir \<and> c = hd (serverPathSeparator dir) \<and>
        \<not> (has_suffix dir [bslash] \<or> has_suffix dir ''/''))"
  by (cases dir rule: rev_cases)
    (auto simp: JoinServerPath_def has_suffix_single set_separators serverPathSeparator_def)

lemma base_append: "c \<in> set separators \<Longrightarrow> bareName f \<Longrightarrow> ServerPathBase (d @ c # f) = f"
  by (simp add: ServerPathBase_def bareName_disjoint last_index_any_append)

lemma base_bare: "bareName f \<Longrightarrow> ServerPathBase f = f"
proof -
  assume "bareName f"
  then have "last_index_any f separators = None" by (simp add: bareName_disjoint last_index_any_None)
  then show ?thesis by (simp add: ServerPathBase_def)
qed

lemma ServerPathBase_join: "bareName f \<Longrightarrow> ServerPathBase (JoinServerPath d f) = f"
proof (cases "d = []")
  case False
  assume f: "bareName f"
  from join_shape [OF False, of f] obtain e c where
    "JoinServerPath d f = e @ c # f" "c \<in> set separators" by blast
  with f show ?thesis by (simp add: base_append)
qed (simp add: JoinServerPath_def base_bare)

text \<open>
  The paths that split cleanly: before the last separator comes a root, or a directory that
  does not end in a separator and that uses the same kind.
\<close>

definition rootDir :: "string \<Rightarrow> bool" where
  "rootDir d \<longleftrightarrow> d = [] \<or> (length d = 2 \<and> d ! 1 = CHR '':'')"

definition cleanSplit :: "string \<Rightarrow> bool" where
  "cleanSplit p \<longleftrightarrow>
     (case last_index_any p separators of
        None \<Rightarrow> True
      | Some i \<Rightarrow>
          (let d = take i p
           in rootDir d \<or> (last d \<notin> set separators \<and> (p ! i = bslash \<longleftrightarrow> bslash \<in> set d))))"

lemma take_split: "i < length p \<Longrightarrow> take i p @ p ! i # drop (Suc i) p = p"
  by (metis Cons_nth_drop_Suc append_take_drop_id)

lemma join_split_path: "JoinServerPath (ServerPathDir p) (ServerPathBase p) = p \<longleftrightarrow> cleanSplit p"
proof (cases "last_index_any p separators")
  case None
  then show ?thesis by (simp add: ServerPathDir_def ServerPathBase_def JoinServerPath_def cleanSplit_def)
next
  case (Some i)
  note i = last_index_any_Some [OF Some]
  obtain d c b where sp: "d = take i p" "c = p ! i" "b = drop (Suc i) p" by blast
  then have p: "p = d @ c # b" and t: "take (i + 1) p = d @ [c]" and l: "length d = i"
    using take_split [of i p] i by (simp_all add: take_Suc_conv_app_nth)
  have c: "c = CHR ''/'' \<or> c = bslash" using i sp by (auto simp: set_separators)
  have "ServerPathDir p = (if rootDir d then d @ [c] else d)" "ServerPathBase p = b"
    using Some sp t by (auto simp: ServerPathDir_def ServerPathBase_def rootDir_def Let_def)
  moreover have "cleanSplit p \<longleftrightarrow> rootDir d \<or> last d \<notin> set separators \<and> (c = bslash \<longleftrightarrow> bslash \<in> set d)"
    using Some sp by (simp add: cleanSplit_def Let_def)
  moreover have "JoinServerPath (d @ [c]) b = d @ c # b"
    using c by (auto simp: JoinServerPath_def has_suffix_single)
  moreover have "JoinServerPath d b = d @ c # b \<longleftrightarrow> last d \<notin> set separators \<and> (c = bslash \<longleftrightarrow> bslash \<in> set d)"
    if "\<not> rootDir d"
    using c that
    by (auto simp: JoinServerPath_def rootDir_def has_suffix_single set_separators serverPathSeparator_def
        contains_single bslash_def)
  ultimately show ?thesis using p by auto
qed

text \<open>
  Which server paths split and join back: joining \<open>ServerPathDir\<close> with \<open>ServerPathBase\<close> gives
  the path exactly when its last separator follows a root (nothing, or a drive letter) or a
  directory that ends in no separator and uses the same kind; and a bare file name joined to any
  directory is read back as the file.
\<close>

theorem server_path_splits:
  "(JoinServerPath (ServerPathDir p) (ServerPathBase p) = p \<longleftrightarrow> cleanSplit p) \<and>
   (bareName f \<longrightarrow> ServerPathBase (JoinServerPath d f) = f)"
  using join_split_path ServerPathBase_join by blast

lemma server_path_splits_witness:
  "ServerPathBase (JoinServerPath ''/var/opt'' ''a.bak'') = ''a.bak''"
  using server_path_splits [of "[]" "''a.bak''" "''/var/opt''"] by (simp add: bareName_def bslash_def)

text \<open>
  The documentation of \<open>ServerPathDir\<close> excepts only the paths that mix separators; a doubled
  separator, or a relative path with one backslash, does not join back either.
\<close>

lemma server_path_not_joined:
  "JoinServerPath (ServerPathDir ''a//b'') (ServerPathBase ''a//b'') = ''a/b''"
  "JoinServerPath (ServerPathDir (''a'' @ [bslash] @ ''b'')) (ServerPathBase (''a'' @ [bslash] @ ''b'')) = ''a/b''"
  by code_simp+

end
