(* ===== verification/Times.thy ===== *)
theory Times
  imports GoStrings
begin

text \<open>
  \<open>time.Time\<close>, as far as the program reads it: the clock of its own Location in nanoseconds since
  the start of year 1, and the offset of that Location from UTC.
\<close>

record gotime =
  tWall :: int
  tOffset :: int

definition instant :: "gotime \<Rightarrow> int" where
  "instant t = tWall t - tOffset t"

definition timeIsZero :: "gotime \<Rightarrow> bool" where
  "timeIsZero t \<longleftrightarrow> instant t = 0"

definition timeCompare :: "gotime \<Rightarrow> gotime \<Rightarrow> int" where
  "timeCompare a b = sgn (instant a - instant b)"

definition timeAfter :: "gotime \<Rightarrow> gotime \<Rightarrow> bool" where
  "timeAfter a b \<longleftrightarrow> instant b < instant a"

text \<open>The date of a clock in the Gregorian calendar, by its days since 1 January of year 1.\<close>

definition civil :: "int \<Rightarrow> int \<times> int \<times> int" where
  "civil days =
     (let z = days + 306;
          era = z div 146097;
          doe = z mod 146097;
          yoe = (doe - doe div 1460 + doe div 36524 - doe div 146096) div 365;
          doy = doe - (365 * yoe + yoe div 4 - yoe div 100);
          mp = (5 * doy + 2) div 153;
          d = doy - (153 * mp + 2) div 5 + 1;
          m = (if mp < 10 then mp + 3 else mp - 9)
      in (yoe + era * 400 + (if m \<le> 2 then 1 else 0), m, d))"

definition nsPerDay :: int where
  "nsPerDay = 86400000000000"

definition padded :: "nat \<Rightarrow> int \<Rightarrow> string" where
  "padded w n = (let s = nat_itoa (nat \<bar>n\<bar>) in (if n < 0 then ''-'' else []) @ replicate (w - length s) (CHR ''0'') @ s)"

definition dateText :: "gotime \<Rightarrow> string" where
  "dateText t =
     (case civil (tWall t div nsPerDay) of
        (y, m, d) \<Rightarrow> padded 4 y @ ''-'' @ padded 2 m @ ''-'' @ padded 2 d)"

definition clockText :: "gotime \<Rightarrow> string" where
  "clockText t =
     (let s = tWall t mod nsPerDay div 1000000000
      in padded 2 (s div 3600) @ '':'' @ padded 2 (s div 60 mod 60) @ '':'' @ padded 2 (s mod 60))"

text \<open>\<open>Format(time.DateTime)\<close> and the layout \<open>2006-01-02T15:04:05.000\<close>.\<close>

definition dateTime :: "gotime \<Rightarrow> string" where
  "dateTime t = dateText t @ '' '' @ clockText t"

definition dateTimeMillis :: "gotime \<Rightarrow> string" where
  "dateTimeMillis t = dateText t @ ''T'' @ clockText t @ ''.'' @ padded 3 (tWall t mod 1000000000 div 1000000)"

end
