(* ===== verification/BackupRestore.thy ===== *)
theory BackupRestore
  imports Clauses Names Times
begin

text \<open>
  BACKUP and RESTORE statements (\<open>backup.go\<close>, \<open>restore.go\<close>, \<open>backup_headers.go\<close>, the batches of
  \<open>server.go\<close> that need the database to themselves, and the types of \<open>types.go\<close>).
\<close>

section \<open>Types\<close>

type_synonym BackupAction = string

definition "BackupActionDatabase = ''DATABASE''"
definition "BackupActionLog = ''LOG''"
definition "BackupActionFiles = ''FILES''"
definition "BackupActionDifferential = ''DATABASE_DIFFERENTIAL''"

lemmas backup_actions = BackupActionDatabase_def BackupActionLog_def BackupActionFiles_def
  BackupActionDifferential_def

definition validBackupAction :: "BackupAction \<Rightarrow> bool" where
  "validBackupAction a \<longleftrightarrow>
     a \<in> {BackupActionDatabase, BackupActionLog, BackupActionFiles, BackupActionDifferential}"

type_synonym RestoreRecovery = string

definition "RestoreRecoveryDefault = ''''"
definition "RestoreWithRecovery = ''RECOVERY''"
definition "RestoreWithNoRecovery = ''NORECOVERY''"
definition "RestoreWithStandBy = ''STANDBY''"

lemmas recoveries = RestoreRecoveryDefault_def RestoreWithRecovery_def RestoreWithNoRecovery_def
  RestoreWithStandBy_def

definition validRecovery :: "RestoreRecovery \<Rightarrow> bool" where
  "validRecovery r \<longleftrightarrow>
     r \<in> {RestoreRecoveryDefault, RestoreWithRecovery, RestoreWithNoRecovery, RestoreWithStandBy}"

type_synonym BackupSetType = string

definition "BackupSetDatabase = ''Database''"
definition "BackupSetLog = ''Log''"
definition "BackupSetFile = ''File''"
definition "BackupSetDifferential = ''Differential''"
definition "BackupSetDifferentialFile = ''Differential File''"
definition "BackupSetPartial = ''Partial''"
definition "BackupSetDifferentialPartial = ''Differential Partial''"

lemmas backup_set_types = BackupSetDatabase_def BackupSetLog_def BackupSetFile_def
  BackupSetDifferential_def BackupSetDifferentialFile_def BackupSetPartial_def
  BackupSetDifferentialPartial_def

definition backupSetTypeFromHeader :: "int \<Rightarrow> BackupSetType" where
  "backupSetTypeFromHeader n =
     (if n = 1 then BackupSetDatabase else if n = 2 then BackupSetLog else if n = 4 then BackupSetFile
      else if n = 5 then BackupSetDifferential else if n = 6 then BackupSetDifferentialFile
      else if n = 7 then BackupSetPartial else if n = 8 then BackupSetDifferentialPartial else [])"

definition backupSetTypeFromHistory :: "string \<Rightarrow> BackupSetType" where
  "backupSetTypeFromHistory l =
     (if l = ''D'' then BackupSetDatabase else if l = ''L'' then BackupSetLog
      else if l = ''F'' then BackupSetFile else if l = ''I'' then BackupSetDifferential
      else if l = ''G'' then BackupSetDifferentialFile else if l = ''P'' then BackupSetPartial
      else if l = ''Q'' then BackupSetDifferentialPartial else [])"

definition IsDifferential :: "BackupSetType \<Rightarrow> bool" where
  "IsDifferential t \<longleftrightarrow>
     t = BackupSetDifferential \<or> t = BackupSetDifferentialFile \<or> t = BackupSetDifferentialPartial"

definition RestoreVerb :: "BackupSetType \<Rightarrow> BackupAction" where
  "RestoreVerb t = (if t = BackupSetLog then BackupActionLog else BackupActionDatabase)"

definition PlacesFiles :: "BackupSetType \<Rightarrow> bool" where
  "PlacesFiles t \<longleftrightarrow> t = BackupSetDatabase \<or> t = BackupSetPartial \<or> t = []"

section \<open>Targets\<close>

record BackupTarget =
  btName :: string
  btLogical :: bool
  btUrl :: bool

text \<open>
  \<open>strings.ToLower\<close> goes rune by rune, but no rune outside ASCII has a lower case in
  \<open>https://\<close>, so the test of the prefix needs the ASCII letters only.
\<close>

definition IsBackupURL :: "string \<Rightarrow> bool" where
  "IsBackupURL device \<longleftrightarrow>
     (let d = map lower_char (trim_space device)
      in has_prefix d ''https://'' \<or> has_prefix d ''http://'')"

definition deviceClause :: "string \<Rightarrow> bool \<Rightarrow> string" where
  "deviceClause name isURL =
     (if isURL then ''URL'' else ''DISK'') @ '' = N'' @ [squote] @ escapeSingle name @ [squote]"

definition DiskTarget :: "string \<Rightarrow> BackupTarget" where
  "DiskTarget path = \<lparr>btName = path, btLogical = False, btUrl = IsBackupURL path\<rparr>"

definition URLTarget :: "string \<Rightarrow> BackupTarget" where
  "URLTarget url = \<lparr>btName = url, btLogical = False, btUrl = True\<rparr>"

definition DeviceTarget :: "string \<Rightarrow> BackupTarget" where
  "DeviceTarget name = \<lparr>btName = name, btLogical = True, btUrl = False\<rparr>"

definition targetClause :: "BackupTarget \<Rightarrow> string" where
  "targetClause t = (if btLogical t then QuoteName (btName t) else deviceClause (btName t) (btUrl t))"

fun unnamedTarget :: "nat \<Rightarrow> BackupTarget list \<Rightarrow> nat option" where
  "unnamedTarget i [] = None"
| "unnamedTarget i (t # ts) = (if btName t = [] then Some (i + 1) else unnamedTarget (i + 1) ts)"

definition checkTargets :: "string \<Rightarrow> BackupTarget list \<Rightarrow> goerr option" where
  "checkTargets verb targets =
     (if targets = [] then Some (invalidf ''gosmo: %s: at least one device is required'' [AText verb])
      else case unnamedTarget 0 targets of
        Some i \<Rightarrow> Some (invalidf ''gosmo: %s: device %d has no name'' [AText verb, ANum (int i)])
      | None \<Rightarrow> None)"

definition targetList :: "BackupTarget list \<Rightarrow> string" where
  "targetList targets = str_join '', '' (map targetClause targets)"

text \<open>\<open>fmt.Sprintf\<close> of a clause with one escaped string: \<open>kw N'...'\<close>.\<close>

definition nClause :: "string \<Rightarrow> string \<Rightarrow> string" where
  "nClause kw v = kw @ ''N'' @ [squote] @ escapeSingle v @ [squote]"

definition backupFileSpec :: "string \<Rightarrow> string list \<Rightarrow> string list \<Rightarrow> string res" where
  "backupFileSpec verb files fileGroups =
     (if files = [] \<and> fileGroups = []
      then Inl (invalidf ''gosmo: %s: action %s needs at least one file or filegroup''
             [AText verb, AText BackupActionFiles])
      else Inr (str_join '', '' (map (nClause ''FILE = '') files @ map (nClause ''FILEGROUP = '') fileGroups)))"

section \<open>BACKUP\<close>

record BackupOptions =
  boDatabase :: string
  boAction :: BackupAction
  boFiles :: "string list"
  boFileGroups :: "string list"
  boDevices :: "BackupTarget list"
  boBackupSetName :: string
  boDescription :: string
  boMediaDescription :: string
  boCompression :: "bool option"
  boCopyOnly :: bool
  boChecksum :: bool
  boFormat :: bool
  boInit :: bool
  boNoRecovery :: bool
  boNoTruncate :: bool
  boStats :: int
  boCredential :: string

text \<open>One element of \<open>withs\<close>, when its condition holds.\<close>

definition whenC :: "bool \<Rightarrow> 'a \<Rightarrow> 'a list" where
  "whenC b x = (if b then [x] else [])"

definition backupWiths :: "BackupOptions \<Rightarrow> string list" where
  "backupWiths q =
     whenC (boAction q = BackupActionDifferential) ''DIFFERENTIAL'' @
     whenC (boBackupSetName q \<noteq> []) (nClause ''NAME = '' (boBackupSetName q)) @
     whenC (boDescription q \<noteq> []) (nClause ''DESCRIPTION = '' (boDescription q)) @
     whenC (boMediaDescription q \<noteq> []) (nClause ''MEDIADESCRIPTION = '' (boMediaDescription q)) @
     whenC (boCredential q \<noteq> []) (nClause ''CREDENTIAL = '' (boCredential q)) @
     whenC (boCopyOnly q) ''COPY_ONLY'' @
     (case boCompression q of None \<Rightarrow> [] | Some b \<Rightarrow> [if b then ''COMPRESSION'' else ''NO_COMPRESSION'']) @
     whenC (boChecksum q) ''CHECKSUM'' @
     whenC (boFormat q) ''FORMAT'' @
     whenC (boInit q) ''INIT'' @
     whenC (boNoTruncate q) ''NO_TRUNCATE'' @
     whenC (boNoRecovery q) ''NORECOVERY'' @
     whenC (boStats q > 0) (''STATS = '' @ itoa (boStats q))"

text \<open>Neither DIFFERENTIAL nor FILES is a verb of its own.\<close>

definition verbOf :: "BackupAction \<Rightarrow> BackupAction" where
  "verbOf a = (if a = BackupActionDifferential \<or> a = BackupActionFiles then BackupActionDatabase else a)"

definition buildBackupStatement :: "BackupOptions \<Rightarrow> string res" where
  "buildBackupStatement opts =
     (if boDatabase opts = [] then Inl (invalidf ''gosmo: backup: database name is required'' [])
      else case checkTargets ''backup'' (boDevices opts) of Some e \<Rightarrow> Inl e
      | None \<Rightarrow>
        (let q = (if boAction opts = [] then opts\<lparr>boAction := BackupActionDatabase\<rparr> else opts)
         in if \<not> validBackupAction (boAction q)
            then Inl (invalidf ''gosmo: backup: unrecognized action %q'' [AText (boAction q)])
            else if (boNoRecovery q \<or> boNoTruncate q) \<and> boAction q \<noteq> BackupActionLog
            then Inl (invalidf ''gosmo: backup: NORECOVERY and NO_TRUNCATE are tail-log options, and the action is %s''
                   [AText (boAction q)])
            else res_bind
              (if boAction q = BackupActionFiles
               then res_bind (backupFileSpec ''backup'' (boFiles q) (boFileGroups q)) (\<lambda>spec. Inr ('' '' @ spec))
               else Inr [])
              (\<lambda>spec. Inr (''BACKUP '' @ verbOf (boAction q) @ '' '' @ QuoteName (boDatabase q) @ spec @
                 '' TO '' @ targetList (boDevices q) @
                 (if backupWiths q \<noteq> [] then '' WITH '' @ str_join '', '' (backupWiths q) else [])))))"

section \<open>Batches that need the database to themselves\<close>

text \<open>A string literal the program itself writes.\<close>

definition lit :: "string \<Rightarrow> string" where
  "lit s = ''N'' @ [squote] @ s @ [squote]"

definition alit :: "string \<Rightarrow> string" where
  "alit s = [squote] @ s @ [squote]"

definition databaseSessionPredicate :: string where
  "databaseSessionPredicate =
     ''s.is_user_process = 1 AND s.session_id <> @@SPID
  AND (s.database_id = @db OR s.session_id IN (
    SELECT l.request_session_id FROM sys.dm_tran_locks AS l
    WHERE l.resource_type = '' @ lit ''DATABASE'' @ '' AND l.resource_database_id = @db))''"

definition killDatabaseSessionsBatch :: "string \<Rightarrow> string" where
  "killDatabaseSessionsBatch name =
     ''DECLARE @db int = DB_ID('' @ QuoteLiteral name @ ''), @kill nvarchar(max) = '' @ lit [] @ '', @waits int = 0;
SELECT @kill += '' @ lit ''BEGIN TRY KILL '' @ '' + CAST(s.session_id AS nvarchar(10)) + '' @
       lit ''; END TRY BEGIN CATCH END CATCH; '' @ ''
FROM sys.dm_exec_sessions AS s
WHERE '' @ databaseSessionPredicate @ '';
EXEC (@kill);
WHILE @waits < 150 AND EXISTS (
    SELECT 1 FROM sys.dm_exec_sessions AS s
    WHERE '' @ databaseSessionPredicate @ '')
BEGIN
    WAITFOR DELAY '' @ alit ''00:00:00.200'' @ '';
    SET @waits += 1;
END''"

definition captureAccessMode :: "string \<Rightarrow> string" where
  "captureAccessMode name =
     ''DECLARE @access nvarchar(60) = (SELECT user_access_desc FROM sys.databases WHERE name = '' @
     QuoteLiteral name @ '');''"

definition releaseAccessMode :: "string \<Rightarrow> string \<Rightarrow> string" where
  "releaseAccessMode db indent =
     ''IF @access = '' @ lit ''RESTRICTED_USER'' @ '' ALTER DATABASE '' @ db @ '' SET RESTRICTED_USER;
'' @ indent @ ''ELSE IF ISNULL(@access, '' @ lit [] @ '') <> '' @ lit ''SINGLE_USER'' @
     '' ALTER DATABASE '' @ db @ '' SET MULTI_USER;''"

definition restoreOnline :: "string \<Rightarrow> string \<Rightarrow> string" where
  "restoreOnline name access =
     ''EXISTS (SELECT 1 FROM sys.databases WHERE name = '' @ QuoteLiteral name @
     '' AND state = 0 AND is_in_standby = 0'' @
     (if access \<noteq> [] then '' AND user_access_desc = '' @ QuoteLiteral access else []) @ '')''"

definition standbyTest :: "string \<Rightarrow> string" where
  "standbyTest name =
     ''EXISTS (SELECT 1 FROM sys.databases WHERE name = '' @ QuoteLiteral name @
     '' AND state = 0 AND is_in_standby = 1)''"

definition singleUserState :: "string \<Rightarrow> string" where
  "singleUserState name =
     ''EXISTS (SELECT 1 FROM sys.databases WHERE name = '' @ QuoteLiteral name @
     '' AND state IN (0, 5) AND is_in_standby = 0)''"

definition fromMaster :: "string \<Rightarrow> string" where
  "fromMaster stmt = ''USE [master];
'' @ stmt"

definition exclusiveBatch :: "string \<Rightarrow> string \<Rightarrow> string" where
  "exclusiveBatch name op =
     (let db = QuoteName name
      in captureAccessMode name @ ''
DECLARE @closed bit = 0, @run bit = 0;
IF '' @ singleUserState name @ ''
BEGIN
    ALTER DATABASE '' @ db @ '' SET SINGLE_USER WITH ROLLBACK IMMEDIATE;
    IF @@ERROR = 0 SELECT @closed = 1, @run = 1;
END
ELSE IF '' @ standbyTest name @ ''
BEGIN
'' @ killDatabaseSessionsBatch name @ '';
    SET @run = 1;
END
ELSE SET @run = 1;
IF @run = 1
BEGIN TRY
    '' @ op @ '';
END TRY
BEGIN CATCH
    IF @closed = 1 AND DB_ID('' @ QuoteLiteral name @ '') IS NOT NULL
    BEGIN
        '' @ releaseAccessMode db ''        '' @ ''
    END;
    THROW;
END CATCH;'')"

definition renameExclusiveBatch :: "string \<Rightarrow> string \<Rightarrow> string" where
  "renameExclusiveBatch oldName newName =
     captureAccessMode oldName @ ''
DECLARE @closed bit = 0;
ALTER DATABASE '' @ QuoteName oldName @ '' SET SINGLE_USER WITH ROLLBACK IMMEDIATE;
IF @@ERROR = 0 SET @closed = 1;
IF @closed = 1
BEGIN
    BEGIN TRY
        ALTER DATABASE '' @ QuoteName oldName @ '' MODIFY NAME = '' @ QuoteName newName @ '';
    END TRY
    BEGIN CATCH
        '' @ releaseAccessMode (QuoteName oldName) ''        '' @ ''
        THROW;
    END CATCH;
    '' @ releaseAccessMode (QuoteName newName) ''    '' @ ''
END;''"

section \<open>RESTORE\<close>

record RelocateFile =
  rfLogicalName :: string
  rfPhysicalName :: string

record RestoreOptions =
  roDatabase :: string
  roAction :: BackupAction
  roFiles :: "string list"
  roFileGroups :: "string list"
  roDevices :: "BackupTarget list"
  roFileNumber :: int
  roRelocateFiles :: "RelocateFile list"
  roRecovery :: RestoreRecovery
  roStandByFile :: string
  roCloseExistingConnections :: bool
  roReplace :: bool
  roChecksum :: bool
  roStats :: int
  roCredential :: string
  roStopAt :: "gotime option"

definition moveClause :: "RelocateFile \<Rightarrow> string" where
  "moveClause rf = nClause ''MOVE '' (rfLogicalName rf) @ nClause '' TO '' (rfPhysicalName rf)"

definition restoreWiths :: "RestoreOptions \<Rightarrow> string list" where
  "restoreWiths q =
     whenC (roFileNumber q > 0) (''FILE = '' @ itoa (roFileNumber q)) @
     map moveClause (roRelocateFiles q) @
     (if roRecovery q = RestoreWithRecovery \<or> roRecovery q = RestoreWithNoRecovery then [roRecovery q]
      else if roRecovery q = RestoreWithStandBy then [nClause ''STANDBY = '' (roStandByFile q)]
      else []) @
     whenC (roReplace q) ''REPLACE'' @
     whenC (roChecksum q) ''CHECKSUM'' @
     whenC (roCredential q \<noteq> []) (nClause ''CREDENTIAL = '' (roCredential q)) @
     whenC (roStats q > 0) (''STATS = '' @ itoa (roStats q)) @
     (case roStopAt q of None \<Rightarrow> [] | Some t \<Rightarrow> [''STOPAT = '' @ alit (dateTimeMillis t)])"

definition restoreText :: "RestoreOptions \<Rightarrow> string \<Rightarrow> string" where
  "restoreText q spec =
     ''RESTORE '' @ verbOf (roAction q) @ '' '' @ QuoteName (roDatabase q) @ spec @ ''
FROM '' @ targetList (roDevices q) @
     (if restoreWiths q \<noteq> [] then ''
WITH '' @ str_join '',
     '' (restoreWiths q) else [])"

definition restoreBatch :: "RestoreOptions \<Rightarrow> bool \<Rightarrow> string \<Rightarrow> string" where
  "restoreBatch q killSessions stmt =
     (if \<not> roCloseExistingConnections q then stmt
      else if killSessions then killDatabaseSessionsBatch (roDatabase q) @ '';
'' @ stmt @ '';''
      else captureAccessMode (roDatabase q) @ ''
DECLARE @closed bit = 0;
IF '' @ restoreOnline (roDatabase q) [] @ ''
BEGIN
    ALTER DATABASE '' @ QuoteName (roDatabase q) @ '' SET SINGLE_USER WITH ROLLBACK IMMEDIATE;
    IF @@ERROR = 0 SET @closed = 1;
END
ELSE IF '' @ standbyTest (roDatabase q) @ ''
BEGIN
'' @ killDatabaseSessionsBatch (roDatabase q) @ '';
END;
'' @ stmt @ '';
IF @closed = 1 AND '' @ restoreOnline (roDatabase q) ''SINGLE_USER'' @ ''
BEGIN
    '' @ releaseAccessMode (QuoteName (roDatabase q)) ''    '' @ ''
END;'')"

definition buildRestoreStatement :: "RestoreOptions \<Rightarrow> bool \<Rightarrow> string res" where
  "buildRestoreStatement opts killSessions =
     (if roDatabase opts = [] then Inl (invalidf ''gosmo: restore: database name is required'' [])
      else case checkTargets ''restore'' (roDevices opts) of Some e \<Rightarrow> Inl e
      | None \<Rightarrow>
        (let q = (if roAction opts = [] then opts\<lparr>roAction := BackupActionDatabase\<rparr> else opts)
         in if \<not> validBackupAction (roAction q)
            then Inl (invalidf ''gosmo: restore: unrecognized action %q'' [AText (roAction q)])
            else if \<not> validRecovery (roRecovery q)
            then Inl (invalidf ''gosmo: restore: unrecognized recovery %q'' [AText (roRecovery q)])
            else if (roRecovery q = RestoreWithStandBy) \<noteq> (roStandByFile q \<noteq> [])
            then Inl (invalidf ''gosmo: restore: a standby file goes with, and only with, RestoreWithStandBy'' [])
            else res_bind
              (if roAction q = BackupActionFiles
               then res_bind (backupFileSpec ''restore'' (roFiles q) (roFileGroups q)) (\<lambda>spec. Inr ('' '' @ spec))
               else Inr [])
              (\<lambda>spec. Inr (restoreBatch q killSessions (restoreText q spec)))))"

definition BuildRestoreStatement :: "bool \<Rightarrow> RestoreOptions \<Rightarrow> string res" where
  "BuildRestoreStatement refusesSingleUser opts =
     res_bind (buildRestoreStatement opts refusesSingleUser) (\<lambda>stmt. Inr (fromMaster stmt))"

section \<open>What the statements say\<close>

text \<open>The clauses as pieces.\<close>

definition nPieces :: "string \<Rightarrow> string \<Rightarrow> piece list" where
  "nPieces kw v = [Raw kw, NStr v]"

lemma render_nPieces [simp]: "render (nPieces kw v) = nClause kw v"
  by (simp add: nPieces_def nClause_def escapeSingle_def QuoteLiteral_def QuoteAnsiLiteral_def)

lemma nPieces_simps [simp]:
  "pieceVals (nPieces kw v) = [v]" "map blankPiece (nPieces kw v) = [Raw kw, NStr []]"
  "firstPieceD (nPieces kw v) d = firstOf kw (Some (CHR ''N''))"
  by (simp_all add: nPieces_def)

lemma okClause_nPieces:
  "(\<And>p. sepc p \<Longrightarrow> plain p kw (Some (CHR ''N''))) \<Longrightarrow> kw \<noteq> [] \<Longrightarrow> sepc (Some (last kw)) \<Longrightarrow> okClause (nPieces kw v)"
  by (rule okClauseI) (auto simp: nPieces_def lastOf_ne sepc_facts)

definition targetPieces :: "BackupTarget \<Rightarrow> piece list" where
  "targetPieces t =
     (if btLogical t then [Ident (btName t)]
      else nPieces (if btUrl t then ''URL = '' else ''DISK = '') (btName t))"

lemma render_targetPieces: "render (targetPieces t) = targetClause t"
  by (simp add: targetPieces_def targetClause_def deviceClause_def nClause_def)

lemma okClause_targetPieces: "okClause (targetPieces t)"
proof -
  have "okClause [Ident n]" for n by (rule okClauseI) (simp add: sepc_facts)
  then show ?thesis
    by (auto simp: targetPieces_def clause_simps intro!: okClause_nPieces)
qed

lemma sepText_comma: "sepText '', ''" "sepText '',
     ''"
  by (simp_all add: sepText_def char_consts)

definition targetListPieces :: "BackupTarget list \<Rightarrow> piece list" where
  "targetListPieces ts = joinPieces '', '' (map targetPieces ts)"

lemma render_targetList: "render (targetListPieces ts) = targetList ts"
  by (simp add: targetListPieces_def targetList_def render_join render_targetPieces o_def)

lemma okClause_targetList: "okClause (targetListPieces ts)"
  unfolding targetListPieces_def
  by (rule okClause_join [OF sepText_comma(1)]) (auto simp: okClause_targetPieces)

lemma pieceVals_targetList: "pieceVals (targetListPieces ts) = map btName ts"
proof -
  have "pieceVals (targetPieces t) = [btName t]" for t by (simp add: targetPieces_def)
  then show ?thesis by (simp add: targetListPieces_def pieceVals_join o_def)
qed

text \<open>The statement with every name and value masked: what is left is its shape.\<close>

definition masked :: "string \<Rightarrow> string" where
  "masked v = (if v = [] then [] else ''x'')"

lemma masked_eq [simp]: "masked v = [] \<longleftrightarrow> v = []"
  by (simp add: masked_def)

definition maskTarget :: "BackupTarget \<Rightarrow> BackupTarget" where
  "maskTarget t = t\<lparr>btName := masked (btName t)\<rparr>"

lemma blank_targetList: "map blankPiece (targetListPieces (map maskTarget ts)) = map blankPiece (targetListPieces ts)"
proof -
  have "map blankPiece (targetPieces (maskTarget t)) = map blankPiece (targetPieces t)" for t
    by (cases t) (simp add: targetPieces_def maskTarget_def)
  then show ?thesis by (simp add: targetListPieces_def blank_join o_def)
qed

lemma checkTargets_mask: "checkTargets v ts = None \<Longrightarrow> checkTargets v (map maskTarget ts) = None"
proof -
  have "unnamedTarget i (map maskTarget ts) = unnamedTarget i ts" for i ts
    by (induction ts arbitrary: i) (auto simp: maskTarget_def)
  then show "checkTargets v ts = None \<Longrightarrow> checkTargets v (map maskTarget ts) = None"
    by (auto simp: checkTargets_def split: if_splits option.splits)
qed

definition specPieces :: "string list \<Rightarrow> string list \<Rightarrow> piece list" where
  "specPieces files groups = joinPieces '', '' (map (nPieces ''FILE = '') files @ map (nPieces ''FILEGROUP = '') groups)"

lemma spec_facts:
  "backupFileSpec v files groups = Inr spec \<Longrightarrow> spec = render (specPieces files groups)"
  "okClause (specPieces files groups)"
  "pieceVals (specPieces files groups) = files @ groups"
  "map blankPiece (specPieces (map masked files) (map masked groups)) = map blankPiece (specPieces files groups)"
proof -
  show "backupFileSpec v files groups = Inr spec \<Longrightarrow> spec = render (specPieces files groups)"
    by (auto simp: backupFileSpec_def specPieces_def render_join o_def split: if_splits)
  have "okClause (nPieces ''FILE = '' f)" "okClause (nPieces ''FILEGROUP = '' f)" for f
    by (auto simp: clause_simps intro!: okClause_nPieces)
  then show "okClause (specPieces files groups)"
    unfolding specPieces_def by (intro okClause_join [OF sepText_comma(1)]) auto
  show "pieceVals (specPieces files groups) = files @ groups"
    by (simp add: specPieces_def pieceVals_join o_def)
  show "map blankPiece (specPieces (map masked files) (map masked groups)) = map blankPiece (specPieces files groups)"
    by (simp add: specPieces_def blank_join o_def)
qed

lemma spec_masked: "isOk (backupFileSpec v files groups) \<Longrightarrow> isOk (backupFileSpec v (map masked files) (map masked groups))"
  by (auto simp: backupFileSpec_def split: if_splits)

definition backupWithPieces :: "BackupOptions \<Rightarrow> piece list list" where
  "backupWithPieces q =
     whenC (boAction q = BackupActionDifferential) [Raw ''DIFFERENTIAL''] @
     whenC (boBackupSetName q \<noteq> []) (nPieces ''NAME = '' (boBackupSetName q)) @
     whenC (boDescription q \<noteq> []) (nPieces ''DESCRIPTION = '' (boDescription q)) @
     whenC (boMediaDescription q \<noteq> []) (nPieces ''MEDIADESCRIPTION = '' (boMediaDescription q)) @
     whenC (boCredential q \<noteq> []) (nPieces ''CREDENTIAL = '' (boCredential q)) @
     whenC (boCopyOnly q) [Raw ''COPY_ONLY''] @
     (case boCompression q of None \<Rightarrow> [] | Some b \<Rightarrow> [[Raw (if b then ''COMPRESSION'' else ''NO_COMPRESSION'')]]) @
     whenC (boChecksum q) [Raw ''CHECKSUM''] @
     whenC (boFormat q) [Raw ''FORMAT''] @
     whenC (boInit q) [Raw ''INIT''] @
     whenC (boNoTruncate q) [Raw ''NO_TRUNCATE''] @
     whenC (boNoRecovery q) [Raw ''NORECOVERY''] @
     whenC (boStats q > 0) [Raw (''STATS = '' @ itoa (boStats q))]"

lemma map_whenC [simp]: "map f (whenC b x) = whenC b (f x)"
  by (simp add: whenC_def)

lemma set_whenC [simp]: "x \<in> set (whenC b y) \<longleftrightarrow> b \<and> x = y"
  by (auto simp: whenC_def)

lemma concat_whenC [simp]: "concat (whenC b x) = (if b then x else [])"
  by (simp add: whenC_def)

lemma render_backupWiths: "map render (backupWithPieces q) = backupWiths q"
  by (simp add: backupWithPieces_def backupWiths_def split: option.split)

lemma okClause_raw: "(\<And>p d. sepc p \<Longrightarrow> sepc d \<Longrightarrow> plain p r d) \<Longrightarrow> okClause [Raw r]"
  by (rule okClauseI) simp

lemma okClause_number: "(\<And>p d. sepc p \<Longrightarrow> plain p kw (firstOf (itoa n) d)) \<Longrightarrow> okClause [Raw (kw @ itoa n)]"
  by (rule okClauseI) (simp add: plain_append)

lemma okClause_backupWiths: "c \<in> set (backupWithPieces q) \<Longrightarrow> okClause c"
  unfolding backupWithPieces_def
  by (auto simp: clause_simps split: option.splits
      intro!: okClause_nPieces okClause_raw okClause_number)

definition backupPieces :: "BackupOptions \<Rightarrow> piece list" where
  "backupPieces q =
     Raw ''BACKUP '' # Raw (verbOf (boAction q)) # Raw '' '' # Ident (boDatabase q) #
     (if boAction q = BackupActionFiles then Raw '' '' # specPieces (boFiles q) (boFileGroups q) else []) @
     Raw '' TO '' # targetListPieces (boDevices q) @
     (if backupWithPieces q \<noteq> [] then Raw '' WITH '' # joinPieces '', '' (backupWithPieces q) else [])"

lemma verbOf_valid: "validBackupAction a \<Longrightarrow> verbOf a = ''DATABASE'' \<or> verbOf a = ''LOG''"
  by (auto simp: validBackupAction_def verbOf_def backup_actions)

text \<open>The action an empty one stands for.\<close>

definition defaultAction :: "BackupAction \<Rightarrow> BackupAction" where
  "defaultAction a = (if a = [] then BackupActionDatabase else a)"

definition effBackup :: "BackupOptions \<Rightarrow> BackupOptions" where
  "effBackup q = q\<lparr>boAction := defaultAction (boAction q)\<rparr>"

lemma effBackup_eq: "(if boAction q = [] then q\<lparr>boAction := BackupActionDatabase\<rparr> else q) = effBackup q"
  by (simp add: effBackup_def defaultAction_def)

lemma effBackup_simps [simp]:
  "boDatabase (effBackup q) = boDatabase q" "boDevices (effBackup q) = boDevices q"
  "boFiles (effBackup q) = boFiles q" "boFileGroups (effBackup q) = boFileGroups q"
  "boNoRecovery (effBackup q) = boNoRecovery q" "boNoTruncate (effBackup q) = boNoTruncate q"
  "boAction (effBackup q) = defaultAction (boAction q)"
  by (simp_all add: effBackup_def)

text \<open>Exactly when a statement is built, and its text.\<close>

definition backupAccepted :: "BackupOptions \<Rightarrow> bool" where
  "backupAccepted q \<longleftrightarrow>
     boDatabase q \<noteq> [] \<and> boDevices q \<noteq> [] \<and> (\<forall>t \<in> set (boDevices q). btName t \<noteq> []) \<and>
     validBackupAction (defaultAction (boAction q)) \<and>
     (boNoRecovery q \<or> boNoTruncate q \<longrightarrow> boAction q = BackupActionLog) \<and>
     (boAction q = BackupActionFiles \<longrightarrow> boFiles q \<noteq> [] \<or> boFileGroups q \<noteq> [])"

lemma unnamedTarget_None: "unnamedTarget i ts = None \<longleftrightarrow> (\<forall>t \<in> set ts. btName t \<noteq> [])"
  by (induction ts arbitrary: i) auto

lemma checkTargets_None: "checkTargets v ts = None \<longleftrightarrow> ts \<noteq> [] \<and> (\<forall>t \<in> set ts. btName t \<noteq> [])"
  by (auto simp: checkTargets_def unnamedTarget_None [symmetric, where i = 0] split: option.splits)

lemma checkTargets_invalid: "checkTargets v ts = Some e \<Longrightarrow> errors_is e ErrInvalidRequest"
  by (auto simp: checkTargets_def split: if_splits option.splits)

lemma spec_Inr: "isOk (backupFileSpec v fs gs) \<longleftrightarrow> fs \<noteq> [] \<or> gs \<noteq> []"
  by (auto simp: backupFileSpec_def)

lemma backupFileSpec_eq:
  "fs \<noteq> [] \<or> gs \<noteq> [] \<Longrightarrow> backupFileSpec v fs gs = Inr (render (specPieces fs gs))"
  using spec_facts(1) spec_Inr by (metis isOk_iff)

lemma defaultAction_eq:
  "defaultAction a = BackupActionLog \<longleftrightarrow> a = BackupActionLog"
  "defaultAction a = BackupActionFiles \<longleftrightarrow> a = BackupActionFiles"
  by (auto simp: defaultAction_def backup_actions)

lemma backup_text:
  "backupAccepted q \<Longrightarrow> buildBackupStatement q = Inr (render (backupPieces (effBackup q)))"
proof -
  assume a: "backupAccepted q"
  then have c: "checkTargets ''backup'' (boDevices q) = None" by (simp add: backupAccepted_def checkTargets_None)
  have "backupWiths (effBackup q) \<noteq> [] \<longleftrightarrow> backupWithPieces (effBackup q) \<noteq> []"
    using render_backupWiths [of "effBackup q"] by (metis map_is_Nil_conv)
  then show ?thesis
    using a c unfolding buildBackupStatement_def effBackup_eq Let_def
    by (auto simp: backupAccepted_def defaultAction_eq backupFileSpec_eq backupPieces_def render_targetList
        render_join render_backupWiths)
qed

lemma backup_refused:
  assumes "\<not> backupAccepted q"
  shows "\<exists>e. buildBackupStatement q = Inl e \<and> errors_is e ErrInvalidRequest"
proof (cases "boDatabase q = []")
  case db: False
  show ?thesis
  proof (cases "checkTargets ''backup'' (boDevices q)")
    case None
    then have "\<not> (validBackupAction (defaultAction (boAction q)) \<and>
        (boNoRecovery q \<or> boNoTruncate q \<longrightarrow> boAction q = BackupActionLog) \<and>
        (boAction q = BackupActionFiles \<longrightarrow> boFiles q \<noteq> [] \<or> boFileGroups q \<noteq> []))"
      using assms db checkTargets_None by (auto simp: backupAccepted_def)
    then show ?thesis
      using None db unfolding buildBackupStatement_def effBackup_eq Let_def
      by (auto simp: defaultAction_eq backupFileSpec_def)
  next
    case (Some e)
    then show ?thesis using db checkTargets_invalid [OF Some] by (simp add: buildBackupStatement_def)
  qed
qed (simp add: buildBackupStatement_def)

lemma wf_backupPieces:
  assumes "validBackupAction (boAction q)"
  shows "wfPieces None (backupPieces q)"
proof -
  have w: "okClause (joinPieces '', '' (backupWithPieces q))"
    by (rule okClause_join [OF sepText_comma(1)]) (auto simp: okClause_backupWiths)
  show ?thesis
    using verbOf_valid [OF assms] unfolding wfD_None [symmetric] backupPieces_def
    by (auto simp: clause_simps okClauseD [OF okClause_targetList] okClauseD [OF spec_facts(2)] okClauseD [OF w])
qed

definition backupShape :: "BackupOptions \<Rightarrow> BackupOptions" where
  "backupShape q = q\<lparr>
     boDatabase := masked (boDatabase q), boFiles := map masked (boFiles q),
     boFileGroups := map masked (boFileGroups q), boDevices := map maskTarget (boDevices q),
     boBackupSetName := masked (boBackupSetName q), boDescription := masked (boDescription q),
     boMediaDescription := masked (boMediaDescription q), boCredential := masked (boCredential q)\<rparr>"

text \<open>A value that is written when it is given.\<close>

definition given :: "string \<Rightarrow> string list" where
  "given v = whenC (v \<noteq> []) v"

lemma vals_whenC [simp]:
  "concat (map pieceVals (whenC (v \<noteq> []) (nPieces kw v))) = given v"
  "concat (map pieceVals (whenC c [Raw r])) = []"
  by (simp_all add: whenC_def given_def)

lemma blank_whenC [simp]:
  "map (map blankPiece) (whenC b c) = whenC b (map blankPiece c)"
  by (simp add: whenC_def)

definition backupValues :: "BackupOptions \<Rightarrow> string list" where
  "backupValues q =
     boDatabase q # (if boAction q = BackupActionFiles then boFiles q @ boFileGroups q else []) @
     map btName (boDevices q) @
     given (boBackupSetName q) @ given (boDescription q) @ given (boMediaDescription q) @ given (boCredential q)"

lemma backupWith_values:
  "concat (map pieceVals (backupWithPieces q)) =
   given (boBackupSetName q) @ given (boDescription q) @ given (boMediaDescription q) @ given (boCredential q)"
proof -
  have "concat (map pieceVals (case boCompression q of None \<Rightarrow> []
      | Some b \<Rightarrow> [[Raw (if b then ''COMPRESSION'' else ''NO_COMPRESSION'')]])) = []"
    by (cases "boCompression q") auto
  then show ?thesis by (simp add: backupWithPieces_def del: map_whenC)
qed

lemma backupWith_shape:
  "map (map blankPiece) (backupWithPieces (effBackup (backupShape q))) =
   map (map blankPiece) (backupWithPieces (effBackup q))"
  by (simp add: backupWithPieces_def effBackup_def backupShape_def del: map_whenC)

lemma backupPieces_values: "pieceVals (backupPieces (effBackup q)) = backupValues q"
proof -
  have "pieceVals (if ws \<noteq> [] then Raw '' WITH '' # joinPieces '', '' ws else []) = concat (map pieceVals ws)" for ws
    by (simp add: pieceVals_join)
  then show ?thesis
    by (simp add: backupPieces_def backupValues_def pieceVals_targetList spec_facts(3) backupWith_values
        defaultAction_eq) (simp add: effBackup_def)
qed

lemma backupPieces_shape:
  "map blankPiece (backupPieces (effBackup (backupShape q))) = map blankPiece (backupPieces (effBackup q))"
proof -
  let ?w = "\<lambda>ws. map blankPiece (if ws \<noteq> [] then Raw '' WITH '' # joinPieces '', '' ws else [])"
  have "?w ws = (if map (map blankPiece) ws \<noteq> [] then Raw '' WITH '' # joinPieces '', '' (map (map blankPiece) ws) else [])"
    for ws
    by (simp add: blank_join)
  then have "?w (backupWithPieces (effBackup (backupShape q))) = ?w (backupWithPieces (effBackup q))"
    by (simp only: backupWith_shape)
  then show ?thesis
    unfolding backupPieces_def map_append list.map
    by (simp only: effBackup_simps) (simp add: backupShape_def blank_targetList spec_facts(4))
qed

text \<open>
  A BACKUP statement is built exactly from options with a database, named devices, a known
  action, tail-log options on a log backup only and a file list for a file backup -- anything
  else is refused as an invalid request.  What is built says what was asked: its quoted texts are
  the names and values of the options, in order, nothing in it is left open, and everything else
  is the same whatever the names and values hold.
\<close>

theorem BackupStatement_faithful:
  "(if backupAccepted opts
    then \<exists>s s'. buildBackupStatement opts = Inr s \<and> quotedValues s = backupValues opts \<and> allClosed s \<and>
      buildBackupStatement (backupShape opts) = Inr s' \<and> skeleton s = skeleton s'
    else \<exists>e. buildBackupStatement opts = Inl e \<and> errors_is e ErrInvalidRequest)"
proof (cases "backupAccepted opts")
  case True
  then have "backupAccepted (backupShape opts)"
    by (auto simp: backupAccepted_def backupShape_def maskTarget_def)
  note b = backup_text [OF True] backup_text [OF this]
  have wf: "wfPieces None (backupPieces (effBackup q))" if "backupAccepted q" for q
    using that wf_backupPieces [of "effBackup q"] by (simp add: backupAccepted_def)
  note r = rendered [OF wf [OF True] refl] rendered [OF wf [OF \<open>backupAccepted (backupShape opts)\<close>] refl]
  show ?thesis
    using True b r pieceSkeleton_shape [OF backupPieces_shape [of opts]] by (simp add: backupPieces_values)
qed (use backup_refused in simp)

section \<open>The batches as pieces\<close>

lemma render_lits [simp]:
  "squote \<notin> set s \<Longrightarrow> render [NStr s] = lit s" "squote \<notin> set s \<Longrightarrow> render [AStr s] = alit s"
  by (simp_all add: lit_def alit_def QuoteLiteral_def QuoteAnsiLiteral_def)

lemma lits: "squote \<notin> set s \<Longrightarrow> QuoteLiteral s = lit s" "squote \<notin> set s \<Longrightarrow> QuoteAnsiLiteral s = alit s"
  by (simp_all add: lit_def alit_def QuoteLiteral_def QuoteAnsiLiteral_def)

definition sessionPieces :: "piece list" where
  "sessionPieces =
     [Raw ''s.is_user_process = 1 AND s.session_id <> @@SPID
  AND (s.database_id = @db OR s.session_id IN (
    SELECT l.request_session_id FROM sys.dm_tran_locks AS l
    WHERE l.resource_type = '', NStr ''DATABASE'', Raw '' AND l.resource_database_id = @db))'']"

lemma render_session: "render sessionPieces = databaseSessionPredicate"
  by (simp add: sessionPieces_def databaseSessionPredicate_def lits char_consts)

definition killPieces :: "string \<Rightarrow> piece list" where
  "killPieces name =
     [Raw ''DECLARE @db int = DB_ID('', NStr name, Raw ''), @kill nvarchar(max) = '', NStr [], Raw '', @waits int = 0;
SELECT @kill += '', NStr ''BEGIN TRY KILL '', Raw '' + CAST(s.session_id AS nvarchar(10)) + '',
      NStr ''; END TRY BEGIN CATCH END CATCH; '', Raw ''
FROM sys.dm_exec_sessions AS s
WHERE ''] @ sessionPieces @ [Raw '';
EXEC (@kill);
WHILE @waits < 150 AND EXISTS (
    SELECT 1 FROM sys.dm_exec_sessions AS s
    WHERE ''] @ sessionPieces @ [Raw '')
BEGIN
    WAITFOR DELAY '', AStr ''00:00:00.200'', Raw '';
    SET @waits += 1;
END'']"

lemma render_kill: "render (killPieces name) = killDatabaseSessionsBatch name"
  by (simp add: killPieces_def killDatabaseSessionsBatch_def render_session lits char_consts)

lemma okClause_session: "okClause sessionPieces"
  by (rule okClauseI) (simp add: sessionPieces_def clause_simps)

lemma okClause_kill: "okClause (killPieces name)"
  by (rule okClauseI) (simp add: killPieces_def sessionPieces_def clause_simps)

definition capturePieces :: "string \<Rightarrow> piece list" where
  "capturePieces name =
     [Raw ''DECLARE @access nvarchar(60) = (SELECT user_access_desc FROM sys.databases WHERE name = '', NStr name,
      Raw '');'']"

lemma render_capture: "render (capturePieces name) = captureAccessMode name"
  by (simp add: capturePieces_def captureAccessMode_def)

definition releasePieces :: "string \<Rightarrow> string \<Rightarrow> piece list" where
  "releasePieces name indent =
     [Raw ''IF @access = '', NStr ''RESTRICTED_USER'', Raw '' ALTER DATABASE '', Ident name, Raw '' SET RESTRICTED_USER;
'', Raw indent, Raw ''ELSE IF ISNULL(@access, '', NStr [], Raw '') <> '', NStr ''SINGLE_USER'',
      Raw '' ALTER DATABASE '', Ident name, Raw '' SET MULTI_USER;'']"

lemma render_release: "render (releasePieces name indent) = releaseAccessMode (QuoteName name) indent"
  by (simp add: releasePieces_def releaseAccessMode_def lits char_consts)

definition testPieces :: "string \<Rightarrow> string \<Rightarrow> piece list" where
  "testPieces name cond =
     [Raw ''EXISTS (SELECT 1 FROM sys.databases WHERE name = '', NStr name, Raw cond]"

lemma render_tests:
  "render (testPieces name '' AND state = 0 AND is_in_standby = 1)'') = standbyTest name"
  "render (testPieces name '' AND state IN (0, 5) AND is_in_standby = 0)'') = singleUserState name"
  "render (testPieces name '' AND state = 0 AND is_in_standby = 0)'') = restoreOnline name []"
  "access \<noteq> [] \<Longrightarrow> render (testPieces name '' AND state = 0 AND is_in_standby = 0 AND user_access_desc = '' @
     [NStr access, Raw '')'']) = restoreOnline name access"
  by (simp_all add: testPieces_def standbyTest_def singleUserState_def restoreOnline_def)

lemmas batch_pieces = capturePieces_def releasePieces_def testPieces_def

definition exclusivePieces :: "string \<Rightarrow> piece list \<Rightarrow> piece list" where
  "exclusivePieces name op =
     capturePieces name @ [Raw ''
DECLARE @closed bit = 0, @run bit = 0;
IF ''] @ testPieces name '' AND state IN (0, 5) AND is_in_standby = 0)'' @ [Raw ''
BEGIN
    ALTER DATABASE '', Ident name, Raw '' SET SINGLE_USER WITH ROLLBACK IMMEDIATE;
    IF @@ERROR = 0 SELECT @closed = 1, @run = 1;
END
ELSE IF ''] @ testPieces name '' AND state = 0 AND is_in_standby = 1)'' @ [Raw ''
BEGIN
''] @ killPieces name @ [Raw '';
    SET @run = 1;
END
ELSE SET @run = 1;
IF @run = 1
BEGIN TRY
    ''] @ op @ [Raw '';
END TRY
BEGIN CATCH
    IF @closed = 1 AND DB_ID('', NStr name, Raw '') IS NOT NULL
    BEGIN
        ''] @ releasePieces name ''        '' @ [Raw ''
    END;
    THROW;
END CATCH;'']"

lemma render_exclusive: "render (exclusivePieces name op) = exclusiveBatch name (render op)"
  by (simp add: exclusivePieces_def exclusiveBatch_def render_capture render_kill render_release render_tests Let_def)

lemma wf_exclusive:
  assumes "okClause op"
  shows "wfPieces None (exclusivePieces name op)"
  unfolding wfD_None [symmetric] exclusivePieces_def
  by (simp add: batch_pieces clause_simps okClauseD [OF okClause_kill] okClauseD [OF assms])

definition renamePieces :: "string \<Rightarrow> string \<Rightarrow> piece list" where
  "renamePieces old new =
     capturePieces old @ [Raw ''
DECLARE @closed bit = 0;
ALTER DATABASE '', Ident old, Raw '' SET SINGLE_USER WITH ROLLBACK IMMEDIATE;
IF @@ERROR = 0 SET @closed = 1;
IF @closed = 1
BEGIN
    BEGIN TRY
        ALTER DATABASE '', Ident old, Raw '' MODIFY NAME = '', Ident new, Raw '';
    END TRY
    BEGIN CATCH
        ''] @ releasePieces old ''        '' @ [Raw ''
        THROW;
    END CATCH;
    ''] @ releasePieces new ''    '' @ [Raw ''
END;'']"

lemma render_rename: "render (renamePieces old new) = renameExclusiveBatch old new"
  by (simp add: renamePieces_def renameExclusiveBatch_def render_capture render_release)

lemma wf_rename: "wfPieces None (renamePieces old new)"
  unfolding wfD_None [symmetric] renamePieces_def by (simp add: batch_pieces clause_simps)

section \<open>RESTORE statements\<close>

definition movePieces :: "RelocateFile \<Rightarrow> piece list" where
  "movePieces rf = nPieces ''MOVE '' (rfLogicalName rf) @ nPieces '' TO '' (rfPhysicalName rf)"

definition recoveryPieces :: "RestoreOptions \<Rightarrow> piece list list" where
  "recoveryPieces q =
     (if roRecovery q = RestoreWithRecovery \<or> roRecovery q = RestoreWithNoRecovery then [[Raw (roRecovery q)]]
      else if roRecovery q = RestoreWithStandBy then [nPieces ''STANDBY = '' (roStandByFile q)]
      else [])"

definition stopPieces :: "RestoreOptions \<Rightarrow> piece list list" where
  "stopPieces q = (case roStopAt q of None \<Rightarrow> [] | Some t \<Rightarrow> [[Raw ''STOPAT = '', AStr (dateTimeMillis t)]])"

definition restoreWithPieces :: "RestoreOptions \<Rightarrow> piece list list" where
  "restoreWithPieces q =
     whenC (roFileNumber q > 0) [Raw (''FILE = '' @ itoa (roFileNumber q))] @
     map movePieces (roRelocateFiles q) @
     recoveryPieces q @
     whenC (roReplace q) [Raw ''REPLACE''] @
     whenC (roChecksum q) [Raw ''CHECKSUM''] @
     whenC (roCredential q \<noteq> []) (nPieces ''CREDENTIAL = '' (roCredential q)) @
     whenC (roStats q > 0) [Raw (''STATS = '' @ itoa (roStats q))] @
     stopPieces q"

lemma itoa_chars: "set (itoa n) \<subseteq> {c. is_digit c} \<union> {CHR ''-''}"
  using nat_itoa_digits by (auto simp: itoa_def list_all_iff)

lemma padded_chars: "set (padded w n) \<subseteq> {c. is_digit c} \<union> {CHR ''-''}"
proof -
  have "is_digit (CHR ''0'')" by (simp add: is_digit_def)
  then show ?thesis using nat_itoa_digits by (auto simp: padded_def Let_def list_all_iff)
qed

lemma dateTimeMillis_noquote: "squote \<notin> set (dateTimeMillis t)"
proof -
  have p: "squote \<notin> set (padded w n)" for w n
    using padded_chars [of w n] by (auto simp: is_digit_def char_consts)
  have "squote \<notin> set (dateText t)" using p by (auto simp: dateText_def split: prod.split) (simp_all add: char_consts)
  moreover have "squote \<notin> set (clockText t)" using p by (auto simp: clockText_def Let_def char_consts)
  ultimately show ?thesis using p by (auto simp: dateTimeMillis_def char_consts)
qed

lemma render_restoreWiths: "map render (restoreWithPieces q) = restoreWiths q"
proof -
  have "map render (stopPieces q) = (case roStopAt q of None \<Rightarrow> [] | Some t \<Rightarrow> [''STOPAT = '' @ alit (dateTimeMillis t)])"
    by (cases "roStopAt q") (simp_all add: stopPieces_def lits dateTimeMillis_noquote)
  moreover have "map render (recoveryPieces q) =
      (if roRecovery q = RestoreWithRecovery \<or> roRecovery q = RestoreWithNoRecovery then [roRecovery q]
       else if roRecovery q = RestoreWithStandBy then [nClause ''STANDBY = '' (roStandByFile q)] else [])"
    by (simp add: recoveryPieces_def)
  moreover have "render (movePieces rf) = moveClause rf" for rf
    by (simp add: movePieces_def moveClause_def)
  ultimately show ?thesis by (simp add: restoreWithPieces_def restoreWiths_def)
qed

lemma okClause_move: "okClause (movePieces rf)"
  by (rule okClauseI) (simp add: movePieces_def nPieces_def clause_simps)

lemma okClause_restoreWiths: "c \<in> set (restoreWithPieces q) \<Longrightarrow> okClause c"
proof -
  have "c \<in> set (stopPieces q) \<Longrightarrow> okClause c"
    by (cases "roStopAt q") (auto simp: stopPieces_def okClause_def clause_simps)
  moreover have "c \<in> set (recoveryPieces q) \<Longrightarrow> okClause c"
    by (auto simp: recoveryPieces_def recoveries clause_simps intro!: okClause_nPieces okClause_raw split: if_splits)
  ultimately show "c \<in> set (restoreWithPieces q) \<Longrightarrow> okClause c"
    unfolding restoreWithPieces_def
    by (auto simp: clause_simps okClause_move intro!: okClause_nPieces okClause_raw okClause_number)
qed

definition restoreStmtPieces :: "RestoreOptions \<Rightarrow> piece list" where
  "restoreStmtPieces q =
     Raw ''RESTORE '' # Raw (verbOf (roAction q)) # Raw '' '' # Ident (roDatabase q) #
     (if roAction q = BackupActionFiles then Raw '' '' # specPieces (roFiles q) (roFileGroups q) else []) @
     Raw ''
FROM '' # targetListPieces (roDevices q) @
     (if restoreWithPieces q \<noteq> [] then Raw ''
WITH '' # joinPieces '',
     '' (restoreWithPieces q) else [])"

definition restorePieces :: "RestoreOptions \<Rightarrow> bool \<Rightarrow> piece list" where
  "restorePieces q kill =
     (let db = roDatabase q
      in if \<not> roCloseExistingConnections q then restoreStmtPieces q
         else if kill then killPieces db @ Raw '';
'' # restoreStmtPieces q @ [Raw '';'']
         else capturePieces db @ [Raw ''
DECLARE @closed bit = 0;
IF ''] @ testPieces db '' AND state = 0 AND is_in_standby = 0)'' @ [Raw ''
BEGIN
    ALTER DATABASE '', Ident db, Raw '' SET SINGLE_USER WITH ROLLBACK IMMEDIATE;
    IF @@ERROR = 0 SET @closed = 1;
END
ELSE IF ''] @ testPieces db '' AND state = 0 AND is_in_standby = 1)'' @ [Raw ''
BEGIN
''] @ killPieces db @ [Raw '';
END;
''] @ restoreStmtPieces q @ [Raw '';
IF @closed = 1 AND ''] @ testPieces db '' AND state = 0 AND is_in_standby = 0 AND user_access_desc = '' @
   [NStr ''SINGLE_USER'', Raw '')'', Raw ''
BEGIN
    ''] @ releasePieces db ''    '' @ [Raw ''
END;''])"

definition effRestore :: "RestoreOptions \<Rightarrow> RestoreOptions" where
  "effRestore q = q\<lparr>roAction := defaultAction (roAction q)\<rparr>"

lemma effRestore_eq: "(if roAction q = [] then q\<lparr>roAction := BackupActionDatabase\<rparr> else q) = effRestore q"
  by (simp add: effRestore_def defaultAction_def)

lemma effRestore_simps [simp]:
  "roDatabase (effRestore q) = roDatabase q" "roDevices (effRestore q) = roDevices q"
  "roFiles (effRestore q) = roFiles q" "roFileGroups (effRestore q) = roFileGroups q"
  "roRecovery (effRestore q) = roRecovery q" "roStandByFile (effRestore q) = roStandByFile q"
  "roCloseExistingConnections (effRestore q) = roCloseExistingConnections q"
  "roAction (effRestore q) = defaultAction (roAction q)"
  by (simp_all add: effRestore_def)

definition restoreAccepted :: "RestoreOptions \<Rightarrow> bool" where
  "restoreAccepted q \<longleftrightarrow>
     roDatabase q \<noteq> [] \<and> roDevices q \<noteq> [] \<and> (\<forall>t \<in> set (roDevices q). btName t \<noteq> []) \<and>
     validBackupAction (defaultAction (roAction q)) \<and> validRecovery (roRecovery q) \<and>
     (roRecovery q = RestoreWithStandBy \<longleftrightarrow> roStandByFile q \<noteq> []) \<and>
     (roAction q = BackupActionFiles \<longrightarrow> roFiles q \<noteq> [] \<or> roFileGroups q \<noteq> [])"

lemma restoreText_pieces:
  "restoreText q (if roAction q = BackupActionFiles then '' '' @ render (specPieces (roFiles q) (roFileGroups q)) else []) =
   render (restoreStmtPieces q)"
proof -
  have "restoreWiths q \<noteq> [] \<longleftrightarrow> restoreWithPieces q \<noteq> []"
    using render_restoreWiths [of q] by (metis map_is_Nil_conv)
  then show ?thesis
    by (simp add: restoreText_def restoreStmtPieces_def render_targetList render_join render_restoreWiths)
qed

lemma restoreBatch_pieces: "restoreBatch q kill (render (restoreStmtPieces q)) = render (restorePieces q kill)"
  using render_tests(4) [of "''SINGLE_USER''" "roDatabase q"]
  by (simp add: restoreBatch_def restorePieces_def Let_def render_kill render_capture render_release render_tests)

lemma restore_text:
  assumes a: "restoreAccepted q"
  shows "buildRestoreStatement q kill = Inr (render (restorePieces (effRestore q) kill))"
proof -
  have c: "checkTargets ''restore'' (roDevices q) = None" using a by (simp add: restoreAccepted_def checkTargets_None)
  show ?thesis
    using a c restoreText_pieces [of "effRestore q"] restoreBatch_pieces [of "effRestore q" kill]
    unfolding buildRestoreStatement_def effRestore_eq Let_def
    by (auto simp: restoreAccepted_def defaultAction_eq backupFileSpec_eq)
qed

lemma restore_refused:
  assumes "\<not> restoreAccepted q"
  shows "\<exists>e. buildRestoreStatement q kill = Inl e \<and> errors_is e ErrInvalidRequest"
proof (cases "roDatabase q = []")
  case db: False
  show ?thesis
  proof (cases "checkTargets ''restore'' (roDevices q)")
    case None
    then have "\<not> (validBackupAction (defaultAction (roAction q)) \<and> validRecovery (roRecovery q) \<and>
        (roRecovery q = RestoreWithStandBy \<longleftrightarrow> roStandByFile q \<noteq> []) \<and>
        (roAction q = BackupActionFiles \<longrightarrow> roFiles q \<noteq> [] \<or> roFileGroups q \<noteq> []))"
      using assms db checkTargets_None by (auto simp: restoreAccepted_def)
    then show ?thesis
      using None db unfolding buildRestoreStatement_def effRestore_eq Let_def
      by (auto simp: defaultAction_eq backupFileSpec_def)
  next
    case (Some e)
    then show ?thesis using db checkTargets_invalid [OF Some] by (simp add: buildRestoreStatement_def)
  qed
qed (simp add: buildRestoreStatement_def)

lemma okClause_restoreStmt:
  assumes "validBackupAction (roAction q)"
  shows "okClause (restoreStmtPieces q)"
proof -
  have w: "okClause (joinPieces '',
     '' (restoreWithPieces q))"
    by (rule okClause_join [OF sepText_comma(2)]) (auto simp: okClause_restoreWiths)
  show ?thesis
    using verbOf_valid [OF assms] unfolding restoreStmtPieces_def
    by (intro okClauseI)
      (auto simp: clause_simps okClauseD [OF okClause_targetList] okClauseD [OF spec_facts(2)] okClauseD [OF w])
qed

lemma wf_restorePieces:
  assumes "validBackupAction (roAction q)"
  shows "wfPieces None (restorePieces q kill)"
  unfolding wfD_None [symmetric] restorePieces_def
  by (simp add: Let_def batch_pieces clause_simps okClauseD [OF okClause_kill]
      okClauseD [OF okClause_restoreStmt [OF assms]])

definition restoreStmtValues :: "RestoreOptions \<Rightarrow> string list" where
  "restoreStmtValues q =
     roDatabase q # (if roAction q = BackupActionFiles then roFiles q @ roFileGroups q else []) @
     map btName (roDevices q) @
     concat (map (\<lambda>rf. [rfLogicalName rf, rfPhysicalName rf]) (roRelocateFiles q)) @
     (if roRecovery q = RestoreWithStandBy then [roStandByFile q] else []) @
     given (roCredential q) @
     (case roStopAt q of None \<Rightarrow> [] | Some t \<Rightarrow> [dateTimeMillis t])"

definition killValues :: "string \<Rightarrow> string list" where
  "killValues name =
     [name, [], ''BEGIN TRY KILL '', ''; END TRY BEGIN CATCH END CATCH; '', ''DATABASE'', ''DATABASE'', ''00:00:00.200'']"

definition releaseValues :: "string \<Rightarrow> string list" where
  "releaseValues name = [''RESTRICTED_USER'', name, [], ''SINGLE_USER'', name]"

definition restoreValues :: "RestoreOptions \<Rightarrow> bool \<Rightarrow> string list" where
  "restoreValues q kill =
     (let db = roDatabase q
      in if \<not> roCloseExistingConnections q then restoreStmtValues q
         else if kill then killValues db @ restoreStmtValues q
         else [db, db, db, db] @ killValues db @ restoreStmtValues q @
              [db, ''SINGLE_USER''] @ releaseValues db)"

definition maskMove :: "RelocateFile \<Rightarrow> RelocateFile" where
  "maskMove rf = rf\<lparr>rfLogicalName := masked (rfLogicalName rf), rfPhysicalName := masked (rfPhysicalName rf)\<rparr>"

definition restoreShape :: "RestoreOptions \<Rightarrow> RestoreOptions" where
  "restoreShape q = q\<lparr>
     roDatabase := masked (roDatabase q), roFiles := map masked (roFiles q),
     roFileGroups := map masked (roFileGroups q), roDevices := map maskTarget (roDevices q),
     roRelocateFiles := map maskMove (roRelocateFiles q), roStandByFile := masked (roStandByFile q),
     roCredential := masked (roCredential q)\<rparr>"

lemma restoreWith_values:
  "concat (map pieceVals (restoreWithPieces q)) =
   concat (map (\<lambda>rf. [rfLogicalName rf, rfPhysicalName rf]) (roRelocateFiles q)) @
     (if roRecovery q = RestoreWithStandBy then [roStandByFile q] else []) @
     given (roCredential q) @ (case roStopAt q of None \<Rightarrow> [] | Some t \<Rightarrow> [dateTimeMillis t])"
proof -
  have "concat (map pieceVals (stopPieces q)) = (case roStopAt q of None \<Rightarrow> [] | Some t \<Rightarrow> [dateTimeMillis t])"
    by (cases "roStopAt q") (simp_all add: stopPieces_def)
  moreover have "concat (map pieceVals (recoveryPieces q)) =
      (if roRecovery q = RestoreWithStandBy then [roStandByFile q] else [])"
    by (simp add: recoveryPieces_def recoveries)
  moreover have "pieceVals (movePieces rf) = [rfLogicalName rf, rfPhysicalName rf]" for rf
    by (simp add: movePieces_def)
  ultimately show ?thesis by (simp add: restoreWithPieces_def o_def del: map_whenC)
qed

lemma restoreWith_shape:
  "map (map blankPiece) (restoreWithPieces (effRestore (restoreShape q))) =
   map (map blankPiece) (restoreWithPieces (effRestore q))"
proof -
  have "map blankPiece (movePieces (maskMove rf)) = map blankPiece (movePieces rf)" for rf
    by (simp add: movePieces_def)
  then show ?thesis
    by (simp add: restoreWithPieces_def recoveryPieces_def stopPieces_def effRestore_def restoreShape_def
        o_def del: map_whenC)
qed

lemma restoreStmt_values: "pieceVals (restoreStmtPieces (effRestore q)) = restoreStmtValues q"
proof -
  have "pieceVals (if ws \<noteq> [] then Raw ''
WITH '' # joinPieces sep ws else []) = concat (map pieceVals ws)" for ws sep
    by (simp add: pieceVals_join)
  then show ?thesis
    by (simp add: restoreStmtPieces_def restoreStmtValues_def pieceVals_targetList spec_facts(3) restoreWith_values
        defaultAction_eq) (simp add: effRestore_def)
qed

lemma restoreStmt_shape:
  "map blankPiece (restoreStmtPieces (effRestore (restoreShape q))) = map blankPiece (restoreStmtPieces (effRestore q))"
proof -
  let ?w = "\<lambda>ws. map blankPiece (if ws \<noteq> [] then Raw ''
WITH '' # joinPieces '',
     '' ws else [])"
  have "?w ws = (if map (map blankPiece) ws \<noteq> [] then Raw ''
WITH '' # joinPieces '',
     '' (map (map blankPiece) ws) else [])" for ws
    by (simp add: blank_join)
  then have "?w (restoreWithPieces (effRestore (restoreShape q))) = ?w (restoreWithPieces (effRestore q))"
    by (simp only: restoreWith_shape)
  then show ?thesis
    unfolding restoreStmtPieces_def map_append list.map
    by (simp only: effRestore_simps) (simp add: restoreShape_def blank_targetList spec_facts(4))
qed

lemma restorePieces_values: "pieceVals (restorePieces (effRestore q) kill) = restoreValues q kill"
  by (simp add: restorePieces_def restoreValues_def Let_def restoreStmt_values batch_pieces killPieces_def
      sessionPieces_def killValues_def releaseValues_def)

lemma restorePieces_shape:
  "map blankPiece (restorePieces (effRestore (restoreShape q)) kill) = map blankPiece (restorePieces (effRestore q) kill)"
proof -
  have "roCloseExistingConnections (restoreShape q) = roCloseExistingConnections q" by (simp add: restoreShape_def)
  moreover have "map blankPiece (killPieces a) = map blankPiece (killPieces b)" for a b
    by (simp add: killPieces_def sessionPieces_def)
  ultimately show ?thesis
    by (simp add: restorePieces_def Let_def restoreStmt_shape batch_pieces)
qed

lemma wf_fromMaster:
  "wfPieces None ps \<Longrightarrow> (\<And>p. sepc p \<Longrightarrow> wfD p ps None) \<Longrightarrow>
   wfPieces None ([Raw ''USE '', Ident ''master'', Raw '';
''] @ ps)"
  unfolding wfD_None [symmetric] by (simp add: clause_simps)

lemma render_fromMaster: "fromMaster (render ps) = render ([Raw ''USE '', Ident ''master'', Raw '';
''] @ ps)"
  by (simp add: fromMaster_def QuoteName_def)

text \<open>
  C6: a RESTORE is built exactly from options with a database, named devices, a known action and
  recovery, a standby file just when the recovery asks for one and a file list for a file
  restore -- anything else is refused as an invalid request.  The batch says what was asked, also
  when it clears other sessions first: after the USE of master, its quoted texts are the names and
  values of the options and the constants of the batch, nothing is left open, and all the rest is
  the same whatever the names and values hold.
\<close>

theorem RestoreStatement_faithful:
  "(if restoreAccepted opts
    then \<exists>s s'. BuildRestoreStatement kill opts = Inr s \<and> quotedValues s = ''master'' # restoreValues opts kill \<and>
      allClosed s \<and> BuildRestoreStatement kill (restoreShape opts) = Inr s' \<and> skeleton s = skeleton s'
    else \<exists>e. BuildRestoreStatement kill opts = Inl e \<and> errors_is e ErrInvalidRequest)"
proof (cases "restoreAccepted opts")
  case True
  let ?pre = "[Raw ''USE '', Ident ''master'', Raw '';
'']"
  have a: "restoreAccepted (restoreShape opts)"
    using True by (auto simp: restoreAccepted_def restoreShape_def maskTarget_def)
  have wf: "wfPieces None (?pre @ restorePieces (effRestore q) kill)" if q: "restoreAccepted q" for q
  proof -
    have v: "validBackupAction (roAction (effRestore q))" using q by (simp add: restoreAccepted_def)
    have "wfD p (restorePieces (effRestore q) kill) None" if "sepc p" for p
      using that unfolding restorePieces_def
      by (simp add: Let_def batch_pieces clause_simps okClauseD [OF okClause_kill]
          okClauseD [OF okClause_restoreStmt [OF v]])
    then show ?thesis using wf_fromMaster wf_restorePieces [OF v] by blast
  qed
  have b: "BuildRestoreStatement kill q = Inr (render (?pre @ restorePieces (effRestore q) kill))"
    if "restoreAccepted q" for q
    using restore_text [OF that] render_fromMaster by (simp add: BuildRestoreStatement_def)
  note r = rendered [OF wf [OF True] refl] rendered [OF wf [OF a] refl]
  have "map blankPiece (?pre @ restorePieces (effRestore opts) kill) =
      map blankPiece (?pre @ restorePieces (effRestore (restoreShape opts)) kill)"
    using restorePieces_shape by simp
  from pieceSkeleton_shape [OF this] show ?thesis
    using True b [OF True] b [OF a] r by (simp add: restorePieces_values)
next
  case False
  then show ?thesis using restore_refused [of opts kill] by (auto simp: BuildRestoreStatement_def)
qed

text \<open>
  The batches that take a database for themselves -- a forced drop or detach around any
  statement, and a forced rename -- are well-formed text whatever the name holds: the names stand
  in them only as quoted names and literals, and nothing of the batch is left open or depends on
  them.
\<close>

theorem exclusive_batches_safe:
  "skeleton (renameExclusiveBatch old new) = skeleton (renameExclusiveBatch ''x'' ''y'') \<and>
   allClosed (renameExclusiveBatch old new) \<and>
   skeleton (exclusiveBatch name (''DROP DATABASE '' @ QuoteName name)) =
     skeleton (exclusiveBatch ''x'' (''DROP DATABASE '' @ QuoteName ''x'')) \<and>
   allClosed (exclusiveBatch name (''DROP DATABASE '' @ QuoteName name)) \<and>
   set (quotedValues (renameExclusiveBatch old new)) \<subseteq> {old, new, [], ''RESTRICTED_USER'', ''SINGLE_USER''}"
proof -
  have drop: "okClause [Raw ''DROP DATABASE '', Ident n]" for n
    by (rule okClauseI) (simp add: clause_simps)
  have e: "exclusiveBatch n (''DROP DATABASE '' @ QuoteName n) =
      render (exclusivePieces n [Raw ''DROP DATABASE '', Ident n])" for n
    by (simp add: render_exclusive)
  have s1: "map blankPiece (renamePieces old new) = map blankPiece (renamePieces ''x'' ''y'')"
    by (simp add: renamePieces_def batch_pieces)
  have s2: "map blankPiece (exclusivePieces name [Raw ''DROP DATABASE '', Ident name]) =
      map blankPiece (exclusivePieces ''x'' [Raw ''DROP DATABASE '', Ident ''x''])"
    by (simp add: exclusivePieces_def batch_pieces killPieces_def sessionPieces_def)
  have v: "set (pieceVals (renamePieces old new)) \<subseteq> {old, new, [], ''RESTRICTED_USER'', ''SINGLE_USER''}"
    by (simp add: renamePieces_def batch_pieces)
  show ?thesis
    using rendered [OF wf_rename render_rename [symmetric]] rendered [OF wf_exclusive [OF drop] e]
      pieceSkeleton_shape [OF s1] pieceSkeleton_shape [OF s2] v by simp
qed

end
