(* ===== verification/RestorePlan.thy ===== *)
theory RestorePlan
  imports BackupRestore
begin

text \<open>
  Restore planning (\<open>restore_plan.go\<close>): which backup sets restore a database to a point in time,
  and where a restore puts the files of a set.
\<close>

section \<open>Log sequence numbers\<close>

text \<open>\<open>strings.Compare\<close>, \<open>cmp.Compare\<close> and \<open>cmp.Or\<close> of two comparisons.\<close>

fun strings_compare :: "string \<Rightarrow> string \<Rightarrow> int" where
  "strings_compare [] [] = 0"
| "strings_compare [] (_ # _) = -1"
| "strings_compare (_ # _) [] = 1"
| "strings_compare (a # s) (b # t) =
     (if byte a < byte b then -1 else if byte b < byte a then 1 else strings_compare s t)"

definition cmp_int :: "int \<Rightarrow> int \<Rightarrow> int" where
  "cmp_int a b = sgn (a - b)"

definition cmp_or :: "int \<Rightarrow> int \<Rightarrow> int" where
  "cmp_or a b = (if a \<noteq> 0 then a else b)"

definition CompareLSN :: "string \<Rightarrow> string \<Rightarrow> int" where
  "CompareLSN a b =
     (let a = trim_left a ''0''; b = trim_left b ''0''
      in cmp_or (cmp_int (int (length a)) (int (length b))) (strings_compare a b))"

section \<open>Backup history\<close>

record BackupInfo =
  biDatabaseName :: string
  biBackupSetName :: string
  biDescription :: string
  biSetType :: BackupSetType
  biIsCopyOnly :: bool
  biBackupStart :: gotime
  biBackupFinish :: gotime
  biBackupSize :: int
  biDeviceName :: string
  biDevices :: "string list"
  biPosition :: int
  biBackupSetID :: int
  biMediaSetID :: int
  biMirrorCount :: int
  biUserName :: string
  biServerName :: string
  biDatabaseVersion :: int
  biCompatibilityLevel :: int
  biFirstLSN :: string
  biLastLSN :: string
  biBackupSetGUID :: string
  biDifferentialBaseGUID :: string

record BackupHeader =
  bhBackupName :: string
  bhDescription :: string
  bhSetType :: BackupSetType
  bhPosition :: int
  bhDatabaseName :: string
  bhServerName :: string
  bhBackupStart :: gotime
  bhBackupFinish :: gotime
  bhBackupSize :: int
  bhCompressedSize :: int
  bhCompressed :: bool
  bhHasChecksums :: bool
  bhIsCopyOnly :: bool
  bhDatabaseVersion :: int
  bhCompatibilityLevel :: int
  bhSoftwareVersionMajor :: int
  bhRecoveryModel :: string

definition setNumber :: "int \<Rightarrow> int" where
  "setNumber position = (if position > 1 then position else 0)"

definition headerSetNumber :: "BackupHeader \<Rightarrow> int" where
  "headerSetNumber h = setNumber (bhPosition h)"

definition infoSetNumber :: "BackupInfo \<Rightarrow> int" where
  "infoSetNumber b = setNumber (biPosition b)"

definition Restorable :: "BackupInfo \<Rightarrow> bool" where
  "Restorable b \<longleftrightarrow> trim_space (biDeviceName b) \<noteq> []"

definition BackupSetAt :: "BackupHeader list \<Rightarrow> int \<Rightarrow> BackupHeader option" where
  "BackupSetAt headers n = find (\<lambda>h. headerSetNumber h = n) headers"

section \<open>PlanRestore\<close>

definition wallClock :: "gotime \<Rightarrow> gotime" where
  "wallClock t = \<lparr>tWall = tWall t, tOffset = 0\<rparr>"

record RestorePlanOptions =
  rpStopAt :: "gotime option"
  rpTailLog :: bool

record Plan =
  planSets :: "BackupInfo list"
  planTailLog :: bool

definition newest :: "BackupInfo \<Rightarrow> BackupInfo \<Rightarrow> int" where
  "newest a b =
     cmp_or (timeCompare (biBackupFinish a) (biBackupFinish b)) (cmp_int (biBackupSetID a) (biBackupSetID b))"

text \<open>\<open>slices.MaxFunc\<close>: the first of the greatest elements.\<close>

definition maxFunc :: "('a \<Rightarrow> 'a \<Rightarrow> int) \<Rightarrow> 'a \<Rightarrow> 'a list \<Rightarrow> 'a" where
  "maxFunc c x xs = foldl (\<lambda>m y. if c y m > 0 then y else m) x xs"

text \<open>\<open>slices.SortStableFunc\<close>: equal elements keep their order.\<close>

fun insertBy :: "('a \<Rightarrow> 'a \<Rightarrow> int) \<Rightarrow> 'a \<Rightarrow> 'a list \<Rightarrow> 'a list" where
  "insertBy c x [] = [x]"
| "insertBy c x (y # ys) = (if c x y > 0 then y # insertBy c x ys else x # y # ys)"

definition sortStable :: "('a \<Rightarrow> 'a \<Rightarrow> int) \<Rightarrow> 'a list \<Rightarrow> 'a list" where
  "sortStable c xs = foldr (insertBy c) xs []"

text \<open>The sets the first loop keeps, for the instant \<open>by\<close> compares with.\<close>

definition byStop :: "gotime option \<Rightarrow> gotime \<Rightarrow> bool" where
  "byStop stopAt t \<longleftrightarrow>
     (case stopAt of None \<Rightarrow> True | Some s \<Rightarrow> \<not> timeAfter (wallClock t) (wallClock s))"

definition usable :: "BackupInfo \<Rightarrow> bool" where
  "usable b \<longleftrightarrow> \<not> (\<not> Restorable b \<or> timeIsZero (biBackupFinish b))"

definition isFull :: "gotime option \<Rightarrow> BackupInfo \<Rightarrow> bool" where
  "isFull st b \<longleftrightarrow> usable b \<and> biSetType b = BackupSetDatabase \<and> byStop st (biBackupFinish b)"

definition isDiff :: "gotime option \<Rightarrow> BackupInfo \<Rightarrow> bool" where
  "isDiff st b \<longleftrightarrow> usable b \<and> biSetType b = BackupSetDifferential \<and> byStop st (biBackupFinish b)"

definition isLog :: "BackupInfo \<Rightarrow> bool" where
  "isLog b \<longleftrightarrow> usable b \<and> biSetType b = BackupSetLog \<and>
     \<not> biIsCopyOnly b \<and> biFirstLSN b \<noteq> [] \<and> biLastLSN b \<noteq> []"

definition diffOf :: "BackupInfo \<Rightarrow> BackupInfo \<Rightarrow> bool" where
  "diffOf full d \<longleftrightarrow>
     \<not> (biIsCopyOnly full \<or> biBackupSetGUID full = [] \<or> biDifferentialBaseGUID d \<noteq> biBackupSetGUID full)"

definition continues :: "string \<Rightarrow> BackupInfo \<Rightarrow> bool" where
  "continues end_lsn l \<longleftrightarrow> CompareLSN (biFirstLSN l) end_lsn \<le> 0 \<and> CompareLSN end_lsn (biLastLSN l) < 0"

definition pastStop :: "gotime option \<Rightarrow> BackupInfo \<Rightarrow> bool" where
  "pastStop st l \<longleftrightarrow> (case st of None \<Rightarrow> False | Some s \<Rightarrow> timeAfter (wallClock (biBackupFinish l)) (wallClock s))"

definition logOrder :: "BackupInfo \<Rightarrow> BackupInfo \<Rightarrow> int" where
  "logOrder a b = cmp_or (CompareLSN (biFirstLSN a) (biFirstLSN b)) (newest a b)"

subsection \<open>CompareLSN is an order\<close>

text \<open>The value of a byte string in base 256.\<close>

definition base256 :: "string \<Rightarrow> nat" where
  "base256 s = foldl (\<lambda>a c. a * 256 + byte c) 0 s"

lemma base256_foldl: "foldl (\<lambda>a c. a * 256 + byte c) k s = k * 256 ^ length s + base256 s"
proof (induction s arbitrary: k)
  case (Cons c s)
  show ?case
    using Cons [of "k * 256 + byte c"] Cons [of "byte c"]
    by (simp add: base256_def algebra_simps)
qed (simp add: base256_def)

lemma base256_Cons: "base256 (c # s) = byte c * 256 ^ length s + base256 s"
  using base256_foldl [of "byte c" s] by (simp add: base256_def)

lemma base256_bound: "base256 s < 256 ^ length s"
proof (induction s)
  case (Cons c s)
  then show ?case using high_digit [OF byte_less, of "base256 s" "256 ^ length s" c 0] by (simp add: base256_Cons)
qed (simp add: base256_def)

lemma strings_compare_value:
  "length s = length t \<Longrightarrow> strings_compare s t = sgn (int (base256 s) - int (base256 t))"
proof (induction s t rule: strings_compare.induct)
  case (4 a s b t)
  then have l: "length s = length t" by simp
  consider "byte a < byte b" | "byte b < byte a" | "a = b" using byte_inject by (meson linorder_neqE_nat)
  then show ?case
  proof cases
    case 1
    from high_digit [OF 1 base256_bound [of s], of "base256 t"] have "base256 (a # s) < base256 (b # t)"
      unfolding base256_Cons l .
    with 1 show ?thesis by (simp add: sgn_if)
  next
    case 2
    from high_digit [OF 2 base256_bound [of t], of "base256 s"] have "base256 (b # t) < base256 (a # s)"
      unfolding base256_Cons l .
    with 2 show ?thesis by (simp add: sgn_if)
  next
    case 3
    then show ?thesis using 4 by (simp add: base256_Cons)
  qed
qed (simp_all add: base256_def)

definition lsnKey :: "string \<Rightarrow> nat \<times> nat" where
  "lsnKey s = (length (trim_left s ''0''), base256 (trim_left s ''0''))"

definition keyLess :: "nat \<times> nat \<Rightarrow> nat \<times> nat \<Rightarrow> bool" where
  "keyLess a b \<longleftrightarrow> fst a < fst b \<or> fst a = fst b \<and> snd a < snd b"

lemma CompareLSN_key:
  "CompareLSN a b = (if keyLess (lsnKey a) (lsnKey b) then -1 else if lsnKey a = lsnKey b then 0 else 1)"
  using strings_compare_value [of "trim_left a ''0''" "trim_left b ''0''"]
  by (auto simp: CompareLSN_def lsnKey_def keyLess_def cmp_or_def cmp_int_def Let_def sgn_if)

lemma keyLess_trans: "keyLess a b \<Longrightarrow> keyLess b c \<Longrightarrow> keyLess a c"
  by (auto simp: keyLess_def)

lemma keyLess_irrefl [simp]: "\<not> keyLess a a"
  by (simp add: keyLess_def)

lemma keyLess_total: "keyLess a b \<or> a = b \<or> keyLess b a"
  by (cases a; cases b) (auto simp: keyLess_def)

lemma CompareLSN_less: "CompareLSN a b < 0 \<longleftrightarrow> keyLess (lsnKey a) (lsnKey b)"
  by (auto simp: CompareLSN_key)

lemma CompareLSN_le: "CompareLSN a b \<le> 0 \<longleftrightarrow> \<not> keyLess (lsnKey b) (lsnKey a)"
  using keyLess_total [of "lsnKey a" "lsnKey b"] keyLess_trans [of "lsnKey b" "lsnKey a" "lsnKey b"]
  by (auto simp: CompareLSN_key)

subsection \<open>The log chain\<close>

text \<open>The loop of \<open>PlanRestore\<close>: the logs it appends, the last LSN, and whether the stop is inside.\<close>

function logChain :: "BackupInfo list \<Rightarrow> gotime option \<Rightarrow> string \<Rightarrow> BackupInfo list \<times> string \<times> bool" where
  "logChain logs st e =
     (if e = [] then ([], e, False)
      else case find (continues e) logs of
          None \<Rightarrow> ([], e, False)
        | Some l \<Rightarrow>
            (if pastStop st l then ([l], biLastLSN l, True)
             else (let (ls, e', r) = logChain logs st (biLastLSN l) in (l # ls, e', r))))"
  by pat_completeness auto
termination
proof (relation "measure (\<lambda>(logs, st, e). length (filter (\<lambda>l. CompareLSN e (biLastLSN l) < 0) logs))", simp)
  fix logs st e l
  assume "find (continues e) logs = Some l"
  then have l: "l \<in> set logs" "continues e l" by (auto simp: find_Some_iff)
  let ?f = "\<lambda>e. filter (\<lambda>l. CompareLSN e (biLastLSN l) < 0) logs"
  have sub: "set (?f (biLastLSN l)) \<subseteq> set (?f e)"
    using l(2) by (auto simp: continues_def CompareLSN_less intro: keyLess_trans)
  have "?f (biLastLSN l) = filter (\<lambda>k. CompareLSN (biLastLSN l) (biLastLSN k) < 0) (?f e)"
    using sub by (auto intro!: filter_cong)
  moreover have "l \<in> set (?f e)" "\<not> CompareLSN (biLastLSN l) (biLastLSN l) < 0"
    using l by (simp_all add: continues_def CompareLSN_less)
  ultimately have "length (?f (biLastLSN l)) < length (?f e)"
    using length_filter_less [of l "?f e" "\<lambda>k. CompareLSN (biLastLSN l) (biLastLSN k) < 0"] by simp
  then show "((logs, st, biLastLSN l), (logs, st, e)) \<in>
      measure (\<lambda>(logs, st, e). length (filter (\<lambda>l. CompareLSN e (biLastLSN l) < 0) logs))" by simp
qed

declare logChain.simps [simp del]

definition PlanRestore :: "BackupInfo list \<Rightarrow> RestorePlanOptions \<Rightarrow> Plan res" where
  "PlanRestore history opts =
     (let st = rpStopAt opts;
          fulls = filter (isFull st) history;
          diffs = filter (isDiff st) history;
          logs = filter isLog history
      in case fulls of
           [] \<Rightarrow>
             (case st of
                Some s \<Rightarrow> Inl (notFoundf ''gosmo: plan restore: no full database backup finished by %s''
                            [AText (dateTime (wallClock s))])
              | None \<Rightarrow> Inl (notFoundf ''gosmo: plan restore: no full database backup in the history'' []))
         | f # fs \<Rightarrow>
             (let full = maxFunc newest f fs;
                  ds = filter (diffOf full) diffs;
                  sets = full # (case ds of [] \<Rightarrow> [] | d # ds' \<Rightarrow> [maxFunc newest d ds']);
                  sorted = sortStable logOrder logs;
                  (chain, end_lsn, reached) = logChain sorted st (biLastLSN (last sets));
                  all = sets @ chain;
                  lst = last all;
                  atEnd = \<not> list_ex (\<lambda>l. CompareLSN (biLastLSN l) end_lsn > 0) sorted
              in if reached then Inr \<lparr>planSets = all, planTailLog = False\<rparr>
                 else if rpTailLog opts then
                   (if \<not> atEnd
                    then Inl (invalidf ''gosmo: plan restore: the log chain breaks after the %s backup finished %s, so a tail-log backup cannot follow it''
                      [AText (map lower_char (biSetType lst)), AText (dateTime (biBackupFinish lst))])
                    else Inr \<lparr>planSets = all, planTailLog = True\<rparr>)
                 else case st of
                   Some s \<Rightarrow>
                     Inl (invalidf ''gosmo: plan restore: %s is after the last backup in the chain, the %s backup finished %s; %s''
                       [AText (dateTime (wallClock s)), AText (map lower_char (biSetType lst)),
                        AText (dateTime (biBackupFinish lst)),
                        AText (if \<not> atEnd then ''the log chain breaks after it''
                               else ''take a tail-log backup to reach it'')])
                 | None \<Rightarrow> Inr \<lparr>planSets = all, planTailLog = False\<rparr>))"

section \<open>What a plan is\<close>

text \<open>
  The terms of a restore sequence, stated on their own: a log adjoins the point reached when it
  starts at or before it and ends after it.
\<close>

definition adjoins :: "string \<Rightarrow> BackupInfo \<Rightarrow> bool" where
  "adjoins e l \<longleftrightarrow> CompareLSN (biFirstLSN l) e \<le> 0 \<and> CompareLSN e (biLastLSN l) < 0"

definition finishedBy :: "gotime option \<Rightarrow> BackupInfo \<Rightarrow> bool" where
  "finishedBy st b \<longleftrightarrow> (case st of None \<Rightarrow> True | Some s \<Rightarrow> tWall (biBackupFinish b) \<le> tWall s)"

definition readable :: "BackupInfo \<Rightarrow> bool" where
  "readable b \<longleftrightarrow> trim_space (biDeviceName b) \<noteq> [] \<and> \<not> timeIsZero (biBackupFinish b)"

definition fullBy :: "gotime option \<Rightarrow> BackupInfo \<Rightarrow> bool" where
  "fullBy st b \<longleftrightarrow> readable b \<and> biSetType b = ''Database'' \<and> finishedBy st b"

definition differentialBy :: "gotime option \<Rightarrow> BackupInfo \<Rightarrow> BackupInfo \<Rightarrow> bool" where
  "differentialBy st full d \<longleftrightarrow> readable d \<and> biSetType d = ''Differential'' \<and> finishedBy st d \<and>
     \<not> biIsCopyOnly full \<and> biBackupSetGUID full \<noteq> [] \<and> biDifferentialBaseGUID d = biBackupSetGUID full"

definition chainLog :: "BackupInfo \<Rightarrow> bool" where
  "chainLog l \<longleftrightarrow> readable l \<and> biSetType l = ''Log'' \<and> \<not> biIsCopyOnly l \<and> biFirstLSN l \<noteq> [] \<and> biLastLSN l \<noteq> []"

text \<open>Each log adjoins the point reached by the one before; the point reached last.\<close>

fun chained :: "string \<Rightarrow> BackupInfo list \<Rightarrow> bool" where
  "chained e [] = True"
| "chained e (l # ls) = (e \<noteq> [] \<and> adjoins e l \<and> chained (biLastLSN l) ls)"

text \<open>These are the terms of the code.\<close>

lemma plan_terms:
  "adjoins = continues" "finishedBy st b = byStop st (biBackupFinish b)" "readable = usable"
  "fullBy = isFull" "differentialBy st full d \<longleftrightarrow> isDiff st d \<and> diffOf full d" "chainLog = isLog"
  by (auto simp: fun_eq_iff adjoins_def continues_def finishedBy_def byStop_def readable_def usable_def Restorable_def
      fullBy_def isFull_def differentialBy_def isDiff_def diffOf_def chainLog_def isLog_def wallClock_def timeAfter_def
      instant_def BackupSetDatabase_def BackupSetDifferential_def BackupSetLog_def split: option.splits)

lemma chained_code: "chained e (l # ls) = (e \<noteq> [] \<and> continues e l \<and> chained (biLastLSN l) ls)"
  by (simp add: plan_terms)

declare chained.simps(2) [simp del] chained_code [simp]

fun endOf :: "string \<Rightarrow> BackupInfo list \<Rightarrow> string" where
  "endOf e [] = e"
| "endOf e (l # ls) = endOf (biLastLSN l) ls"

lemma logChain_spec:
  "logChain logs st e = (ls, e', r) \<Longrightarrow>
     set ls \<subseteq> set logs \<and> chained e ls \<and> e' = endOf e ls \<and>
     (\<forall>l \<in> set (butlast ls). \<not> pastStop st l) \<and>
     (r \<longrightarrow> ls \<noteq> [] \<and> pastStop st (last ls)) \<and>
     (\<not> r \<longrightarrow> (\<forall>l \<in> set ls. \<not> pastStop st l) \<and> (e' \<noteq> [] \<longrightarrow> \<not> (\<exists>l \<in> set logs. continues e' l)))"
proof (induction logs st e arbitrary: ls e' r rule: logChain.induct)
  case (1 logs st e)
  show ?case
  proof (cases "e = [] \<or> find (continues e) logs = None")
    case True
    then have "logChain logs st e = ([], e, False)" by (auto simp: logChain.simps [of logs st e])
    then show ?thesis using "1.prems" True by (auto simp: find_None_iff)
  next
    case False
    then obtain l where l: "find (continues e) logs = Some l" "e \<noteq> []" by auto
    then have m: "l \<in> set logs" "continues e l" by (auto simp: find_Some_iff)
    show ?thesis
    proof (cases "pastStop st l")
      case True
      then show ?thesis using "1.prems" l m by (auto simp: logChain.simps [of logs st e])
    next
      case no: False
      obtain ks f q where rec: "logChain logs st (biLastLSN l) = (ks, f, q)" by (metis prod_cases3)
      then have eq: "ls = l # ks" "e' = f" "r = q"
        using "1.prems" l no by (auto simp: logChain.simps [of logs st e])
      from "1.IH" [OF _ _ no rec] l show ?thesis using eq no m l(2) by auto
    qed
  qed
qed

lemma chained_sorted: "chained e ls \<Longrightarrow> sorted_wrt (\<lambda>a b. CompareLSN (biLastLSN a) (biLastLSN b) < 0) ls"
proof -
  have gt: "chained e ls \<Longrightarrow> l \<in> set ls \<Longrightarrow> CompareLSN e (biLastLSN l) < 0" for e l ls
    by (induction e ls rule: chained.induct) (auto simp: continues_def CompareLSN_less intro: keyLess_trans)
  show "chained e ls \<Longrightarrow> sorted_wrt (\<lambda>a b. CompareLSN (biLastLSN a) (biLastLSN b) < 0) ls"
    by (induction e ls rule: chained.induct) (auto intro: gt)
qed

lemma insertBy_set [simp]: "set (insertBy c x xs) = insert x (set xs)"
  by (induction xs) auto

lemma sortStable_set [simp]: "set (sortStable c xs) = set xs"
  by (induction xs) (auto simp: sortStable_def)

lemma maxFunc_mem: "maxFunc c x xs \<in> insert x (set xs)"
  unfolding maxFunc_def by (induction xs arbitrary: x) (auto simp: split: if_splits, blast?)

lemma newest_key:
  "newest a b = (let k = (\<lambda>b. (instant (biBackupFinish b), biBackupSetID b)) in
     if k a = k b then 0 else if fst (k a) < fst (k b) \<or> fst (k a) = fst (k b) \<and> snd (k a) < snd (k b) then -1 else 1)"
  by (auto simp: newest_def cmp_or_def timeCompare_def cmp_int_def sgn_if)

lemma newest_total: "newest a b \<le> 0 \<or> newest b a \<le> 0"
  by (auto simp: newest_key Let_def)

lemma newest_trans: "newest a b \<le> 0 \<Longrightarrow> newest b c \<le> 0 \<Longrightarrow> newest a c \<le> 0"
  by (auto simp: newest_key Let_def split: if_splits)

lemma newest_refl [simp]: "newest a a = 0"
  by (simp add: newest_key)

lemma maxFunc_newest: "y \<in> insert x (set xs) \<Longrightarrow> newest y (maxFunc newest x xs) \<le> 0"
proof (induction xs arbitrary: x y)
  case (Cons z xs)
  let ?m = "if newest z x > 0 then z else x"
  have "newest x ?m \<le> 0" "newest z ?m \<le> 0" using newest_total by (auto simp: not_less) (meson not_less)+
  moreover have "newest ?m (maxFunc newest ?m xs) \<le> 0" using Cons.IH by blast
  moreover have "maxFunc newest x (z # xs) = maxFunc newest ?m xs" by (simp add: maxFunc_def)
  ultimately show ?case using Cons newest_trans by (metis insert_iff list.simps(15))
qed (simp add: maxFunc_def)

text \<open>
  What \<open>planFor history opts plan\<close> says: the sets are the newest full backup finished by the
  stop, the newest differential taken against it and finished by the stop if there is one, and an
  unbroken chain of logs; no log but the last finished after the stop; and the plan ends where it
  should: inside a log holding the stop, or where no log goes on.
\<close>

definition noLater :: "BackupInfo \<Rightarrow> BackupInfo \<Rightarrow> bool" where
  "noLater a b \<longleftrightarrow> (let t = (\<lambda>b. instant (biBackupFinish b)) in
     t a < t b \<or> t a = t b \<and> biBackupSetID a \<le> biBackupSetID b)"

lemma noLater_code: "noLater a b \<longleftrightarrow> newest a b \<le> 0"
  by (auto simp: noLater_def newest_key Let_def)

definition newestOf :: "BackupInfo \<Rightarrow> (BackupInfo \<Rightarrow> bool) \<Rightarrow> BackupInfo list \<Rightarrow> bool" where
  "newestOf b P history \<longleftrightarrow> b \<in> set history \<and> P b \<and> (\<forall>a \<in> set history. P a \<longrightarrow> noLater a b)"

definition planFor :: "BackupInfo list \<Rightarrow> RestorePlanOptions \<Rightarrow> Plan \<Rightarrow> bool" where
  "planFor history opts plan \<longleftrightarrow>
     (let st = rpStopAt opts in
      \<exists>full ds logs. planSets plan = full # ds @ logs \<and>
        newestOf full (fullBy st) history \<and>
        (case ds of
           [] \<Rightarrow> \<not> list_ex (\<lambda>d. differentialBy st full d) history
         | [d] \<Rightarrow> newestOf d (\<lambda>d. differentialBy st full d) history
         | _ \<Rightarrow> False) \<and>
        set logs \<subseteq> {l \<in> set history. chainLog l} \<and> chained (biLastLSN (last (full # ds))) logs \<and>
        sorted_wrt (\<lambda>a b. CompareLSN (biLastLSN a) (biLastLSN b) < 0) logs \<and>
        (\<forall>l \<in> set (butlast logs). \<not> pastStop st l) \<and>
        (let e = endOf (biLastLSN (last (full # ds))) logs in
         if logs \<noteq> [] \<and> pastStop st (last logs) then \<not> planTailLog plan
         else (planTailLog plan \<longleftrightarrow> rpTailLog opts) \<and> (st \<noteq> None \<longrightarrow> planTailLog plan) \<and>
              (e \<noteq> [] \<longrightarrow> \<not> list_ex (\<lambda>l. chainLog l \<and> adjoins e l) history) \<and>
              (planTailLog plan \<longrightarrow> \<not> list_ex (\<lambda>l. chainLog l \<and> CompareLSN (biLastLSN l) e > 0) history)))"

text \<open>The pieces of \<open>PlanRestore\<close>, by name.\<close>

definition pickSets :: "BackupInfo list \<Rightarrow> gotime option \<Rightarrow> BackupInfo list" where
  "pickSets history st =
     (case filter (isFull st) history of [] \<Rightarrow> []
      | f # fs \<Rightarrow>
          (let full = maxFunc newest f fs
           in full # (case filter (diffOf full) (filter (isDiff st) history) of
                        [] \<Rightarrow> [] | d # ds \<Rightarrow> [maxFunc newest d ds])))"

lemma maxFunc_newestOf:
  assumes "filter P history = x # xs"
  shows "newestOf (maxFunc newest x xs) P history"
proof -
  have s: "set (filter P history) = insert x (set xs)" using assms by simp
  have "maxFunc newest x xs \<in> set (filter P history)" using maxFunc_mem [of newest x xs] s by simp
  moreover have "newest a (maxFunc newest x xs) \<le> 0" if "a \<in> set history" "P a" for a
    using that maxFunc_newest [of a x xs] s by auto
  ultimately show ?thesis by (simp add: newestOf_def noLater_code)
qed

lemma pickSets_cases:
  assumes "pickSets history st \<noteq> []"
  obtains full ds where "pickSets history st = full # ds" "newestOf full (isFull st) history"
    "case ds of [] \<Rightarrow> \<not> list_ex (\<lambda>d. isDiff st d \<and> diffOf full d) history
       | [d] \<Rightarrow> newestOf d (\<lambda>d. isDiff st d \<and> diffOf full d) history | _ \<Rightarrow> False"
proof -
  obtain f fs where f: "filter (isFull st) history = f # fs"
    using assms by (cases "filter (isFull st) history") (auto simp: pickSets_def)
  let ?full = "maxFunc newest f fs"
  let ?P = "\<lambda>d. isDiff st d \<and> diffOf ?full d"
  have ff: "filter (diffOf ?full) (filter (isDiff st) history) = filter ?P history"
    by (simp add: conj_commute)
  show ?thesis
  proof (cases "filter ?P history")
    case Nil
    then show ?thesis using that [of ?full "[]"] f ff maxFunc_newestOf [OF f]
      by (auto simp: pickSets_def Let_def filter_empty_conv list_ex_iff)
  next
    case (Cons d ds)
    then show ?thesis using that [of ?full "[maxFunc newest d ds]"] f ff maxFunc_newestOf [OF f]
      maxFunc_newestOf [OF Cons] by (simp add: pickSets_def Let_def)
  qed
qed

lemma PlanRestore_unfold:
  assumes "pickSets history (rpStopAt opts) = sets" "sets \<noteq> []"
    and "logChain (sortStable logOrder (filter isLog history)) (rpStopAt opts) (biLastLSN (last sets)) = (ls, e, r)"
  shows "(case PlanRestore history opts of
      Inr plan \<Rightarrow> planSets plan = sets @ ls \<and>
        (if r then \<not> planTailLog plan
         else (planTailLog plan \<longleftrightarrow> rpTailLog opts) \<and> (rpStopAt opts \<noteq> None \<longrightarrow> rpTailLog opts) \<and>
              (rpTailLog opts \<longrightarrow> \<not> list_ex (\<lambda>l. isLog l \<and> CompareLSN (biLastLSN l) e > 0) history))
    | Inl err \<Rightarrow> errors_is err ErrInvalidRequest \<and> \<not> r \<and>
        (if rpTailLog opts then list_ex (\<lambda>l. isLog l \<and> CompareLSN (biLastLSN l) e > 0) history
         else rpStopAt opts \<noteq> None))"
proof -
  obtain f fs where f: "filter (isFull (rpStopAt opts)) history = f # fs"
    using assms(1,2) by (cases "filter (isFull (rpStopAt opts)) history") (auto simp: pickSets_def)
  have sets: "sets = maxFunc newest f fs #
      (case filter (diffOf (maxFunc newest f fs)) (filter (isDiff (rpStopAt opts)) history) of
         [] \<Rightarrow> [] | d # ds' \<Rightarrow> [maxFunc newest d ds'])"
    using assms(1) f by (simp add: pickSets_def Let_def)
  have ex: "list_ex (\<lambda>l. CompareLSN (biLastLSN l) e > 0) (sortStable logOrder (filter isLog history)) \<longleftrightarrow>
      list_ex (\<lambda>l. isLog l \<and> CompareLSN (biLastLSN l) e > 0) history"
    by (auto simp: list_ex_iff)
  show ?thesis
    unfolding PlanRestore_def Let_def f list.case sets [symmetric] assms(3) prod.case ex
    by (auto split: option.split)
qed

text \<open>
  C2: \<open>PlanRestore\<close> picks a restorable sequence: whatever the history holds and in whatever order,
  a plan it returns is one \<open>planFor\<close> accepts -- newest full, newest differential of that full, then
  logs each starting at or before the point reached and ending after it -- and the last LSNs of its
  logs strictly increase, so no set is applied twice.
\<close>

theorem PlanRestore_sound:
  assumes "PlanRestore history opts = Inr plan"
  shows "planFor history opts plan"
proof -
  let ?st = "rpStopAt opts" and ?logs = "sortStable logOrder (filter isLog history)"
  have ne: "pickSets history ?st \<noteq> []"
    using assms by (auto simp: PlanRestore_def pickSets_def Let_def split: list.splits option.splits)
  then obtain full ds where p: "pickSets history ?st = full # ds" "newestOf full (isFull ?st) history"
    "case ds of [] \<Rightarrow> \<not> list_ex (\<lambda>d. isDiff ?st d \<and> diffOf full d) history
       | [d] \<Rightarrow> newestOf d (\<lambda>d. isDiff ?st d \<and> diffOf full d) history | _ \<Rightarrow> False"
    by (rule pickSets_cases)
  obtain ls e r where chain: "logChain ?logs ?st (biLastLSN (last (full # ds))) = (ls, e, r)" by (metis prod_cases3)
  note c = logChain_spec [OF chain]
  note u = PlanRestore_unfold [OF p(1) _ chain, simplified assms, simplified]
  have cont: "(\<exists>l \<in> set ?logs. continues e l) \<longleftrightarrow> list_ex (\<lambda>l. isLog l \<and> continues e l) history"
    by (auto simp: list_ex_iff)
  have stop: "ls \<noteq> [] \<and> pastStop ?st (last ls) \<longleftrightarrow> r" using c by auto
  show ?thesis
    unfolding planFor_def Let_def plan_terms
  proof (intro exI conjI)
    show "planSets plan = full # ds @ ls" using u by simp
    show "if ls \<noteq> [] \<and> pastStop ?st (last ls) then \<not> planTailLog plan
      else (planTailLog plan \<longleftrightarrow> rpTailLog opts) \<and> (?st \<noteq> None \<longrightarrow> planTailLog plan) \<and>
        (endOf (biLastLSN (last (full # ds))) ls \<noteq> [] \<longrightarrow>
          \<not> list_ex (\<lambda>l. isLog l \<and> continues (endOf (biLastLSN (last (full # ds))) ls) l) history) \<and>
        (planTailLog plan \<longrightarrow>
          \<not> list_ex (\<lambda>l. isLog l \<and> CompareLSN (biLastLSN l) (endOf (biLastLSN (last (full # ds))) ls) > 0) history)"
      using u c cont stop by (cases r) auto
  qed (use p c chained_sorted in auto)
qed

definition sampleBackup :: "BackupSetType \<Rightarrow> int \<Rightarrow> string \<Rightarrow> string \<Rightarrow> BackupInfo" where
  "sampleBackup t finish first lst = \<lparr>
     biDatabaseName = ''d'', biBackupSetName = [], biDescription = [], biSetType = t, biIsCopyOnly = False,
     biBackupStart = \<lparr>tWall = 0, tOffset = 0\<rparr>, biBackupFinish = \<lparr>tWall = finish, tOffset = 0\<rparr>, biBackupSize = 0,
     biDeviceName = ''/b'', biDevices = [''/b''], biPosition = 1, biBackupSetID = finish, biMediaSetID = 1,
     biMirrorCount = 1, biUserName = [], biServerName = [], biDatabaseVersion = 0, biCompatibilityLevel = 0,
     biFirstLSN = first, biLastLSN = lst, biBackupSetGUID = ''g'', biDifferentialBaseGUID = []\<rparr>"

definition sampleHistory :: "BackupInfo list" where
  "sampleHistory =
     [sampleBackup BackupSetLog 30 ''100'' ''200'', sampleBackup BackupSetLog 20 ''90'' ''100'',
      sampleBackup BackupSetDatabase 10 ''90'' ''95'']"

lemma sample_simps:
  "usable (sampleBackup t f a b) \<longleftrightarrow> f \<noteq> 0" "biSetType (sampleBackup t f a b) = t"
  "biBackupFinish (sampleBackup t f a b) = \<lparr>tWall = f, tOffset = 0\<rparr>" "\<not> biIsCopyOnly (sampleBackup t f a b)"
  "biFirstLSN (sampleBackup t f a b) = a" "biLastLSN (sampleBackup t f a b) = b"
  by (simp_all add: usable_def Restorable_def trim_space_def decodeRune_def isSpaceRune_def byte_def
     timeIsZero_def instant_def sampleBackup_def)

lemma sample_plan:
  "PlanRestore sampleHistory \<lparr>rpStopAt = Some \<lparr>tWall = 25, tOffset = 0\<rparr>, rpTailLog = False\<rparr> =
   Inr \<lparr>planSets = rev sampleHistory, planTailLog = False\<rparr>"
proof -
  let ?st = "Some \<lparr>tWall = 25, tOffset = 0\<rparr>"
  note h = sampleHistory_def sample_simps backup_set_types isLog_def isFull_def isDiff_def byStop_def timeAfter_def
    instant_def wallClock_def
  have f: "filter (isFull ?st) sampleHistory = [sampleHistory ! 2]" "filter (isDiff ?st) sampleHistory = []"
    "filter isLog sampleHistory = take 2 sampleHistory"
    by (simp_all add: h)
  have s: "sortStable logOrder (take 2 sampleHistory) = [sampleHistory ! 1, sampleHistory ! 0]"
    by (simp add: h sortStable_def logOrder_def cmp_or_def CompareLSN_def cmp_int_def trim_left_def)
  have c: "logChain [sampleHistory ! 1, sampleHistory ! 0] ?st ''95'' =
      ([sampleHistory ! 1, sampleHistory ! 0], ''200'', True)"
    by (simp add: h logChain.simps continues_def pastStop_def cmp_or_def CompareLSN_def cmp_int_def trim_left_def byte_def)
  have b: "biLastLSN (sampleHistory ! 2) = ''95''" "rev sampleHistory = [sampleHistory ! 2, sampleHistory ! 1, sampleHistory ! 0]"
    by (simp_all add: h)
  show ?thesis by (simp add: PlanRestore_def Let_def f s b c [simplified] maxFunc_def)
qed
lemma PlanRestore_sound_witness:
  "planFor sampleHistory \<lparr>rpStopAt = Some \<lparr>tWall = 25, tOffset = 0\<rparr>, rpTailLog = False\<rparr>
     \<lparr>planSets = rev sampleHistory, planTailLog = False\<rparr>"
  by (rule PlanRestore_sound [OF sample_plan])

text \<open>
  \<open>PlanRestore\<close> fails for two reasons only: with no usable full backup finished by the stop it
  is not found; otherwise it is an invalid request, and then the caller asked for what the history
  cannot give -- a tail-log backup although a log goes past the end of the chain, or a stop no log
  of the chain reaches.
\<close>

theorem PlanRestore_errors:
  "(\<not> list_ex (isFull (rpStopAt opts)) history \<longrightarrow>
      (\<exists>e. PlanRestore history opts = Inl e \<and> errors_is e ErrNotFound)) \<and>
   (list_ex (isFull (rpStopAt opts)) history \<longrightarrow>
      (case PlanRestore history opts of
         Inr plan \<Rightarrow> True
       | Inl e \<Rightarrow> errors_is e ErrInvalidRequest \<and> (rpTailLog opts \<or> rpStopAt opts \<noteq> None)))"
proof (cases "list_ex (isFull (rpStopAt opts)) history")
  case True
  then have ne: "pickSets history (rpStopAt opts) \<noteq> []"
    by (auto simp: pickSets_def list_ex_iff filter_empty_conv Let_def split: list.split)
  let ?sets = "pickSets history (rpStopAt opts)"
  obtain ls e r where chain:
    "logChain (sortStable logOrder (filter isLog history)) (rpStopAt opts) (biLastLSN (last ?sets)) = (ls, e, r)"
    by (metis prod_cases3)
  from PlanRestore_unfold [OF refl ne chain] True show ?thesis
    by (auto split: sum.splits if_splits)
next
  case False
  then have "filter (isFull (rpStopAt opts)) history = []" by (auto simp: list_ex_iff filter_empty_conv)
  then show ?thesis using False by (auto simp: PlanRestore_def Let_def split: option.split)
qed

lemma PlanRestore_errors_witness:
  "\<exists>e. PlanRestore [] \<lparr>rpStopAt = None, rpTailLog = False\<rparr> = Inl e \<and> errors_is e ErrNotFound"
  using PlanRestore_errors [of "\<lparr>rpStopAt = None, rpTailLog = False\<rparr>" "[]"] by simp

section \<open>CompareLSN is numeric comparison\<close>

lemma compare_digits:
  "length s = length t \<Longrightarrow> list_all is_digit s \<Longrightarrow> list_all is_digit t \<Longrightarrow>
   strings_compare s t = sgn (int (digits_val 0 s) - int (digits_val 0 t))"
proof (induction s t rule: strings_compare.induct)
  case (4 a s b t)
  then have l: "length s = length t" and d: "byte a = digit_val a + 48" "byte b = digit_val b + 48"
    by (auto simp: is_digit_def digit_val_def byte_def)
  consider "digit_val a < digit_val b" | "digit_val b < digit_val a" | "digit_val a = digit_val b" by linarith
  then show ?case
  proof cases
    case 1
    from high_digit [OF 1 digits_bound [of s], of "digits_val 0 t"] have "digits_val 0 (a # s) < digits_val 0 (b # t)"
      using "4.prems" unfolding digits_val_Cons l by simp
    with 1 d show ?thesis by (simp add: sgn_if)
  next
    case 2
    from high_digit [OF 2 digits_bound [of t], of "digits_val 0 s"] have "digits_val 0 (b # t) < digits_val 0 (a # s)"
      using "4.prems" unfolding digits_val_Cons l by simp
    with 2 d show ?thesis by (simp add: sgn_if)
  next
    case 3
    then show ?thesis using 4 d by (simp add: digits_val_Cons del: digits_val.simps)
  qed
qed simp_all

text \<open>
  \<open>CompareLSN\<close> compares log sequence numbers as numbers, however many digits they have and
  whatever leading zeros: -1, 0 or 1 as the first is smaller, equal or greater.
\<close>

theorem CompareLSN_numeric:
  assumes "list_all is_digit a" and "list_all is_digit b"
  shows "CompareLSN a b = sgn (int (digits_val 0 a) - int (digits_val 0 b))"
proof -
  let ?a = "trim_left a ''0''" and ?b = "trim_left b ''0''"
  note ta = trim_zeros [OF assms(1)] and tb = trim_zeros [OF assms(2)]
  consider "length ?a < length ?b" | "length ?b < length ?a" | "length ?a = length ?b" by linarith
  then show ?thesis
  proof cases
    case 1
    then have "digits_val 0 ?a < digits_val 0 ?b" using shorter_less ta tb by fastforce
    then show ?thesis using 1 ta(2) tb(2) by (simp add: CompareLSN_def cmp_or_def cmp_int_def sgn_if)
  next
    case 2
    then have "digits_val 0 ?b < digits_val 0 ?a" using shorter_less ta tb by fastforce
    then show ?thesis using 2 ta(2) tb(2) by (simp add: CompareLSN_def cmp_or_def cmp_int_def sgn_if)
  next
    case 3
    then show ?thesis using compare_digits [OF 3 ta(1) tb(1)] ta(2) tb(2)
      by (simp add: CompareLSN_def cmp_or_def cmp_int_def)
  qed
qed

lemma CompareLSN_numeric_witness:
  "CompareLSN ''0037000000012300001'' ''99'' = 1"
proof -
  have "list_all is_digit ''0037000000012300001''" "list_all is_digit ''99''" by code_simp+
  from CompareLSN_numeric [OF this] show ?thesis by (simp add: digit_val_def)
qed

section \<open>Where the files go\<close>

datatype RelocationMode = RelocateIfRenamed | RelocateNone | RelocateToFolders

record RestoreRelocation =
  rrMode :: RelocationMode
  rrDataDir :: string
  rrLogDir :: string
  rrDefaultDataDir :: string
  rrDefaultLogDir :: string
  rrCollation :: string

definition "BackupFileData = ''D''"
definition "BackupFileLog = ''L''"
definition "BackupFileFullText = ''F''"
definition "BackupFileStream = ''S''"

record BackupFile =
  bfLogicalName :: string
  bfPhysicalName :: string
  bfType :: string
  bfFileGroupName :: string
  bfSize :: int
  bfMaxSize :: int

definition NeedsFileList :: "(nat \<Rightarrow> nat) \<Rightarrow> RestoreRelocation \<Rightarrow> string \<Rightarrow> string \<Rightarrow> bool" where
  "NeedsFileList sf r source target =
     (case rrMode r of
        RelocateToFolders \<Rightarrow> True
      | RelocateNone \<Rightarrow> False
      | RelocateIfRenamed \<Rightarrow> \<not> SameName sf (rrCollation r) source target)"

definition forbiddenRune :: "nat \<Rightarrow> bool" where
  "forbiddenRune r \<longleftrightarrow> r < 0x20 \<or> r \<in> set (map byte ([bslash] @ ''/:*?'' @ [dquote] @ ''<>|''))"

definition fileNameSafe :: "string \<Rightarrow> string" where
  "fileNameSafe name = strings_map (\<lambda>r. if forbiddenRune r then byte (CHR ''_'') else r) name"

text \<open>The directory, and the extension before the name is known.\<close>

definition dirExt :: "string \<Rightarrow> string \<Rightarrow> BackupFile \<Rightarrow> string \<times> string" where
  "dirExt dataDir logDir f =
     (let ext = ServerPathExt (bfPhysicalName f)
      in if bfType f = BackupFileStream \<or> bfType f = BackupFileFullText then (dataDir, [])
         else if bfType f = BackupFileLog then (logDir, if ext = [] then ''.ldf'' else ext)
         else if ext = [] then (dataDir, ''.ndf'') else (dataDir, ext))"

text \<open>The name's stem made safe, and its extension.\<close>

definition stemExt :: "bool \<Rightarrow> string \<Rightarrow> string \<Rightarrow> BackupFile \<Rightarrow> string \<times> string" where
  "stemExt renamed target ext f =
     (let base = ServerPathBase (bfPhysicalName f);
          name = (if renamed then target @ ''_'' @ bfLogicalName f @ ext else base);
          ext' = (if renamed then ext else if ext \<noteq> [] then ServerPathExt name else ext)
      in (fileNameSafe (trim_suffix name ext'), ext'))"

text \<open>
  The loop that tells two files on one path apart; \<open>None\<close> when the fuel runs out, which with one
  more try than there are paths taken it never does.
\<close>

definition nthPath :: "string \<Rightarrow> string \<Rightarrow> string \<Rightarrow> nat \<Rightarrow> string" where
  "nthPath dir stem ext n = JoinServerPath dir (stem @ ''_'' @ itoa (int n) @ ext)"

fun freePath :: "nat \<Rightarrow> (string \<Rightarrow> bool) \<Rightarrow> string \<Rightarrow> string \<Rightarrow> string \<Rightarrow> nat \<Rightarrow> string option" where
  "freePath 0 taken dir stem ext n = None"
| "freePath (Suc fuel) taken dir stem ext n =
     (if taken (nthPath dir stem ext n) then freePath fuel taken dir stem ext (n + 1)
      else Some (nthPath dir stem ext n))"

fun moveLoop :: "(nat \<Rightarrow> nat) \<Rightarrow> string \<Rightarrow> string \<Rightarrow> bool \<Rightarrow> string \<Rightarrow> string list \<Rightarrow> BackupFile list \<Rightarrow>
    RelocateFile list option" where
  "moveLoop sf dataDir logDir renamed target keys [] = Some []"
| "moveLoop sf dataDir logDir renamed target keys (f # fs) =
     (let (dir, ext) = dirExt dataDir logDir f;
          (stem, ext') = stemExt renamed target ext f;
          taken = (\<lambda>p. NameKey sf [] p \<in> set keys);
          first = JoinServerPath dir (stem @ ext')
      in case (if \<not> taken first then Some first else freePath (Suc (length keys)) taken dir stem ext' 2) of
           None \<Rightarrow> None
         | Some path \<Rightarrow>
             map_option (\<lambda>ms. \<lparr>rfLogicalName = bfLogicalName f, rfPhysicalName = path\<rparr> # ms)
               (moveLoop sf dataDir logDir renamed target (NameKey sf [] path # keys) fs))"

definition Moves :: "(nat \<Rightarrow> nat) \<Rightarrow> RestoreRelocation \<Rightarrow> BackupFile list \<Rightarrow> string \<Rightarrow> string \<Rightarrow>
    RelocateFile list option" where
  "Moves sf r files source target =
     (if \<not> NeedsFileList sf r source target then Some []
      else
        (let dataDir = (if rrMode r = RelocateToFolders \<and> rrDataDir r \<noteq> [] then rrDataDir r else rrDefaultDataDir r);
             logDir = (if rrMode r = RelocateToFolders \<and> rrLogDir r \<noteq> [] then rrLogDir r else rrDefaultLogDir r)
         in moveLoop sf dataDir logDir (\<not> SameName sf (rrCollation r) source target) target [] files))"

definition FromHeader :: "(nat \<Rightarrow> nat) \<Rightarrow> RestoreOptions \<Rightarrow> BackupHeader \<Rightarrow> BackupFile list \<Rightarrow> RestoreRelocation \<Rightarrow>
    RestoreOptions option" where
  "FromHeader sf q h files r =
     map_option (\<lambda>ms. q\<lparr>roAction := RestoreVerb (bhSetType h), roFileNumber := headerSetNumber h, roRelocateFiles := ms\<rparr>)
       (if PlacesFiles (bhSetType h) then Moves sf r files (bhDatabaseName h) (roDatabase q) else Some [])"

subsection \<open>The numbered names are different\<close>













text \<open>The names are safe.\<close>

definition safeStem :: "string \<Rightarrow> bool" where
  "safeStem s \<longleftrightarrow> (\<forall>r \<in> set (runes s). \<not> forbiddenRune r)"


lemma safe_underscore: "validRune (byte (CHR ''_''))" "\<not> forbiddenRune (byte (CHR ''_''))"
  by (simp_all add: validRune_def byte_def forbiddenRune_def char_consts)


lemma safeStem_numbered: "safeStem s \<Longrightarrow> safeStem (s @ ''_'' @ itoa (int n))"
proof -
  assume s: "safeStem s"
  have d: "list_all is_digit ds \<Longrightarrow> runes ds = map byte ds" for ds
    by (rule runes_ascii) (auto simp: is_ascii_def list_all_iff is_digit_def)
  have "runes (s @ CHR ''_'' # nat_itoa n) = runes s @ byte (CHR ''_'') # map byte (nat_itoa n)"
    using runes_cut [of "CHR ''_''" s "nat_itoa n"] d [OF nat_itoa_digits] by (simp add: byte_def)
  moreover have "is_digit c \<Longrightarrow> \<not> forbiddenRune (byte c)" for c
    by (auto simp: is_digit_def forbiddenRune_def byte_def char_consts)
  ultimately show ?thesis using s safe_underscore nat_itoa_digits [of n]
    by (auto simp: safeStem_def itoa_def list_all_iff)
qed

text \<open>
  Where a file of a backup is to go, said without the loop: the folder of its kind, and a name that is
  the wanted one with "_" for every character a file name may not hold, a number where it was taken, and
  the extension.  A FILESTREAM container or a full-text catalog has none.
\<close>











end
