(* ===== verification/Bind.thy ===== *)
theory Bind
  imports Pieces
begin

text \<open>
  Bound arguments and scripts (\<open>script.go\<close>, \<open>helpers.go\<close>): \<open>boundArgs\<close> numbers the bound
  strings of a statement as \<open>@p1\<close>, \<open>@p2\<close>, \<dots>; \<open>bindScriptArgs\<close> puts each argument's literal
  back in the place of its placeholder, outside literals, identifiers and comments only, so
  that a captured statement runs by hand.
\<close>

section \<open>Literals\<close>

text \<open>
  A bound argument (\<open>any\<close>).  An integer is its Go type and its value, a float whether it is a
  \<open>float32\<close> and its text; the text \<open>strconv.FormatFloat\<close> and \<open>time.Time.Format\<close>
  give is carried as it is; a \<open>driver.Valuer\<close> is what its \<open>Value\<close> method returns.
\<close>

datatype intKind =
    KInt | KInt8 | KInt16 | KInt32 | KInt64 | KUint | KUint8 | KUint16 | KUint32 | KUint64

datatype goval =
    VNil
  | VString string
  | VBytes "string option" \<comment> \<open>\<open>None\<close>: a nil slice\<close>
  | VBool bool
  | VInt intKind int
  | VFloat bool string
  | VTime string
  | VValuer "goerr + goval"
  | VNamedArg string
  | VOther string \<comment> \<open>any other type, by its name\<close>

definition hexDigit :: "nat \<Rightarrow> char" where
  "hexDigit n = (if n < 10 then char_of (48 + n) else char_of (55 + n))"

text \<open>\<open>strings.ToUpper(hex.EncodeToString(b))\<close> after \<open>0x\<close>.\<close>

definition binaryLiteral :: "string \<Rightarrow> string" where
  "binaryLiteral b =
     ''0x'' @ concat (map (\<lambda>c. [hexDigit ((of_char c :: nat) div 16), hexDigit ((of_char c :: nat) mod 16)]) b)"

primrec scriptLiteral :: "goval \<Rightarrow> string res" where
  "scriptLiteral VNil = Inr ''NULL''"
| "scriptLiteral (VString s) = Inr (QuoteLiteral s)"
| "scriptLiteral (VBytes b) = Inr (case b of None \<Rightarrow> ''NULL'' | Some x \<Rightarrow> binaryLiteral x)"
| "scriptLiteral (VBool b) = Inr (itoa (boolToInt b))"
| "scriptLiteral (VInt k i) = Inr (itoa i)"
| "scriptLiteral (VFloat b t) = Inr t"
| "scriptLiteral (VTime t) = Inr ([squote] @ t @ [squote])"
| "scriptLiteral (VValuer r) =
     (case map_sum id scriptLiteral r of Inl e \<Rightarrow> Inl e | Inr l \<Rightarrow> l)"
| "scriptLiteral (VNamedArg n) = Inl (errorf ''named argument %q cannot be scripted positionally'' [AText n])"
| "scriptLiteral (VOther t) = Inl (errorf ''cannot script a %T argument'' [AText t])"

section \<open>boundArgs\<close>

text \<open>\<open>boundArgs.str\<close>: the values so far and the placeholder of the new one.\<close>

definition boundArgs_str :: "goval list \<Rightarrow> string \<Rightarrow> goval list \<times> string" where
  "boundArgs_str vals v = (let vals' = vals @ [VString v] in (vals', ''@p'' @ itoa (int (length vals'))))"

section \<open>Placeholders\<close>

text \<open>
  The matches of \<open>@p([0-9]+)\<close> in a text, leftmost and greedy: the characters that are in no
  match, and the digits of each match.
\<close>

function placeholders :: "string \<Rightarrow> (char + string) list" where
  "placeholders [] = []"
| "placeholders (c # t) =
     (if c = CHR ''@'' \<and> has_prefix t ''p'' \<and> tl t \<noteq> [] \<and> is_digit (hd (tl t))
      then Inr (takeWhile is_digit (tl t)) # placeholders (dropWhile is_digit (tl t))
      else Inl c # placeholders t)"
  by pat_completeness auto
termination
proof (relation "measure length", simp_all)
  fix c :: char and t :: string
  have "length (dropWhile is_digit (tl t)) \<le> length (tl t)" by (rule length_dropWhile_le)
  then show "length (dropWhile is_digit (tl t)) < Suc (length t)" by simp
qed

declare placeholders.simps(2) [simp del]

text \<open>
  \<open>strconv.Atoi\<close> of a match's digits, \<open>None\<close> when out of the range of the arguments (which
  covers the overflow of \<open>Atoi\<close>: no statement has that many arguments).
\<close>

definition argIndex :: "'a list \<Rightarrow> string \<Rightarrow> nat option" where
  "argIndex args ds = (let n = digits_val 0 ds in if n < 1 \<or> n > length args then None else Some (n - 1))"

definition bindMatch :: "goval list \<Rightarrow> string \<Rightarrow> string res" where
  "bindMatch args ds =
     (case argIndex args ds of
        None \<Rightarrow> Inl (errorf ''script: %s has no argument (%d given)''
                   [AText (''@p'' @ ds), ANum (int (length args))])
      | Some i \<Rightarrow>
          (case scriptLiteral (args ! i) of
             Inl e \<Rightarrow> Inl (Wrapped ''script: %s: %w'' [AText (''@p'' @ ds)] e)
           | Inr lit \<Rightarrow> Inr lit))"

definition bindCode :: "goval list \<Rightarrow> string \<Rightarrow> string res" where
  "bindCode args text =
     (case res_map (\<lambda>x. case x of Inl c \<Rightarrow> Inr [c] | Inr ds \<Rightarrow> bindMatch args ds) (placeholders text) of
        Inl e \<Rightarrow> Inl e
      | Inr parts \<Rightarrow> Inr (concat parts))"

definition matchDigits :: "string \<Rightarrow> string list" where
  "matchDigits text = concat (map (case_sum (\<lambda>_. []) (\<lambda>ds. [ds])) (placeholders text))"

definition isNamedArg :: "goval \<Rightarrow> bool" where
  "isNamedArg v \<longleftrightarrow> (case v of VNamedArg _ \<Rightarrow> True | _ \<Rightarrow> False)"

definition namedArg :: "goval \<Rightarrow> string" where
  "namedArg v = (case v of VNamedArg n \<Rightarrow> n | _ \<Rightarrow> [])"

definition bindScriptArgs :: "string \<Rightarrow> goval list \<Rightarrow> string res" where
  "bindScriptArgs q args =
     (if args = [] then Inr q
      else case find isNamedArg args of
        Some a \<Rightarrow> Inl (errorf ''script: named argument %q cannot be scripted positionally'' [AText (namedArg a)])
      | None \<Rightarrow>
        (let text = (\<lambda>sp. slice q (spStart sp) (spEnd sp));
             code = filter (\<lambda>sp. spKind sp = SpanCode) (Spans q);
             skipped = concat (map (\<lambda>sp. text sp @ '' '') (filter (\<lambda>sp. spKind sp \<noteq> SpanCode) (Spans q)));
             bound = concat (map (\<lambda>sp. List.map_filter (argIndex args) (matchDigits (text sp))) code)
         in case res_map (\<lambda>sp. if spKind sp \<noteq> SpanCode then Inr (text sp) else bindCode args (text sp)) (Spans q) of
              Inl e \<Rightarrow> Inl e
            | Inr parts \<Rightarrow>
                (case find (\<lambda>ds. \<exists>i \<in> set (case argIndex args ds of None \<Rightarrow> [] | Some i \<Rightarrow> [i]). i \<notin> set bound)
                        (matchDigits skipped) of
                   Some ds \<Rightarrow> Inl (errorf ''script: %s appears only inside a literal or comment'' [AText (''@p'' @ ds)])
                 | None \<Rightarrow> Inr (concat parts))))"

section \<open>Statements with bound strings\<close>

text \<open>
  A statement written with \<open>boundArgs\<close>: fixed pieces, and strings bound where their literal
  would go.  \<open>number\<close> builds the statement text and the values as the code does, one
  \<open>boundArgs_str\<close> per bound string; \<open>handQuoted\<close> is the statement with the literals written.
\<close>

datatype bpiece = Fixed piece | Bound string

fun number :: "goval list \<Rightarrow> bpiece list \<Rightarrow> goval list \<times> string" where
  "number vals [] = (vals, [])"
| "number vals (Fixed p # ps) = (let (v, t) = number vals ps in (v, renderPiece p @ t))"
| "number vals (Bound s # ps) =
     (let (vals', ph) = boundArgs_str vals s; (v, t) = number vals' ps in (v, ph @ t))"

fun handQuoted :: "bpiece \<Rightarrow> piece" where
  "handQuoted (Fixed p) = p"
| "handQuoted (Bound s) = NStr s"

definition boundText :: "nat \<Rightarrow> string" where
  "boundText k = ''@p'' @ itoa (int (Suc k))"

text \<open>The numbered statement as pieces: a placeholder is code text.\<close>

fun numbered :: "nat \<Rightarrow> bpiece list \<Rightarrow> piece list" where
  "numbered k [] = []"
| "numbered k (Fixed p # ps) = p # numbered k ps"
| "numbered k (Bound s # ps) = Raw (boundText k) # numbered (Suc k) ps"

fun bounds :: "bpiece list \<Rightarrow> string list" where
  "bounds [] = []"
| "bounds (Fixed p # ps) = bounds ps"
| "bounds (Bound s # ps) = s # bounds ps"

lemma number_eq:
  "number vals ps = (vals @ map VString (bounds ps), render (numbered (length vals) ps))"
  by (induction vals ps rule: number.induct) (simp_all add: boundArgs_str_def boundText_def Let_def)

text \<open>
  Code text with no placeholder of its own, also not one it could form with what follows.
\<close>

fun quiet :: "string \<Rightarrow> bool" where
  "quiet [] = True"
| "quiet (c # t) =
     ((c = CHR ''@'' \<longrightarrow> t \<noteq> [] \<and> (hd t \<noteq> CHR ''p'' \<or> (tl t \<noteq> [] \<and> \<not> is_digit (hd (tl t))))) \<and> quiet t)"

definition notDigit :: "char option \<Rightarrow> bool" where
  "notDigit d \<longleftrightarrow> (case d of None \<Rightarrow> True | Some c \<Rightarrow> \<not> is_digit c)"

text \<open>A bound string is not followed by a digit, and the rest of the code is quiet.\<close>

fun bindable :: "nat \<Rightarrow> bpiece list \<Rightarrow> bool" where
  "bindable k [] = True"
| "bindable k (Fixed (Raw r) # ps) = (quiet r \<and> bindable k ps)"
| "bindable k (Fixed p # ps) = bindable k ps"
| "bindable k (Bound s # ps) = (notDigit (firstPiece (numbered (Suc k) ps)) \<and> bindable (Suc k) ps)"

subsection \<open>Placeholders of a code run\<close>

datatype item = IRaw string | IBound nat

fun itemText :: "item \<Rightarrow> string" where
  "itemText (IRaw r) = r"
| "itemText (IBound k) = boundText k"

fun okItem :: "item \<Rightarrow> char option \<Rightarrow> bool" where
  "okItem (IRaw r) d = quiet r"
| "okItem (IBound k) d = notDigit d"

fun okItems :: "item list \<Rightarrow> char option \<Rightarrow> bool" where
  "okItems [] d = True"
| "okItems (it # its) d =
     (okItem it (firstOf (concat (map itemText its)) d) \<and> okItems its d)"

fun itemParts :: "item \<Rightarrow> (char + string) list" where
  "itemParts (IRaw r) = map Inl r"
| "itemParts (IBound k) = [Inr (itoa (int (Suc k)))]"

lemma placeholders_quiet: "quiet r \<Longrightarrow> placeholders (r @ t) = map Inl r @ placeholders t"
proof (induction r)
  case (Cons c r)
  have "\<not> (c = CHR ''@'' \<and> has_prefix (r @ t) ''p'' \<and> tl (r @ t) \<noteq> [] \<and> is_digit (hd (tl (r @ t))))"
    using Cons.prems by (cases r; cases "tl r") (auto split: if_splits)
  then have "placeholders (c # (r @ t)) = Inl c # placeholders (r @ t)"
    by (simp only: placeholders.simps(2) if_False)
  then show ?case using Cons by simp
qed simp

lemma itoa_digits: "list_all is_digit (itoa (int (Suc k)))" "itoa (int (Suc k)) \<noteq> []"
  "digits_val 0 (itoa (int (Suc k))) = Suc k"
proof -
  have "itoa (int (Suc k)) = nat_itoa (Suc k)" unfolding itoa_def by simp
  then show "list_all is_digit (itoa (int (Suc k)))" "itoa (int (Suc k)) \<noteq> []"
    "digits_val 0 (itoa (int (Suc k))) = Suc k"
    using nat_itoa_digits nat_itoa_val by simp_all
qed

lemma takeWhile_all: "list_all P a \<Longrightarrow> t = [] \<or> \<not> P (hd t) \<Longrightarrow>
  takeWhile P (a @ t) = a \<and> dropWhile P (a @ t) = t"
  by (induction a) (cases t; auto)+

lemma placeholders_bound:
  assumes "t = [] \<or> \<not> is_digit (hd t)"
  shows "placeholders (boundText k @ t) = Inr (itoa (int (Suc k))) # placeholders t"
proof -
  obtain d ds where n: "itoa (int (Suc k)) = d # ds" using itoa_digits(2) by (meson neq_Nil_conv)
  then have "is_digit d" using itoa_digits(1) [of k] by simp
  moreover have "takeWhile is_digit ((d # ds) @ t) = d # ds" "dropWhile is_digit ((d # ds) @ t) = t"
    using takeWhile_all [OF itoa_digits(1) [of k] assms] n by simp_all
  ultimately show ?thesis
    unfolding boundText_def n by (simp add: placeholders.simps(2))
qed

lemma placeholders_items:
  "okItems its None \<Longrightarrow> placeholders (concat (map itemText its)) = concat (map itemParts its)"
proof (induction its)
  case (Cons it its)
  then have IH: "placeholders (concat (map itemText its)) = concat (map itemParts its)" by simp
  show ?case
  proof (cases it)
    case (IRaw r)
    then show ?thesis using Cons.prems IH by (simp add: placeholders_quiet)
  next
    case (IBound k)
    let ?t = "concat (map itemText its)"
    have "?t = [] \<or> \<not> is_digit (hd ?t)"
      using Cons.prems IBound by (cases ?t) (auto simp: notDigit_def)
    then show ?thesis using IBound IH by (simp add: placeholders_bound)
  qed
qed simp

lemma okItems_snoc:
  "okItems (its @ [it]) d \<longleftrightarrow> okItems its (firstOf (itemText it) d) \<and> okItem it d"
  by (induction its) auto

text \<open>Binding one code run, when every bound item has its string argument.\<close>

fun itemLit :: "goval list \<Rightarrow> item \<Rightarrow> string" where
  "itemLit args (IRaw r) = r"
| "itemLit args (IBound k) = (case args ! k of VString s \<Rightarrow> QuoteLiteral s | _ \<Rightarrow> [])"

definition stringArg :: "goval list \<Rightarrow> item \<Rightarrow> bool" where
  "stringArg args it \<longleftrightarrow> (\<forall>k. it = IBound k \<longrightarrow> k < length args \<and> (\<exists>s. args ! k = VString s))"

lemma res_map_append:
  "res_map f (xs @ ys) =
   res_bind (res_map f xs) (\<lambda>as. res_bind (res_map f ys) (\<lambda>bs. Inr (as @ bs)))"
proof (induction xs)
  case Nil
  then show ?case by (cases "res_map f ys") auto
next
  case (Cons x xs)
  then show ?case by (cases "f x"; cases "res_map f xs"; cases "res_map f ys") auto
qed

lemma bindCode_items:
  assumes "okItems its None" and "\<forall>it \<in> set its. stringArg args it"
  shows "bindCode args (concat (map itemText its)) = Inr (concat (map (itemLit args) its))"
proof -
  let ?f = "\<lambda>x. case x of Inl c \<Rightarrow> Inr [c] | Inr ds \<Rightarrow> bindMatch args ds"
  have "\<forall>it \<in> set its. stringArg args it \<Longrightarrow>
    \<exists>parts. res_map ?f (concat (map itemParts its)) = Inr parts \<and> concat parts = concat (map (itemLit args) its)"
    for its
  proof (induction its)
    case (Cons it its)
    then obtain parts where parts: "res_map ?f (concat (map itemParts its)) = Inr parts"
        "concat parts = concat (map (itemLit args) its)" by auto
    have "\<exists>ps. res_map ?f (itemParts it) = Inr ps \<and> concat ps = itemLit args it"
    proof (cases it)
      case (IRaw r)
      have "res_map ?f (map Inl r) = Inr (map (\<lambda>c. [c]) r)" by (induction r) auto
      then show ?thesis using IRaw by simp
    next
      case (IBound k)
      with Cons.prems obtain s where "k < length args" "args ! k = VString s"
        by (auto simp: stringArg_def)
      then show ?thesis using IBound itoa_digits(3) [of k]
        by (simp add: bindMatch_def argIndex_def)
    qed
    then show ?case using parts by (auto simp: res_map_append)
  qed simp
  then show ?thesis using assms by (fastforce simp: bindCode_def placeholders_items)
qed

subsection \<open>Binding the whole statement\<close>

text \<open>The texts of the bound statement, over the tokens of its pieces.\<close>

definition bindToken :: "goval list \<Rightarrow> token \<Rightarrow> string res" where
  "bindToken args t = (if fst t \<noteq> SpanCode then Inr (fst (snd t)) else bindCode args (fst (snd t)))"

lemma res_map_map: "res_map f (map g xs) = res_map (\<lambda>x. f (g x)) xs"
  by (induction xs) auto

definition itemsOf :: "nat \<Rightarrow> bpiece \<Rightarrow> item option" where
  "itemsOf k p = (case p of Bound s \<Rightarrow> Some (IBound k) | Fixed (Raw r) \<Rightarrow> Some (IRaw r) | _ \<Rightarrow> None)"

lemma bindToken_flush:
  "okItems its None \<Longrightarrow> \<forall>it \<in> set its. stringArg args it \<Longrightarrow>
   \<exists>parts. res_map (bindToken args) (flush (concat (map itemText its))) = Inr parts \<and>
     concat parts = concat (map (itemLit args) its)"
proof (cases "concat (map itemText its) = []")
  case True
  assume "okItems its None" "\<forall>it \<in> set its. stringArg args it"
  from bindCode_items [OF this] True have "concat (map (itemLit args) its) = []"
    by (simp add: bindCode_def)
  with True show ?thesis by (simp add: flush_def)
next
  case False
  assume "okItems its None" "\<forall>it \<in> set its. stringArg args it"
  from bindCode_items [OF this] False show ?thesis
    by (simp add: flush_def bindToken_def del: concat_eq_Nil_conv)
qed

lemma okItems_None: "okItems its d \<Longrightarrow> notDigit d \<or> d = None \<Longrightarrow> okItems its None"
proof (induction its)
  case (Cons it its)
  have "notDigit (firstOf (concat (map itemText its)) d) \<Longrightarrow>
        notDigit (firstOf (concat (map itemText its)) None)"
    by (cases "concat (map itemText its)") (simp_all add: notDigit_def del: concat_eq_Nil_conv)
  then show ?case using Cons by (cases it) auto
qed simp

text \<open>The bound strings from position \<open>k\<close> on are the arguments from there.\<close>

definition boundAt :: "goval list \<Rightarrow> nat \<Rightarrow> bpiece list \<Rightarrow> bool" where
  "boundAt args k ps \<longleftrightarrow>
     (\<forall>i < length (bounds ps). k + i < length args \<and> args ! (k + i) = VString (bounds ps ! i))"

lemma boundAt_simps [simp]:
  "boundAt args k (Fixed p # ps) \<longleftrightarrow> boundAt args k ps"
  "boundAt args k (Bound s # ps) \<longleftrightarrow> k < length args \<and> args ! k = VString s \<and> boundAt args (Suc k) ps"
proof -
  show "boundAt args k (Fixed p # ps) \<longleftrightarrow> boundAt args k ps" by (simp add: boundAt_def)
  have "(\<forall>i < Suc n. P i) \<longleftrightarrow> P 0 \<and> (\<forall>i < n. P (Suc i))" for n and P :: "nat \<Rightarrow> bool"
    using less_Suc_eq_0_disj by auto
  then show "boundAt args k (Bound s # ps) \<longleftrightarrow> k < length args \<and> args ! k = VString s \<and> boundAt args (Suc k) ps"
    by (auto simp: boundAt_def)
qed

lemma bind_quoted:
  assumes "okItems its (Some c)" "\<not> is_digit c" "\<forall>it \<in> set its. stringArg args it"
    and "kd \<noteq> SpanCode"
    and "\<exists>parts. res_map (bindToken args) ts = Inr parts \<and> concat parts = rest"
  shows "\<exists>parts. res_map (bindToken args) (flush (concat (map itemText its)) @ (kd, q, cl) # ts) = Inr parts \<and>
    concat parts = concat (map (itemLit args) its) @ q @ rest"
proof -
  have "okItems its None" using okItems_None [OF assms(1)] assms(2) by (simp add: notDigit_def)
  from bindToken_flush [OF this assms(3)] obtain p1 where
    "res_map (bindToken args) (flush (concat (map itemText its))) = Inr p1"
    "concat p1 = concat (map (itemLit args) its)" by auto
  moreover have "bindToken args (kd, q, cl) = Inr q" using assms(4) by (simp add: bindToken_def)
  ultimately show ?thesis using assms(5) by (auto simp: res_map_append)
qed

lemmas bindable_induct = bindable.induct [case_names 1 2 Ident NStr AStr 4]

lemma bind_pieceTokens:
  "bindable k ps \<Longrightarrow> okItems its (firstPiece (numbered k ps)) \<Longrightarrow>
   \<forall>it \<in> set its. stringArg args it \<Longrightarrow> boundAt args k ps \<Longrightarrow>
   \<exists>parts. res_map (bindToken args) (pieceTokens (concat (map itemText its)) (numbered k ps)) = Inr parts \<and>
     concat parts = concat (map (itemLit args) its) @ render (map handQuoted ps)"
proof (induction k ps arbitrary: its rule: bindable_induct)
  case (1 k)
  then show ?case using bindToken_flush by simp
next
  case (2 k r ps)
  have "okItems (its @ [IRaw r]) (firstPiece (numbered k ps))"
    using "2.prems" by (simp add: okItems_snoc)
  moreover have "\<forall>it \<in> set (its @ [IRaw r]). stringArg args it"
    using "2.prems" by (auto simp: stringArg_def)
  ultimately show ?case using "2.IH" [of "its @ [IRaw r]"] "2.prems" by simp
next
  case (Ident k n ps)
  then show ?case using Ident.IH [of "[]"]
    by (simp, intro bind_quoted [where c = "CHR ''[''"]) (auto simp: is_digit_def)
next
  case (NStr k n ps)
  then show ?case using NStr.IH [of "[]"]
    by (simp, intro bind_quoted [where c = "CHR ''N''"]) (auto simp: is_digit_def)
next
  case (AStr k n ps)
  then show ?case using AStr.IH [of "[]"]
    by (simp, intro bind_quoted [where c = squote]) (auto simp: is_digit_def char_consts)
next
  case (4 k s ps)
  have "okItems (its @ [IBound k]) (firstPiece (numbered (Suc k) ps))"
    using "4.prems" by (simp add: okItems_snoc boundText_def)
  moreover have "\<forall>it \<in> set (its @ [IBound k]). stringArg args it"
    using "4.prems" by (auto simp: stringArg_def)
  ultimately show ?case using "4.IH" [of "its @ [IBound k]"] "4.prems" by simp
qed

text \<open>The positions the code of the statement refers to.\<close>

definition codeIndices :: "goval list \<Rightarrow> token list \<Rightarrow> nat list" where
  "codeIndices args ts =
     concat (map (\<lambda>t. List.map_filter (argIndex args) (matchDigits (fst (snd t))))
       (filter (\<lambda>t. fst t = SpanCode) ts))"

lemma codeIndices_simps [simp]:
  "codeIndices args [] = []"
  "codeIndices args (a @ b) = codeIndices args a @ codeIndices args b"
  "codeIndices args (t # ts) =
     (if fst t = SpanCode then List.map_filter (argIndex args) (matchDigits (fst (snd t))) else []) @ codeIndices args ts"
  by (simp_all add: codeIndices_def)

lemma codeIndices_flush: "codeIndices args (flush acc) = List.map_filter (argIndex args) (matchDigits acc)"
  by (simp add: flush_def matchDigits_def)

lemma matchDigits_items:
  "okItems its None \<Longrightarrow> IBound j \<in> set its \<Longrightarrow> itoa (int (Suc j)) \<in> set (matchDigits (concat (map itemText its)))"
  by (force simp: matchDigits_def placeholders_items)

lemma codeIndices_items:
  assumes "okItems its None" "IBound j \<in> set its" "j < length args"
  shows "j \<in> set (codeIndices args (flush (concat (map itemText its))))"
proof -
  have "argIndex args (itoa (int (Suc j))) = Some j"
    using itoa_digits(3) [of j] assms(3) by (simp add: argIndex_def)
  then show ?thesis using matchDigits_items [OF assms(1,2)]
    by (force simp: codeIndices_flush List.map_filter_def)
qed

lemma codeIndices_pieces:
  "bindable k ps \<Longrightarrow> okItems its (firstPiece (numbered k ps)) \<Longrightarrow>
   j < length args \<Longrightarrow> IBound j \<in> set its \<or> k \<le> j \<and> j < k + length (bounds ps) \<Longrightarrow>
   j \<in> set (codeIndices args (pieceTokens (concat (map itemText its)) (numbered k ps)))"
proof (induction k ps arbitrary: its rule: bindable_induct)
  case (1 k)
  then show ?case using codeIndices_items [of its j args] by auto
next
  case (2 k r ps)
  then have "okItems (its @ [IRaw r]) (firstPiece (numbered k ps))" by (simp add: okItems_snoc)
  then show ?case using "2.IH" [of "its @ [IRaw r]"] "2.prems" by simp
next
  case (Ident k n ps)
  then have "okItems its None" by (auto intro: okItems_None simp: notDigit_def is_digit_def)
  then show ?case using Ident.IH [of "[]"] Ident.prems codeIndices_items [of its j args] by auto
next
  case (NStr k n ps)
  then have "okItems its None" by (auto intro: okItems_None simp: notDigit_def is_digit_def)
  then show ?case using NStr.IH [of "[]"] NStr.prems codeIndices_items [of its j args] by auto
next
  case (AStr k n ps)
  then have "okItems its None" by (auto intro: okItems_None simp: notDigit_def is_digit_def char_consts)
  then show ?case using AStr.IH [of "[]"] AStr.prems codeIndices_items [of its j args] by auto
next
  case (4 k s ps)
  then have "okItems (its @ [IBound k]) (firstPiece (numbered (Suc k) ps))"
    by (simp add: okItems_snoc boundText_def)
  moreover have "IBound j \<in> set (its @ [IBound k]) \<or> Suc k \<le> j \<and> j < Suc k + length (bounds ps)"
    using "4.prems"(4) by auto
  ultimately show ?case using "4.IH" [of "its @ [IBound k]"] "4.prems" by simp
qed

lemma named_strings: "find isNamedArg (map VString xs) = None"
  by (simp add: find_None_iff isNamedArg_def)

lemma bindScriptArgs_tokens:
  assumes "args \<noteq> []" "find isNamedArg args = None"
    and "res_map (bindToken args) (tokens None [] q) = Inr parts"
    and "\<forall>j < length args. j \<in> set (codeIndices args (tokens None [] q))"
  shows "bindScriptArgs q args = Inr (concat parts)"
proof -
  let ?text = "\<lambda>sp. slice q (spStart sp) (spEnd sp)"
  have f: "(\<lambda>sp. if spKind sp \<noteq> SpanCode then Inr (?text sp) else bindCode args (?text sp)) =
      (\<lambda>sp. bindToken args (tokenOf q sp))"
    by (rule ext) (simp add: bindToken_def tokenOf_def)
  have b: "concat (map (\<lambda>sp. List.map_filter (argIndex args) (matchDigits (?text sp)))
      (filter (\<lambda>sp. spKind sp = SpanCode) (Spans q))) = codeIndices args (tokens None [] q)"
    by (simp add: Spans_tokens [symmetric] codeIndices_def filter_map o_def tokenOf_def)
  have r: "\<forall>i \<in> set (case argIndex args ds of None \<Rightarrow> [] | Some i \<Rightarrow> [i]). i < length args" for ds
    by (auto simp: argIndex_def Let_def split: if_splits option.splits)
  have "find (\<lambda>ds. \<exists>i \<in> set (case argIndex args ds of None \<Rightarrow> [] | Some i \<Rightarrow> [i]).
      i \<notin> set (codeIndices args (tokens None [] q))) xs = None" for xs
    unfolding find_None_iff using r assms(4) by blast
  then show ?thesis
    using assms(1-3) unfolding bindScriptArgs_def Let_def f b
    by (simp add: Spans_tokens [symmetric] res_map_map)
qed

text \<open>
  C4: binding undoes the numbering: for a statement written with \<open>boundArgs\<close> (its pieces well
  formed, no bound string directly followed by a digit, and no code text that spells a
  placeholder itself), \<open>bindScriptArgs\<close> succeeds and gives the text with every bound value as
  its \<open>N'...'\<close> literal in place, also when a value itself spells \<open>@p1\<close>, a quote or a comment.
\<close>

theorem bindScriptArgs_inlines:
  assumes "wfPieces None (numbered 0 ps)" and "bindable 0 ps"
  shows "bindScriptArgs (snd (number [] ps)) (fst (number [] ps)) = Inr (render (map handQuoted ps))"
proof -
  let ?args = "map VString (bounds ps)"
  let ?q = "render (numbered 0 ps)"
  have q: "number [] ps = (?args, ?q)" by (simp add: number_eq)
  have tok: "tokens None [] ?q = pieceTokens [] (numbered 0 ps)" by (rule tokens_render [OF assms(1)])
  have "boundAt ?args 0 ps" by (simp add: boundAt_def)
  from bind_pieceTokens [OF assms(2) _ _ this, of "[]"] obtain parts where
    parts: "res_map (bindToken ?args) (pieceTokens [] (numbered 0 ps)) = Inr parts"
      "concat parts = render (map handQuoted ps)" by auto
  show ?thesis
  proof (cases "bounds ps = []")
    case True
    have "bounds ps = [] \<Longrightarrow> map handQuoted ps = numbered k ps" for k
      by (induction k ps rule: numbered.induct) auto
    with True q show ?thesis by (simp add: bindScriptArgs_def)
  next
    case False
    have "bindScriptArgs ?q ?args = Inr (concat parts)"
    proof (rule bindScriptArgs_tokens)
      show "\<forall>j < length ?args. j \<in> set (codeIndices ?args (tokens None [] ?q))"
        using codeIndices_pieces [OF assms(2), of "[]"] tok by simp
    qed (use False parts tok named_strings in simp_all)
    with parts q show ?thesis by simp
  qed
qed

lemma bindScriptArgs_inlines_witness:
  "bindScriptArgs ''EXEC sp_x @a = @p1, @b = @p2;'' [VString ''it is @p2'', VString ''-- b''] =
     Inr (''EXEC sp_x @a = '' @ QuoteLiteral ''it is @p2'' @ '', @b = '' @ QuoteLiteral ''-- b'' @ '';'')"
proof -
  let ?ps = "[Fixed (Raw ''EXEC sp_x @a = ''), Bound ''it is @p2'', Fixed (Raw '', @b = ''), Bound ''-- b'',
    Fixed (Raw '';'')]"
  have "wfPieces None (numbered 0 ?ps)" "bindable 0 ?ps" by code_simp+
  from bindScriptArgs_inlines [OF this]
  have "bindScriptArgs (snd (number [] ?ps)) (fst (number [] ?ps)) = Inr (render (map handQuoted ?ps))" .
  moreover have "number [] ?ps =
      ([VString ''it is @p2'', VString ''-- b''], ''EXEC sp_x @a = @p1, @b = @p2;'')" by code_simp
  ultimately show ?thesis by simp
qed

end
