(* ===== verification/Redact.thy ===== *)
theory Redact
  imports Pieces
begin

text \<open>
  \<open>redactSecrets\<close> of \<open>script.go\<close>: the form of a statement that a script or an observer may
  show, with every string literal that equals a secret replaced.  The proofs show that the
  replacement never changes how the rest of the statement reads, so the literals of the result
  are the literals of the statement with the secrets replaced.
\<close>

section \<open>The code\<close>

text \<open>The loop over the spans; \<open>last\<close> is the end of the last replaced literal.\<close>

fun redactLoop :: "string \<Rightarrow> string \<Rightarrow> string list \<Rightarrow> Span list \<Rightarrow> nat \<Rightarrow> string \<Rightarrow> string" where
  "redactLoop stmt placeholder secrets [] lastEnd out =
     (if lastEnd = 0 then stmt else out @ drop lastEnd stmt)"
| "redactLoop stmt placeholder secrets (sp # sps) lastEnd out =
     (if \<not> IsLiteral sp then redactLoop stmt placeholder secrets sps lastEnd out
      else (let v = Unescape sp stmt in
        if v \<noteq> [] \<and> v \<in> set secrets
        then redactLoop stmt placeholder secrets sps (spEnd sp)
               (out @ slice stmt lastEnd (spStart sp) @ QuoteLiteral placeholder)
        else redactLoop stmt placeholder secrets sps lastEnd out))"

definition redactSecrets :: "string \<Rightarrow> string \<Rightarrow> string list \<Rightarrow> string" where
  "redactSecrets stmt placeholder secrets =
     redactLoop stmt placeholder secrets (Spans stmt) 0 []"

section \<open>The loop replaces texts of spans\<close>

definition isLit :: "SpanKind \<Rightarrow> bool" where
  "isLit k \<longleftrightarrow> k = SpanLiteral \<or> k = SpanNLiteral"

text \<open>A token that is replaced, and its text in the result.\<close>

definition hit :: "string list \<Rightarrow> token \<Rightarrow> bool" where
  "hit secrets t \<longleftrightarrow> isLit (fst t) \<and> tokenValue t \<noteq> [] \<and> tokenValue t \<in> set secrets"

definition redTok :: "string \<Rightarrow> string list \<Rightarrow> token \<Rightarrow> string" where
  "redTok placeholder secrets t =
     (if hit secrets t then QuoteLiteral placeholder else fst (snd t))"

lemma redTok_simps:
  "hit secrets t \<Longrightarrow> redTok placeholder secrets t = QuoteLiteral placeholder"
  "\<not> hit secrets t \<Longrightarrow> redTok placeholder secrets t = fst (snd t)"
  by (simp_all add: redTok_def)

lemma redactLoop_tokens:
  assumes "tiles j sps (length stmt)" and "lastEnd \<le> j"
    and "\<forall>sp \<in> set sps. spStart sp < spEnd sp \<and> spEnd sp \<le> length stmt"
    and "lastEnd = 0 \<longrightarrow> out = []"
  shows "redactLoop stmt placeholder secrets sps lastEnd out =
    out @ slice stmt lastEnd j @ concat (map (\<lambda>sp. redTok placeholder secrets (tokenOf stmt sp)) sps)"
  using assms
proof (induction sps arbitrary: j lastEnd out)
  case Nil
  then show ?case by (auto simp: slice_to_end)
next
  case (Cons sp sps)
  from Cons.prems have sp: "spStart sp = j" "j < spEnd sp" "spEnd sp \<le> length stmt"
    and rest: "tiles (spEnd sp) sps (length stmt)" by auto
  have U: "Unescape sp stmt = tokenValue (tokenOf stmt sp)"
    using sp by (intro Unescape_tokenValue) auto
  have sl: "slice stmt lastEnd (spEnd sp) = slice stmt lastEnd j @ slice stmt j (spEnd sp)"
    using sp Cons.prems(2) by (simp add: slice_append)
  show ?case
  proof (cases "hit secrets (tokenOf stmt sp)")
    case True
    then have "redactLoop stmt placeholder secrets (sp # sps) lastEnd out =
      redactLoop stmt placeholder secrets sps (spEnd sp)
        (out @ slice stmt lastEnd j @ QuoteLiteral placeholder)"
      by (simp add: hit_def U tokenOf_def isLit_def IsLiteral_def sp(1))
    also have "\<dots> = (out @ slice stmt lastEnd j @ QuoteLiteral placeholder) @ slice stmt (spEnd sp) (spEnd sp) @
        concat (map (\<lambda>sp. redTok placeholder secrets (tokenOf stmt sp)) sps)"
      using rest Cons.prems(3) sp by (intro Cons.IH) auto
    finally show ?thesis using True by (simp add: redTok_simps)
  next
    case False
    then have "redactLoop stmt placeholder secrets (sp # sps) lastEnd out =
      redactLoop stmt placeholder secrets sps lastEnd out"
      by (auto simp: hit_def U tokenOf_def isLit_def IsLiteral_def Let_def)
    also have "\<dots> = out @ slice stmt lastEnd (spEnd sp) @
        concat (map (\<lambda>sp. redTok placeholder secrets (tokenOf stmt sp)) sps)"
      using rest Cons.prems sp by (intro Cons.IH) auto
    finally show ?thesis using False sl sp by (simp add: redTok_simps) (simp add: tokenOf_def)
  qed
qed

lemma redactSecrets_tokens:
  "redactSecrets stmt placeholder secrets =
   concat (map (redTok placeholder secrets) (tokens None [] stmt))"
  using redactLoop_tokens [of 0 "Spans stmt" stmt 0 "[]" placeholder secrets] Spans_tiling(1) [of stmt]
    Spans_bounds [of _ stmt]
  by (simp add: redactSecrets_def Spans_tokens [symmetric] o_def)

section \<open>The rest of the statement still reads the same\<close>

text \<open>
  The redaction as a walk over the text, in step with the tokenizer, and the view it keeps:
  which quoted texts there are, whether each is a literal, and its value.
\<close>

function red :: "string \<Rightarrow> string list \<Rightarrow> char option \<Rightarrow> string \<Rightarrow> string" where
  "red ph secrets p [] = []"
| "red ph secrets p (c # t) =
     (case opens p (c # t) of
        None \<Rightarrow> c # red ph secrets (Some c) t
      | Some (k, raw, r, cl) \<Rightarrow>
          redTok ph secrets (k, raw, cl) @ red ph secrets (Some (last raw)) r)"
  by pat_completeness auto
termination
  by (relation "measure (\<lambda>(_, _, _, t). length t)") (auto dest: opens_length)

declare red.simps(2) [simp del]

definition quotedView :: "token list \<Rightarrow> (bool \<times> string) list" where
  "quotedView ts = map (\<lambda>t. (isLit (fst t), tokenValue t)) (filter (\<lambda>t. quotedKind (fst t)) ts)"

lemma quotedView_simps [simp]:
  "quotedView [] = []" "quotedView (a @ b) = quotedView a @ quotedView b"
  "quotedView (t # ts) = (if quotedKind (fst t) then [(isLit (fst t), tokenValue t)] else []) @ quotedView ts"
  "quotedView (flush acc) = []"
  by (simp_all add: quotedView_def flush_def quotedKind_def)

lemma code_not_hit: "\<not> hit secrets (SpanCode, acc, b)"
  by (simp add: hit_def isLit_def)

lemma red_tokens:
  "acc @ red ph secrets p t = concat (map (redTok ph secrets) (tokens p acc t))"
proof (induction p acc t rule: tokens.induct)
  case (1 p acc)
  then show ?case by (simp add: flush_def redTok_def code_not_hit)
next
  case (2 p acc c t)
  show ?case
  proof (cases "opens p (c # t)")
    case None
    then show ?thesis using "2.IH"(1) by (simp add: tokens.simps(2) red.simps(2))
  next
    case (Some a)
    then show ?thesis using "2.IH"(2) [OF Some]
      by (cases a) (auto simp: tokens.simps(2) red.simps(2) flush_def redTok_def code_not_hit)
  qed
qed

text \<open>A text and one that may replace what follows a token.\<close>

definition sameStart :: "string \<Rightarrow> string \<Rightarrow> bool" where
  "sameStart r r' \<longleftrightarrow>
     (r = [] \<and> r' = []) \<or>
     (r \<noteq> [] \<and> r' \<noteq> [] \<and>
       (hd r' = hd r \<or> (hd r' = CHR ''N'' \<and> has_prefix (tl r') [squote] \<and>
          (hd r = squote \<or> hd r = CHR ''n''))))"

lemma sameStart_red: "sameStart t (red ph secrets p t)"
proof (cases t)
  case Nil
  then show ?thesis by (simp add: sameStart_def)
next
  case (Cons c u)
  show ?thesis
  proof (cases "opens p (c # u)")
    case None
    then show ?thesis by (simp add: Cons red.simps(2) sameStart_def)
  next
    case (Some a)
    obtain k raw r cl where a: "a = (k, raw, r, cl)" by (cases a)
    from opens_append [of p "c # u"] Some a have raw: "c # u = raw @ r" "raw \<noteq> []" by auto
    show ?thesis
    proof (cases "hit secrets (k, raw, cl)")
      case False
      then show ?thesis using Some a raw Cons
        by (cases raw) (auto simp: red.simps(2) redTok_def sameStart_def)
    next
      case True
      then have "c = squote \<or> c = CHR ''N'' \<or> c = CHR ''n''"
        using Some a by (auto simp: opens_def hit_def isLit_def Let_def split: if_splits prod.splits)
      then show ?thesis using Some a Cons True
        by (auto simp: red.simps(2) redTok_def sameStart_def QuoteLiteral_double)
    qed
  qed
qed

lemma splitClose_rest:
  "splitClose c t = (b, r, cl) \<Longrightarrow> (r = [] \<or> hd r \<noteq> c) \<and> (\<not> cl \<longrightarrow> r = [])"
  by (induction c t arbitrary: b r cl rule: splitClose.induct) (auto split: if_splits prod.splits)

lemma splitClose_step:
  "x \<noteq> c \<Longrightarrow> splitClose c (x # u) = (let (b, r, cl) = splitClose c u in (x # b, r, cl))"
  by (cases u) auto

lemma splitClose_closed_rest:
  "splitClose c t = (b, r, True) \<Longrightarrow> r' = [] \<or> hd r' \<noteq> c \<Longrightarrow>
   splitClose c (b @ r') = (b, r', True)"
proof (induction c t arbitrary: b rule: splitClose.induct)
  case (2 c x)
  then show ?case by (cases r') auto
next
  case (3 c x y t)
  consider "x \<noteq> c" | "x = c" "y = c" | "x = c" "y \<noteq> c" by blast
  then show ?case
  proof cases
    case 1
    with 3 show ?thesis by (auto simp: splitClose_step split: prod.splits)
  next
    case 2
    with 3 show ?thesis by (auto split: prod.splits)
  next
    case 3
    with "3.prems" show ?thesis by (cases r') auto
  qed
qed simp

lemma splitClose_rest_change:
  assumes "splitClose c t = (b, r, cl)" and "sameStart r r'" and "c \<noteq> CHR ''N''"
  shows "splitClose c (b @ r') = (b, r', cl)"
proof (cases cl)
  case False
  with assms have "r' = []" "t = b" using splitClose_rest [OF assms(1)] splitClose_append [OF assms(1)]
    by (auto simp: sameStart_def)
  moreover have "r = []" using splitClose_rest [OF assms(1)] False by simp
  ultimately show ?thesis using assms(1) by simp
next
  case True
  then have "r' = [] \<or> hd r' \<noteq> c"
    using splitClose_rest [OF assms(1)] assms(2,3) by (auto simp: sameStart_def)
  then show ?thesis using splitClose_closed_rest assms(1) True by simp
qed

lemma splitBlock_rest:
  "splitBlock d t = (b, r, cl) \<Longrightarrow> (\<not> cl \<longrightarrow> r = []) \<and>
   (cl \<longrightarrow> splitBlock d (b @ r') = (b, r', True)) "
proof (induction d t arbitrary: b r cl rule: splitBlock.induct)
  case (4 d x y t)
  show ?case
  proof (cases "(x = CHR ''/'' \<and> y = CHR ''*'') \<or> (x = CHR ''*'' \<and> y = CHR ''/'')")
    case True
    then show ?thesis using 4 by (auto split: if_splits prod.splits)
  next
    case False
    obtain b' r' cl' where s: "splitBlock (Suc d) (y # t) = (b', r', cl')"
      by (cases "splitBlock (Suc d) (y # t)")
    have "b' = [] \<Longrightarrow> cl' \<Longrightarrow> False"
      using s by (cases t) (auto split: if_splits prod.splits)
    moreover have "b' \<noteq> [] \<Longrightarrow> hd b' = y" using splitBlock_append [OF s] by (cases b') auto
    ultimately show ?thesis
      using False 4(3) [OF _ _ s] s "4.prems" by (cases b') auto
  qed
qed auto

lemma splitBlock_rest_change:
  assumes "splitBlock d t = (b, r, cl)" and "sameStart r r'"
  shows "splitBlock d (b @ r') = (b, r', cl)"
proof (cases cl)
  case True
  then show ?thesis using splitBlock_rest [OF assms(1)] by simp
next
  case False
  then have "r = []" using splitBlock_rest [OF assms(1)] by simp
  then have "r' = []" "t = b" using assms(2) splitBlock_append [OF assms(1)] by (auto simp: sameStart_def)
  then show ?thesis using assms(1) \<open>r = []\<close> by simp
qed

lemma delimTok_rest_change:
  "delimTok k c pre t = Some (k', raw, r, cl) \<Longrightarrow> sameStart r r' \<Longrightarrow> c \<noteq> CHR ''N'' \<Longrightarrow>
   \<exists>b. raw = pre @ b \<and> delimTok k c pre (b @ r') = Some (k', raw, r', cl)"
  by (auto simp: delimTok_def splitClose_rest_change split: prod.splits)

lemma opens_cases:
  assumes "opens p (c # t) = Some (k, raw, r, cl)"
  obtains (delim) kk cc pre u where "pre \<noteq> []" "c # t = pre @ u" "cc \<noteq> CHR ''N''"
      "\<And>u'. opens p (pre @ u') = delimTok kk cc pre u'"
    | (line) "has_prefix (c # t) ''--''" "k = SpanLineComment"
    | (block) u where "c # t = CHR ''/'' # CHR ''*'' # u" "k = SpanBlockComment"
proof -
  consider "c = squote" | "c = CHR ''[''" | "c = dquote"
    | "c = CHR ''N'' \<or> c = CHR ''n''" "has_prefix t [squote]" "wordStart p"
    | "has_prefix (c # t) ''--''" | "has_prefix (c # t) ''/*''"
    using opens_default [of c t p] assms by fastforce
  then show thesis
  proof cases
    case 1
    then show thesis using delim [of "[squote]" t squote SpanLiteral] opens_delims(1) [of p] by simp
  next
    case 2
    then show thesis
      using delim [of "''[''" t "CHR '']''" SpanBracketIdent] opens_delims(2) [of p] by simp
  next
    case 3
    then show thesis using delim [of "[dquote]" t dquote SpanQuotedIdent] opens_delims(3) [of p] by simp
  next
    case 4
    then obtain u where "t = squote # u" by (cases t) auto
    then show thesis
      using 4 delim [of "[c, squote]" u squote SpanNLiteral] opens_delims(4) [of p c] by simp
  next
    case 5
    then show thesis using line opens_line [OF 5, of p] assms by simp
  next
    case 6
    then obtain u where "c # t = CHR ''/'' # CHR ''*'' # u" using has_prefix_two by blast
    then show thesis using block assms by (simp add: opens_block split: prod.splits)
  qed
qed

lemma opens_rest_change:
  assumes o: "opens p (c # t) = Some (k, raw, r, cl)" and s: "sameStart r r'"
  shows "opens p (raw @ r') = Some (k, raw, r', cl)"
  using o
proof (cases rule: opens_cases)
  case (delim kk cc pre u)
  then have "delimTok kk cc pre u = Some (k, raw, r, cl)" using o by simp
  from delimTok_rest_change [OF this s delim(3)] obtain b where
    "raw = pre @ b" "delimTok kk cc pre (b @ r') = Some (k, raw, r', cl)" by blast
  then show ?thesis using delim(4) [of "b @ r'"] by simp
next
  case line
  then have eq: "raw = takeWhile notNl (c # t)" "r = dropWhile notNl (c # t)" "cl"
    using opens_line [OF line(1), of p] o by simp_all
  then have hp: "has_prefix raw ''--''" using line(1)
    by (cases t) (auto simp: notNl_def nl_def)
  then have "has_prefix (raw @ r') ''--''" by (auto simp: has_prefix_iff)
  moreover have "r' = [] \<or> \<not> notNl (hd r')"
    using s hd_dropWhile [of notNl "c # t"] eq(2)
    by (auto simp: sameStart_def notNl_def nl_def squote_def)
  moreover have "\<forall>x \<in> set raw. notNl x" using eq(1) by (auto dest: set_takeWhileD)
  ultimately show ?thesis using opens_line [of "raw @ r'" p] line(2) eq(3)
    by (cases r') (simp_all add: takeWhile_append dropWhile_append)
next
  case (block u)
  obtain b r0 cl0 where b: "splitBlock 1 u = (b, r0, cl0)" by (cases "splitBlock 1 u")
  then have "raw = ''/*'' @ b" "r = r0" "cl = cl0" using o block by (simp_all add: opens_block)
  then show ?thesis
    using splitBlock_rest_change [OF b, of r'] s block(2) opens_block [of p "b @ r'"] by simp
qed

lemma opens_None_change:
  assumes o: "opens p (c # t) = None" and s: "sameStart t t'"
  shows "opens p (c # t') = None"
proof (rule opens_default)
  have "c \<noteq> squote" "c \<noteq> CHR ''[''" "c \<noteq> dquote"
    using o by (auto simp: opens_def Let_def split: prod.splits)
  then show "c \<noteq> squote" "c \<noteq> CHR ''[''" "c \<noteq> dquote" by simp_all
  have "\<not> has_prefix (c # t) ''--''" "\<not> has_prefix (c # t) ''/*''"
    using o opens_line [of "c # t" p] has_prefix_two [of "c # t"] opens_block [of p "drop 2 (c # t)"]
    by (auto split: prod.splits)
  then show "\<not> has_prefix (c # t') ''--''" "\<not> has_prefix (c # t') ''/*''"
    using s by (cases t; cases t'; auto simp: sameStart_def)+
  have "\<not> ((c = CHR ''N'' \<or> c = CHR ''n'') \<and> has_prefix t [squote] \<and> wordStart p)"
    using o by (auto simp: opens_def wordStart_def split: prod.splits)
  then show "\<not> ((c = CHR ''N'' \<or> c = CHR ''n'') \<and> has_prefix t' [squote] \<and> wordStart p)"
    using s by (cases t; cases t') (auto simp: sameStart_def)
qed

text \<open>The quoted texts of the redaction.\<close>

definition redView :: "string \<Rightarrow> string list \<Rightarrow> bool \<times> string \<Rightarrow> bool \<times> string" where
  "redView ph secrets v = (if fst v \<and> snd v \<noteq> [] \<and> snd v \<in> set secrets then (True, ph) else v)"

lemma tokens_literal_any_start:
  assumes "rest = [] \<or> hd rest \<noteq> squote"
  shows "quotedView (tokens p acc (QuoteLiteral s @ rest)) =
    (True, s) # quotedView (tokens (Some squote) [] rest)"
proof (cases "wordStart p")
  case True
  then show ?thesis
    using scan_nlit.tokens_quote [of p rest acc s] assms
    by (simp add: quotedKind_def isLit_def value_quoted)
next
  case False
  have "opens p (CHR ''N'' # QuoteAnsiLiteral s @ rest) = None"
    using False by (intro opens_default) (auto simp: QuoteAnsiLiteral_double)
  then have "tokens p acc (QuoteLiteral s @ rest) =
      tokens (Some (CHR ''N'')) (acc @ ''N'') (QuoteAnsiLiteral s @ rest)"
    by (simp add: QuoteLiteral_def tokens.simps(2))
  then show ?thesis
    using scan_ansi.tokens_quote [of rest "Some (CHR ''N'')" "acc @ ''N''" s] assms
    by (simp add: quotedKind_def isLit_def value_quoted)
qed

lemma literal_token:
  assumes "opens p (c # t) = Some (k, raw, r, cl)" and "isLit k"
  shows "(cl \<longrightarrow> last raw = squote) \<and> (r = [] \<or> hd r \<noteq> squote) \<and> (\<not> cl \<longrightarrow> r = [])"
proof -
  have lst: "splitClose squote u = (b, r', True) \<Longrightarrow> b \<noteq> [] \<and> last b = squote" for u b r'
    by (induction squote u arbitrary: b r' rule: splitClose.induct) (auto split: if_splits prod.splits)
  have "isLit k \<Longrightarrow> c = squote \<or> ((c = CHR ''N'' \<or> c = CHR ''n'') \<and> has_prefix t [squote])"
    using assms(1) by (auto simp: opens_def isLit_def Let_def split: if_splits prod.splits)
  then show ?thesis
    using assms splitClose_rest [of squote] lst
    by (auto simp: opens_def isLit_def Let_def split: if_splits prod.splits) 
qed

lemma quotedView_red:
  "quotedView (tokens p acc' (red ph secrets p t)) =
   map (redView ph secrets) (quotedView (tokens p acc t))"
proof (induction p acc t arbitrary: acc' rule: tokens.induct)
  case (1 p acc)
  then show ?case by simp
next
  case (2 p acc c t)
  show ?case
  proof (cases "opens p (c # t)")
    case None
    have "opens p (c # red ph secrets (Some c) t) = None"
      using opens_None_change [OF None sameStart_red] .
    then show ?thesis using None "2.IH"(1) [OF None] by (simp add: tokens.simps(2) red.simps(2))
  next
    case (Some a)
    obtain k raw r cl where a: "a = (k, raw, r, cl)" by (cases a)
    from opens_append [of p "c # t"] Some a have raw: "c # t = raw @ r" "raw \<noteq> []" "k \<noteq> SpanCode" by auto
    let ?r' = "red ph secrets (Some (last raw)) r"
    have IH: "quotedView (tokens (Some (last raw)) acc' ?r') =
        map (redView ph secrets) (quotedView (tokens (Some (last raw)) [] r))" for acc'
      using "2.IH"(2) [OF Some a [symmetric] refl refl] by simp
    have same: "sameStart r ?r'" by (rule sameStart_red)
    have orig: "quotedView (tokens p acc (c # t)) =
        quotedView [(k, raw, cl)] @ quotedView (tokens (Some (last raw)) [] r)"
      using Some a by (simp add: tokens.simps(2))
    show ?thesis
    proof (cases "hit secrets (k, raw, cl)")
      case False
      have "opens p (raw @ ?r') = Some (k, raw, ?r', cl)"
        using opens_rest_change [of p c t] Some a same by simp
      then have "quotedView (tokens p acc' (raw @ ?r')) =
          quotedView [(k, raw, cl)] @ quotedView (tokens (Some (last raw)) [] ?r')"
        using raw(2) by (cases raw) (simp_all add: tokens.simps(2))
      then show ?thesis
        using False Some a IH orig
        by (auto simp: red.simps(2) redTok_def redView_def hit_def)
    next
      case True
      then have lit: "isLit k" by (simp add: hit_def)
      from literal_token [of p c t k raw r cl] Some a lit
      have l: "cl \<longrightarrow> last raw = squote" "r = [] \<or> hd r \<noteq> squote" "\<not> cl \<longrightarrow> r = []" by auto
      have "?r' = [] \<or> hd ?r' \<noteq> squote" using same l(2) by (auto simp: sameStart_def)
      from tokens_literal_any_start [OF this]
      have "quotedView (tokens p acc' (QuoteLiteral ph @ ?r')) =
          (True, ph) # quotedView (tokens (Some squote) [] ?r')" .
      moreover have "quotedView (tokens (Some squote) [] ?r') = quotedView (tokens (Some (last raw)) [] ?r')"
        using l by (cases cl) auto
      moreover have "quotedView [(k, raw, cl)] = [(True, tokenValue (k, raw, cl))]"
        using lit by (auto simp: isLit_def quotedKind_def)
      ultimately show ?thesis
        using True Some a IH orig
        by (simp add: red.simps(2) redTok_def redView_def hit_def)
    qed
  qed
qed

section \<open>Properties\<close>

definition literalValues :: "string \<Rightarrow> string list" where
  "literalValues s = map (\<lambda>sp. Unescape sp s) (filter IsLiteral (Spans s))"

definition quotedIdentifiers :: "string \<Rightarrow> string list" where
  "quotedIdentifiers s = map (\<lambda>sp. Unescape sp s) (filter (\<lambda>sp. IsQuoted sp \<and> \<not> IsLiteral sp) (Spans s))"

lemma views_of_quotedView:
  "literalValues s = map snd (filter fst (quotedView (tokens None [] s)))"
  "quotedIdentifiers s = map snd (filter (\<lambda>v. \<not> fst v) (quotedView (tokens None [] s)))"
proof -
  let ?v = "\<lambda>sp. (isLit (spKind sp), Unescape sp s)"
  have q: "quotedView (tokens None [] s) = map ?v (filter IsQuoted (Spans s))"
  proof -
    have "filter (\<lambda>t. quotedKind (fst t)) (map (tokenOf s) (Spans s)) =
          map (tokenOf s) (filter IsQuoted (Spans s))"
      by (simp add: filter_map o_def tokenOf_def quotedKind_def IsQuoted_def [abs_def])
    then show ?thesis
      by (simp add: quotedView_def Spans_tokens [symmetric] Unescape_Spans tokenOf_def)
  qed
  have f: "filter IsLiteral sps = filter (\<lambda>sp. isLit (spKind sp)) (filter IsQuoted sps)"
    "filter (\<lambda>sp. IsQuoted sp \<and> \<not> IsLiteral sp) sps = filter (\<lambda>sp. \<not> isLit (spKind sp)) (filter IsQuoted sps)"
    for sps
    by (auto simp: filter_filter IsLiteral_def isLit_def IsQuoted_def intro!: filter_cong)
  show "literalValues s = map snd (filter fst (quotedView (tokens None [] s)))"
    unfolding q literalValues_def f by (simp add: filter_map o_def)
  show "quotedIdentifiers s = map snd (filter (\<lambda>v. \<not> fst v) (quotedView (tokens None [] s)))"
    unfolding q quotedIdentifiers_def f by (simp add: filter_map o_def)
qed

lemma redView_filters:
  "map snd (filter fst (map (redView ph secrets) vs)) =
   map (\<lambda>v. if v \<noteq> [] \<and> v \<in> set secrets then ph else v) (map snd (filter fst vs))"
  "map snd (filter (\<lambda>v. \<not> fst v) (map (redView ph secrets) vs)) = map snd (filter (\<lambda>v. \<not> fst v) vs)"
  by (induction vs) (auto simp: redView_def)

lemma redacted_view:
  "quotedView (tokens None [] (redactSecrets stmt placeholder secrets)) =
   map (redView placeholder secrets) (quotedView (tokens None [] stmt))"
proof -
  have "redactSecrets stmt placeholder secrets = red placeholder secrets None stmt"
    using red_tokens [of "[]" placeholder secrets None stmt] by (simp add: redactSecrets_tokens)
  then show ?thesis by (simp add: quotedView_red)
qed

lemma redacted_literals:
  "literalValues (redactSecrets stmt placeholder secrets) =
   map (\<lambda>v. if v \<noteq> [] \<and> v \<in> set secrets then placeholder else v) (literalValues stmt)"
  by (simp add: views_of_quotedView redacted_view redView_filters del: map_map)

text \<open>
  C3: redaction is exact: for any statement, however its quoting is nested or left open, the
  literals of the redacted statement are those of the statement with each one that equals a
  (non-empty) secret replaced by the placeholder, and its quoted identifiers are unchanged.
\<close>

theorem redactSecrets_exact:
  "literalValues (redactSecrets stmt placeholder secrets) =
     map (\<lambda>v. if v \<noteq> [] \<and> v \<in> set secrets then placeholder else v) (literalValues stmt) \<and>
   quotedIdentifiers (redactSecrets stmt placeholder secrets) = quotedIdentifiers stmt"
  using redacted_literals by (simp add: views_of_quotedView redacted_view redView_filters del: map_map)

text \<open>
  No secret survives: no string literal of a redacted statement holds one of the secrets,
  as long as the placeholder is not itself one of them.
\<close>

theorem redactSecrets_no_secret:
  assumes "placeholder \<notin> set secrets" and "v \<in> set (literalValues (redactSecrets stmt placeholder secrets))"
    and "v \<noteq> []"
  shows "v \<notin> set secrets"
  using assms by (auto simp: redacted_literals split: if_splits)

lemma redactSecrets_no_secret_witness:
  "''<insert password here>'' \<in> set (literalValues (redactSecrets
      (''CREATE LOGIN [x] WITH PASSWORD = '' @ QuoteLiteral ''hunter2'') ''<insert password here>'' [''hunter2''])) \<and>
   ''<insert password here>'' \<notin> set [''hunter2'']"
proof -
  have l: "''<insert password here>'' \<in> set (literalValues (redactSecrets
      (''CREATE LOGIN [x] WITH PASSWORD = '' @ QuoteLiteral ''hunter2'') ''<insert password here>'' [''hunter2'']))"
    by code_simp
  have "''<insert password here>'' \<notin> set [''hunter2'']"
    by (rule redactSecrets_no_secret [OF _ l]) simp_all
  with l show ?thesis by blast
qed

end
