(* ===== verification/Comment.thy ===== *)
theory Comment
  imports Utf8 Scan
begin

text \<open>
  \<open>tsql/comment.go\<close>: text made safe inside the two comment forms, and what the scanner of
  \<open>tsql/scan.go\<close> reads when it stands there.
\<close>

text \<open>\<open>unicode.IsControl\<close>: category Cc.\<close>

definition isControl :: "nat \<Rightarrow> bool" where
  "isControl r \<longleftrightarrow> r < 0x20 \<or> (0x7F \<le> r \<and> r < 0xA0)"

definition CommentSafe :: "string \<Rightarrow> string" where
  "CommentSafe s = strings_map (\<lambda>r. if isControl r then 32 else r) s"

definition splitsPair :: "nat \<Rightarrow> nat \<Rightarrow> bool" where
  "splitsPair prev r \<longleftrightarrow> (prev = 42 \<and> r = 47) \<or> (prev = 47 \<and> r = 42)"

fun blockSafeLoop :: "nat \<Rightarrow> nat list \<Rightarrow> string" where
  "blockSafeLoop prev [] = []"
| "blockSafeLoop prev (r # rs) =
     (if splitsPair prev r then '' '' else []) @ encodeRune r @ blockSafeLoop r rs"

definition BlockCommentSafe :: "string \<Rightarrow> string" where
  "BlockCommentSafe s =
     (if \<not> contains s ''*/'' \<and> \<not> contains s ''/*'' then s else blockSafeLoop 0 (runes s))"

section \<open>Line comments\<close>

lemma CommentSafe_no_control:
  assumes "byte c < 0x20 \<or> byte c = 0x7F"
  shows "c \<notin> set (CommentSafe s)"
proof
  assume "c \<in> set (CommentSafe s)"
  then obtain r where "c \<in> set (encodeRune (if isControl r then 32 else r))"
    by (auto simp: CommentSafe_def strings_map_def)
  then have "byte c = (if isControl r then 32 else r)"
    using assms by (subst (asm) encodeRune_char) auto
  with assms show False by (auto simp: isControl_def split: if_splits)
qed

lemma nl_not_safe: "nl \<notin> set (CommentSafe s)"
  by (rule CommentSafe_no_control) (simp add: nl_def byte_def)

lemma takeWhile_notNl: "nl \<notin> set a \<Longrightarrow> takeWhile notNl (a @ nl # b) = a \<and> dropWhile notNl (a @ nl # b) = nl # b"
  by (induction a) (auto simp: notNl_def)

section \<open>Block comments\<close>

text \<open>No two neighbouring characters open or close a comment.\<close>

fun noPair :: "char \<Rightarrow> string \<Rightarrow> bool" where
  "noPair p [] = True"
| "noPair p (c # s) =
     (\<not> (p = CHR ''*'' \<and> c = CHR ''/'') \<and> \<not> (p = CHR ''/'' \<and> c = CHR ''*'') \<and> noPair c s)"

lemma noPair_append: "noPair p (a @ b) \<longleftrightarrow> noPair p a \<and> noPair (last (p # a)) b"
  by (induction a arbitrary: p) auto

lemma noPair_high:
  "\<forall>c \<in> set (tl s). 0x80 \<le> byte c \<Longrightarrow> 0x80 \<le> byte p \<or> 0x80 \<le> byte (hd s) \<or> s = [] \<or>
   \<not> splitsPair (byte p) (byte (hd s)) \<Longrightarrow> noPair p s"
proof (induction s arbitrary: p)
  case Nil
  then show ?case by simp
next
  case (Cons c s)
  note IH = Cons.IH
  have "noPair c s"
  proof (cases s)
    case (Cons d t)
    then have "0x80 \<le> byte d" "\<forall>x \<in> set t. 0x80 \<le> byte x" using Cons.prems(1) by auto
    then show ?thesis using Cons by (intro IH) auto
  qed simp
  then show ?case using Cons.prems(2) by (auto simp: splitsPair_def byte_def)
qed

lemma noPair_contains: "noPair p s \<Longrightarrow> \<not> contains s ''*/'' \<and> \<not> contains s ''/*''"
proof (induction s arbitrary: p)
  case (Cons c s)
  then show ?case by (cases s) auto
qed simp

lemma contains_noPair:
  "\<not> contains s ''*/'' \<Longrightarrow> \<not> contains s ''/*'' \<Longrightarrow>
   p \<noteq> CHR ''*'' \<Longrightarrow> p \<noteq> CHR ''/'' \<Longrightarrow> noPair p s"
proof -
  have "\<not> contains (c # s) ''*/'' \<Longrightarrow> \<not> contains (c # s) ''/*'' \<Longrightarrow> noPair c s" for c
  proof (induction s arbitrary: c)
    case (Cons d s)
    then show ?case by (cases s) auto
  qed simp
  then show "\<not> contains s ''*/'' \<Longrightarrow> \<not> contains s ''/*'' \<Longrightarrow>
   p \<noteq> CHR ''*'' \<Longrightarrow> p \<noteq> CHR ''/'' \<Longrightarrow> noPair p s"
    by (cases s) auto
qed

text \<open>The last character written for a rune agrees with the rune, as far as pairs go.\<close>

definition agrees :: "char \<Rightarrow> nat \<Rightarrow> bool" where
  "agrees p r \<longleftrightarrow> byte p = r \<or> (0x80 \<le> byte p \<and> 0x80 \<le> r)"

lemma agrees_last: "agrees (last (encodeRune r)) r"
proof (cases "r < 0x80")
  case True
  then show ?thesis by (simp add: encodeRune_ascii agrees_def)
next
  case False
  then show ?thesis using encodeRune_high [of r "last (encodeRune r)"] by (simp add: agrees_def)
qed

lemma noPair_encode:
  assumes "agrees p prev" and "\<not> splitsPair prev r"
  shows "noPair p (encodeRune r)"
proof (cases "r < 0x80")
  case True
  with assms show ?thesis
    by (auto simp: encodeRune_ascii agrees_def splitsPair_def char_of_iff) (auto simp: byte_def)
next
  case False
  then have "\<forall>c \<in> set (encodeRune r). 0x80 \<le> byte c" using encodeRune_high [of r] by simp
  moreover obtain c u where "encodeRune r = c # u" by (cases "encodeRune r") auto
  ultimately show ?thesis by (intro noPair_high) auto
qed

lemma noPair_blockSafe: "agrees p prev \<Longrightarrow> noPair p (blockSafeLoop prev rs)"
proof (induction prev rs arbitrary: p rule: blockSafeLoop.induct)
  case (1 prev)
  then show ?case by simp
next
  case (2 prev r rs)
  have tail: "noPair (last (q # encodeRune r)) (blockSafeLoop r rs)" for q
    using "2.IH" [OF agrees_last] by simp
  show ?case
  proof (cases "splitsPair prev r")
    case True
    have "agrees (CHR '' '') 32" "\<not> splitsPair 32 r" by (simp_all add: agrees_def byte_def splitsPair_def)
    then have "noPair (CHR '' '') (encodeRune r)" by (rule noPair_encode)
    then show ?thesis using True tail by (simp add: noPair_append)
  next
    case False
    then show ?thesis using noPair_encode [OF "2.prems" False] tail by (simp add: noPair_append)
  qed
qed

lemma BlockCommentSafe_noPair: "noPair (CHR 0x00) (BlockCommentSafe s)"
proof (cases "\<not> contains s ''*/'' \<and> \<not> contains s ''/*''")
  case True
  then show ?thesis by (simp add: BlockCommentSafe_def contains_noPair)
next
  case False
  have "agrees (CHR 0x00) 0" by (simp add: agrees_def byte_def)
  then show ?thesis using False by (auto simp: BlockCommentSafe_def intro: noPair_blockSafe)
qed

text \<open>Only spaces are added, and only where a pair stood.\<close>

lemma blockSafe_spaces:
  "filter (\<lambda>c. c \<noteq> CHR '' '') (blockSafeLoop prev rs) =
   filter (\<lambda>c. c \<noteq> CHR '' '') (concat (map encodeRune rs))"
  by (induction prev rs rule: blockSafeLoop.induct) auto

lemma splitBlock_noPair:
  assumes "noPair p t" and "p \<noteq> CHR ''*''"
  shows "splitBlock (Suc 0) (t @ '' */'' @ rest) = (t @ '' */'', rest, True)"
  using assms
proof (induction t arbitrary: p)
  case Nil
  then show ?case by (cases rest) auto
next
  case (Cons c t)
  show ?case
  proof (cases t)
    case Nil
    then show ?thesis by (cases rest) auto
  next
    case (Cons d u)
    have ne: "\<not> (c = CHR ''/'' \<and> d = CHR ''*'')" "\<not> (c = CHR ''*'' \<and> d = CHR ''/'')" "noPair c t"
      using Cons.prems Cons by auto
    have "splitBlock (Suc 0) (t @ '' */'' @ rest) = (t @ '' */'', rest, True)"
    proof (cases "c = CHR ''*''")
      case False
      then show ?thesis using Cons.IH [OF ne(3)] by simp
    next
      case True
      then have "noPair (CHR 0x00) t" using ne(3) Cons by auto
      then show ?thesis using Cons.IH [of "CHR 0x00"] by simp
    qed
    then show ?thesis using ne Cons by auto
  qed
qed

section \<open>Properties\<close>

lemma Spans_from_tokens:
  assumes "tokens None [] s = (k, raw, cl) # ts"
  shows "\<exists>sps. Spans s = mkSpan k 0 (length raw) cl # sps \<and> map (tokenOf s) sps = ts"
proof -
  have t: "map (tokenOf s) (Spans s) = (k, raw, cl) # ts" using Spans_tokens assms by simp
  then obtain sp sps where sp: "Spans s = sp # sps" "tokenOf s sp = (k, raw, cl)"
      "map (tokenOf s) sps = ts"
    by (cases "Spans s") auto
  have "tiles 0 (sp # sps) (length s)" using Spans_tiling(1) [of s] sp(1) by simp
  then have b: "spStart sp = 0" "spEnd sp \<le> length s"
    using tiles_concat [of "spEnd sp" sps "length s"] by auto
  then have "spEnd sp = length raw" using sp(2) length_slice [of "spEnd sp" s 0]
    by (auto simp: tokenOf_def)
  with b sp show ?thesis by (cases sp) (auto simp: mkSpan_def tokenOf_def)
qed

text \<open>
  A name in a line comment cannot leave it: whatever the name holds, text that starts with
  the comment marker, the name made safe by \<open>CommentSafe\<close> and a line break is read as one line
  comment that ends at that line break, and no control character is left in it.
\<close>

theorem CommentSafe_stays_in_comment:
  "(\<exists>sps. Spans (''-- '' @ CommentSafe n @ nl # rest) =
      mkSpan SpanLineComment 0 (3 + length (CommentSafe n)) True # sps) \<and>
   list_all (\<lambda>c. 0x20 \<le> byte c \<and> byte c \<noteq> 0x7F) (CommentSafe n)"
proof
  let ?a = "''-- '' @ CommentSafe n"
  have "nl \<notin> set ?a" using nl_not_safe by (auto simp: nl_def)
  then have tw: "takeWhile notNl (?a @ nl # rest) = ?a" "dropWhile notNl (?a @ nl # rest) = nl # rest"
    using takeWhile_notNl by blast+
  have "tokens None [] (?a @ nl # rest) =
      (SpanLineComment, ?a, True) # tokens (Some (last ?a)) [] (nl # rest)"
    using opens_line [of "?a @ nl # rest" None] tw
    by (simp add: tokens.simps(2) flush_def)
  from Spans_from_tokens [OF this]
  show "\<exists>sps. Spans (''-- '' @ CommentSafe n @ nl # rest) =
      mkSpan SpanLineComment 0 (3 + length (CommentSafe n)) True # sps"
    by auto
  show "list_all (\<lambda>c. 0x20 \<le> byte c \<and> byte c \<noteq> 0x7F) (CommentSafe n)"
    using CommentSafe_no_control by (fastforce simp: list_all_iff not_less)
qed

text \<open>
  A name in a block comment cannot leave it: the text between the delimiters, made safe by
  \<open>BlockCommentSafe\<close> whatever the name holds, neither closes the comment nor opens a nested one,
  so the comment is one closed span that ends at its own delimiter; and on valid text only
  spaces were added.
\<close>

theorem BlockCommentSafe_stays_in_comment:
  "(\<exists>sps. Spans (''/* '' @ BlockCommentSafe n @ '' */'' @ rest) =
      mkSpan SpanBlockComment 0 (6 + length (BlockCommentSafe n)) True # sps) \<and>
   \<not> contains (BlockCommentSafe n) ''*/'' \<and> \<not> contains (BlockCommentSafe n) ''/*'' \<and>
   (concat (map encodeRune (runes n)) = n \<longrightarrow>
      filter (\<lambda>c. c \<noteq> CHR '' '') (BlockCommentSafe n) = filter (\<lambda>c. c \<noteq> CHR '' '') n)"
proof (intro conjI impI)
  let ?b = "BlockCommentSafe n"
  have np: "noPair (CHR 0x00) ?b" by (rule BlockCommentSafe_noPair)
  then have "noPair (CHR '' '') ?b" by (cases ?b) auto
  then have "noPair (CHR 0x00) (CHR '' '' # ?b)" by simp
  from splitBlock_noPair [OF this]
  have "splitBlock (Suc 0) (CHR '' '' # ?b @ '' */'' @ rest) = (CHR '' '' # ?b @ '' */'', rest, True)"
    by simp
  then have "tokens None [] (''/* '' @ ?b @ '' */'' @ rest) =
      (SpanBlockComment, ''/* '' @ ?b @ '' */'', True) # tokens (Some (CHR ''/'')) [] rest"
    by (simp add: tokens.simps(2) opens_block flush_def)
  from Spans_from_tokens [OF this]
  show "\<exists>sps. Spans (''/* '' @ ?b @ '' */'' @ rest) =
      mkSpan SpanBlockComment 0 (6 + length ?b) True # sps"
    by auto
  show "\<not> contains ?b ''*/''" "\<not> contains ?b ''/*''" using noPair_contains [OF np] by simp_all
  show "filter (\<lambda>c. c \<noteq> CHR '' '') ?b = filter (\<lambda>c. c \<noteq> CHR '' '') n"
    if "concat (map encodeRune (runes n)) = n"
    using blockSafe_spaces [of 0 "runes n"] that by (auto simp: BlockCommentSafe_def)
qed

lemma BlockCommentSafe_stays_in_comment_witness:
  "filter (\<lambda>c. c \<noteq> CHR '' '') (BlockCommentSafe ''a*/*b'') = ''a*/*b''"
  using BlockCommentSafe_stays_in_comment [of "''a*/*b''" "[]"]
    runes_ascii [of "''a*/*b''"] encode_ascii [of "''a*/*b''"]
  by (simp add: is_ascii_def del: runes.simps)

end
