(* ===== verification/Script.thy ===== *)
theory Script
  imports Comment BackupRestore
begin

text \<open>
  The collector of \<open>script.go\<close>: the statements a write under \<open>WithScript\<close> would have run, each
  with the instance and the database it belongs to, and their rendering as one script.  The
  lemmas read that script back the way a query tool does -- batches separated by \<open>GO\<close> lines,
  run one after another in one session -- and show where each statement runs.
\<close>

section \<open>The collector\<close>

record ScriptEntry =
  eServer :: string
  eDatabase :: string
  eSQL :: string

text \<open>The mutex makes each method one step; \<open>collector\<close> is the guarded slice.\<close>

type_synonym collector = "ScriptEntry list"

definition collectorAppend :: "collector \<Rightarrow> ScriptEntry \<Rightarrow> collector" where
  "collectorAppend c e = c @ [e]"

fun Add :: "collector \<Rightarrow> ScriptEntry list \<Rightarrow> collector" where
  "Add c [] = c"
| "Add c (e # es) = Add (collectorAppend c e) es"

definition Entries :: "collector \<Rightarrow> ScriptEntry list" where
  "Entries c = c"

definition Len :: "collector \<Rightarrow> nat" where
  "Len c = length c"

definition scriptUse :: "string \<Rightarrow> string" where
  "scriptUse db = ''USE '' @ QuoteName db @ '';
GO
''"

definition Statements :: "collector \<Rightarrow> string list" where
  "Statements c =
     map (\<lambda>e. if eDatabase e \<noteq> [] then scriptUse (eDatabase e) @ eSQL e else eSQL e) (Entries c)"

definition onServer :: "string \<Rightarrow> string" where
  "onServer srv =
     (let name = (if srv = [] then ''(unknown instance)'' else srv)
      in ''-- on '' @ CommentSafe name @ [nl])"

text \<open>The database switch before an entry, and the database known after it.\<close>

definition switchTo :: "string \<Rightarrow> ScriptEntry \<Rightarrow> string \<times> string" where
  "switchTo cur e =
     (if eDatabase e \<noteq> [] \<and> eDatabase e \<noteq> cur then (scriptUse (eDatabase e), eDatabase e)
      else if eDatabase e = [] \<and> cur \<noteq> [] then
        (if \<not> has_prefix (eSQL e) (fromMaster []) then scriptUse ''master'' else [], [])
      else ([], cur))"

text \<open>\<open>prev\<close> is \<open>entries[i-1]\<close>, absent for the first entry.\<close>

fun scriptLoop :: "bool \<Rightarrow> ScriptEntry option \<Rightarrow> string \<Rightarrow> ScriptEntry list \<Rightarrow> string" where
  "scriptLoop multi prev cur [] = []"
| "scriptLoop multi prev cur (e # es) =
     (let gap = (if prev \<noteq> None then [nl] else []);
          header = multi \<and> (case prev of None \<Rightarrow> True | Some p \<Rightarrow> eServer e \<noteq> eServer p);
          cur' = (if header then [] else cur);
          (text, cur'') = switchTo cur' e
      in gap @ (if header then onServer (eServer e) else []) @ text @ eSQL e @ ''
GO
'' @ scriptLoop multi (Some e) cur'' es)"

definition collectorString :: "collector \<Rightarrow> string" where
  "collectorString c =
     (let es = Entries c;
          multi = list_ex (\<lambda>e. eServer e \<noteq> eServer (hd es)) es
      in scriptLoop multi None [] es)"

section \<open>Reading a script back\<close>

text \<open>
  A query tool cuts a script at the lines that say \<open>GO\<close>; text after the last one would be a batch
  of its own.
\<close>

fun cutAtGo :: "string list \<Rightarrow> string list \<Rightarrow> string list" where
  "cutAtGo acc [] = (if concat acc = [] then [] else [str_join [nl] acc])"
| "cutAtGo acc (l # ls) =
     (if l = ''GO'' then str_join [nl] acc # cutAtGo [] ls else cutAtGo (acc @ [l]) ls)"

definition batches :: "string \<Rightarrow> string list" where
  "batches s = cutAtGo [] (split_byte s nl)"

definition goFree :: "string \<Rightarrow> bool" where
  "goFree s \<longleftrightarrow> ''GO'' \<notin> set (split_byte s nl)"

lemma split_byte_app: "split_byte (a @ c # b) c = split_byte a c @ split_byte b c"
  by (induction a) (auto split: list.split)

lemma cutAtGo_free: "''GO'' \<notin> set ls \<Longrightarrow> cutAtGo acc (ls @ rest) = cutAtGo (acc @ ls) rest"
  by (induction ls arbitrary: acc) auto

lemma batches_cons:
  assumes "goFree s"
  shows "batches (s @ ''
GO
'' @ rest) = s # batches rest"
proof -
  have "split_byte (s @ ''
GO
'' @ rest) nl = split_byte s nl @ ''GO'' # split_byte rest nl"
    using split_byte_app [of s nl "''GO'' @ nl # rest"] split_byte_app [of "''GO''" nl rest]
    by (simp add: nl_def)
  then show ?thesis
    using assms by (simp add: batches_def goFree_def cutAtGo_free join_split)
qed

lemma batches_Nil [simp]: "batches [] = []"
  by (simp add: batches_def)

lemma goFree_gap [simp]: "goFree (nl # s) = goFree s"
  by (simp add: goFree_def)

lemma goFree_line: "nl \<notin> set a \<Longrightarrow> a \<noteq> ''GO'' \<Longrightarrow> goFree (a @ nl # s) = goFree s"
  by (auto simp: goFree_def split_byte_app split_byte_no_sep)

section \<open>A session\<close>

text \<open>
  \<open>after d b\<close> is the database a session in \<open>d\<close> is in once it has run the batch \<open>b\<close>; \<open>ran\<close> lists
  each batch with the database it ran in.
\<close>

fun ran :: "(string \<Rightarrow> string \<Rightarrow> string) \<Rightarrow> string \<Rightarrow> string list \<Rightarrow> (string \<times> string) list" where
  "ran after d [] = []"
| "ran after d (b # bs) = (d, b) # ran after (after d b) bs"

definition useBatchText :: "string \<Rightarrow> string" where
  "useBatchText db = ''USE '' @ QuoteName db @ '';''"

text \<open>The leading line breaks of a batch say nothing.\<close>

definition trimmed :: "string \<Rightarrow> string" where
  "trimmed b = dropWhile (\<lambda>c. c = nl) b"

text \<open>The batches of one entry of a single-instance script.\<close>

definition entryBatches :: "bool \<Rightarrow> string \<Rightarrow> ScriptEntry \<Rightarrow> string list" where
  "entryBatches gap cur e =
     (let g = (if gap then [nl] else [])
      in if fst (switchTo cur e) = [] then [g @ eSQL e]
         else [g @ useBatchText (if eDatabase e = [] then ''master'' else eDatabase e), eSQL e])"

fun scriptBatches :: "bool \<Rightarrow> string \<Rightarrow> ScriptEntry list \<Rightarrow> string list" where
  "scriptBatches gap cur [] = []"
| "scriptBatches gap cur (e # es) =
     entryBatches gap cur e @ scriptBatches True (snd (switchTo cur e)) es"

definition readable :: "ScriptEntry \<Rightarrow> bool" where
  "readable e \<longleftrightarrow> goFree (eSQL e) \<and> goFree (useBatchText (eDatabase e))"

section \<open>Where the statements of a script run\<close>

text \<open>
  What a script owes its entries: a database-scoped one runs in its database; a server-scoped one
  runs where the session is, moved to \<open>master\<close> if a database-scoped one came before it (unless it
  moves there itself).
\<close>

fun places :: "(string \<Rightarrow> string \<Rightarrow> string) \<Rightarrow> bool \<Rightarrow> string \<Rightarrow> ScriptEntry list \<Rightarrow> string list" where
  "places after left d [] = []"
| "places after left d (e # es) =
     (let at = (if eDatabase e \<noteq> [] then eDatabase e
                else if left \<and> \<not> has_prefix (eSQL e) (fromMaster []) then ''master'' else d)
      in at # places after (eDatabase e \<noteq> []) (after at (eSQL e)) es)"

lemma switch_cases:
  "(fst (switchTo cur e) = [] \<and> snd (switchTo cur e) = eDatabase e \<and>
     (eDatabase e \<noteq> [] \<longrightarrow> cur = eDatabase e) \<and>
     (eDatabase e = [] \<longrightarrow> cur = [] \<or> has_prefix (eSQL e) (fromMaster []))) \<or>
   (fst (switchTo cur e) = scriptUse (if eDatabase e = [] then ''master'' else eDatabase e) \<and>
     snd (switchTo cur e) = eDatabase e \<and>
     (eDatabase e = [] \<longrightarrow> cur \<noteq> [] \<and> \<not> has_prefix (eSQL e) (fromMaster [])))"
  by (auto simp: switchTo_def)

lemma scriptUse_ne [simp]: "scriptUse db \<noteq> []" "[] \<noteq> scriptUse db"
  by (simp_all add: scriptUse_def)

lemma switch_snd [simp]: "snd (switchTo cur e) = eDatabase e"
  using switch_cases by blast

lemma scriptUse_batch: "scriptUse db = useBatchText db @ ''
GO
''"
  by (simp add: scriptUse_def useBatchText_def)

lemma goFree_master [simp]: "goFree (useBatchText ''master'')"
  by code_simp

lemma single_step:
  assumes "\<forall>p. prev = Some p \<longrightarrow> eServer e = eServer p"
  shows "scriptLoop False prev cur (e # es) =
    (if prev = None then [] else [nl]) @ fst (switchTo cur e) @ eSQL e @ ''
GO
'' @ scriptLoop False (Some e) (eDatabase e) es"
  using assms by (simp add: Let_def split_beta)

lemma scriptLoop_batches:
  "list_all readable es \<Longrightarrow> batches (scriptLoop False prev cur es) = scriptBatches (prev \<noteq> None) cur es"
proof (induction es arbitrary: prev cur)
  case Nil
  then show ?case by simp
next
  case (Cons e es)
  let ?g = "if prev = None then [] else [nl]"
  let ?rest = "scriptLoop False (Some e) (eDatabase e) es"
  have free: "goFree (?g @ b) = goFree b" for b by simp
  have sql: "goFree (eSQL e)" "goFree (useBatchText (eDatabase e))"
    using Cons.prems by (simp_all add: readable_def)
  have rest: "batches ?rest = scriptBatches True (eDatabase e) es"
    using Cons.IH [of "Some e"] Cons.prems by simp
  have step: "scriptLoop False prev cur (e # es) = ?g @ fst (switchTo cur e) @ eSQL e @ ''
GO
'' @ ?rest" by (simp add: Let_def split_beta)
  show ?case
  proof (cases "fst (switchTo cur e) = []")
    case True
    then have "scriptLoop False prev cur (e # es) = (?g @ eSQL e) @ ''
GO
'' @ ?rest" unfolding step by simp
    then show ?thesis using True batches_cons [of "?g @ eSQL e" ?rest] free sql rest
      by (simp add: entryBatches_def)
  next
    case False
    let ?u = "useBatchText (if eDatabase e = [] then ''master'' else eDatabase e)"
    have "scriptLoop False prev cur (e # es) = (?g @ ?u) @ ''
GO
'' @ eSQL e @ ''
GO
'' @ ?rest" unfolding step using False switch_cases [of cur e] by (auto simp: scriptUse_batch)
    then show ?thesis
      using False batches_cons [of "?g @ ?u" "eSQL e @ ''
GO
'' @ ?rest"] batches_cons [of "eSQL e" ?rest] free [of ?u] sql rest
      by (simp add: entryBatches_def)
  qed
qed

lemma single_not_multi:
  "\<forall>e \<in> set es. eServer e = srv \<Longrightarrow> collectorString es = scriptLoop False None [] es"
proof -
  assume a: "\<forall>e \<in> set es. eServer e = srv"
  then have "\<not> list_ex (\<lambda>e. eServer e \<noteq> eServer (hd es)) es" by (cases es) (auto simp: list_ex_iff)
  then show ?thesis by (simp add: collectorString_def Entries_def)
qed

lemma trimmed_gap [simp]: "trimmed (nl # b) = trimmed b"
  by (simp add: trimmed_def)

lemma trimmed_use [simp]: "trimmed (useBatchText db) = useBatchText db"
  by (simp add: trimmed_def useBatchText_def nl_def)

lemma ran_append: "ran after d (bs @ cs) = ran after d bs @ ran after (foldl after d bs) cs"
  by (induction bs arbitrary: d) auto

text \<open>The batches that are not a switch the script added, with where they ran.\<close>

definition statementsRun :: "string list \<Rightarrow> (string \<times> string) list \<Rightarrow> (string \<times> string) list" where
  "statementsRun dbs ps =
     filter (\<lambda>(d, b). b \<notin> set (map useBatchText (''master'' # dbs))) (map (\<lambda>(d, b). (d, trimmed b)) ps)"

lemma statementsRun_append [simp]: "statementsRun dbs (ps @ qs) = statementsRun dbs ps @ statementsRun dbs qs"
  by (simp add: statementsRun_def)

lemma session_places:
  assumes gap: "\<And>d b. after d (nl # b) = after d b"
    and use: "\<And>d x. after d (useBatchText x) = x"
  shows "(\<And>e d. e \<in> set es \<Longrightarrow> eDatabase e \<noteq> [] \<Longrightarrow> after d (eSQL e) = d) \<Longrightarrow>
    (\<And>e. e \<in> set es \<Longrightarrow> trimmed (eSQL e) \<notin> set (map useBatchText (''master'' # dbs))) \<Longrightarrow>
    (\<And>e. e \<in> set es \<Longrightarrow> eDatabase e \<noteq> [] \<Longrightarrow> eDatabase e \<in> set dbs) \<Longrightarrow>
    (cur \<noteq> [] \<Longrightarrow> d = cur) \<Longrightarrow>
    statementsRun dbs (ran after d (scriptBatches g cur es)) =
      zip (places after (cur \<noteq> []) d es) (map (\<lambda>e. trimmed (eSQL e)) es)"
proof (induction es arbitrary: g cur d)
  case Nil
  then show ?case by (simp add: statementsRun_def)
next
  case (Cons e es)
  let ?db = "if eDatabase e = [] then ''master'' else eDatabase e"
  let ?at = "if eDatabase e \<noteq> [] then eDatabase e
                else if cur \<noteq> [] \<and> \<not> has_prefix (eSQL e) (fromMaster []) then ''master'' else d"
  have IH: "statementsRun dbs (ran after (after ?at (eSQL e)) (scriptBatches True (eDatabase e) es)) =
      zip (places after (eDatabase e \<noteq> []) (after ?at (eSQL e)) es) (map (\<lambda>e. trimmed (eSQL e)) es)"
  proof (rule Cons.IH)
    show "after ?at (eSQL e) = eDatabase e" if "eDatabase e \<noteq> []" using that Cons.prems(1) by simp
  qed (use Cons.prems in auto)
  have sql: "statementsRun dbs [(d', eSQL e)] = [(d', trimmed (eSQL e))]" for d'
    using Cons.prems(2) [of e] by (simp add: statementsRun_def)
  have gsql: "statementsRun dbs [(d', nl # eSQL e)] = [(d', trimmed (eSQL e))]" for d'
    using Cons.prems(2) [of e] by (simp add: statementsRun_def)
  have us: "statementsRun dbs [(d', useBatchText ?db)] = []"
    "statementsRun dbs [(d', nl # useBatchText ?db)] = []" for d'
    using Cons.prems(3) [of e] by (auto simp: statementsRun_def)
  have here: "statementsRun dbs (ran after d (entryBatches g cur e)) = [(?at, trimmed (eSQL e))] \<and>
      foldl after d (entryBatches g cur e) = after ?at (eSQL e)"
  proof (cases "fst (switchTo cur e) = []")
    case True
    moreover have "?at = d" using True switch_cases [of cur e] Cons.prems(4) by auto
    ultimately show ?thesis using sql gsql gap by (simp add: entryBatches_def)
  next
    case False
    moreover have "?at = ?db" using False switch_cases [of cur e] by auto
    ultimately show ?thesis using sql us gap use statementsRun_append [of dbs "[_]" "[_]"]
      by (simp add: entryBatches_def)
  qed
  show ?case
    using here IH by (simp add: ran_append Let_def)
qed

text \<open>
  C11: run as a query tool runs it, the script of one instance's entries executes every captured
  statement once, in order, each where it belongs: a database-scoped statement in its own
  database, a server-scoped one in the session's database, but never in a database an earlier
  entry's switch left it in, which it leaves for \<open>master\<close>.  The assumptions are the server's: a
  \<open>USE\<close> batch moves the session, leading line breaks say nothing, and a database-scoped
  statement stays in its database.
\<close>

theorem script_runs_in_its_databases:
  assumes "\<forall>e \<in> set es. eServer e = srv" "list_all readable es"
    and "\<And>d b. after d (nl # b) = after d b" "\<And>d x. after d (useBatchText x) = x"
    and "\<And>e d. e \<in> set es \<Longrightarrow> eDatabase e \<noteq> [] \<Longrightarrow> after d (eSQL e) = d"
    and "\<And>e. e \<in> set es \<Longrightarrow> trimmed (eSQL e) \<notin> set (map useBatchText (''master'' # map eDatabase es))"
  shows "statementsRun (map eDatabase es) (ran after d (batches (collectorString es))) =
      zip (places after False d es) (map (\<lambda>e. trimmed (eSQL e)) es)"
  using session_places [of after es "map eDatabase es" "[]" d False] assms
  by (simp add: single_not_multi [OF assms(1)] scriptLoop_batches)

text \<open>A session model for the witness: a batch that is a \<open>USE\<close> alone moves it.\<close>

definition sessionAfter :: "string \<Rightarrow> string \<Rightarrow> string" where
  "sessionAfter d b =
     (let t = trimmed b
      in if has_prefix t ''USE '' \<and> has_suffix t '';'' then UnquoteName (butlast (drop 4 t)) else d)"

lemma UnquoteName_QuoteName: "UnquoteName (QuoteName x) = x"
  by (simp add: QuoteName_double UnquoteName_bracketed count_double_single count_double_pair replace_pair_double)

lemma sessionAfter_laws: "sessionAfter d (nl # b) = sessionAfter d b"
  "sessionAfter d (useBatchText x) = x"
proof -
  show "sessionAfter d (nl # b) = sessionAfter d b" by (simp add: sessionAfter_def)
  have "has_suffix (useBatchText x) '';''"
    by (auto simp: useBatchText_def has_suffix_iff intro: exI [of _ "''USE '' @ QuoteName x"])
  then show "sessionAfter d (useBatchText x) = x"
    by (simp add: sessionAfter_def Let_def) (simp add: useBatchText_def butlast_append UnquoteName_QuoteName)
qed

definition sampleEntries :: "ScriptEntry list" where
  "sampleEntries =
     [\<lparr> eServer = ''SQL1'', eDatabase = ''shop'', eSQL = ''CREATE SCHEMA [s]'' \<rparr>,
      \<lparr> eServer = ''SQL1'', eDatabase = [], eSQL = ''DROP LOGIN [l]'' \<rparr>]"

lemma script_runs_in_its_databases_witness:
  "statementsRun (map eDatabase sampleEntries) (ran sessionAfter ''tempdb'' (batches (collectorString sampleEntries))) =
     [(''shop'', ''CREATE SCHEMA [s]''), (''master'', ''DROP LOGIN [l]'')]"
proof -
  have "statementsRun (map eDatabase sampleEntries) (ran sessionAfter ''tempdb'' (batches (collectorString sampleEntries))) =
      zip (places sessionAfter False ''tempdb'' sampleEntries) (map (\<lambda>e. trimmed (eSQL e)) sampleEntries)"
  proof (rule script_runs_in_its_databases [of _ "''SQL1''"])
    show "list_all readable sampleEntries" by code_simp
    show "sessionAfter d (nl # b) = sessionAfter d b" "sessionAfter d (useBatchText x) = x" for d b x
      by (rule sessionAfter_laws)+
  qed (auto simp: sampleEntries_def sessionAfter_def trimmed_def useBatchText_def nl_def)
  then show ?thesis by (simp add: sampleEntries_def sessionAfter_def trimmed_def nl_def fromMaster_def)
qed

section \<open>Scripts over several instances\<close>

function serverRuns :: "ScriptEntry list \<Rightarrow> ScriptEntry list list" where
  "serverRuns [] = []"
| "serverRuns (e # es) =
     (e # takeWhile (\<lambda>x. eServer x = eServer e) es) # serverRuns (dropWhile (\<lambda>x. eServer x = eServer e) es)"
  by pat_completeness auto

termination by (relation "measure length") (auto simp: le_imp_less_Suc length_dropWhile_le)

lemma multi_step:
  "scriptLoop True (Some p) cur es =
     scriptLoop False (Some p) cur (takeWhile (\<lambda>x. eServer x = eServer p) es) @
     (if dropWhile (\<lambda>x. eServer x = eServer p) es = [] then []
      else nl # scriptLoop True None [] (dropWhile (\<lambda>x. eServer x = eServer p) es))"
proof (induction es arbitrary: p cur)
  case Nil
  then show ?case by simp
next
  case (Cons e es)
  show ?case
  proof (cases "eServer e = eServer p")
    case True
    then show ?thesis using Cons.IH [of e "eDatabase e"] by (simp add: Let_def split_beta)
  next
    case False
    then show ?thesis by (simp add: Let_def split_beta)
  qed
qed

lemma runs_ne [simp]: "serverRuns es = [] \<longleftrightarrow> es = []"
  by (cases es) auto

lemma multi_runs:
  "scriptLoop True None [] es =
     str_join [nl] (map (\<lambda>r. onServer (eServer (hd r)) @ scriptLoop False None [] r) (serverRuns es))"
proof (induction es rule: serverRuns.induct)
  case 1
  then show ?case by simp
next
  case (2 e es)
  have "scriptLoop True None [] (e # es) =
      onServer (eServer e) @ scriptLoop False None [] (e # takeWhile (\<lambda>x. eServer x = eServer e) es) @
      (if dropWhile (\<lambda>x. eServer x = eServer e) es = [] then []
       else nl # scriptLoop True None [] (dropWhile (\<lambda>x. eServer x = eServer e) es))"
    using multi_step [of e "eDatabase e" es] by (simp add: Let_def split_beta)
  then show ?case using 2 by (simp add: str_join_Cons)
qed

lemma runs_one_server: "r \<in> set (serverRuns es) \<Longrightarrow> r \<noteq> [] \<and> (\<forall>x \<in> set r. eServer x = eServer (hd r))"
proof (induction es rule: serverRuns.induct)
  case (2 e es)
  then show ?case using set_takeWhileD by fastforce
qed simp

lemma runs_concat: "concat (serverRuns es) = es"
  by (induction es rule: serverRuns.induct) auto

lemma runs_alternate:
  "Suc i < length (serverRuns es) \<Longrightarrow>
   eServer (hd (serverRuns es ! i)) \<noteq> eServer (hd (serverRuns es ! Suc i))"
proof (induction es arbitrary: i rule: serverRuns.induct)
  case 1
  then show ?case by simp
next
  case (2 e es)
  let ?d = "dropWhile (\<lambda>x. eServer x = eServer e) es"
  show ?case
  proof (cases i)
    case 0
    then have "?d \<noteq> []" using 2(2) by auto
    moreover from this have "hd (serverRuns ?d ! 0) = hd ?d" by (cases ?d) auto
    moreover have "eServer (hd ?d) \<noteq> eServer e" using hd_dropWhile [OF \<open>?d \<noteq> []\<close>] by simp
    ultimately show ?thesis using 0 by simp
  next
    case (Suc k)
    then show ?thesis using 2(1) [of k] 2(2) by simp
  qed
qed

lemma script_of_several_servers_facts:
  assumes "list_ex (\<lambda>e. eServer e \<noteq> eServer (hd es)) es"
  shows "collectorString es =
      str_join [nl] (map (\<lambda>r. onServer (eServer (hd r)) @ collectorString r) (serverRuns es))"
    and "concat (serverRuns es) = es"
    and "list_all (\<lambda>r. r \<noteq> [] \<and> list_all (\<lambda>x. eServer x = eServer (hd r)) r) (serverRuns es)"
    and "distinct_adj (map (\<lambda>r. eServer (hd r)) (serverRuns es))"
proof -
  have one: "collectorString r = scriptLoop False None [] r" if "r \<in> set (serverRuns es)" for r
    using runs_one_server [OF that] single_not_multi [of r "eServer (hd r)"] by blast
  have "collectorString es = scriptLoop True None [] es"
    using assms by (simp add: collectorString_def Entries_def)
  then show "collectorString es =
      str_join [nl] (map (\<lambda>r. onServer (eServer (hd r)) @ collectorString r) (serverRuns es))"
    using one by (simp add: multi_runs cong: map_cong)
  show "concat (serverRuns es) = es" by (rule runs_concat)
  show "list_all (\<lambda>r. r \<noteq> [] \<and> list_all (\<lambda>x. eServer x = eServer (hd r)) r) (serverRuns es)"
    unfolding list_all_iff using runs_one_server by blast
  show "distinct_adj (map (\<lambda>r. eServer (hd r)) (serverRuns es))"
    using runs_alternate [of _ es] by (simp add: distinct_adj_conv_nth)
qed

text \<open>
  A script that spans instances is the scripts of its runs, each the script the run's
  entries would give alone and opened by one comment line naming the instance, with a blank line
  between runs: nothing a run's session was left in is assumed of the next.  The runs are the
  longest stretches of entries of one instance and keep the order of capture.
\<close>

theorem script_of_several_servers:
  assumes "list_ex (\<lambda>e. eServer e \<noteq> eServer (hd es)) es"
  shows "collectorString es =
      str_join [nl] (map (\<lambda>r. onServer (eServer (hd r)) @ collectorString r) (serverRuns es)) \<and>
    concat (serverRuns es) = es \<and>
    list_all (\<lambda>r. r \<noteq> [] \<and> list_all (\<lambda>x. eServer x = eServer (hd r)) r) (serverRuns es) \<and>
    distinct_adj (map (\<lambda>r. eServer (hd r)) (serverRuns es))"
  by (intro conjI script_of_several_servers_facts assms)

lemma script_of_several_servers_witness:
  "let es = [\<lparr> eServer = ''A'', eDatabase = ''d'', eSQL = ''X'' \<rparr>, \<lparr> eServer = ''B'', eDatabase = ''d'', eSQL = ''Y'' \<rparr>]
   in list_ex (\<lambda>e. eServer e \<noteq> eServer (hd es)) es \<and>
      collectorString es = str_join [nl] (map (\<lambda>r. onServer (eServer (hd r)) @ collectorString r) (serverRuns es))"
  using script_of_several_servers
    [of "[\<lparr> eServer = ''A'', eDatabase = ''d'', eSQL = ''X'' \<rparr>, \<lparr> eServer = ''B'', eDatabase = ''d'', eSQL = ''Y'' \<rparr>]"]
  by (simp add: Let_def)

end
