(* ===== verification/Errors.thy ===== *)
theory Errors
  imports GoStrings
begin

text \<open>
  \<open>errors.go\<close> and \<open>retry.go\<close>: what the package reads out of an error chain.  A failure
  of the server arrives as the driver's error with every message of its batch; the package makes
  the text of such an error carry all of them (\<open>withAllMessages\<close>), classifies it by number and
  retries an idempotent call while the failure is a passing one (\<open>withRetry\<close>).  The lemmas
  show that the rewriting never changes what a caller finds in the chain, and that a retry loop
  ends, within its three attempts, with the outcome of its last attempt.
\<close>

section \<open>Looking into a chain\<close>

text \<open>\<open>errors.AsType[mssql.Error]\<close>.\<close>

fun asDriver :: "goerr \<Rightarrow> msError option" where
  "asDriver (Bare s) = None"
| "asDriver (Fmt s f as) = None"
| "asDriver (Wrapped f as e) = asDriver e"
| "asDriver (Caused s f as e) = asDriver e"
| "asDriver (Entry db e) = asDriver e"
| "asDriver (Multi e t) = asDriver e"
| "asDriver (Driver m) = Some m"
| "asDriver (Outside x) = None"

text \<open>The error of another package at the end of the chain, for \<open>errors.Is\<close> and \<open>AsType\<close> of those.\<close>

fun outsideOf :: "goerr \<Rightarrow> outside option" where
  "outsideOf (Bare s) = None"
| "outsideOf (Fmt s f as) = None"
| "outsideOf (Wrapped f as e) = outsideOf e"
| "outsideOf (Caused s f as e) = outsideOf e"
| "outsideOf (Entry db e) = outsideOf e"
| "outsideOf (Multi e t) = outsideOf e"
| "outsideOf (Driver m) = None"
| "outsideOf (Outside x) = Some x"

definition prefixEntry :: "goerr \<Rightarrow> string \<Rightarrow> goerr" where
  "prefixEntry err q =
     (case err of Entry db e \<Rightarrow> Wrapped ''gosmo: %s: %w'' [AText q] err | _ \<Rightarrow> err)"

section \<open>Structured errors\<close>

datatype SQLError = SQLError (Number: int) (State: nat) (Class: nat) (Message: string)
  (ServerName: string) (ProcName: string) (LineNo: int) (All: "SQLError list")

definition Header :: "SQLError \<Rightarrow> string" where
  "Header e = ''Msg '' @ itoa (Number e) @ '', Level '' @ itoa (int (Class e)) @ '', State '' @
     itoa (int (State e)) @ (if ProcName e \<noteq> [] then '', Procedure '' @ ProcName e else []) @
     '', Line '' @ itoa (LineNo e)"

definition ErrorText :: "SQLError \<Rightarrow> string" where
  "ErrorText e = (if Message e = [] then Header e else Header e @ nl # Message e)"

definition IsError :: "SQLError \<Rightarrow> bool" where
  "IsError e \<longleftrightarrow> Class e \<ge> 11"

definition newSQLErrorFrom :: "msError \<Rightarrow> SQLError" where
  "newSQLErrorFrom me = SQLError (msNumber me) (msState me) (msClass me) (msMessage me)
     (msServer me) (msProc me) (msLine me) []"

definition convertSQLError :: "msError \<Rightarrow> SQLError" where
  "convertSQLError me =
     (case newSQLErrorFrom me of SQLError n st c msg srv p l _ \<Rightarrow>
        SQLError n st c msg srv p l (map newSQLErrorFrom (msAll me)))"

definition AsSQLError :: "goerr \<Rightarrow> SQLError option" where
  "AsSQLError err = (case asDriver err of None \<Rightarrow> None | Some me \<Rightarrow> Some (convertSQLError me))"

definition messages :: "SQLError \<Rightarrow> SQLError list" where
  "messages e = (if All e \<noteq> [] then All e else [e])"

text \<open>\<open>withAllMessages\<close>: the text of every error message, when a batch produced more than one.\<close>

definition multiMessage :: "goerr \<Rightarrow> goerr" where
  "multiMessage err =
     (case asDriver err of
        None \<Rightarrow> err
      | Some me \<Rightarrow>
          if length (msAll me) < 2 then err
          else let parts = map msMessage (filter (\<lambda>m. msClass m \<ge> 11 \<and> msMessage m \<noteq> []) (msAll me))
               in if length parts < 2 then err
                  else Multi err (''mssql: '' @ str_join '' '' parts))"

definition withAllMessages :: "goerr option \<Rightarrow> goerr option" where
  "withAllMessages err = map_option multiMessage err"

section \<open>Classification\<close>

datatype RefusalKind = NotRefused | PermissionDenied | MissingOrDenied

definition refusalNumbers :: "int \<Rightarrow> RefusalKind" where
  "refusalNumbers n =
     (if n \<in> {229, 230, 262, 297, 300, 916, 2571, 5304, 6102, 7983, 14393, 27219}
      then PermissionDenied
      else if n \<in> {1088, 3701, 5011, 15151, 15247} then MissingOrDenied
      else NotRefused)"

fun firstRefusal :: "SQLError list \<Rightarrow> RefusalKind \<times> SQLError option" where
  "firstRefusal [] = (NotRefused, None)"
| "firstRefusal (m # ms) =
     (let kind = refusalNumbers (Number m)
      in if kind \<noteq> NotRefused \<and> IsError m \<and> Message m \<noteq> [] then (kind, Some m)
         else firstRefusal ms)"

definition ClassifyRefusal :: "goerr \<Rightarrow> RefusalKind \<times> SQLError option" where
  "ClassifyRefusal err =
     (case AsSQLError err of None \<Rightarrow> (NotRefused, None) | Some se \<Rightarrow> firstRefusal (messages se))"

definition IsPermissionDenied :: "goerr \<Rightarrow> bool" where
  "IsPermissionDenied err \<longleftrightarrow> fst (ClassifyRefusal err) = PermissionDenied"

definition IsMissingOrDenied :: "goerr \<Rightarrow> bool" where
  "IsMissingOrDenied err \<longleftrightarrow> fst (ClassifyRefusal err) = MissingOrDenied"

definition alreadyExistsNumbers :: "int list" where
  "alreadyExistsNumbers = [1801, 1913, 2714, 15023, 15025]"

definition IsAlreadyExists :: "goerr \<Rightarrow> bool" where
  "IsAlreadyExists err \<longleftrightarrow>
     (case AsSQLError err of None \<Rightarrow> False
      | Some se \<Rightarrow> list_ex (\<lambda>m. List.member alreadyExistsNumbers (Number m)) (messages se))"

section \<open>Retries\<close>

definition readRetryAttempts :: nat where
  "readRetryAttempts = 3"

text \<open>\<open>context.DeadlineExceeded\<close> implements \<open>net.Error\<close>.\<close>

definition isNetError :: "outside \<Rightarrow> bool" where
  "isNetError x \<longleftrightarrow> x = NetError \<or> x = DeadlineExceeded"

definition IsRetryable :: "goerr option \<Rightarrow> bool" where
  "IsRetryable err =
     (case err of None \<Rightarrow> False
      | Some e \<Rightarrow> (case outsideOf e of None \<Rightarrow> False
          | Some x \<Rightarrow>
              if x = Canceled \<or> x = DeadlineExceeded then False
              else if x = RetryableError then True
              else if x = BadConn \<or> x = EOF then True
              else if x = StreamError then True
              else if x = ServerError then True
              else isNetError x))"

definition transientServerErrorNumbers :: "int list" where
  "transientServerErrorNumbers = [1205, 4221, 10928, 10929, 40197, 40501, 40613, 49918, 49919, 49920]"

definition isTransientServerError :: "goerr \<Rightarrow> bool" where
  "isTransientServerError err \<longleftrightarrow>
     (case AsSQLError err of None \<Rightarrow> False
      | Some se \<Rightarrow> list_ex (\<lambda>m. List.member transientServerErrorNumbers (Number m)) (messages se))"

definition IsTransient :: "goerr \<Rightarrow> bool" where
  "IsTransient err \<longleftrightarrow> IsRetryable (Some err) \<or> isTransientServerError err"

text \<open>In milliseconds.\<close>

definition readRetryDelay :: "nat \<Rightarrow> nat" where
  "readRetryDelay attempt = attempt * 50"

text \<open>
  \<open>fn\<close> is one attempt over a state, \<open>wait\<close> the \<open>select\<close> between the context's end
  (its error) and the timer.
\<close>

function retryLoop :: "('w \<Rightarrow> 'a res \<times> 'w) \<Rightarrow> ('w \<Rightarrow> nat \<Rightarrow> goerr option \<times> 'w) \<Rightarrow> nat \<Rightarrow> 'w \<Rightarrow>
    'a res \<times> 'w" where
  "retryLoop fn wait attempt w =
     (case fn w of
        (Inr v, w1) \<Rightarrow> (Inr v, w1)
      | (Inl e, w1) \<Rightarrow>
          if attempt \<ge> readRetryAttempts \<or> \<not> IsTransient e then (Inl (multiMessage e), w1)
          else (case wait w1 (readRetryDelay attempt) of
              (Some cerr, w2) \<Rightarrow> (Inl cerr, w2)
            | (None, w2) \<Rightarrow> retryLoop fn wait (Suc attempt) w2))"
  by pat_completeness auto

termination by (relation "measure (\<lambda>(fn, wait, attempt, w). readRetryAttempts - attempt)")
    (auto simp: not_le)

declare retryLoop.simps [simp del]

definition withRetry :: "('w \<Rightarrow> 'a res \<times> 'w) \<Rightarrow> ('w \<Rightarrow> nat \<Rightarrow> goerr option \<times> 'w) \<Rightarrow> 'w \<Rightarrow> 'a res \<times> 'w" where
  "withRetry fn wait w = retryLoop fn wait 1 w"

section \<open>What a rewritten error still says\<close>

lemma multiMessage_cases:
  "multiMessage e = e \<or> (\<exists>t. multiMessage e = Multi e t)"
  by (auto simp: multiMessage_def Let_def split: option.split)

lemma multiMessage_chain [simp]:
  "asDriver (multiMessage e) = asDriver e" "outsideOf (multiMessage e) = outsideOf e"
  "errors_is (multiMessage e) s = errors_is e s"
  using multiMessage_cases [of e] by auto

lemma classified_by_chain:
  assumes "asDriver a = asDriver b" "outsideOf a = outsideOf b"
  shows "AsSQLError a = AsSQLError b" "ClassifyRefusal a = ClassifyRefusal b"
    "IsAlreadyExists a = IsAlreadyExists b" "IsTransient a = IsTransient b"
  using assms by (simp_all add: AsSQLError_def ClassifyRefusal_def IsAlreadyExists_def IsTransient_def
      IsRetryable_def isTransientServerError_def)

lemma withAllMessages_transparent_facts:
  "errors_is (multiMessage e) s = errors_is e s"
  "AsSQLError (multiMessage e) = AsSQLError e"
  "ClassifyRefusal (multiMessage e) = ClassifyRefusal e"
  "IsAlreadyExists (multiMessage e) = IsAlreadyExists e"
  "IsTransient (multiMessage e) = IsTransient e"
  "multiMessage e = (case asDriver e of
      None \<Rightarrow> e
    | Some me \<Rightarrow>
        (let said = [msMessage m. m \<leftarrow> msAll me, msClass m \<ge> 11, msMessage m \<noteq> []]
         in if length said \<ge> 2 then Multi e (''mssql: '' @ str_join '' '' said) else e))"
proof -
  show "errors_is (multiMessage e) s = errors_is e s" by simp
  show "AsSQLError (multiMessage e) = AsSQLError e" "ClassifyRefusal (multiMessage e) = ClassifyRefusal e"
    "IsAlreadyExists (multiMessage e) = IsAlreadyExists e" "IsTransient (multiMessage e) = IsTransient e"
    by (rule classified_by_chain; simp)+
  have "[msMessage m. m \<leftarrow> ms, msClass m \<ge> 11, msMessage m \<noteq> []] =
      map msMessage (filter (\<lambda>m. msClass m \<ge> 11 \<and> msMessage m \<noteq> []) ms)" for ms
    by (induction ms) auto
  moreover have "length (filter P xs) \<ge> 2 \<Longrightarrow> \<not> length xs < 2" for P and xs :: "msError list"
    using length_filter_le [of P xs] by linarith
  ultimately show "multiMessage e = (case asDriver e of
      None \<Rightarrow> e
    | Some me \<Rightarrow>
        (let said = [msMessage m. m \<leftarrow> msAll me, msClass m \<ge> 11, msMessage m \<noteq> []]
         in if length said \<ge> 2 then Multi e (''mssql: '' @ str_join '' '' said) else e))"
    by (auto simp: multiMessage_def Let_def split: option.split)
qed

text \<open>
  Giving an error the text of its whole batch loses nothing: every question the package or a
  caller asks of the chain -- a sentinel, the structured server error, the refusal it is, a name
  taken, whether to retry -- is answered as before, asking twice changes no answer either, and
  the new text joins every message of severity 11 and above, in order, whenever the batch had two.
\<close>

theorem withAllMessages_transparent:
  "errors_is (multiMessage e) s = errors_is e s \<and> AsSQLError (multiMessage e) = AsSQLError e \<and>
   ClassifyRefusal (multiMessage e) = ClassifyRefusal e \<and> IsAlreadyExists (multiMessage e) = IsAlreadyExists e \<and>
   IsTransient (multiMessage e) = IsTransient e \<and>
   multiMessage e = (case asDriver e of
      None \<Rightarrow> e
    | Some me \<Rightarrow>
        (let said = [msMessage m. m \<leftarrow> msAll me, msClass m \<ge> 11, msMessage m \<noteq> []]
         in if length said \<ge> 2 then Multi e (''mssql: '' @ str_join '' '' said) else e))"
  by (intro conjI withAllMessages_transparent_facts)

section \<open>Retrying\<close>

text \<open>The state before attempt \<open>n + 1\<close>, when the attempts and waits before it went on.\<close>

primrec beforeTry :: "('w \<Rightarrow> 'a res \<times> 'w) \<Rightarrow> ('w \<Rightarrow> nat \<Rightarrow> goerr option \<times> 'w) \<Rightarrow> nat \<Rightarrow> 'w \<Rightarrow> 'w" where
  "beforeTry fn wait 0 w = w"
| "beforeTry fn wait (Suc n) w =
     snd (wait (snd (fn (beforeTry fn wait n w))) (readRetryDelay (Suc n)))"

definition outcome :: "('w \<Rightarrow> 'a res \<times> 'w) \<Rightarrow> ('w \<Rightarrow> nat \<Rightarrow> goerr option \<times> 'w) \<Rightarrow> 'w \<Rightarrow> nat \<Rightarrow> 'a res" where
  "outcome fn wait w n = fst (fn (beforeTry fn wait n w))"

text \<open>Attempt \<open>n + 1\<close> failed in passing, and the wait after it was not cut short.\<close>

definition goesOn :: "('w \<Rightarrow> 'a res \<times> 'w) \<Rightarrow> ('w \<Rightarrow> nat \<Rightarrow> goerr option \<times> 'w) \<Rightarrow> 'w \<Rightarrow> nat \<Rightarrow> bool" where
  "goesOn fn wait w n \<longleftrightarrow>
     (case outcome fn wait w n of Inr v \<Rightarrow> False | Inl e \<Rightarrow> IsTransient e) \<and>
     fst (wait (snd (fn (beforeTry fn wait n w))) (readRetryDelay (Suc n))) = None"

text \<open>What is returned when attempt \<open>n + 1\<close> is the last.\<close>

definition lastOutcome :: "('w \<Rightarrow> 'a res \<times> 'w) \<Rightarrow> ('w \<Rightarrow> nat \<Rightarrow> goerr option \<times> 'w) \<Rightarrow> 'w \<Rightarrow> nat \<Rightarrow> 'a res" where
  "lastOutcome fn wait w n =
     (case outcome fn wait w n of
        Inr v \<Rightarrow> Inr v
      | Inl e \<Rightarrow>
          if IsTransient e \<and> Suc n < readRetryAttempts
          then (case fst (wait (snd (fn (beforeTry fn wait n w))) (readRetryDelay (Suc n))) of
              Some cerr \<Rightarrow> Inl cerr | None \<Rightarrow> Inl (multiMessage e))
          else Inl (multiMessage e))"

lemma retryLoop_at:
  assumes "n < readRetryAttempts"
  shows "fst (retryLoop fn wait (Suc n) (beforeTry fn wait n w)) =
    (if goesOn fn wait w n \<and> Suc n < readRetryAttempts
     then fst (retryLoop fn wait (Suc (Suc n)) (beforeTry fn wait (Suc n) w))
     else lastOutcome fn wait w n)"
proof (cases "fn (beforeTry fn wait n w)")
  case (Pair r w1)
  then show ?thesis
    using assms by (cases r; cases "wait w1 (readRetryDelay (Suc n))")
      (auto simp: goesOn_def lastOutcome_def outcome_def retryLoop.simps [of _ _ "Suc n"]
        split: option.split)
qed

text \<open>
  C12: a retried read ends within three attempts: it is run again only after a failure that is a
  passing one and a wait the context did not end; what is returned is the first success, or else
  the last attempt's error with all its messages, or the context's error if that ended a wait.
  In particular a failure that is not transient -- a cancelled context, a refused permission -- is
  never retried.
\<close>

theorem withRetry_bounded:
  "let n = length (takeWhile (goesOn fn wait w) [0, 1])
   in n < readRetryAttempts \<and> fst (withRetry fn wait w) = lastOutcome fn wait w n"
proof -
  let ?at = "\<lambda>n. fst (retryLoop fn wait (Suc n) (beforeTry fn wait n w))"
  let ?go = "goesOn fn wait w"
  have at: "?at n = (if ?go n \<and> Suc n < 3 then ?at (Suc n) else lastOutcome fn wait w n)"
    if "n < 3" for n
    using retryLoop_at [of n fn wait w] that unfolding readRetryAttempts_def by simp
  have start: "fst (withRetry fn wait w) = ?at 0" by (simp add: withRetry_def)
  show ?thesis
    using start at [of 0] at [of 1] at [of 2] by (auto simp: readRetryAttempts_def numeral_2_eq_2)
qed

section \<open>Refusals\<close>

text \<open>A message that says the login was refused.\<close>

definition refuses :: "SQLError \<Rightarrow> bool" where
  "refuses m \<longleftrightarrow> refusalNumbers (Number m) \<noteq> NotRefused \<and> Class m \<ge> 11 \<and> Message m \<noteq> []"

lemma firstRefusal_find:
  "firstRefusal ms = (case List.find refuses ms of
     None \<Rightarrow> (NotRefused, None) | Some m \<Rightarrow> (refusalNumbers (Number m), Some m))"
  by (induction ms) (auto simp: refuses_def IsError_def Let_def)

text \<open>
  A failure is classified by the first message of its batch that names a refusal with error
  severity and text, whatever comes before or after it: nothing is claimed when there is none,
  the message returned is that one, and a claim that a permission is denied is never made for a
  message that leaves open whether the object exists.
\<close>

theorem ClassifyRefusal_first:
  assumes "AsSQLError err = Some se"
  shows "case List.find refuses (messages se) of
      None \<Rightarrow> ClassifyRefusal err = (NotRefused, None) \<and> \<not> IsPermissionDenied err \<and> \<not> IsMissingOrDenied err
    | Some m \<Rightarrow> snd (ClassifyRefusal err) = Some m \<and>
        (IsPermissionDenied err \<longleftrightarrow> refusalNumbers (Number m) = PermissionDenied) \<and>
        (IsMissingOrDenied err \<longleftrightarrow> Number m \<in> {1088, 3701, 5011, 15151, 15247}) \<and>
        (IsPermissionDenied err \<noteq> IsMissingOrDenied err)"
proof (cases "List.find refuses (messages se)")
  case None
  then show ?thesis using assms
    by (simp add: ClassifyRefusal_def firstRefusal_find IsPermissionDenied_def IsMissingOrDenied_def)
next
  case (Some m)
  then have "refuses m" by (auto simp: find_Some_iff)
  then have "refusalNumbers (Number m) \<noteq> NotRefused" by (simp add: refuses_def)
  moreover have "ClassifyRefusal err = (refusalNumbers (Number m), Some m)"
    using assms Some by (simp add: ClassifyRefusal_def firstRefusal_find)
  ultimately show ?thesis using Some
    by (auto simp: IsPermissionDenied_def IsMissingOrDenied_def refusalNumbers_def split: if_splits)
qed

lemma ClassifyRefusal_first_witness:
  "let err = Wrapped ''gosmo: backup: %w'' [] (Driver (MsError 3013 1 16 ''BACKUP DATABASE is terminating abnormally.'' [] [] 1
       [MsError 262 1 14 ''BACKUP DATABASE permission denied in database 'd'.'' [] [] 1 [],
        MsError 3013 1 16 ''BACKUP DATABASE is terminating abnormally.'' [] [] 1 []]))
   in map_option Number (snd (ClassifyRefusal err)) = Some 262 \<and> IsPermissionDenied err"
proof -
  let ?a = "MsError 262 1 14 ''BACKUP DATABASE permission denied in database 'd'.'' [] [] 1 []"
  let ?b = "MsError 3013 1 16 ''BACKUP DATABASE is terminating abnormally.'' [] [] 1 []"
  let ?m = "MsError 3013 1 16 ''BACKUP DATABASE is terminating abnormally.'' [] [] 1 [?a, ?b]"
  have "AsSQLError (Wrapped ''gosmo: backup: %w'' [] (Driver ?m)) = Some (convertSQLError ?m)"
    by (simp add: AsSQLError_def)
  from ClassifyRefusal_first [OF this] show ?thesis
    by (simp add: convertSQLError_def newSQLErrorFrom_def messages_def refuses_def refusalNumbers_def)
qed

end
