(* ===== verification/Calls.thy ===== *)
theory Calls
  imports Bind Redact Script Errors
begin

text \<open>
  The chokepoints every statement goes through: \<open>exec\<close>, \<open>execShown\<close>, \<open>execAtomic\<close> and the reads of
  \<open>server.go\<close>, \<open>database.go\<close> and \<open>script.go\<close>, \<open>procRead\<close> of \<open>proc_read.go\<close>, and
  \<open>InTransaction\<close> of \<open>transaction.go\<close>.  The connection -- \<open>database/sql\<close>, the driver and the
  server behind them -- is a parameter, a record of functions over a world \<open>'w\<close>; a context is
  the record of the values the package puts into one.
\<close>

section \<open>Calls of sp_executesql\<close>

fun unitsLoop :: "nat \<Rightarrow> nat \<Rightarrow> nat list \<Rightarrow> bool" where
  "unitsLoop n units [] = False"
| "unitsLoop n units (r # rs) =
     (let units' = units + RuneLen r in if units' > n then True else unitsLoop n units' rs)"

definition utf16Longer :: "string \<Rightarrow> nat \<Rightarrow> bool" where
  "utf16Longer s n = (if length s \<le> n then False else unitsLoop n 0 (runes s))"

definition procParamType :: "goval \<Rightarrow> string option" where
  "procParamType a =
     (case a of
        VNil \<Rightarrow> Some ''nvarchar(1)''
      | VString v \<Rightarrow> Some (if utf16Longer v 4000 then ''nvarchar(max)'' else ''nvarchar(4000)'')
      | VInt k i \<Rightarrow>
          (case k of
             KInt32 \<Rightarrow> Some ''int''
           | KInt16 \<Rightarrow> Some ''smallint''
           | KInt8 \<Rightarrow> Some ''tinyint''
           | KUint8 \<Rightarrow> Some ''tinyint''
           | _ \<Rightarrow> Some ''bigint'')
      | VBool b \<Rightarrow> Some ''bit''
      | VFloat single t \<Rightarrow> Some (if single then ''real'' else ''float'')
      | VBytes b \<Rightarrow> Some ''varbinary(max)''
      | VTime t \<Rightarrow> Some ''datetimeoffset(7)''
      | _ \<Rightarrow> None)"

fun declsLoop :: "string \<Rightarrow> nat \<Rightarrow> goval list \<Rightarrow> string list res" where
  "declsLoop db i [] = Inr []"
| "declsLoop db i (a # as) =
     (case procParamType a of
        None \<Rightarrow> Inl (unsupportedf ''gosmo: call in %s: argument %d is a %T, which procRead cannot declare''
            [AText db, ANum (int i + 1)])
      | Some t \<Rightarrow> res_bind (declsLoop db (Suc i) as)
          (\<lambda>ds. Inr ((''@p'' @ itoa (int i + 1) @ '' '' @ t) # ds)))"

definition procRead :: "string \<Rightarrow> string \<Rightarrow> goval list \<Rightarrow> (string \<times> goval list) res" where
  "procRead db q args =
     (let query = QuoteName db @ ''.sys.sp_executesql''
      in if args = [] then Inr (query, [VString q])
         else res_bind (declsLoop db 0 args)
           (\<lambda>decls. Inr (query, [VString q, VString (str_join '', '' decls)] @ args)))"

section \<open>Contexts, connections and state\<close>

text \<open>
  An observer is a number; \<open>cObservers\<close> are those called, in order (\<open>WithStatementObserver\<close> puts a
  new one after the one already there), and \<open>cTx\<close> the server whose transaction the context is in.
\<close>

record ctx =
  cScript :: bool
  cServerName :: "string option"
  cSecrets :: bool
  cObservers :: "nat list"
  cTx :: "nat option"

definition WithScriptServer :: "ctx \<Rightarrow> string \<Rightarrow> ctx" where
  "WithScriptServer c srv = c \<lparr> cServerName := Some srv \<rparr>"

definition WithScriptSecrets :: "ctx \<Rightarrow> ctx" where
  "WithScriptSecrets c = c \<lparr> cSecrets := True \<rparr>"

definition WithStatementObserver :: "ctx \<Rightarrow> nat \<Rightarrow> ctx" where
  "WithStatementObserver c fn = c \<lparr> cObservers := cObservers c @ [fn] \<rparr>"

definition unobserved :: "ctx \<Rightarrow> ctx" where
  "unobserved c = c \<lparr> cObservers := [] \<rparr>"

definition Scripting :: "ctx \<Rightarrow> bool" where
  "Scripting c = cScript c"

text \<open>A \<open>Server\<close>: its identity, and the name in its info when that was loaded.\<close>

record server =
  srvID :: nat
  srvName :: "string option"

record database =
  dServer :: server
  dName :: string

text \<open>A statement runs on a pooled connection or on the transaction's session.\<close>

datatype conn = Pooled | TxConn

record 'w driver =
  drvExec :: "conn \<Rightarrow> string \<Rightarrow> goval list \<Rightarrow> 'w \<Rightarrow> goerr option \<times> 'w"
  drvQuery :: "conn \<Rightarrow> string \<Rightarrow> goval list \<Rightarrow> 'w \<Rightarrow> string res \<times> 'w"
  drvConn :: "'w \<Rightarrow> unit res \<times> 'w"
  drvBegin :: "'w \<Rightarrow> goerr option \<times> 'w"
  drvCommit :: "'w \<Rightarrow> goerr option \<times> 'w"
  drvRollback :: "'w \<Rightarrow> goerr option \<times> 'w"
  drvDone :: "'w \<Rightarrow> bool"
  drvWait :: "'w \<Rightarrow> nat \<Rightarrow> goerr option \<times> 'w"

record heldReport =
  hObservers :: "nat list"
  hEntry :: ScriptEntry

record serverTx =
  txHome :: string
  txCurrent :: string
  txPending :: "heldReport list"
  txFailed :: "goerr option"

text \<open>
  What a call changes: the collector, what the observers have heard, the transaction of the
  context, and the world.
\<close>

record 'w st =
  sCollected :: collector
  sHeard :: "(nat \<times> ScriptEntry) list"
  sTx :: serverTx
  sWorld :: 'w

text \<open>Running a function of the world.\<close>

definition onWorld :: "('w \<Rightarrow> 'a \<times> 'w) \<Rightarrow> 'w st \<Rightarrow> 'a \<times> 'w st" where
  "onWorld f s = (let (r, w) = f (sWorld s) in (r, s \<lparr> sWorld := w \<rparr>))"

section \<open>The transaction's record\<close>

definition txFrom :: "ctx \<Rightarrow> server \<Rightarrow> bool" where
  "txFrom c srv \<longleftrightarrow> cTx c = Some (srvID srv)"

definition txIn :: "serverTx \<Rightarrow> string \<Rightarrow> bool" where
  "txIn t db \<longleftrightarrow> txCurrent t \<noteq> [] \<and> txCurrent t = db"

definition txAt :: "string \<Rightarrow> serverTx \<Rightarrow> serverTx" where
  "txAt db t = t \<lparr> txCurrent := db \<rparr>"

definition txLost :: "serverTx \<Rightarrow> serverTx" where
  "txLost t = txAt [] t"

definition txFail :: "goerr option \<Rightarrow> serverTx \<Rightarrow> serverTx" where
  "txFail err t =
     (if err = None then t
      else if txFailed t = None then t \<lparr> txFailed := err \<rparr> else t)"

definition txHold :: "ctx \<Rightarrow> ScriptEntry \<Rightarrow> serverTx \<Rightarrow> serverTx" where
  "txHold c e t =
     (if cObservers c \<noteq> []
      then t \<lparr> txPending := txPending t @ [\<lparr> hObservers = cObservers c, hEntry = e \<rparr>] \<rparr> else t)"

definition onTx :: "(serverTx \<Rightarrow> serverTx) \<Rightarrow> 'w st \<Rightarrow> 'w st" where
  "onTx f s = s \<lparr> sTx := f (sTx s) \<rparr>"

definition refuseInTx :: "ctx \<Rightarrow> server \<Rightarrow> string \<Rightarrow> goerr option" where
  "refuseInTx c srv q =
     (if \<not> txFrom c srv then None
      else Some (unsupportedf (''gosmo: %s: not possible inside InTransaction '' @
        [char_of (0xE2::nat), char_of (0x80::nat), char_of (0x94::nat)] @ '' it needs a session of its own'') [AText q]))"

definition serverConn :: "'w driver \<Rightarrow> 'w st \<Rightarrow> goerr option \<times> 'w st" where
  "serverConn D s =
     (let t = sTx s
      in if txHome t \<noteq> [] \<and> \<not> txIn t (txHome t) then
           (case onWorld (drvExec D TxConn (''USE '' @ QuoteName (txHome t)) []) s of
              (Some e, s1) \<Rightarrow> (Some (Entry (txHome t) e), onTx txLost s1)
            | (None, s1) \<Rightarrow> (None, onTx (txAt (txHome t)) s1))
         else (None, s))"

definition goHome :: "'w driver \<Rightarrow> 'w st \<Rightarrow> 'w st" where
  "goHome D s =
     (let t = sTx s
      in if txHome t = [] \<or> txIn t (txHome t) then s
         else (case onWorld (drvExec D TxConn (''USE '' @ QuoteName (txHome t)) []) s of
              (Some e, s1) \<Rightarrow> s1
            | (None, s1) \<Rightarrow> onTx (txAt (txHome t)) s1))"

section \<open>Observers and captured text\<close>

definition scriptServerName :: "ctx \<Rightarrow> server \<Rightarrow> string" where
  "scriptServerName c srv =
     (case cServerName c of Some n \<Rightarrow> n
      | None \<Rightarrow> (case srvName srv of None \<Rightarrow> [] | Some n \<Rightarrow> n))"

definition report :: "nat list \<Rightarrow> ScriptEntry \<Rightarrow> 'w st \<Rightarrow> 'w st" where
  "report fns e s = s \<lparr> sHeard := sHeard s @ map (\<lambda>f. (f, e)) fns \<rparr>"

definition observe :: "ctx \<Rightarrow> server \<Rightarrow> ScriptEntry \<Rightarrow> 'w st \<Rightarrow> 'w st" where
  "observe c srv e s =
     (if txFrom c srv then onTx (txHold c e) s
      else if cObservers c \<noteq> [] then report (cObservers c) e s else s)"

definition capturedForm :: "ctx \<Rightarrow> string \<Rightarrow> string \<Rightarrow> string" where
  "capturedForm c stmt shown = (if cSecrets c then stmt else shown)"

definition sentText :: "string \<Rightarrow> goval list \<Rightarrow> string" where
  "sentText shown args = (case bindScriptArgs shown args of Inl e \<Rightarrow> shown | Inr t \<Rightarrow> t)"

definition capture :: "ctx \<Rightarrow> server \<Rightarrow> string \<Rightarrow> string \<Rightarrow> string \<Rightarrow> goval list \<Rightarrow> 'w st \<Rightarrow> goerr option \<times> 'w st" where
  "capture c srv db q shown args s =
     (case bindScriptArgs (capturedForm c q shown) args of
        Inl e \<Rightarrow> (Some e, s)
      | Inr bound \<Rightarrow>
          (None, s \<lparr> sCollected := collectorAppend (sCollected s)
             \<lparr> eServer = scriptServerName c srv, eDatabase = db, eSQL = bound \<rparr> \<rparr>))"

section \<open>Writes\<close>

definition serverExecShown :: "'w driver \<Rightarrow> ctx \<Rightarrow> server \<Rightarrow> string \<Rightarrow> string \<Rightarrow> goval list \<Rightarrow> 'w st \<Rightarrow>
    goerr option \<times> 'w st" where
  "serverExecShown D c srv q shown args s =
     (if Scripting c then capture c srv [] q shown args s
      else (case (if txFrom c srv then serverConn D s else (None, s)) of
          (Some e, s1) \<Rightarrow> (Some e, s1)
        | (None, s1) \<Rightarrow>
            (case onWorld (drvExec D (if txFrom c srv then TxConn else Pooled) q args) s1 of
               (Some e, s2) \<Rightarrow> (Some (multiMessage e), s2)
             | (None, s2) \<Rightarrow>
                 (None, if cObservers c \<noteq> []
                  then observe c srv \<lparr> eServer = scriptServerName c srv, eDatabase = [], eSQL = sentText shown args \<rparr> s2
                  else s2))))"

definition serverExec :: "'w driver \<Rightarrow> ctx \<Rightarrow> server \<Rightarrow> string \<Rightarrow> goval list \<Rightarrow> 'w st \<Rightarrow> goerr option \<times> 'w st" where
  "serverExec D c srv q args s = serverExecShown D c srv q q args s"

definition serverExecSecret :: "'w driver \<Rightarrow> ctx \<Rightarrow> server \<Rightarrow> string \<Rightarrow> string \<Rightarrow> 'w st \<Rightarrow> goerr option \<times> 'w st" where
  "serverExecSecret D c srv stmt shown s = serverExecShown D c srv stmt shown [] s"

definition PasswordPlaceholder :: string where
  "PasswordPlaceholder = ''<insert password here>''"

definition serverExecPasswords :: "'w driver \<Rightarrow> ctx \<Rightarrow> server \<Rightarrow> string \<Rightarrow> string list \<Rightarrow> 'w st \<Rightarrow> goerr option \<times> 'w st" where
  "serverExecPasswords D c srv stmt passwords s =
     serverExecSecret D c srv stmt (redactSecrets stmt PasswordPlaceholder passwords) s"

definition dbUse :: "'w driver \<Rightarrow> database \<Rightarrow> conn \<Rightarrow> 'w st \<Rightarrow> goerr option \<times> 'w st" where
  "dbUse D d cn s =
     (case onWorld (drvExec D cn (''USE '' @ QuoteName (dName d)) []) s of
        (Some e, s1) \<Rightarrow> (Some (Entry (dName d) e), s1)
      | (None, s1) \<Rightarrow> (None, s1))"

text \<open>One attempt to acquire a pooled connection, and the wait between two.\<close>

definition acquire :: "'w driver \<Rightarrow> 'w st \<Rightarrow> unit res \<times> 'w st" where
  "acquire D s =
     (case onWorld (drvConn D) s of
        (Inl e, s1) \<Rightarrow> (Inl (Wrapped ''gosmo: acquire connection: %w'' [] e), s1)
      | (Inr u, s1) \<Rightarrow> (Inr u, s1))"

definition pause :: "'w driver \<Rightarrow> 'w st \<Rightarrow> nat \<Rightarrow> goerr option \<times> 'w st" where
  "pause D s n = onWorld (\<lambda>w. drvWait D w n) s"

definition withConn :: "'w driver \<Rightarrow> ctx \<Rightarrow> database \<Rightarrow> (conn \<Rightarrow> 'w st \<Rightarrow> goerr option \<times> 'w st) \<Rightarrow> 'w st \<Rightarrow>
    goerr option \<times> 'w st" where
  "withConn D c d fn s =
     (if txFrom c (dServer d) then
        (case (if \<not> txIn (sTx s) (dName d)
               then (case dbUse D d TxConn s of
                   (Some e, s1) \<Rightarrow> (Some e, onTx txLost s1)
                 | (None, s1) \<Rightarrow> (None, onTx (txAt (dName d)) s1))
               else (None, s)) of
           (Some e, s2) \<Rightarrow> (Some e, s2)
         | (None, s2) \<Rightarrow>
             (case fn TxConn s2 of (r, s3) \<Rightarrow>
               (withAllMessages r, if withAllMessages r \<noteq> None then onTx txLost s3 else s3)))
      else (case withRetry (acquire D) (pause D) s of
          (Inl e, s1) \<Rightarrow> (Some e, s1)
        | (Inr u, s1) \<Rightarrow> (case fn Pooled s1 of (r, s2) \<Rightarrow> (withAllMessages r, s2))))"

definition cannotEnterErrors :: "int list" where
  "cannotEnterErrors = [911, 916, 922, 924, 926, 927, 942, 945, 952, 976, 978, 40613]"

definition recheckEntry :: "'w driver \<Rightarrow> database \<Rightarrow> goerr \<Rightarrow> 'w st \<Rightarrow> goerr option \<times> 'w st" where
  "recheckEntry D d err s =
     (case asDriver err of
        None \<Rightarrow> (None, s)
      | Some me \<Rightarrow>
          if \<not> List.member cannotEnterErrors (msNumber me) \<or> drvDone D (sWorld s) then (None, s)
          else (case onWorld (drvExec D Pooled (QuoteName (dName d) @ ''.sys.sp_executesql'') [VString ''SELECT NULL'']) s of
              (Some perr, s1) \<Rightarrow> (Some (Entry (dName d) perr), s1)
            | (None, s1) \<Rightarrow> (None, s1)))"

definition execIn :: "'w driver \<Rightarrow> ctx \<Rightarrow> database \<Rightarrow> string \<Rightarrow> goval list \<Rightarrow>
    (conn \<Rightarrow> string \<Rightarrow> goval list \<Rightarrow> 'w st \<Rightarrow> goerr option \<times> 'w st) \<Rightarrow> 'w st \<Rightarrow> goerr option \<times> 'w st" where
  "execIn D c d q args fn s =
     (if txFrom c (dServer d) then withConn D c d (\<lambda>cn. fn cn q args) s
      else (case procRead (dName d) q args of
          Inl e \<Rightarrow> (Some e, s)
        | Inr (call, cargs) \<Rightarrow>
            withConn D c d (\<lambda>cn s1.
              (case fn cn call cargs s1 of
                 (None, s2) \<Rightarrow> (None, s2)
               | (Some e, s2) \<Rightarrow>
                   (case recheckEntry D d e s2 of
                      (Some uerr, s3) \<Rightarrow> (Some uerr, s3)
                    | (None, s3) \<Rightarrow> (Some e, s3)))) s))"

definition databaseExecShown :: "'w driver \<Rightarrow> ctx \<Rightarrow> database \<Rightarrow> string \<Rightarrow> string \<Rightarrow> goval list \<Rightarrow> 'w st \<Rightarrow>
    goerr option \<times> 'w st" where
  "databaseExecShown D c d q shown args s =
     (if Scripting c then capture c (dServer d) (dName d) q shown args s
      else (case execIn D c d q args (\<lambda>cn q' args' s1. onWorld (drvExec D cn q' args') s1) s of
          (Some e, s1) \<Rightarrow> (Some e, s1)
        | (None, s1) \<Rightarrow>
            (None, if cObservers c \<noteq> []
              then observe c (dServer d) \<lparr> eServer = scriptServerName c (dServer d), eDatabase = dName d, eSQL = sentText shown args \<rparr> s1
              else s1)))"

definition databaseExec :: "'w driver \<Rightarrow> ctx \<Rightarrow> database \<Rightarrow> string \<Rightarrow> goval list \<Rightarrow> 'w st \<Rightarrow> goerr option \<times> 'w st" where
  "databaseExec D c d q args s = databaseExecShown D c d q q args s"

definition databaseExecSecret :: "'w driver \<Rightarrow> ctx \<Rightarrow> database \<Rightarrow> string \<Rightarrow> string \<Rightarrow> 'w st \<Rightarrow> goerr option \<times> 'w st" where
  "databaseExecSecret D c d stmt shown s = databaseExecShown D c d stmt shown [] s"

definition databaseExecPasswords :: "'w driver \<Rightarrow> ctx \<Rightarrow> database \<Rightarrow> string \<Rightarrow> string list \<Rightarrow> 'w st \<Rightarrow> goerr option \<times> 'w st" where
  "databaseExecPasswords D c d stmt passwords s =
     databaseExecSecret D c d stmt (redactSecrets stmt PasswordPlaceholder passwords) s"

section \<open>Atomic batches\<close>

definition atomicBatch :: "string list \<Rightarrow> string" where
  "atomicBatch stmts =
     ''SET XACT_ABORT ON;
BEGIN TRY
BEGIN TRANSACTION;
'' @ concat (map (\<lambda>stmt. stmt @ '';
'') stmts) @ ''COMMIT TRANSACTION;
END TRY
BEGIN CATCH
IF @@TRANCOUNT > 0 ROLLBACK TRANSACTION;
THROW;
END CATCH;''"

definition atomicTxBatch :: "string list \<Rightarrow> string" where
  "atomicTxBatch stmts =
     ''BEGIN TRY
'' @ concat (map (\<lambda>stmt. stmt @ '';
'') stmts) @ ''END TRY
BEGIN CATCH
THROW;
END CATCH;''"

text \<open>The shape \<open>execAtomic\<close> and its variants share: \<open>run\<close> sends a batch.\<close>

definition serverExecAtomic :: "'w driver \<Rightarrow> ctx \<Rightarrow> server \<Rightarrow> string list \<Rightarrow> goval list \<Rightarrow> 'w st \<Rightarrow> goerr option \<times> 'w st" where
  "serverExecAtomic D c srv stmts args s =
     (if \<not> txFrom c srv \<or> Scripting c then serverExec D c srv (atomicBatch stmts) args s
      else (case serverExec D c srv (atomicTxBatch stmts) args s of (err, s1) \<Rightarrow> (err, onTx (txFail err) s1)))"

definition serverExecPasswordsAtomic :: "'w driver \<Rightarrow> ctx \<Rightarrow> server \<Rightarrow> string list \<Rightarrow> string list \<Rightarrow> 'w st \<Rightarrow> goerr option \<times> 'w st" where
  "serverExecPasswordsAtomic D c srv stmts passwords s =
     (if \<not> txFrom c srv \<or> Scripting c then serverExecPasswords D c srv (atomicBatch stmts) passwords s
      else (case serverExecPasswords D c srv (atomicTxBatch stmts) passwords s of (err, s1) \<Rightarrow> (err, onTx (txFail err) s1)))"

definition serverExecSecretAtomic :: "'w driver \<Rightarrow> ctx \<Rightarrow> server \<Rightarrow> string list \<Rightarrow> string list \<Rightarrow> 'w st \<Rightarrow> goerr option \<times> 'w st" where
  "serverExecSecretAtomic D c srv run shown s =
     (if \<not> txFrom c srv \<or> Scripting c then serverExecSecret D c srv (atomicBatch run) (atomicBatch shown) s
      else (case serverExecSecret D c srv (atomicTxBatch run) (atomicTxBatch shown) s of (err, s1) \<Rightarrow> (err, onTx (txFail err) s1)))"

definition databaseExecAtomic :: "'w driver \<Rightarrow> ctx \<Rightarrow> database \<Rightarrow> string list \<Rightarrow> 'w st \<Rightarrow> goerr option \<times> 'w st" where
  "databaseExecAtomic D c d stmts s =
     (if \<not> txFrom c (dServer d) \<or> Scripting c then databaseExec D c d (atomicBatch stmts) [] s
      else (case databaseExec D c d (atomicTxBatch stmts) [] s of (err, s1) \<Rightarrow> (err, onTx (txFail err) s1)))"

text \<open>\<open>scan\<close> reads the one row of a query, or its error.\<close>

definition execScan :: "'w driver \<Rightarrow> ctx \<Rightarrow> server \<Rightarrow> string \<Rightarrow> goval list \<Rightarrow> (string res \<Rightarrow> goerr option) \<Rightarrow> 'w st \<Rightarrow>
    goerr option \<times> 'w st" where
  "execScan D c srv stmt args scan s =
     (case (if txFrom c srv then serverConn D s else (None, s)) of
        (Some e, s1) \<Rightarrow> (Some e, s1)
      | (None, s1) \<Rightarrow>
          (case onWorld (drvQuery D (if txFrom c srv then TxConn else Pooled) stmt args) s1 of (row, s2) \<Rightarrow>
            (withAllMessages (scan row), s2)))"

definition observeBound :: "ctx \<Rightarrow> server \<Rightarrow> string \<Rightarrow> goval list \<Rightarrow> 'w st \<Rightarrow> 'w st" where
  "observeBound c srv stmt args s =
     observe c srv \<lparr> eServer = scriptServerName c srv, eDatabase = [], eSQL = sentText stmt args \<rparr> s"

definition execAtomicScan :: "'w driver \<Rightarrow> ctx \<Rightarrow> server \<Rightarrow> string list \<Rightarrow> string \<Rightarrow> goval list \<Rightarrow> (string res \<Rightarrow> goerr option) \<Rightarrow>
    'w st \<Rightarrow> goerr option \<times> 'w st" where
  "execAtomicScan D c srv stmts read args scan s =
     (let batch = (if txFrom c srv then atomicTxBatch stmts else atomicBatch stmts) @ [nl] @ read
      in case execScan D c srv batch args scan s of (err, s1) \<Rightarrow>
        let s2 = (if txFrom c srv then onTx (txFail err) s1 else s1)
        in (err, if err = None then observeBound c srv batch args s2 else s2))"

text \<open>What \<open>Server.ApplyPermission\<close> sends, and what it tells the transaction.\<close>

definition applyInMaster :: "'w driver \<Rightarrow> ctx \<Rightarrow> server \<Rightarrow> string \<Rightarrow> 'w st \<Rightarrow> goerr option \<times> 'w st" where
  "applyInMaster D c srv stmt s =
     (case serverExec D c srv (''USE master; '' @ stmt) [] s of (err, s1) \<Rightarrow>
        (err, if txFrom c srv then onTx txLost s1 else s1))"

section \<open>Reads\<close>

definition serverQuery :: "'w driver \<Rightarrow> ctx \<Rightarrow> server \<Rightarrow> string \<Rightarrow> goval list \<Rightarrow> 'w st \<Rightarrow> string res \<times> 'w st" where
  "serverQuery D c srv q args s =
     (if txFrom c srv then
        (case serverConn D s of
           (Some e, s1) \<Rightarrow> (Inl e, s1)
         | (None, s1) \<Rightarrow> (case onWorld (drvQuery D TxConn q args) s1 of (r, s2) \<Rightarrow> (map_sum multiMessage id r, s2)))
      else withRetry (onWorld (drvQuery D Pooled q args)) (pause D) s)"

definition serverQueryRow :: "'w driver \<Rightarrow> ctx \<Rightarrow> server \<Rightarrow> (string res \<Rightarrow> goerr option) \<Rightarrow> string \<Rightarrow> goval list \<Rightarrow>
    'w st \<Rightarrow> goerr option \<times> 'w st" where
  "serverQueryRow D c srv scan q args s =
     (if txFrom c srv then
        (case serverConn D s of
           (Some e, s1) \<Rightarrow> (Some e, s1)
         | (None, s1) \<Rightarrow> (case onWorld (drvQuery D TxConn q args) s1 of (r, s2) \<Rightarrow> (withAllMessages (scan r), s2)))
      else (case withRetry (\<lambda>s1. case onWorld (drvQuery D Pooled q args) s1 of (r, s2) \<Rightarrow>
                (case scan r of Some e \<Rightarrow> (Inl e, s2) | None \<Rightarrow> (Inr (), s2))) (pause D) s of
          (Inl e, s1) \<Rightarrow> (Some e, s1)
        | (Inr u, s1) \<Rightarrow> (None, s1)))"

definition useBatch :: "database \<Rightarrow> string \<Rightarrow> string" where
  "useBatch d q = ''USE '' @ QuoteName (dName d) @ ''; IF @@ERROR <> 0 RETURN; '' @ q"

definition msgCollationConflict :: int where
  "msgCollationConflict = 468"

definition recheckUse :: "'w driver \<Rightarrow> database \<Rightarrow> goerr \<Rightarrow> 'w st \<Rightarrow> (goerr option \<times> bool) \<times> 'w st" where
  "recheckUse D d err s =
     (if drvDone D (sWorld s) then ((None, False), s)
      else (case dbUse D d TxConn s of
          (Some uerr, s1) \<Rightarrow>
            (case asDriver uerr of
               Some me \<Rightarrow> if msNumber me = 0 then ((None, False), s1) else ((Some uerr, False), s1)
             | None \<Rightarrow> ((Some uerr, False), s1))
        | (None, s1) \<Rightarrow>
            ((None, case asDriver err of Some me \<Rightarrow> msNumber me = msgCollationConflict | None \<Rightarrow> False), s1)))"

definition queryOn :: "'w driver \<Rightarrow> database \<Rightarrow> string \<Rightarrow> goval list \<Rightarrow> 'w st \<Rightarrow> string res \<times> 'w st" where
  "queryOn D d q args s =
     (case onWorld (drvQuery D TxConn (useBatch d q) args) s of
        (Inr rows, s1) \<Rightarrow> (Inr rows, onTx (txAt (dName d)) s1)
      | (Inl err, s1) \<Rightarrow>
          (case recheckUse D d err (onTx txLost s1) of
             ((Some uerr, rerun), s2) \<Rightarrow> (Inl (multiMessage uerr), s2)
           | ((None, rerun), s2) \<Rightarrow>
               if \<not> rerun then (Inl (multiMessage err), s2)
               else (case onWorld (drvQuery D TxConn q args) s2 of
                   (Inl err2, s3) \<Rightarrow> (Inl (multiMessage err2), s3)
                 | (Inr rows, s3) \<Rightarrow> (Inr rows, onTx (txAt (dName d)) s3))))"

text \<open>The pooled half of \<open>query\<close>: one attempt.\<close>

definition pooledQuery :: "'w driver \<Rightarrow> database \<Rightarrow> string \<Rightarrow> goval list \<Rightarrow> 'w st \<Rightarrow> string res \<times> 'w st" where
  "pooledQuery D d query qargs s =
     (case acquire D s of
        (Inl e, s1) \<Rightarrow> (Inl e, s1)
      | (Inr u, s1) \<Rightarrow>
          (case onWorld (drvQuery D Pooled query qargs) s1 of
             (Inr rows, s2) \<Rightarrow> (Inr rows, s2)
           | (Inl err, s2) \<Rightarrow>
               (case recheckEntry D d err s2 of
                  (Some uerr, s3) \<Rightarrow> (Inl uerr, s3)
                | (None, s3) \<Rightarrow> (Inl err, s3))))"

definition databaseQuery :: "'w driver \<Rightarrow> ctx \<Rightarrow> database \<Rightarrow> string \<Rightarrow> goval list \<Rightarrow> 'w st \<Rightarrow> string res \<times> 'w st" where
  "databaseQuery D c d q args s =
     (if txFrom c (dServer d) then queryOn D d q args s
      else (case procRead (dName d) q args of
          Inl e \<Rightarrow> (Inl e, s)
        | Inr (query, qargs) \<Rightarrow> withRetry (pooledQuery D d query qargs) (pause D) s))"

section \<open>The parameters of a pooled call\<close>

lemma unitsLoop_sum: "units \<le> n \<Longrightarrow> unitsLoop n units rs \<longleftrightarrow> units + sum_list (map RuneLen rs) > n"
  by (induction rs arbitrary: units) (auto simp: Let_def)

lemma utf16Longer_units: "utf16Longer s n \<longleftrightarrow> utf16Units s > n"
  using units_le_bytes [of s] unitsLoop_sum [of 0 n "runes s"] by (auto simp: utf16Longer_def utf16Units_def)

definition paramDecl :: "nat \<Rightarrow> goval \<Rightarrow> string" where
  "paramDecl j a = ''@p'' @ itoa (int j + 1) @ '' '' @ the (procParamType a)"

lemma declsLoop_Inr:
  "declsLoop db i args = Inr ds \<longleftrightarrow>
     list_all (\<lambda>a. procParamType a \<noteq> None) args \<and>
     ds = map (\<lambda>j. paramDecl (i + j) (args ! j)) [0 ..< length args]"
proof (induction args arbitrary: i ds)
  case Nil
  then show ?case by auto
next
  case (Cons a args)
  have "map (\<lambda>j. paramDecl (i + j) ((a # args) ! j)) [0 ..< length (a # args)] =
      paramDecl i a # map (\<lambda>j. paramDecl (Suc i + j) (args ! j)) [0 ..< length args]"
    by (simp add: upt_conv_Cons map_Suc_upt [symmetric] comp_def del: upt_Suc)
  moreover have "declsLoop db i (a # args) = Inr ds \<longleftrightarrow>
      (\<exists>t ds'. procParamType a = Some t \<and> declsLoop db (Suc i) args = Inr ds' \<and> ds = paramDecl i a # ds')"
    by (cases "procParamType a") (auto simp: res_simps paramDecl_def)
  ultimately show ?case by (auto simp: Cons.IH)
qed

lemma declsLoop_Inl: "declsLoop db i as = Inl e \<Longrightarrow> errors_is e ErrUnsupported"
  by (induction as arbitrary: i) (auto simp: res_simps split: option.splits)

lemma procRead_declares_every_argument_facts:
  "(case procRead db q args of
      Inr (call, sent) \<Rightarrow>
        call = QuoteName db @ ''.sys.sp_executesql'' \<and> list_all (\<lambda>a. procParamType a \<noteq> None) args \<and>
        sent = (if args = [] then [VString q]
          else [VString q, VString (str_join '', ''
             (map (\<lambda>j. paramDecl j (args ! j)) [0 ..< length args]))] @ args)
    | Inl e \<Rightarrow> list_ex (\<lambda>a. procParamType a = None) args \<and> errors_is e ErrUnsupported)"
  "procParamType (VString v) = Some (if utf16Units v \<le> 4000 then ''nvarchar(4000)'' else ''nvarchar(max)'')"
proof -
  show "procParamType (VString v) = Some (if utf16Units v \<le> 4000 then ''nvarchar(4000)'' else ''nvarchar(max)'')"
    by (auto simp: procParamType_def utf16Longer_units)
  show "(case procRead db q args of
      Inr (call, sent) \<Rightarrow>
        call = QuoteName db @ ''.sys.sp_executesql'' \<and> list_all (\<lambda>a. procParamType a \<noteq> None) args \<and>
        sent = (if args = [] then [VString q]
          else [VString q, VString (str_join '', ''
             (map (\<lambda>j. paramDecl j (args ! j)) [0 ..< length args]))] @ args)
    | Inl e \<Rightarrow> list_ex (\<lambda>a. procParamType a = None) args \<and> errors_is e ErrUnsupported)"
  proof (cases "declsLoop db 0 args")
    case (Inl e)
    then have "args \<noteq> []" by auto
    moreover have "\<not> list_all (\<lambda>a. procParamType a \<noteq> None) args"
      using Inl declsLoop_Inr [of db 0 args] by (metis Inl_Inr_False)
    ultimately show ?thesis using Inl declsLoop_Inl [OF Inl]
      by (auto simp: procRead_def Let_def list_ex_iff list_all_iff)
  next
    case (Inr ds)
    then show ?thesis using declsLoop_Inr [of db 0 args ds] by (auto simp: procRead_def Let_def)
  qed
qed

text \<open>
  A pooled call is a call of its database's own \<open>sp_executesql\<close>: the text sent names that
  procedure whatever the database is called, and carries the statement unchanged, one declaration
  per argument, \<open>@p1\<close> on, in order, and the arguments.  It is refused, as unsupported, exactly
  when an argument is of a type with no declaration.  A string that fits \<open>nvarchar(4000)\<close>, by its
  UTF-16 length, is declared so, and any other \<open>nvarchar(max)\<close>, so no declaration truncates.
\<close>

theorem procRead_declares_every_argument:
  "(case procRead db q args of
      Inr (call, sent) \<Rightarrow>
        call = QuoteName db @ ''.sys.sp_executesql'' \<and> list_all (\<lambda>a. procParamType a \<noteq> None) args \<and>
        sent = (if args = [] then [VString q]
          else [VString q, VString (str_join '', ''
             (map (\<lambda>j. paramDecl j (args ! j)) [0 ..< length args]))] @ args)
    | Inl e \<Rightarrow> list_ex (\<lambda>a. procParamType a = None) args \<and> errors_is e ErrUnsupported) \<and>
   procParamType (VString v) = Some (if utf16Units v \<le> 4000 then ''nvarchar(4000)'' else ''nvarchar(max)'')"
  by (intro conjI procRead_declares_every_argument_facts)

end
