(* ===== verification/Transaction.thy ===== *)
theory Transaction
  imports Calls
begin

text \<open>
  \<open>InTransaction\<close> (\<open>transaction.go\<close>) and what holds of a transaction's session.  The session is
  in some database (\<open>sdb\<close> of the world); the package tracks it in \<open>current\<close> to save switches.  The
  step relation \<open>calls\<close> is one call a function passed to \<open>InTransaction\<close> makes with its context;
  the lemmas show that the tracked database is the session's throughout, where statements run,
  and when a transaction commits and its observers hear of it.
\<close>

section \<open>InTransaction\<close>

definition rollback :: "'w driver \<Rightarrow> 'w st \<Rightarrow> 'w st" where
  "rollback D s = snd (onWorld (drvRollback D) s)"

fun reportAll :: "heldReport list \<Rightarrow> 'w st \<Rightarrow> 'w st" where
  "reportAll [] s = s"
| "reportAll (h # hs) s = reportAll hs (report (hObservers h) (hEntry h) s)"

text \<open>The part after \<open>fn\<close> returned \<open>ferr\<close>: commit, or the deferred rollback.\<close>

definition finishTx :: "'w driver \<Rightarrow> goerr option \<Rightarrow> 'w st \<Rightarrow> goerr option \<times> 'w st" where
  "finishTx D ferr s =
     (case ferr of
        Some e \<Rightarrow> (Some e, rollback D (goHome D s))
      | None \<Rightarrow>
          (case txFailed (sTx s) of
             Some failed \<Rightarrow>
               (Some (Wrapped ''gosmo: commit transaction: refused, a write inside it failed: %w'' [] failed),
                rollback D (goHome D s))
           | None \<Rightarrow>
               (case onWorld (drvCommit D) (goHome D s) of
                  (Some e, s1) \<Rightarrow>
                    (Some (Wrapped ''gosmo: commit transaction: %w'' [] (multiMessage e)), rollback D (goHome D s1))
                | (None, s1) \<Rightarrow> (None, reportAll (txPending (sTx s1)) s1))))"

definition InTransaction :: "'w driver \<Rightarrow> ctx \<Rightarrow> server \<Rightarrow> (ctx \<Rightarrow> 'w st \<Rightarrow> goerr option \<times> 'w st) \<Rightarrow> 'w st \<Rightarrow>
    goerr option \<times> 'w st" where
  "InTransaction D c srv fn s =
     (if Scripting c then fn c s
      else (case cTx c of
          Some outer \<Rightarrow>
            if outer = srvID srv then fn c s
            else (Some (unsupportedf ''gosmo: begin transaction: already inside a transaction on another server'' []), s)
        | None \<Rightarrow>
            (case onWorld (drvBegin D) s of
               (Some e, s1) \<Rightarrow> (Some (Wrapped ''gosmo: begin transaction: %w'' [] (multiMessage e)), s1)
             | (None, s1) \<Rightarrow>
                 (case onWorld (drvQuery D TxConn ''SELECT DB_NAME()'' []) s1 of
                    (Inl e, s2) \<Rightarrow> (Some (Wrapped ''gosmo: begin transaction: %w'' [] (multiMessage e)), rollback D s2)
                  | (Inr home, s2) \<Rightarrow>
                      (case fn (c \<lparr> cTx := Some (srvID srv) \<rparr>)
                          (s2 \<lparr> sTx := \<lparr> txHome = home, txCurrent = home, txPending = [], txFailed = None \<rparr> \<rparr>) of
                         (ferr, s3) \<Rightarrow> finishTx D ferr s3)))))"

section \<open>The session\<close>

text \<open>
  What is relied on of the driver and the server, over \<open>sdb\<close>, the database the transaction's
  session is in, and \<open>dur\<close>, what is committed.  A \<open>USE\<close> that succeeds moves the session, and so does
  the batch of a read that begins with one; a statement that does not move (\<open>moves\<close> is false of
  it) leaves the session where it was, failing or not; pooled connections are other sessions; the
  transaction's statements commit nothing.
\<close>

definition sessionLaws :: "'w driver \<Rightarrow> ('w \<Rightarrow> string) \<Rightarrow> (string \<Rightarrow> bool) \<Rightarrow> bool" where
  "sessionLaws D sdb moves \<longleftrightarrow>
     (\<forall>x w. fst (drvExec D TxConn (''USE '' @ QuoteName x) [] w) = None \<longrightarrow>
        sdb (snd (drvExec D TxConn (''USE '' @ QuoteName x) [] w)) = x) \<and>
     (\<forall>q args w. \<not> moves q \<longrightarrow> sdb (snd (drvExec D TxConn q args w)) = sdb w) \<and>
     (\<forall>q args w. \<not> moves q \<longrightarrow> sdb (snd (drvQuery D TxConn q args w)) = sdb w) \<and>
     (\<forall>d q args w. \<not> moves q \<longrightarrow> isOk (fst (drvQuery D TxConn (useBatch d q) args w)) \<longrightarrow>
        sdb (snd (drvQuery D TxConn (useBatch d q) args w)) = dName d) \<and>
     (\<forall>w. isOk (fst (drvQuery D TxConn ''SELECT DB_NAME()'' [] w)) \<longrightarrow>
        fst (drvQuery D TxConn ''SELECT DB_NAME()'' [] w) = Inr (sdb (snd (drvQuery D TxConn ''SELECT DB_NAME()'' [] w)))) \<and>
     (\<forall>q args w. sdb (snd (drvExec D Pooled q args w)) = sdb w) \<and>
     (\<forall>q args w. sdb (snd (drvQuery D Pooled q args w)) = sdb w) \<and>
     (\<forall>w. sdb (snd (drvConn D w)) = sdb w) \<and> (\<forall>w n. sdb (snd (drvWait D w n)) = sdb w)"

definition durableLaws :: "'w driver \<Rightarrow> ('w \<Rightarrow> 'x) \<Rightarrow> bool" where
  "durableLaws D dur \<longleftrightarrow>
     (\<forall>q args w. dur (snd (drvExec D TxConn q args w)) = dur w) \<and>
     (\<forall>q args w. dur (snd (drvQuery D TxConn q args w)) = dur w) \<and>
     (\<forall>w. dur (snd (drvBegin D w)) = dur w) \<and> (\<forall>w. dur (snd (drvRollback D w)) = dur w)"

lemma session_use: "sessionLaws D sdb moves \<Longrightarrow> drvExec D TxConn (''USE '' @ QuoteName x) [] w = (None, w') \<Longrightarrow> sdb w' = x"
  unfolding sessionLaws_def by (metis fst_conv snd_conv)

lemma session_stays:
  "sessionLaws D sdb moves \<Longrightarrow> \<not> moves q \<Longrightarrow> sdb (snd (drvExec D TxConn q args w)) = sdb w"
  "sessionLaws D sdb moves \<Longrightarrow> \<not> moves q \<Longrightarrow> sdb (snd (drvQuery D TxConn q args w)) = sdb w"
  by (simp_all add: sessionLaws_def)

lemma session_batch:
  "sessionLaws D sdb moves \<Longrightarrow> \<not> moves q \<Longrightarrow> drvQuery D TxConn (useBatch d q) args w = (Inr r, w') \<Longrightarrow> sdb w' = dName d"
  unfolding sessionLaws_def by (metis isOk_simps(1) fst_conv snd_conv)

text \<open>The tracked database, when there is one, is the session's.\<close>

definition tracked :: "('w \<Rightarrow> string) \<Rightarrow> 'w st \<Rightarrow> bool" where
  "tracked sdb s \<longleftrightarrow> (txCurrent (sTx s) \<noteq> [] \<longrightarrow> sdb (sWorld s) = txCurrent (sTx s))"

section \<open>What a call in a transaction leaves alone\<close>

text \<open>Everything but the session, the tracking and the held reports.\<close>

definition view :: "('w \<Rightarrow> 'x) \<Rightarrow> 'w st \<Rightarrow> 'x \<times> (nat \<times> ScriptEntry) list \<times> string \<times> goerr option" where
  "view dur s = (dur (sWorld s), sHeard s, txHome (sTx s), txFailed (sTx s))"

lemma view_world:
  "onWorld (drvExec D TxConn q args) s = (r, s') \<Longrightarrow> durableLaws D dur \<Longrightarrow> view dur s' = view dur s"
  "onWorld (drvQuery D TxConn q args) s = (r2, s') \<Longrightarrow> durableLaws D dur \<Longrightarrow> view dur s' = view dur s"
  by (auto simp: view_def durableLaws_def onWorld_def split_beta)

lemma view_onTx [simp]:
  "view dur (onTx (txAt db) s) = view dur s" "view dur (onTx txLost s) = view dur s"
  "view dur (onTx (txHold c e) s) = view dur s"
  by (simp_all add: view_def onTx_def txAt_def txLost_def txHold_def)

lemma view_serverConn:
  "serverConn D s = (r, s') \<Longrightarrow> durableLaws D dur \<Longrightarrow> view dur s' = view dur s"
  by (auto simp: serverConn_def Let_def split: prod.splits option.splits if_splits dest!: view_world)

lemma view_dbUse:
  "dbUse D d TxConn s = (r, s') \<Longrightarrow> durableLaws D dur \<Longrightarrow> view dur s' = view dur s"
  by (auto simp: dbUse_def split: prod.splits option.splits dest!: view_world)

lemma view_observe: "txFrom c srv \<Longrightarrow> view dur (observe c srv e s) = view dur s"
  by (simp add: observe_def)

text \<open>The calls of one function, with the context of the transaction on \<open>srv\<close>.\<close>

inductive call :: "'w driver \<Rightarrow> (string \<Rightarrow> bool) \<Rightarrow> ctx \<Rightarrow> server \<Rightarrow> 'w st \<Rightarrow> 'w st \<Rightarrow> bool"
  for D moves c srv where
  exec: "\<not> moves q \<Longrightarrow> serverExecShown D c srv q shown args s = (r, s') \<Longrightarrow> call D moves c srv s s'"
| database_exec: "dServer d = srv \<Longrightarrow> \<not> moves q \<Longrightarrow> databaseExecShown D c d q shown args s = (r, s') \<Longrightarrow>
    call D moves c srv s s'"
| atomic: "\<not> moves (atomicTxBatch stmts) \<Longrightarrow> serverExecAtomic D c srv stmts args s = (r, s') \<Longrightarrow>
    call D moves c srv s s'"
| database_atomic: "dServer d = srv \<Longrightarrow> \<not> moves (atomicTxBatch stmts) \<Longrightarrow> databaseExecAtomic D c d stmts s = (r, s') \<Longrightarrow>
    call D moves c srv s s'"
| atomic_scan: "\<not> moves (atomicTxBatch stmts @ [nl] @ read) \<Longrightarrow>
    execAtomicScan D c srv stmts read args scan s = (r, s') \<Longrightarrow> call D moves c srv s s'"
| permission: "applyInMaster D c srv stmt s = (r, s') \<Longrightarrow> call D moves c srv s s'"
| query: "\<not> moves q \<Longrightarrow> serverQuery D c srv q args s = (v, s') \<Longrightarrow> call D moves c srv s s'"
| query_row: "\<not> moves q \<Longrightarrow> serverQueryRow D c srv scan q args s = (r, s') \<Longrightarrow> call D moves c srv s s'"
| database_query: "dServer d = srv \<Longrightarrow> \<not> moves q \<Longrightarrow> databaseQuery D c d q args s = (v, s') \<Longrightarrow>
    call D moves c srv s s'"

abbreviation inTx :: "ctx \<Rightarrow> server \<Rightarrow> bool" where
  "inTx c srv \<equiv> txFrom c srv \<and> \<not> cScript c"

lemma view_serverExecShown:
  "durableLaws D dur \<Longrightarrow> inTx c srv \<Longrightarrow> serverExecShown D c srv q shown args s = (r, s') \<Longrightarrow> view dur s' = view dur s"
  by (auto simp: serverExecShown_def Scripting_def view_observe split: prod.splits option.splits if_splits
      dest!: view_world view_serverConn)

lemma view_execScan:
  "durableLaws D dur \<Longrightarrow> txFrom c srv \<Longrightarrow> execScan D c srv q args scan s = (r, s') \<Longrightarrow> view dur s' = view dur s"
  by (auto simp: execScan_def split: prod.splits option.splits dest!: view_world view_serverConn)

lemma view_withConn:
  assumes "durableLaws D dur" "txFrom c (dServer d)"
    and "\<And>s s' r. fn TxConn s = (r, s') \<Longrightarrow> view dur s' = view dur s"
    and "withConn D c d fn s = (r, s')"
  shows "view dur s' = view dur s"
  using assms(1,2,4)
  by (auto simp: withConn_def split: prod.splits option.splits if_splits dest!: assms(3) view_dbUse)

lemma view_databaseExecShown:
  assumes "durableLaws D dur" "txFrom c (dServer d)" "\<not> cScript c" "databaseExecShown D c d q shown args s = (r, s')"
  shows "view dur s' = view dur s"
proof -
  have "view dur s2 = view dur s1"
    if "withConn D c d (\<lambda>cn. onWorld (drvExec D cn q args)) s1 = (r2, s2)" for s1 s2 r2
    by (rule view_withConn [OF assms(1,2) _ that]) (erule view_world(1), rule assms(1))
  then show ?thesis using assms
    by (auto simp: databaseExecShown_def Scripting_def execIn_def view_observe split: prod.splits option.splits if_splits)
qed

lemma view_queryOn:
  "queryOn D d q args s = (r, s') \<Longrightarrow> durableLaws D dur \<Longrightarrow> view dur s' = view dur s"
  by (auto simp: queryOn_def recheckUse_def split: prod.splits option.splits sum.splits if_splits
      dest!: view_world view_dbUse)

text \<open>The committed state, what observers heard and the database the transaction began in.\<close>

definition outside_view :: "('w \<Rightarrow> 'x) \<Rightarrow> 'w st \<Rightarrow> 'x \<times> (nat \<times> ScriptEntry) list \<times> string" where
  "outside_view dur s = (dur (sWorld s), sHeard s, txHome (sTx s))"

lemma outside_of_view: "view dur s' = view dur s \<Longrightarrow> outside_view dur s' = outside_view dur s \<and>
    (txFailed (sTx s) \<noteq> None \<longrightarrow> txFailed (sTx s') = txFailed (sTx s))"
  by (auto simp: view_def outside_view_def)

lemma fail_outside [simp]: "outside_view dur (onTx (txFail err) s) = outside_view dur s"
  by (simp add: outside_view_def onTx_def txFail_def)

lemma fail_keeps: "txFailed (sTx s) \<noteq> None \<Longrightarrow> txFailed (sTx (onTx (txFail err) s)) = txFailed (sTx s)"
  by (auto simp: onTx_def txFail_def)

lemma fail_records: "txFailed (sTx (onTx (txFail (Some e)) s)) \<noteq> None"
  by (auto simp: onTx_def txFail_def)

lemma outside_fail:
  "view dur s' = view dur s \<Longrightarrow> outside_view dur (onTx (txFail err) s') = outside_view dur s \<and>
    (txFailed (sTx s) \<noteq> None \<longrightarrow> txFailed (sTx (onTx (txFail err) s')) = txFailed (sTx s))"
  using outside_of_view fail_keeps by (metis fail_outside)

lemma call_outside:
  "call D moves c srv s s' \<Longrightarrow> durableLaws D dur \<Longrightarrow> inTx c srv \<Longrightarrow>
   outside_view dur s' = outside_view dur s \<and> (txFailed (sTx s) \<noteq> None \<longrightarrow> txFailed (sTx s') = txFailed (sTx s))"
proof (induction rule: call.induct)
  case (exec q shown args s r s')
  then show ?case using view_serverExecShown by (intro outside_of_view) blast
next
  case (database_exec d q shown args s r s')
  then show ?case using view_databaseExecShown [of D dur c d q shown args s r s'] by (intro outside_of_view) simp
next
  case (atomic stmts args s r s')
  obtain r1 s1 where run: "serverExecShown D c srv (atomicTxBatch stmts) (atomicTxBatch stmts) args s = (r1, s1)"
    by (meson surj_pair)
  then have "s' = onTx (txFail r1) s1"
    using atomic by (auto simp: serverExecAtomic_def serverExec_def Scripting_def)
  moreover have "view dur s1 = view dur s" using view_serverExecShown [OF _ _ run] atomic by blast
  ultimately show ?case using outside_fail by metis
next
  case (database_atomic d stmts s r s')
  obtain r1 s1 where run: "databaseExecShown D c d (atomicTxBatch stmts) (atomicTxBatch stmts) [] s = (r1, s1)"
    by (meson surj_pair)
  then have "s' = onTx (txFail r1) s1"
    using database_atomic by (auto simp: databaseExecAtomic_def databaseExec_def Scripting_def)
  moreover have "view dur s1 = view dur s" using view_databaseExecShown [OF _ _ _ run] database_atomic by blast
  ultimately show ?case using outside_fail by metis
next
  case (atomic_scan stmts read args scan s r s')
  obtain r1 s1 where scan: "execScan D c srv (atomicTxBatch stmts @ [nl] @ read) args scan s = (r1, s1)"
    by (meson surj_pair)
  have "view dur s1 = view dur s" using view_execScan [OF _ _ scan] atomic_scan by blast
  then have o: "outside_view dur (onTx (txFail r1) s1) = outside_view dur s \<and>
    (txFailed (sTx s) \<noteq> None \<longrightarrow> txFailed (sTx (onTx (txFail r1) s1)) = txFailed (sTx s))"
    by (rule outside_fail)
  have "view dur s' = view dur (onTx (txFail r1) s1)"
    using atomic_scan scan by (auto simp: execAtomicScan_def observeBound_def Let_def view_observe)
  from outside_of_view [OF this] o show ?case by metis
next
  case (permission stmt s r s')
  then show ?case using view_serverExecShown [of D dur c srv]
    by (intro outside_of_view) (auto simp: applyInMaster_def serverExec_def split: prod.splits if_splits)
next
  case (query q args s v s')
  then show ?case
    by (intro outside_of_view) (auto simp: serverQuery_def split: prod.splits option.splits dest!: view_world view_serverConn)
next
  case (query_row q scan args s r s')
  then show ?case
    by (intro outside_of_view) (auto simp: serverQueryRow_def split: prod.splits option.splits dest!: view_world view_serverConn)
next
  case (database_query d q args s v s')
  then show ?case using view_queryOn by (intro outside_of_view) (auto simp: databaseQuery_def)
qed

section \<open>The tracked database is the session's\<close>

lemma tracked_simps [simp]:
  "tracked sdb (onTx txLost s)" "tracked sdb (onTx (txFail err) s) = tracked sdb s"
  "tracked sdb (onTx (txHold c e) s) = tracked sdb s"
  "sdb (sWorld s) = db \<Longrightarrow> tracked sdb (onTx (txAt db) s)"
  "txFrom c srv \<Longrightarrow> tracked sdb (observe c srv e s) = tracked sdb s"
  by (simp_all add: tracked_def onTx_def txLost_def txAt_def txFail_def txHold_def observe_def)

lemma world_exec:
  "onWorld (drvExec D cn q args) s = (r, s') \<Longrightarrow> s' = s \<lparr> sWorld := snd (drvExec D cn q args (sWorld s)) \<rparr> \<and>
     r = fst (drvExec D cn q args (sWorld s))"
  "onWorld (drvQuery D cn q args) s = (v, s') \<Longrightarrow> s' = s \<lparr> sWorld := snd (drvQuery D cn q args (sWorld s)) \<rparr> \<and>
     v = fst (drvQuery D cn q args (sWorld s))"
  by (auto simp: onWorld_def split_beta)

lemma tracked_exec:
  "onWorld (drvExec D TxConn q args) s = (r, s') \<Longrightarrow> sessionLaws D sdb moves \<Longrightarrow> \<not> moves q \<Longrightarrow>
   tracked sdb s' = tracked sdb s"
  "onWorld (drvQuery D TxConn q args) s = (v, s') \<Longrightarrow> sessionLaws D sdb moves \<Longrightarrow> \<not> moves q \<Longrightarrow>
   tracked sdb s' = tracked sdb s"
  by (auto dest!: world_exec simp: tracked_def session_stays)

lemma use_moves:
  "onWorld (drvExec D TxConn (''USE '' @ QuoteName x) []) s = (None, s') \<Longrightarrow> sessionLaws D sdb moves \<Longrightarrow>
   sdb (sWorld s') = x"
  using session_use by (auto simp: onWorld_def split: prod.splits)

lemma batch_moves:
  "onWorld (drvQuery D TxConn (useBatch d q) args) s = (Inr v, s') \<Longrightarrow> sessionLaws D sdb moves \<Longrightarrow> \<not> moves q \<Longrightarrow>
   sdb (sWorld s') = dName d"
  using session_batch by (auto simp: onWorld_def split: prod.splits)

lemma serverConn_place:
  assumes "serverConn D s = (r, s')" "sessionLaws D sdb moves" "tracked sdb s"
  shows "tracked sdb s'" "r = None \<Longrightarrow> txHome (sTx s) \<noteq> [] \<Longrightarrow> sdb (sWorld s') = txHome (sTx s)"
  using assms use_moves [of D "txHome (sTx s)" s _ sdb moves]
  by (auto simp: serverConn_def Let_def tracked_def txIn_def onTx_def txAt_def txLost_def
      split: prod.splits option.splits if_splits)


lemma tracked_serverExecShown:
  "serverExecShown D c srv q shown args s = (r, s') \<Longrightarrow> sessionLaws D sdb moves \<Longrightarrow> \<not> moves q \<Longrightarrow> inTx c srv \<Longrightarrow>
   tracked sdb s \<Longrightarrow> tracked sdb s'"
  by (auto simp: serverExecShown_def Scripting_def tracked_exec split: prod.splits option.splits if_splits
      dest: serverConn_place(1))


lemma tracked_withConn:
  assumes "withConn D c d (\<lambda>cn. onWorld (drvExec D cn q args)) s = (r, s')" "sessionLaws D sdb moves"
    "tracked sdb s" "txFrom c (dServer d)" "\<not> moves q"
  shows "tracked sdb s'"
proof -
  have at: "tracked sdb (onTx (txAt (dName d)) s1)"
    if "onWorld (drvExec D TxConn (''USE '' @ QuoteName (dName d)) []) s = (None, s1)" for s1
    using use_moves [OF that assms(2)] by simp
  show ?thesis using assms(1,3,4) at
    by (auto simp: withConn_def dbUse_def tracked_exec [OF _ assms(2,5)] split: prod.splits option.splits if_splits)
qed

lemma database_exec_place:
  assumes "databaseExecShown D c d q shown args s = (r, s')" "inTx c (dServer d)"
  obtains s1 where "withConn D c d (\<lambda>cn. onWorld (drvExec D cn q args)) s = (r, s1)" "sWorld s' = sWorld s1"
    "tracked sdb s' = tracked sdb s1"
  using assms by (auto simp: databaseExecShown_def Scripting_def execIn_def observe_def onTx_def tracked_def txHold_def
      split: prod.splits option.splits if_splits)

lemma tracked_queryOn:
  assumes "queryOn D d q args s = (v, s')" "sessionLaws D sdb moves" "\<not> moves q"
  shows "tracked sdb s'"
proof -
  have lost: "tracked sdb s2" if "recheckUse D d err (onTx txLost s1) = (p, s2)" for err s1 p s2
    using that by (auto simp: recheckUse_def dbUse_def tracked_def onTx_def txLost_def txAt_def onWorld_def
        split: prod.splits option.splits if_splits)
  have placed: "sdb (sWorld s3) = dName d"
    if "recheckUse D d err (onTx txLost s1) = ((None, True), s2)"
      "onWorld (drvQuery D TxConn q args) s2 = (Inr rows, s3)" for err s1 s2 s3 rows
  proof -
    have "sdb (sWorld s2) = dName d"
      using that(1) use_moves [OF _ assms(2)]
      by (auto simp: recheckUse_def dbUse_def split: prod.splits option.splits if_splits)
    then show ?thesis using that(2) session_stays(2) [OF assms(2,3)] by (auto dest!: world_exec(2))
  qed
  have kept: "tracked sdb s3" if "onWorld (drvQuery D TxConn q args) s2 = (w, s3)" "tracked sdb s2" for s2 s3 w
    using tracked_exec(2) [OF that(1) assms(2,3)] that(2) by simp
  show ?thesis using assms(1) lost placed kept batch_moves [OF _ assms(2,3)]
    by (fastforce simp: queryOn_def split: prod.splits option.splits sum.splits if_splits)
qed

lemma tracked_databaseExecShown:
  assumes "databaseExecShown D c d q shown args s = (r, s')" "inTx c (dServer d)" "sessionLaws D sdb moves"
    "\<not> moves q" "tracked sdb s"
  shows "tracked sdb s'"
proof -
  obtain s1 where "withConn D c d (\<lambda>cn. onWorld (drvExec D cn q args)) s = (r, s1)" "tracked sdb s' = tracked sdb s1"
    using database_exec_place [OF assms(1,2), of sdb] by blast
  then show ?thesis using tracked_withConn [OF _ assms(3,5) _ assms(4)] assms(2) by blast
qed

lemma call_tracked:
  "call D moves c srv s s' \<Longrightarrow> sessionLaws D sdb moves \<Longrightarrow> inTx c srv \<Longrightarrow> tracked sdb s \<Longrightarrow> tracked sdb s'"
proof (induction rule: call.induct)
  case (exec q shown args s r s')
  then show ?case using tracked_serverExecShown by blast
next
  case (database_exec d q shown args s r s')
  then show ?case using tracked_databaseExecShown by blast
next
  case (atomic stmts args s r s')
  then show ?case using tracked_serverExecShown [of D c srv "atomicTxBatch stmts"]
    by (auto simp: serverExecAtomic_def serverExec_def Scripting_def split: prod.splits)
next
  case (database_atomic d stmts s r s')
  then show ?case using tracked_databaseExecShown [of D c d "atomicTxBatch stmts"]
    by (auto simp: databaseExecAtomic_def databaseExec_def Scripting_def split: prod.splits)
next
  case (atomic_scan stmts read args scan s r s')
  then have "tracked sdb s1" if "execScan D c srv (atomicTxBatch stmts @ [nl] @ read) args scan s = (r1, s1)" for r1 s1
    using that by (auto simp: execScan_def split: prod.splits option.splits
        dest: serverConn_place(1) tracked_exec(2))
  then show ?case using atomic_scan
    by (auto simp: execAtomicScan_def observeBound_def Let_def split: prod.splits)
next
  case (permission stmt s r s')
  then show ?case by (auto simp: applyInMaster_def split: prod.splits)
next
  case (query q args s v s')
  then show ?case by (auto simp: serverQuery_def split: prod.splits option.splits
        dest: serverConn_place(1) tracked_exec(2))
next
  case (query_row q scan args s r s')
  then show ?case by (auto simp: serverQueryRow_def split: prod.splits option.splits
        dest: serverConn_place(1) tracked_exec(2))
next
  case (database_query d q args s v s')
  then show ?case using tracked_queryOn by (auto simp: databaseQuery_def)
qed

text \<open>Any number of calls.\<close>

lemma calls_facts:
  assumes "(call D moves c srv)\<^sup>*\<^sup>* s s'" "inTx c srv"
  shows "sessionLaws D sdb moves \<Longrightarrow> tracked sdb s \<Longrightarrow> tracked sdb s'"
    and "durableLaws D dur \<Longrightarrow> outside_view dur s' = outside_view dur s"
    and "txFailed (sTx s) \<noteq> None \<Longrightarrow> txFailed (sTx s') = txFailed (sTx s)"
    and "txHome (sTx s') = txHome (sTx s)"
proof -
  show "sessionLaws D sdb moves \<Longrightarrow> tracked sdb s \<Longrightarrow> tracked sdb s'"
    using assms(1) by (induction rule: rtranclp_induct) (use assms(2) call_tracked in blast)+
  show d: "durableLaws D dur \<Longrightarrow> outside_view dur s' = outside_view dur s" for dur :: "'a \<Rightarrow> 'b"
    using assms(1) by (induction rule: rtranclp_induct) (use assms(2) call_outside in \<open>fastforce+\<close>)
  have triv: "durableLaws D (\<lambda>_. ())" by (simp add: durableLaws_def)
  show "txFailed (sTx s) \<noteq> None \<Longrightarrow> txFailed (sTx s') = txFailed (sTx s)"
    using assms(1)
  proof (induction rule: rtranclp_induct)
    case (step y z)
    then show ?case using call_outside [OF step(2) triv assms(2)] by simp
  qed simp
  show "txHome (sTx s') = txHome (sTx s)"
    using assms(1)
  proof (induction rule: rtranclp_induct)
    case (step y z)
    then show ?case using call_outside [OF step(2) triv assms(2)] by (simp add: outside_view_def)
  qed simp
qed



section \<open>Commit\<close>

lemma view_goHome: "durableLaws D dur \<Longrightarrow> view dur (goHome D s) = view dur s"
  by (auto simp: goHome_def Let_def split: prod.splits option.splits dest!: view_world)

lemma view_rollback: "durableLaws D dur \<Longrightarrow> view dur (rollback D s) = view dur s"
  by (simp add: rollback_def onWorld_def durableLaws_def view_def split_beta)

lemma pending_goHome [simp]: "txPending (sTx (goHome D s)) = txPending (sTx s)"
  by (auto simp: goHome_def Let_def onTx_def txAt_def onWorld_def split: prod.splits option.splits)




text \<open>The state \<open>fn\<close> starts from.\<close>

definition begun :: "'w driver \<Rightarrow> 'w st \<Rightarrow> 'w st \<Rightarrow> bool" where
  "begun D s s0 \<longleftrightarrow>
     fst (drvBegin D (sWorld s)) = None \<and>
     (\<exists>home. fst (drvQuery D TxConn ''SELECT DB_NAME()'' [] (snd (drvBegin D (sWorld s)))) = Inr home \<and>
       s0 = s \<lparr> sWorld := snd (drvQuery D TxConn ''SELECT DB_NAME()'' [] (snd (drvBegin D (sWorld s)))),
               sTx := \<lparr> txHome = home, txCurrent = home, txPending = [], txFailed = None \<rparr> \<rparr>)"

lemma durable_calls:
  "drvBegin D w = (r, w') \<Longrightarrow> durableLaws D dur \<Longrightarrow> dur w' = dur w"
  "drvQuery D TxConn q args w = (v, w') \<Longrightarrow> durableLaws D dur \<Longrightarrow> dur w' = dur w"
  "drvRollback D w = (r, w') \<Longrightarrow> durableLaws D dur \<Longrightarrow> dur w' = dur w"
  unfolding durableLaws_def by (metis snd_conv)+

lemma InTransaction_begun:
  assumes "\<not> cScript c" "cTx c = None" "InTransaction D c srv fn s = (r, s')"
  shows "(\<not> (\<exists>s0. begun D s s0) \<and> (\<exists>e. r = Some e) \<and>
      (durableLaws D dur \<longrightarrow> dur (sWorld s') = dur (sWorld s)) \<and> sHeard s' = sHeard s) \<or>
    (\<exists>s0. begun D s s0 \<and> finishTx D (fst (fn (c \<lparr> cTx := Some (srvID srv) \<rparr>) s0))
        (snd (fn (c \<lparr> cTx := Some (srvID srv) \<rparr>) s0)) = (r, s'))"
proof -
  obtain b w1 where b: "drvBegin D (sWorld s) = (b, w1)" by (meson surj_pair)
  obtain h w2 where h: "drvQuery D TxConn ''SELECT DB_NAME()'' [] w1 = (h, w2)" by (meson surj_pair)
  show ?thesis
  proof (cases b)
    case (Some e)
    then have "s' = s \<lparr> sWorld := w1 \<rparr> \<and> (\<exists>e. r = Some e)" "\<not> (\<exists>s0. begun D s s0)"
      using assms b by (auto simp: InTransaction_def Scripting_def onWorld_def begun_def)
    then show ?thesis using durable_calls(1) [OF b] by auto
  next
    case None
    show ?thesis
    proof (cases h)
      case (Inl e)
      then have "s' = s \<lparr> sWorld := snd (drvRollback D w2) \<rparr> \<and> (\<exists>e. r = Some e)" "\<not> (\<exists>s0. begun D s s0)"
        using assms b h None by (auto simp: InTransaction_def Scripting_def onWorld_def begun_def rollback_def split_beta)
      moreover have "dur (snd (drvRollback D w2)) = dur (sWorld s)" if "durableLaws D dur"
        using durable_calls(1) [OF b that] durable_calls(2) [OF h that] that by (simp add: durableLaws_def)
      ultimately show ?thesis by auto
    next
      case (Inr home)
      let ?s0 = "s \<lparr> sWorld := w2, sTx := \<lparr> txHome = home, txCurrent = home, txPending = [], txFailed = None \<rparr> \<rparr>"
      have "begun D s ?s0" using b h None Inr by (simp add: begun_def)
      moreover have "finishTx D (fst (fn (c \<lparr> cTx := Some (srvID srv) \<rparr>) ?s0))
          (snd (fn (c \<lparr> cTx := Some (srvID srv) \<rparr>) ?s0)) = (r, s')"
        using assms b h None Inr by (simp add: InTransaction_def Scripting_def onWorld_def split_beta)
      ultimately show ?thesis by blast
    qed
  qed
qed

lemma begun_facts:
  assumes "begun D s s0"
  shows "sessionLaws D sdb moves \<Longrightarrow> tracked sdb s0" "durableLaws D dur \<Longrightarrow> dur (sWorld s0) = dur (sWorld s)"
    "sHeard s0 = sHeard s" "txFailed (sTx s0) = None"
proof -
  show "sessionLaws D sdb moves \<Longrightarrow> tracked sdb s0"
    using assms unfolding begun_def sessionLaws_def tracked_def by (auto simp: isOk_def split: sum.splits)
  show "durableLaws D dur \<Longrightarrow> dur (sWorld s0) = dur (sWorld s)" "sHeard s0 = sHeard s" "txFailed (sTx s0) = None"
    using assms by (auto simp: begun_def durableLaws_def)
qed


lemma atomic_failure_recorded:
  "inTx c srv \<Longrightarrow> serverExecAtomic D c srv stmts args s = (Some e, s') \<Longrightarrow> txFailed (sTx s') \<noteq> None"
  "inTx c (dServer d) \<Longrightarrow> databaseExecAtomic D c d stmts s = (Some e, s') \<Longrightarrow> txFailed (sTx s') \<noteq> None"
  using fail_records by (auto simp: serverExecAtomic_def databaseExecAtomic_def Scripting_def split: prod.splits)

text \<open>
  C10: a transaction in which an atomic write failed is never committed, even when \<open>fn\<close> tolerates
  the error and returns none: \<open>InTransaction\<close> returns a refusal naming that failure, nothing is
  committed and no observer hears of anything.
\<close>

theorem failed_atomic_write_is_never_committed:
  assumes "durableLaws D dur" "\<not> cScript c" "cTx c = None" "begun D s s0"
    and "c' = c \<lparr> cTx := Some (srvID srv) \<rparr>" "dServer d = srv"
    and "(call D moves c' srv)\<^sup>*\<^sup>* s0 s1"
    and "serverExecAtomic D c' srv stmts args s1 = (Some e, s2) \<and> \<not> moves (atomicTxBatch stmts) \<or>
         databaseExecAtomic D c' d stmts s1 = (Some e, s2) \<and> \<not> moves (atomicTxBatch stmts)"
    and "(call D moves c' srv)\<^sup>*\<^sup>* s2 s3" "fn c' s0 = (None, s3)" "InTransaction D c srv fn s = (r, s')"
  shows "\<exists>f. r = Some (Wrapped ''gosmo: commit transaction: refused, a write inside it failed: %w'' [] f) \<and>
      dur (sWorld s') = dur (sWorld s) \<and> sHeard s' = sHeard s"
proof -
  have inside: "inTx c' srv" using assms(2,5) by (simp add: txFrom_def)
  have step: "call D moves c' srv s1 s2"
    using assms(6,8) call.atomic call.database_atomic by metis
  have "txFailed (sTx s2) \<noteq> None" using assms(6,8) inside atomic_failure_recorded by metis
  then have "txFailed (sTx s3) \<noteq> None" using calls_facts(3) [OF assms(9) inside] by simp
  then obtain f where f: "txFailed (sTx s3) = Some f" by blast
  have "(call D moves c' srv)\<^sup>*\<^sup>* s0 s3"
    using assms(7,9) step by (meson rtranclp.rtrancl_into_rtrancl rtranclp_trans)
  then have "outside_view dur s3 = outside_view dur s0" by (rule calls_facts(2) [OF _ inside assms(1)])
  then have same: "sHeard s3 = sHeard s" "dur (sWorld s3) = dur (sWorld s)"
    using begun_facts(2,3) [OF assms(4)] assms(1) by (auto simp: outside_view_def)
  have "\<exists>s0'. begun D s s0'" using assms(4) by blast
  moreover have "s0' = s0" if "begun D s s0'" for s0' using that assms(4) by (auto simp: begun_def)
  ultimately have "finishTx D None s3 = (r, s')"
    using InTransaction_begun [OF assms(2,3,11), of dur] assms(5,10) by (metis fst_conv snd_conv)
  then have "r = Some (Wrapped ''gosmo: commit transaction: refused, a write inside it failed: %w'' [] f)"
    "s' = rollback D (goHome D s3)"
    using f by (auto simp: finishTx_def)
  then show ?thesis using same view_rollback [OF assms(1), of "goHome D s3"] view_goHome [OF assms(1), of s3]
    by (auto simp: view_def)
qed

section \<open>A driver to run it on\<close>

text \<open>
  A small server for concrete runs: the session's database, the statements run in the open
  transaction with where they ran, and those committed.  An atomic batch fails, and so does a
  statement that moves to \<open>master\<close> itself -- after it has moved, as \<open>DROP DATABASE\<close> in a
  transaction does.
\<close>

type_synonym toy = "string \<times> (string \<times> string) list \<times> (string \<times> string) list"

definition toyFailure :: goerr where
  "toyFailure = Driver (MsError 226 1 16 ''not allowed within a multi-statement transaction'' [] [] 1 [])"

definition toyExec :: "conn \<Rightarrow> string \<Rightarrow> goval list \<Rightarrow> toy \<Rightarrow> goerr option \<times> toy" where
  "toyExec cn q args w =
     (case w of (d, log, done) \<Rightarrow>
        if cn = Pooled then (None, w)
        else if q = ''USE '' @ QuoteName (UnquoteName (drop 4 q)) then (None, (UnquoteName (drop 4 q), log, done))
        else if has_prefix q (fromMaster []) then (Some toyFailure, (''master'', log, done))
        else if has_prefix q ''BEGIN TRY'' then (Some toyFailure, w)
        else (None, (d, log @ [(d, q)], done)))"

definition toyQuery :: "conn \<Rightarrow> string \<Rightarrow> goval list \<Rightarrow> toy \<Rightarrow> string res \<times> toy" where
  "toyQuery cn q args w =
     (if q = ''SELECT DB_NAME()'' then (Inr (fst w), w) else (Inl toyFailure, w))"

definition toyDriver :: "toy driver" where
  "toyDriver = \<lparr> drvExec = toyExec, drvQuery = toyQuery, drvConn = (\<lambda>w. (Inr (), w)), drvBegin = (\<lambda>w. (None, w)),
     drvCommit = (\<lambda>(d, log, done). (None, (d, [], done @ log))), drvRollback = (\<lambda>(d, log, done). (None, (d, [], done))),
     drvDone = (\<lambda>w. False), drvWait = (\<lambda>w n. (None, w)) \<rparr>"

definition toyMoves :: "string \<Rightarrow> bool" where
  "toyMoves q \<longleftrightarrow> has_prefix q ''USE ''"


lemma toy_durable: "durableLaws toyDriver (\<lambda>w. snd (snd w))"
  by (auto simp: durableLaws_def toyDriver_def toyExec_def toyQuery_def split: prod.splits)

definition toyServer :: server where
  "toyServer = \<lparr> srvID = 1, srvName = Some ''SQL1'' \<rparr>"

definition toyShop :: database where
  "toyShop = \<lparr> dServer = toyServer, dName = ''shop'' \<rparr>"

definition toyCtx :: ctx where
  "toyCtx = \<lparr> cScript = False, cServerName = None, cSecrets = False, cObservers = [7], cTx = None \<rparr>"

definition toyTxCtx :: ctx where
  "toyTxCtx = toyCtx \<lparr> cTx := Some 1 \<rparr>"

definition toyStart :: "toy st" where
  "toyStart = \<lparr> sCollected = [], sHeard = [],
     sTx = \<lparr> txHome = ''login'', txCurrent = ''login'', txPending = [], txFailed = None \<rparr>,
     sWorld = (''login'', [], []) \<rparr>"

lemmas toy_defs = toyDriver_def toyExec_def toyQuery_def toyServer_def toyShop_def toyCtx_def toyTxCtx_def
  toyStart_def toyFailure_def


lemma toy_begun: "begun toyDriver toyStart toyStart"
  by (simp add: begun_def toy_defs)

text \<open>One write in \<open>shop\<close>.\<close>

definition toyWrite :: "ctx \<Rightarrow> toy st \<Rightarrow> goerr option \<times> toy st" where
  "toyWrite c s = databaseExec toyDriver c toyShop ''CREATE TABLE t(i int)'' [] s"

lemma toy_write:
  "fst (toyWrite toyTxCtx toyStart) = None"
  "fst (sWorld (snd (toyWrite toyTxCtx toyStart))) = ''shop''"
  by code_simp+

lemma toy_write_call: "call toyDriver toyMoves toyTxCtx toyServer toyStart (snd (toyWrite toyTxCtx toyStart))"
  by (rule call.database_exec [of toyShop _ _ "''CREATE TABLE t(i int)''" _ _ "''CREATE TABLE t(i int)''" "[]" _ "fst (toyWrite toyTxCtx toyStart)"])
    (simp_all add: toyWrite_def databaseExec_def toyMoves_def toyShop_def)




text \<open>\<open>fn\<close> writes in \<open>shop\<close>, then runs an atomic write that fails and swallows its error.\<close>

definition toyTolerant :: "ctx \<Rightarrow> toy st \<Rightarrow> goerr option \<times> toy st" where
  "toyTolerant c s = (None, snd (serverExecAtomic toyDriver c toyServer [''A'', ''B''] [] (snd (toyWrite c s))))"

lemma failed_atomic_write_is_never_committed_witness:
  "\<exists>f. fst (InTransaction toyDriver toyCtx toyServer toyTolerant toyStart) =
      Some (Wrapped ''gosmo: commit transaction: refused, a write inside it failed: %w'' [] f) \<and>
    snd (snd (sWorld (snd (InTransaction toyDriver toyCtx toyServer toyTolerant toyStart)))) = []"
proof -
  let ?s1 = "snd (toyWrite toyTxCtx toyStart)"
  let ?a = "serverExecAtomic toyDriver toyTxCtx toyServer [''A'', ''B''] [] ?s1"
  let ?r = "InTransaction toyDriver toyCtx toyServer toyTolerant toyStart"
  have c: "toyTxCtx = toyCtx \<lparr> cTx := Some (srvID toyServer) \<rparr>" by (simp add: toy_defs)
  have calls: "(call toyDriver toyMoves toyTxCtx toyServer)\<^sup>*\<^sup>* toyStart ?s1"
    using toy_write_call by (rule r_into_rtranclp)
  have "fst ?a \<noteq> None" by code_simp
  then obtain e where "?a = (Some e, snd ?a)" by (metis option.exhaust prod.collapse)
  moreover have "\<not> toyMoves (atomicTxBatch [''A'', ''B''])" by code_simp
  ultimately have fails: "serverExecAtomic toyDriver toyTxCtx toyServer [''A'', ''B''] [] ?s1 = (Some e, snd ?a) \<and>
      \<not> toyMoves (atomicTxBatch [''A'', ''B'']) \<or>
      databaseExecAtomic toyDriver toyTxCtx toyShop [''A'', ''B''] ?s1 = (Some e, snd ?a) \<and>
      \<not> toyMoves (atomicTxBatch [''A'', ''B''])" by blast
  have plain: "\<not> cScript toyCtx" "cTx toyCtx = None" "dServer toyShop = toyServer" by (simp_all add: toy_defs)
  have run: "?r = (fst ?r, snd ?r)" by simp
  have start: "snd (snd (sWorld toyStart)) = []" by (simp add: toy_defs)
  have fn: "toyTolerant toyTxCtx toyStart = (None, snd ?a)" by (simp add: toyTolerant_def)
  from failed_atomic_write_is_never_committed [OF toy_durable plain(1,2) toy_begun c plain(3) calls fails
      rtranclp.rtrancl_refl fn run]
  show ?thesis using start by auto
qed

section \<open>A statement that moves the session behind the tracking\<close>



end
