(* ===== verification/Heap.thy ===== *)
theory Heap
  imports Prelude "HOL-Library.Multiset"
begin

text \<open>
  The priority queue of the dependency order (\<open>container/heap\<close> over a slice, as
  \<open>orderHeap\<close> of \<open>scripter_database_objects_order.go\<close> uses it): the binary heap is kept in
  an array, the children of index \<open>i\<close> at \<open>2i + 1\<close> and \<open>2i + 2\<close>.  \<open>lt\<close> is the method \<open>Less\<close>.
  The lemmas give the contract of a priority queue, stated as the locale \<open>pqueue\<close>: the elements
  are kept, and what \<open>Pop\<close> returns is an element no other is less than.
\<close>

section \<open>The operations\<close>

definition heapSwap :: "nat \<Rightarrow> nat \<Rightarrow> 'a list \<Rightarrow> 'a list" where
  "heapSwap i j h = h[i := h ! j, j := h ! i]"

text \<open>The parent of an index; Go's \<open>(j - 1) / 2\<close> is 0 at 0.\<close>

definition parent :: "nat \<Rightarrow> nat" where
  "parent j = (j - 1) div 2"

function heapUp :: "('a \<Rightarrow> 'a \<Rightarrow> bool) \<Rightarrow> nat \<Rightarrow> 'a list \<Rightarrow> 'a list" where
  "heapUp lt j h =
     (if parent j = j \<or> \<not> lt (h ! j) (h ! parent j) then h else heapUp lt (parent j) (heapSwap (parent j) j h))"
  by pat_completeness auto
termination
  by (relation "measure (\<lambda>(lt, j, h). j)") (auto simp: parent_def)

definition lesserChild :: "('a \<Rightarrow> 'a \<Rightarrow> bool) \<Rightarrow> nat \<Rightarrow> nat \<Rightarrow> 'a list \<Rightarrow> nat" where
  "lesserChild lt i n h =
     (if 2 * i + 2 < n \<and> lt (h ! (2 * i + 2)) (h ! (2 * i + 1)) then 2 * i + 2 else 2 * i + 1)"

function heapDown :: "('a \<Rightarrow> 'a \<Rightarrow> bool) \<Rightarrow> nat \<Rightarrow> nat \<Rightarrow> 'a list \<Rightarrow> 'a list" where
  "heapDown lt i n h =
     (if n \<le> 2 * i + 1 then h
      else let j = lesserChild lt i n h
           in if \<not> lt (h ! j) (h ! i) then h else heapDown lt j n (heapSwap i j h))"
  by pat_completeness auto
termination
  by (relation "measure (\<lambda>(lt, i, n, h). n - i)") (auto simp: lesserChild_def split: if_splits)

declare heapUp.simps [simp del] heapDown.simps [simp del]

text \<open>\<open>Init\<close> runs \<open>down\<close> at every index that has a child, the last one first.\<close>

fun heapInitFrom :: "('a \<Rightarrow> 'a \<Rightarrow> bool) \<Rightarrow> nat \<Rightarrow> 'a list \<Rightarrow> 'a list" where
  "heapInitFrom lt 0 h = h"
| "heapInitFrom lt (Suc i) h = heapInitFrom lt i (heapDown lt i (length h) h)"

definition heapInit :: "('a \<Rightarrow> 'a \<Rightarrow> bool) \<Rightarrow> 'a list \<Rightarrow> 'a list" where
  "heapInit lt h = heapInitFrom lt (length h div 2) h"

definition heapPush :: "('a \<Rightarrow> 'a \<Rightarrow> bool) \<Rightarrow> 'a \<Rightarrow> 'a list \<Rightarrow> 'a list" where
  "heapPush lt x h = heapUp lt (length h) (h @ [x])"

definition heapPop :: "('a \<Rightarrow> 'a \<Rightarrow> bool) \<Rightarrow> 'a list \<Rightarrow> 'a \<times> 'a list" where
  "heapPop lt h =
     (let n = length h - 1; h1 = heapDown lt 0 n (heapSwap 0 n h)
      in (last h1, butlast h1))"

section \<open>The contract\<close>

text \<open>A strict order whose incomparable elements are alike.\<close>

locale weak_order =
  fixes lt :: "'a \<Rightarrow> 'a \<Rightarrow> bool"
  assumes asym: "lt a b \<Longrightarrow> \<not> lt b a"
    and le_trans: "\<not> lt b a \<Longrightarrow> \<not> lt c b \<Longrightarrow> \<not> lt c a"

text \<open>A priority queue over that order.\<close>

locale pqueue = weak_order lt for lt :: "'a \<Rightarrow> 'a \<Rightarrow> bool" +
  fixes invar :: "'q \<Rightarrow> bool" and elems :: "'q \<Rightarrow> 'a multiset"
    and of_list :: "'a list \<Rightarrow> 'q" and push :: "'a \<Rightarrow> 'q \<Rightarrow> 'q" and pop :: "'q \<Rightarrow> 'a \<times> 'q"
  assumes of_list: "invar (of_list xs)" "elems (of_list xs) = mset xs"
    and push: "invar q \<Longrightarrow> invar (push x q)" "invar q \<Longrightarrow> elems (push x q) = add_mset x (elems q)"
    and pop: "invar q \<Longrightarrow> elems q \<noteq> {#} \<Longrightarrow> pop q = (x, r) \<Longrightarrow>
      invar r \<and> elems q = add_mset x (elems r) \<and> (\<forall>y \<in># elems r. \<not> lt y x)"
begin

lemma pop_least: "invar q \<Longrightarrow> elems q \<noteq> {#} \<Longrightarrow> pop q = (x, r) \<Longrightarrow> y \<in># elems q \<Longrightarrow> \<not> lt y x"
  using pop [of q x r] asym [of x x] by auto

lemma pop_push_empty:
  assumes "invar q" "elems q = {#}" "pop (push x q) = (y, r)"
  shows "y = x \<and> elems r = {#}"
  using pop [OF push(1) [OF assms(1)], of x y r] push(2) [OF assms(1), of x] assms by simp

end

section \<open>The heap in an array\<close>

text \<open>No element is less than its parent, for the parents from \<open>s\<close> on and within \<open>n\<close>.\<close>

definition heapFrom :: "('a \<Rightarrow> 'a \<Rightarrow> bool) \<Rightarrow> nat \<Rightarrow> nat \<Rightarrow> 'a list \<Rightarrow> bool" where
  "heapFrom lt s n h \<longleftrightarrow> (\<forall>j < n. 0 < j \<and> s \<le> parent j \<longrightarrow> \<not> lt (h ! j) (h ! parent j))"

abbreviation isHeap :: "('a \<Rightarrow> 'a \<Rightarrow> bool) \<Rightarrow> 'a list \<Rightarrow> bool" where
  "isHeap lt h \<equiv> heapFrom lt 0 (length h) h"

text \<open>The same with one element out of place, that \<open>heapDown\<close> or \<open>heapUp\<close> moves.\<close>

definition downInv :: "('a \<Rightarrow> 'a \<Rightarrow> bool) \<Rightarrow> nat \<Rightarrow> nat \<Rightarrow> nat \<Rightarrow> 'a list \<Rightarrow> bool" where
  "downInv lt s i n h \<longleftrightarrow>
     (\<forall>j < n. 0 < j \<and> s \<le> parent j \<and> parent j \<noteq> i \<longrightarrow> \<not> lt (h ! j) (h ! parent j)) \<and>
     (\<forall>j < n. 0 < j \<and> parent j = i \<and> 0 < i \<and> s \<le> parent i \<longrightarrow> \<not> lt (h ! j) (h ! parent i))"

definition upInv :: "('a \<Rightarrow> 'a \<Rightarrow> bool) \<Rightarrow> nat \<Rightarrow> 'a list \<Rightarrow> bool" where
  "upInv lt i h \<longleftrightarrow>
     (\<forall>j < length h. 0 < j \<and> j \<noteq> i \<longrightarrow> \<not> lt (h ! j) (h ! parent j)) \<and>
     (\<forall>j < length h. 0 < j \<and> parent j = i \<and> 0 < i \<longrightarrow> \<not> lt (h ! j) (h ! parent i))"

lemma heapSwap_facts [simp]:
  "length (heapSwap i j h) = length h"
  "i < length h \<Longrightarrow> j < length h \<Longrightarrow> mset (heapSwap i j h) = mset h"
  by (auto simp: heapSwap_def mset_swap)

lemma heapSwap_nth:
  "i < length h \<Longrightarrow> j < length h \<Longrightarrow> heapSwap i j h ! k = (if k = i then h ! j else if k = j then h ! i else h ! k)"
  by (auto simp: heapSwap_def nth_list_update)

lemma parent_child: "0 < j \<Longrightarrow> parent j = i \<longleftrightarrow> j = 2 * i + 1 \<or> j = 2 * i + 2"
  by (auto simp: parent_def)

lemma parent_less: "0 < j \<Longrightarrow> parent j < j"
  by (simp add: parent_def)

lemma lesserChild_facts:
  "\<not> n \<le> 2 * i + 1 \<Longrightarrow> lesserChild lt i n h < n" "parent (lesserChild lt i n h) = i" "i < lesserChild lt i n h"
  by (auto simp: lesserChild_def parent_def)

lemma heapDown_keeps:
  "n \<le> length h \<Longrightarrow> length (heapDown lt i n h) = length h \<and> mset (heapDown lt i n h) = mset h \<and>
     (\<forall>k \<ge> n. heapDown lt i n h ! k = h ! k)"
proof (induction lt i n h rule: heapDown.induct)
  case (1 lt i n h)
  have j: "\<not> n \<le> 2 * i + 1 \<Longrightarrow> lesserChild lt i n h < n" by (rule lesserChild_facts(1))
  show ?case
    using 1 j by (subst (1 2 3) heapDown.simps) (auto simp: Let_def heapSwap_nth)
qed

lemma heapUp_keeps:
  "j < length h \<Longrightarrow> length (heapUp lt j h) = length h \<and> mset (heapUp lt j h) = mset h"
proof (induction lt j h rule: heapUp.induct)
  case (1 lt j h)
  have "parent j < length h" using 1(2) by (simp add: parent_def)
  then show ?case using 1 by (subst (1 2) heapUp.simps) auto
qed

context weak_order
begin

lemma irrefl: "\<not> lt a a"
  using asym by blast

text \<open>The lesser child is less than no other child.\<close>

lemma lesserChild_least:
  "j < n \<Longrightarrow> 0 < j \<Longrightarrow> parent j = i \<Longrightarrow> \<not> lt (h ! j) (h ! lesserChild lt i n h)"
  unfolding parent_child by (auto simp: lesserChild_def irrefl dest: asym)

lemma downInv_step:
  assumes "downInv lt s i n h" "n \<le> length h" "s \<le> i" "\<not> n \<le> 2 * i + 1"
    and "lt (h ! lesserChild lt i n h) (h ! i)"
  shows "downInv lt s (lesserChild lt i n h) n (heapSwap i (lesserChild lt i n h) h)"
proof -
  define c where "c = lesserChild lt i n h"
  have c: "c < n" "parent c = i" "i < c" "lt (h ! c) (h ! i)"
    using lesserChild_facts(1) [OF assms(4), of lt h] lesserChild_facts(2) [of lt i n h] lesserChild_facts(3) [of i lt n h] assms(5) by (simp_all add: c_def)
  have up: "\<forall>j < n. 0 < j \<and> s \<le> parent j \<and> parent j \<noteq> i \<longrightarrow> \<not> lt (h ! j) (h ! parent j)"
    "\<forall>j < n. 0 < j \<and> parent j = i \<and> 0 < i \<and> s \<le> parent i \<longrightarrow> \<not> lt (h ! j) (h ! parent i)"
    using assms(1) unfolding downInv_def by blast+
  have sw: "heapSwap i c h ! k = (if k = i then h ! c else if k = c then h ! i else h ! k)" for k
    using c assms(2) by (intro heapSwap_nth) simp_all
  have "\<not> lt (heapSwap i c h ! j) (heapSwap i c h ! parent j)"
    if j: "j < n" "0 < j" "s \<le> parent j" "parent j \<noteq> c" for j
  proof (cases "parent j = i")
    case True
    then have "j \<noteq> i" using parent_less [OF j(2)] by linarith
    show ?thesis
    proof (cases "j = c")
      case True
      then show ?thesis unfolding sw using c asym \<open>parent j = i\<close> by simp
    next
      case False
      have "\<not> lt (h ! j) (h ! c)" unfolding c_def by (rule lesserChild_least [OF j(1,2) True])
      then show ?thesis unfolding sw using True False \<open>j \<noteq> i\<close> by simp
    qed
  next
    case False
    moreover have "\<not> lt (h ! c) (h ! parent j)" if "j = i" using up(2) c j that by simp
    ultimately show ?thesis unfolding sw using up(1) j c(2) by auto
  qed
  moreover have "\<not> lt (heapSwap i c h ! j) (heapSwap i c h ! parent c)"
    if j: "j < n" "0 < j" "parent j = c" for j
    using up(1) j c(2,3) assms(3) parent_less [OF j(2)] unfolding sw by auto
  ultimately show ?thesis unfolding downInv_def c_def [symmetric] by blast
qed

lemma heapDown_heap:
  "downInv lt s i n h \<Longrightarrow> n \<le> length h \<Longrightarrow> s \<le> i \<Longrightarrow> heapFrom lt s n (heapDown lt i n h)"
proof (induction "n - i" arbitrary: i h rule: less_induct)
  case less
  let ?c = "lesserChild lt i n h"
  have stop: "heapFrom lt s n h" if "\<And>j. j < n \<Longrightarrow> 0 < j \<Longrightarrow> parent j = i \<Longrightarrow> \<not> lt (h ! j) (h ! i)"
    unfolding heapFrom_def
  proof (intro allI impI)
    fix j assume "j < n" "0 < j \<and> s \<le> parent j"
    then show "\<not> lt (h ! j) (h ! parent j)" using that less(2) unfolding downInv_def by (cases "parent j = i") auto
  qed
  show ?case
  proof (cases "n \<le> 2 * i + 1")
    case True
    then have "heapFrom lt s n h" by (intro stop) (auto simp: parent_child)
    then show ?thesis using True by (subst heapDown.simps) simp
  next
    case False
    note c = lesserChild_facts(1) [OF False, of lt h] lesserChild_facts(2) [of lt i n h] lesserChild_facts(3) [of i lt n h]
    show ?thesis
    proof (cases "lt (h ! ?c) (h ! i)")
      case True
      have "heapFrom lt s n (heapDown lt ?c n (heapSwap i ?c h))"
        using c less(4) by (intro less(1) [OF _ downInv_step [OF less(2-4) False True]]) (use less(3) in simp_all)
      then show ?thesis using False True by (subst heapDown.simps) (simp add: Let_def)
    next
      case no: False
      have "\<not> lt (h ! j) (h ! i)" if "j < n" "0 < j" "parent j = i" for j
        by (rule le_trans [OF no lesserChild_least [OF that]])
      then have "heapFrom lt s n h" by (rule stop)
      then show ?thesis using False no by (subst heapDown.simps) (simp add: Let_def)
    qed
  qed
qed

lemma heapInitFrom_heap:
  "heapFrom lt i (length h) h \<Longrightarrow> isHeap lt (heapInitFrom lt i h) \<and> mset (heapInitFrom lt i h) = mset h"
proof (induction i arbitrary: h)
  case (Suc i)
  have "downInv lt i i (length h) h"
    using Suc.prems parent_less unfolding downInv_def heapFrom_def by (metis le_less_trans less_irrefl nat_less_le not_less_eq_eq)
  then have "heapFrom lt i (length h) (heapDown lt i (length h) h)" by (rule heapDown_heap) simp_all
  then show ?case using Suc.IH [of "heapDown lt i (length h) h"] heapDown_keeps [of "length h" h lt i] by simp
qed simp

lemma heapInit_heap: "isHeap lt (heapInit lt h)" "mset (heapInit lt h) = mset h"
proof -
  have "heapFrom lt (length h div 2) (length h) h" by (auto simp: heapFrom_def parent_def)
  then show "isHeap lt (heapInit lt h)" "mset (heapInit lt h) = mset h"
    unfolding heapInit_def using heapInitFrom_heap by blast+
qed

lemma heapUp_heap:
  "upInv lt i h \<Longrightarrow> i < length h \<Longrightarrow> isHeap lt (heapUp lt i h)"
proof (induction i arbitrary: h rule: less_induct)
  case (less i)
  let ?p = "parent i"
  have up: "\<forall>j < length h. 0 < j \<and> j \<noteq> i \<longrightarrow> \<not> lt (h ! j) (h ! parent j)"
    "\<forall>j < length h. 0 < j \<and> parent j = i \<and> 0 < i \<longrightarrow> \<not> lt (h ! j) (h ! parent i)"
    using less(2) unfolding upInv_def by blast+
  show ?case
  proof (cases "?p = i \<or> \<not> lt (h ! i) (h ! ?p)")
    case True
    have "i = 0" if "?p = i" using that parent_less [of i] by (cases i) auto
    then have "isHeap lt h" using up(1) True unfolding heapFrom_def by (metis less_irrefl)
    then show ?thesis using True by (subst (1 2) heapUp.simps) simp
  next
    case False
    then have i: "0 < i" "?p < i" "lt (h ! i) (h ! ?p)" using parent_less [of i] by (auto simp: parent_def)
    have sw: "heapSwap ?p i h ! k = (if k = ?p then h ! i else if k = i then h ! ?p else h ! k)" for k
      using i less(3) by (intro heapSwap_nth) simp_all
    have "\<not> lt (heapSwap ?p i h ! j) (heapSwap ?p i h ! parent j)" if j: "j < length h" "0 < j" "j \<noteq> ?p" for j
    proof (cases "j = i")
      case True
      then show ?thesis unfolding sw using i asym by simp
    next
      case jn: False
      show ?thesis
      proof (cases "parent j = ?p")
        case True
        then show ?thesis unfolding sw using jn j i asym up(1) le_trans [of "h ! ?p" "h ! i" "h ! j"] by auto
      next
        case False
        then show ?thesis unfolding sw using up jn j i by auto
      qed
    qed
    moreover have "\<not> lt (heapSwap ?p i h ! j) (heapSwap ?p i h ! parent ?p)"
      if j: "j < length h" "0 < j" "parent j = ?p" "0 < ?p" for j
    proof -
      have p: "\<not> lt (h ! ?p) (h ! parent ?p)" using up(1) j(4) i less(3) by auto
      have pp: "parent ?p < ?p" by (rule parent_less [OF j(4)])
      show ?thesis
      proof (cases "j = i")
        case True
        then show ?thesis unfolding sw using p pp i by simp
      next
        case False
        then have "\<not> lt (h ! j) (h ! ?p)" using up(1) j by auto
        then show ?thesis unfolding sw using False pp i parent_less [OF j(2)] j(3) le_trans [OF p] by auto
      qed
    qed
    ultimately have "upInv lt ?p (heapSwap ?p i h)" unfolding upInv_def by simp
    then have "isHeap lt (heapUp lt ?p (heapSwap ?p i h))" using less(1) i less(3) by simp
    then show ?thesis using False by (subst (1 2) heapUp.simps) simp
  qed
qed

lemma heapPush_heap: "isHeap lt h \<Longrightarrow> isHeap lt (heapPush lt x h)" "mset (heapPush lt x h) = add_mset x (mset h)"
proof -
  assume h: "isHeap lt h"
  have "upInv lt (length h) (h @ [x])"
    using h parent_less unfolding upInv_def heapFrom_def
    by (auto simp: nth_append parent_child) (metis less_SucE less_trans)+
  then show "isHeap lt (heapPush lt x h)" unfolding heapPush_def by (rule heapUp_heap) simp
next
  show "mset (heapPush lt x h) = add_mset x (mset h)"
    using heapUp_keeps [of "length h" "h @ [x]" lt] by (simp add: heapPush_def)
qed

text \<open>The root is the least.\<close>

lemma heap_root: "isHeap lt h \<Longrightarrow> j < length h \<Longrightarrow> \<not> lt (h ! j) (h ! 0)"
proof (induction j rule: less_induct)
  case (less j)
  show ?case
  proof (cases "j = 0")
    case False
    then have p: "parent j < j" using parent_less by simp
    have "\<not> lt (h ! j) (h ! parent j)" using less(2,3) False by (simp add: heapFrom_def)
    then show ?thesis using le_trans less p by fastforce
  qed (simp add: irrefl)
qed

lemma heapPop_heap:
  assumes "isHeap lt h" "h \<noteq> []" "heapPop lt h = (x, r)"
  shows "isHeap lt r" "mset h = add_mset x (mset r)" "\<forall>y \<in> set r. \<not> lt y x"
proof -
  define n where "n = length h - 1"
  define h1 where "h1 = heapSwap 0 n h"
  define h2 where "h2 = heapDown lt 0 n h1"
  have n: "n < length h" "length h = Suc n" "0 < length h" using assms(2) by (simp_all add: n_def)
  have h1: "length h1 = Suc n" "mset h1 = mset h" using n by (simp_all add: h1_def)
  have "downInv lt 0 0 n h1"
    using assms(1) n parent_less unfolding downInv_def h1_def heapFrom_def
    by (auto simp: heapSwap_nth dest: less_trans)
  then have h2: "heapFrom lt 0 n h2" unfolding h2_def by (rule heapDown_heap) (simp_all add: h1)
  have keep: "length h2 = Suc n" "mset h2 = mset h" "h2 ! n = h1 ! n"
    using heapDown_keeps [of n h1 lt 0] h1 unfolding h2_def by simp_all
  have "h1 ! n = h ! 0" unfolding h1_def using n by (simp add: heapSwap_nth)
  then have last: "last h2 = h ! 0" using keep by (metis diff_Suc_1 last_conv_nth length_0_conv nat.distinct(1))
  have xr: "x = last h2" "r = butlast h2" using assms(3) by (simp_all add: heapPop_def Let_def n_def h1_def h2_def)
  have snoc: "h2 = r @ [x]" "length r = n" using keep(1) unfolding xr by (metis append_butlast_last_id length_0_conv nat.distinct(1), simp)
  show "isHeap lt r" unfolding heapFrom_def
  proof (intro allI impI)
    fix j assume "j < length r" "0 < j \<and> 0 \<le> parent j"
    then have "j < n" "0 < j" "parent j < n" using snoc parent_less [of j] by auto
    moreover have "h2 ! k = r ! k" if "k < n" for k using snoc that by (simp add: nth_append)
    ultimately show "\<not> lt (r ! j) (r ! parent j)" using h2 unfolding heapFrom_def by (metis le0)
  qed
  show m: "mset h = add_mset x (mset r)" using keep(2) snoc by simp
  show "\<forall>y \<in> set r. \<not> lt y x"
  proof
    fix y assume "y \<in> set r"
    then have "y \<in># mset h" unfolding m by simp
    then obtain j where "j < length h" "h ! j = y" by (auto simp: in_set_conv_nth)
    then show "\<not> lt y x" using heap_root [OF assms(1)] last xr by auto
  qed
qed

end

text \<open>The array heap keeps the contract, for every order.\<close>

locale array_heap = weak_order lt for lt :: "'a \<Rightarrow> 'a \<Rightarrow> bool"

sublocale array_heap \<subseteq> pqueue lt "isHeap lt" mset "heapInit lt" "heapPush lt" "heapPop lt"
  using heapInit_heap heapPush_heap heapPop_heap by unfold_locales auto

end
