(* ===== verification/ObjectOrder.thy ===== *)
theory ObjectOrder
  imports Heap Quote GoStrings "HOL-Library.Char_ord" "HOL-Library.List_Lexorder" "HOL-Library.Product_Lexorder"
begin

text \<open>
  The order of a whole-database script (\<open>scripter_database_objects_order.go\<close>): every object
  follows what it references.  It is Kahn's algorithm with a priority queue; a cycle of
  references that are not schema-bound is broken, with a warning, at its least object.
  The lemmas show that every bound reference is respected and every other one respected or
  reported, that an order is found whenever one exists, and that it is the least at each place.
\<close>

section \<open>Nodes and edges\<close>

record orderNode =
  nKey :: string
  nRank :: int
  nSchema :: string
  nName :: string

record orderEdge =
  eFrom :: string
  eTo :: string
  eBound :: bool

definition orderLess :: "orderNode \<Rightarrow> orderNode \<Rightarrow> bool" where
  "orderLess a b =
     (if nRank a \<noteq> nRank b then nRank a < nRank b
      else if nSchema a \<noteq> nSchema b then nSchema a < nSchema b
      else nName a < nName b)"

definition display :: "orderNode \<Rightarrow> string" where
  "display n = (if nSchema n = [] then QuoteName (nName n) else QualifiedName (nSchema n) (nName n))"

text \<open>The order is that of the triples; the heap of nodes is a priority queue.\<close>

definition sortKey :: "orderNode \<Rightarrow> int \<times> string \<times> string" where
  "sortKey n = (nRank n, nSchema n, nName n)"

lemma orderLess_key: "orderLess a b \<longleftrightarrow> sortKey a < sortKey b"
  by (auto simp: orderLess_def sortKey_def less_prod_def)

interpretation nodes: array_heap orderLess
  by unfold_locales (auto simp: orderLess_key)

section \<open>The state of the algorithm\<close>

text \<open>
  A Go map of maps is a function to association lists, a missing entry of the outer map the
  empty one.  \<open>stReady\<close> is the heap.
\<close>

record orderState =
  stWaiting :: "string \<Rightarrow> (string \<times> bool) list"
  stQueued :: "string list"
  stReady :: "orderNode list"
  stOut :: "orderNode list"
  stWarnings :: "string list"

fun addDep :: "string \<Rightarrow> bool \<Rightarrow> (string \<times> bool) list \<Rightarrow> (string \<times> bool) list" where
  "addDep t b [] = [(t, b)]"
| "addDep t b ((u, c) # ds) = (if u = t then (u, c \<or> b) # ds else (u, c) # addDep t b ds)"

definition keyNode :: "orderNode list \<Rightarrow> string \<Rightarrow> orderNode option" where
  "keyNode nodes = map_of (map (\<lambda>n. (nKey n, n)) nodes)"

text \<open>The first loop: the first key met twice.\<close>

fun firstDup :: "string list \<Rightarrow> orderNode list \<Rightarrow> string option" where
  "firstDup seen [] = None"
| "firstDup seen (n # ns) = (if nKey n \<in> set seen then Some (nKey n) else firstDup (nKey n # seen) ns)"

text \<open>The second loop, over the edges.\<close>

definition usableEdge :: "orderNode list \<Rightarrow> orderEdge \<Rightarrow> bool" where
  "usableEdge nodes e \<longleftrightarrow> eFrom e \<noteq> eTo e \<and> keyNode nodes (eFrom e) \<noteq> None \<and> keyNode nodes (eTo e) \<noteq> None"

fun graphLoop :: "orderNode list \<Rightarrow> (string \<Rightarrow> (string \<times> bool) list) \<Rightarrow> (string \<Rightarrow> string list) \<Rightarrow> orderEdge list \<Rightarrow>
    (string \<Rightarrow> (string \<times> bool) list) \<times> (string \<Rightarrow> string list)" where
  "graphLoop nodes w d [] = (w, d)"
| "graphLoop nodes w d (e # es) =
     (if \<not> usableEdge nodes e then graphLoop nodes w d es
      else let d' = (if eTo e \<in> set (map fst (w (eFrom e))) then d else d(eTo e := d (eTo e) @ [eFrom e]))
           in graphLoop nodes (w(eFrom e := addDep (eTo e) (eBound e) (w (eFrom e)))) d' es)"

text \<open>The nodes that wait for nothing.\<close>

definition orderStart :: "orderNode list \<Rightarrow> (string \<Rightarrow> (string \<times> bool) list) \<Rightarrow> orderState" where
  "orderStart nodes w =
     (let rs = filter (\<lambda>n. w (nKey n) = []) nodes
      in \<lparr> stWaiting = w, stQueued = map nKey rs, stReady = heapInit orderLess rs, stOut = [], stWarnings = [] \<rparr>)"

section \<open>A step of the algorithm\<close>

text \<open>The pick that breaks a cycle: the least of the nodes left that no bound reference holds.\<close>

fun pickLoop :: "orderState \<Rightarrow> orderNode option \<Rightarrow> orderNode list \<Rightarrow> orderNode option" where
  "pickLoop st pick [] = pick"
| "pickLoop st pick (n # ns) =
     (if nKey n \<in> set (stQueued st) then pickLoop st pick ns
      else let unbound = (\<not> list_ex snd (stWaiting st (nKey n)))
           in if unbound \<and> (case pick of None \<Rightarrow> True | Some p \<Rightarrow> orderLess n p)
              then pickLoop st (Some n) ns else pickLoop st pick ns)"

definition cycleError :: "orderNode list \<Rightarrow> orderState \<Rightarrow> goerr" where
  "cycleError nodes st =
     (let left = sort (filter (\<lambda>k. k \<notin> set (stQueued st)) (map nKey nodes))
      in errorf ''gosmo: script database objects: a cycle of schema-bound references among %s''
           [AText (str_join '', '' left)])"

definition brokenText :: "orderNode \<Rightarrow> string \<Rightarrow> string" where
  "brokenText n b = ''dependency cycle broken: '' @ display n @ '' -> '' @ b"

text \<open>\<open>byKey[dep]\<close>: only keys of nodes are in \<open>waiting\<close>, the others have Go's zero value.\<close>

definition nodeAt :: "orderNode list \<Rightarrow> string \<Rightarrow> orderNode" where
  "nodeAt nodes k =
     (case keyNode nodes k of Some n \<Rightarrow> n | None \<Rightarrow> \<lparr> nKey = [], nRank = 0, nSchema = [], nName = [] \<rparr>)"

definition breakCycle :: "orderNode list \<Rightarrow> orderState \<Rightarrow> orderState res" where
  "breakCycle nodes st =
     (case pickLoop st None nodes of
        None \<Rightarrow> Inl (cycleError nodes st)
      | Some p \<Rightarrow>
          let broken = sort (map (\<lambda>dep. display (nodeAt nodes (fst dep))) (stWaiting st (nKey p)))
          in Inr (st \<lparr> stWarnings := stWarnings st @ map (brokenText p) broken,
                       stWaiting := (stWaiting st)(nKey p := []),
                       stQueued := nKey p # stQueued st,
                       stReady := heapPush orderLess p (stReady st) \<rparr>))"

text \<open>The loop over the dependents of the node put out.\<close>

fun releaseLoop :: "orderNode list \<Rightarrow> string \<Rightarrow> string list \<Rightarrow> orderState \<Rightarrow> orderState" where
  "releaseLoop nodes k [] st = st"
| "releaseLoop nodes k (d # ds) st =
     (if k \<notin> set (map fst (stWaiting st d)) then releaseLoop nodes k ds st
      else let rest = filter (\<lambda>dep. fst dep \<noteq> k) (stWaiting st d);
               st1 = st \<lparr> stWaiting := (stWaiting st)(d := rest) \<rparr>
           in if rest = [] \<and> d \<notin> set (stQueued st1)
              then releaseLoop nodes k ds
                (st1 \<lparr> stQueued := d # stQueued st1, stReady := heapPush orderLess (nodeAt nodes d) (stReady st1) \<rparr>)
              else releaseLoop nodes k ds st1)"

definition orderStep :: "orderNode list \<Rightarrow> (string \<Rightarrow> string list) \<Rightarrow> orderState \<Rightarrow> orderState res" where
  "orderStep nodes dependents st =
     res_bind (if stReady st = [] then breakCycle nodes st else Inr st) (\<lambda>st1.
       case heapPop orderLess (stReady st1) of
         (n, rest) \<Rightarrow>
           Inr (releaseLoop nodes (nKey n) (dependents (nKey n))
             (st1 \<lparr> stReady := rest, stOut := stOut st1 @ [n] \<rparr>)))"

lemma releaseLoop_out [simp]: "stOut (releaseLoop nodes k ds st) = stOut st"
  by (induction nodes k ds st rule: releaseLoop.induct) (simp_all add: Let_def)

lemma orderStep_out: "orderStep nodes dependents st = Inr st' \<Longrightarrow> length (stOut st') = Suc (length (stOut st))"
  by (auto simp: orderStep_def res_simps breakCycle_def Let_def split: if_splits option.splits prod.splits)

function orderLoop :: "orderNode list \<Rightarrow> (string \<Rightarrow> string list) \<Rightarrow> orderState \<Rightarrow> (orderNode list \<times> string list) res" where
  "orderLoop nodes dependents st =
     (if length (stOut st) < length nodes then
        (case orderStep nodes dependents st of
           Inl e \<Rightarrow> Inl e
         | Inr st' \<Rightarrow> orderLoop nodes dependents st')
      else Inr (stOut st, stWarnings st))"
  by pat_completeness auto
termination
  by (relation "measure (\<lambda>(nodes, d, st). length nodes - length (stOut st))") (auto dest: orderStep_out)

declare orderLoop.simps [simp del]

definition orderObjects :: "orderNode list \<Rightarrow> orderEdge list \<Rightarrow> (orderNode list \<times> string list) res" where
  "orderObjects nodes edges =
     (case firstDup [] nodes of
        Some k \<Rightarrow> Inl (errorf ''gosmo: script database objects: duplicate object key %q'' [AText k])
      | None \<Rightarrow>
          (case graphLoop nodes (\<lambda>_. []) (\<lambda>_. []) edges of
             (waiting, dependents) \<Rightarrow> orderLoop nodes dependents (orderStart nodes waiting)))"

section \<open>The graph\<close>

text \<open>The references between nodes that the edges state, and the bound ones among them.\<close>

definition refs :: "orderNode list \<Rightarrow> orderEdge list \<Rightarrow> string \<Rightarrow> string \<Rightarrow> bool" where
  "refs nodes edges f t \<longleftrightarrow> (\<exists>e \<in> set edges. usableEdge nodes e \<and> eFrom e = f \<and> eTo e = t)"

definition boundRefs :: "orderNode list \<Rightarrow> orderEdge list \<Rightarrow> string \<Rightarrow> string \<Rightarrow> bool" where
  "boundRefs nodes edges f t \<longleftrightarrow> (\<exists>e \<in> set edges. usableEdge nodes e \<and> eFrom e = f \<and> eTo e = t \<and> eBound e)"

definition refRel :: "orderNode list \<Rightarrow> orderEdge list \<Rightarrow> (string \<times> string) set" where
  "refRel nodes edges = {(f, t). refs nodes edges f t}"

definition boundRel :: "orderNode list \<Rightarrow> orderEdge list \<Rightarrow> (string \<times> string) set" where
  "boundRel nodes edges = {(f, t). boundRefs nodes edges f t}"

abbreviation keys :: "orderNode list \<Rightarrow> string set" where
  "keys ns \<equiv> set (map nKey ns)"

lemma keyNode_some: "keyNode nodes k \<noteq> None \<longleftrightarrow> k \<in> keys nodes"
proof -
  have "map fst (map (\<lambda>n. (nKey n, n)) nodes) = map nKey nodes" by simp
  then show ?thesis unfolding keyNode_def map_of_eq_None_iff by (metis set_map)
qed

lemma nodeAt_key: "distinct (map nKey nodes) \<Longrightarrow> n \<in> set nodes \<Longrightarrow> nodeAt nodes (nKey n) = n"
proof -
  assume "distinct (map nKey nodes)" "n \<in> set nodes"
  then have "keyNode nodes (nKey n) = Some n"
    unfolding keyNode_def by (intro map_of_is_SomeI) (auto simp: comp_def)
  then show ?thesis by (simp add: nodeAt_def)
qed

lemma refs_facts:
  "refs nodes edges f t \<Longrightarrow> f \<in> keys nodes \<and> t \<in> keys nodes \<and> f \<noteq> t"
  "boundRefs nodes edges f t \<Longrightarrow> refs nodes edges f t"
  unfolding refs_def boundRefs_def usableEdge_def keyNode_some by auto

lemma rel_finite: "finite (refRel nodes edges)" "finite (boundRel nodes edges)" "boundRel nodes edges \<subseteq> refRel nodes edges"
proof -
  show sub: "boundRel nodes edges \<subseteq> refRel nodes edges" using refs_facts(2) by (auto simp: refRel_def boundRel_def)
  have "refRel nodes edges \<subseteq> keys nodes \<times> keys nodes" using refs_facts(1) unfolding refRel_def by blast
  then show "finite (refRel nodes edges)" by (rule finite_subset) simp
  then show "finite (boundRel nodes edges)" using sub by (rule rev_finite_subset)
qed

lemma firstDup_None: "firstDup seen ns = None \<longleftrightarrow> distinct (map nKey ns) \<and> keys ns \<inter> set seen = {}"
  by (induction seen ns rule: firstDup.induct) auto

definition graphInv :: "orderNode list \<Rightarrow> orderEdge list \<Rightarrow> (string \<Rightarrow> (string \<times> bool) list) \<Rightarrow> (string \<Rightarrow> string list) \<Rightarrow> bool" where
  "graphInv nodes es w d \<longleftrightarrow>
     (\<forall>f. distinct (map fst (w f))) \<and>
     (\<forall>f t. map_of (w f) t = (if refs nodes es f t then Some (boundRefs nodes es f t) else None)) \<and>
     (\<forall>t. distinct (d t) \<and> set (d t) = {f. refs nodes es f t})"

lemma addDep_facts:
  "set (map fst (addDep t b ds)) = insert t (set (map fst ds))"
  "distinct (map fst ds) \<Longrightarrow> distinct (map fst (addDep t b ds))"
  "map_of (addDep t b ds) = (map_of ds)(t \<mapsto> (case map_of ds t of Some c \<Rightarrow> c \<or> b | None \<Rightarrow> b))"
  by (induction t b ds rule: addDep.induct) (auto simp: fun_eq_iff)

lemma refs_snoc:
  "refs nodes (es @ [e]) f t \<longleftrightarrow> refs nodes es f t \<or> (usableEdge nodes e \<and> eFrom e = f \<and> eTo e = t)"
  "boundRefs nodes (es @ [e]) f t \<longleftrightarrow> boundRefs nodes es f t \<or> (usableEdge nodes e \<and> eFrom e = f \<and> eTo e = t \<and> eBound e)"
  unfolding refs_def boundRefs_def by auto

lemma map_of_fst: "map_of ds t = None \<longleftrightarrow> t \<notin> set (map fst ds)"
  by (simp add: map_of_eq_None_iff)

lemma graph_step:
  assumes "graphInv nodes es w d" "usableEdge nodes e"
  shows "graphInv nodes (es @ [e]) (w(eFrom e := addDep (eTo e) (eBound e) (w (eFrom e))))
    (if eTo e \<in> set (map fst (w (eFrom e))) then d else d(eTo e := d (eTo e) @ [eFrom e]))"
proof -
  have i: "distinct (map fst (w f))" "map_of (w f) t = (if refs nodes es f t then Some (boundRefs nodes es f t) else None)"
    "distinct (d t)" "set (d t) = {f. refs nodes es f t}" for f t
    using assms(1) unfolding graphInv_def by blast+
  have m: "eTo e \<in> set (map fst (w (eFrom e))) \<longleftrightarrow> refs nodes es (eFrom e) (eTo e)"
    using i(2) [of "eFrom e" "eTo e"] map_of_fst [of "w (eFrom e)" "eTo e"] by (auto split: if_splits)
  have b: "\<not> refs nodes es f t \<Longrightarrow> \<not> boundRefs nodes es f t" for f t using refs_facts(2) by blast
  show ?thesis unfolding graphInv_def refs_snoc m
    using i(1,3,4) assms(2) b by (auto simp: addDep_facts i(2))
qed

lemma graph_loop: "graphInv nodes es0 w d \<Longrightarrow> graphLoop nodes w d es = (w', d') \<Longrightarrow> graphInv nodes (es0 @ es) w' d'"
proof (induction nodes w d es arbitrary: es0 rule: graphLoop.induct)
  case (2 nodes w d e es)
  show ?case
  proof (cases "usableEdge nodes e")
    case True
    then show ?thesis using 2(2) [OF _ refl graph_step [OF 2(3) True]] 2(4) by (simp add: Let_def fun_upd_def)
  next
    case False
    then have "graphInv nodes (es0 @ [e]) w d" using 2(3) unfolding graphInv_def refs_snoc by simp
    then show ?thesis using 2(1) [of "es0 @ [e]"] 2(4) False by simp
  qed
qed simp

lemma graph_built: "graphLoop nodes (\<lambda>_. []) (\<lambda>_. []) edges = (w, d) \<Longrightarrow> graphInv nodes edges w d"
proof -
  have "graphInv nodes [] (\<lambda>_. []) (\<lambda>_. [])" by (simp add: graphInv_def refs_def)
  then show "graphLoop nodes (\<lambda>_. []) (\<lambda>_. []) edges = (w, d) \<Longrightarrow> ?thesis" using graph_loop by fastforce
qed

section \<open>What a place in the order means\<close>

text \<open>
  With the objects \<open>xs\<close> created, \<open>m\<close> is free when all it references is there, and loose
  when all its bound references are.
\<close>

definition free :: "orderNode list \<Rightarrow> orderEdge list \<Rightarrow> orderNode list \<Rightarrow> orderNode \<Rightarrow> bool" where
  "free nodes edges xs m \<longleftrightarrow> (\<forall>t. refs nodes edges (nKey m) t \<longrightarrow> t \<in> keys xs)"

definition loose :: "orderNode list \<Rightarrow> orderEdge list \<Rightarrow> orderNode list \<Rightarrow> orderNode \<Rightarrow> bool" where
  "loose nodes edges xs m \<longleftrightarrow> (\<forall>t. boundRefs nodes edges (nKey m) t \<longrightarrow> t \<in> keys xs)"

text \<open>The choice at a place: the least free object, and the least loose one if there is none free.\<close>

definition leastAt :: "orderNode list \<Rightarrow> orderEdge list \<Rightarrow> orderNode list \<Rightarrow> orderNode \<Rightarrow> bool" where
  "leastAt nodes edges xs n \<longleftrightarrow>
     (let ok = (if \<exists>m \<in> set nodes - set xs. free nodes edges xs m then free nodes edges xs else loose nodes edges xs)
      in n \<in> set nodes - set xs \<and> ok n \<and> (\<forall>m \<in> set nodes - set xs. ok m \<longrightarrow> \<not> orderLess m n))"

definition unmetTexts :: "orderNode list \<Rightarrow> orderEdge list \<Rightarrow> orderNode list \<Rightarrow> orderNode \<Rightarrow> string list" where
  "unmetTexts nodes edges xs n =
     map (brokenText n) (sorted_list_of_multiset
       (image_mset (\<lambda>t. display (nodeAt nodes t)) (mset_set {t. refs nodes edges (nKey n) t \<and> t \<notin> keys xs})))"

text \<open>A whole order and its warnings, object by object.\<close>

fun leastOrder :: "orderNode list \<Rightarrow> orderEdge list \<Rightarrow> orderNode list \<Rightarrow> orderNode list \<Rightarrow> bool" where
  "leastOrder nodes edges xs [] = True"
| "leastOrder nodes edges xs (n # ns) = (leastAt nodes edges xs n \<and> leastOrder nodes edges (xs @ [n]) ns)"

fun reported :: "orderNode list \<Rightarrow> orderEdge list \<Rightarrow> orderNode list \<Rightarrow> orderNode list \<Rightarrow> string list" where
  "reported nodes edges xs [] = []"
| "reported nodes edges xs (n # ns) = unmetTexts nodes edges xs n @ reported nodes edges (xs @ [n]) ns"

lemma leastOrder_snoc: "leastOrder nodes edges xs (ns @ [n]) \<longleftrightarrow>
    leastOrder nodes edges xs ns \<and> leastAt nodes edges (xs @ ns) n"
  by (induction ns arbitrary: xs) auto

lemma reported_snoc: "reported nodes edges xs (ns @ [n]) = reported nodes edges xs ns @ unmetTexts nodes edges (xs @ ns) n"
  by (induction ns arbitrary: xs) auto

lemma free_loose: "free nodes edges xs m \<Longrightarrow> loose nodes edges xs m"
  using refs_facts(2) by (auto simp: free_def loose_def)

lemma free_unmet: "free nodes edges xs n \<Longrightarrow> unmetTexts nodes edges xs n = []"
proof -
  assume "free nodes edges xs n"
  then have "{t. refs nodes edges (nKey n) t \<and> t \<notin> keys xs} = {}" by (auto simp: free_def)
  then show ?thesis unfolding unmetTexts_def by (simp only: mset_set.empty) simp
qed

section \<open>The invariant\<close>

text \<open>
  \<open>orderInv\<close> holds before each release: \<open>k\<close> is the key of the node just put out and \<open>rem\<close> the
  dependents of it that the loop has not come to.
\<close>

definition orderInv :: "orderNode list \<Rightarrow> orderEdge list \<Rightarrow> string \<Rightarrow> string set \<Rightarrow> orderState \<Rightarrow> bool" where
  "orderInv nodes edges k rem st \<longleftrightarrow>
     distinct (stQueued st) \<and> distinct (map nKey (stOut st)) \<and> isHeap orderLess (stReady st) \<and>
     mset (map nKey (stOut st)) + mset (map nKey (stReady st)) = mset (stQueued st) \<and>
     set (stOut st) \<subseteq> set nodes \<and> set (stReady st) \<subseteq> set nodes \<and>
     (\<forall>f. distinct (map fst (stWaiting st f))) \<and>
     (\<forall>f t. map_of (stWaiting st f) t =
        (if f \<notin> set (stQueued st) \<and> refs nodes edges f t \<and> (t \<notin> keys (stOut st) \<or> (t = k \<and> f \<in> rem))
         then Some (boundRefs nodes edges f t) else None)) \<and>
     (\<forall>n \<in> set nodes. nKey n \<notin> set (stQueued st) \<longrightarrow> stWaiting st (nKey n) \<noteq> []) \<and>
     (\<forall>n \<in> set (stReady st). free nodes edges (stOut st) n)"

text \<open>At the head of the main loop nothing is left to release.\<close>

definition loopInv :: "orderNode list \<Rightarrow> orderEdge list \<Rightarrow> orderState \<Rightarrow> bool" where
  "loopInv nodes edges st \<longleftrightarrow> orderInv nodes edges [] {} st \<and>
     leastOrder nodes edges [] (stOut st) \<and> stWarnings st = reported nodes edges [] (stOut st)"

lemma orderInv_parts:
  assumes "orderInv nodes edges k rem st"
  shows "distinct (stQueued st)" "distinct (map nKey (stOut st))" "isHeap orderLess (stReady st)"
    "mset (map nKey (stOut st)) + mset (map nKey (stReady st)) = mset (stQueued st)"
    "set (stOut st) \<subseteq> set nodes" "set (stReady st) \<subseteq> set nodes" "distinct (map fst (stWaiting st f))"
    "map_of (stWaiting st f) t =
        (if f \<notin> set (stQueued st) \<and> refs nodes edges f t \<and> (t \<notin> keys (stOut st) \<or> (t = k \<and> f \<in> rem))
         then Some (boundRefs nodes edges f t) else None)"
    "n \<in> set nodes \<Longrightarrow> nKey n \<notin> set (stQueued st) \<Longrightarrow> stWaiting st (nKey n) \<noteq> []"
    "n \<in> set (stReady st) \<Longrightarrow> free nodes edges (stOut st) n"
  using assms unfolding orderInv_def by (blast, blast, blast, simp, blast, blast, blast, simp, blast, blast)

lemma queued_set:
  "orderInv nodes edges k rem st \<Longrightarrow> set (stQueued st) = keys (stOut st) \<union> keys (stReady st)"
  using arg_cong [OF orderInv_parts(4), of nodes edges k rem st set_mset] by simp

lemma waiting_fst:
  "orderInv nodes edges k rem st \<Longrightarrow> t \<in> set (map fst (stWaiting st f)) \<longleftrightarrow>
     f \<notin> set (stQueued st) \<and> refs nodes edges f t \<and> (t \<notin> keys (stOut st) \<or> (t = k \<and> f \<in> rem))"
  using orderInv_parts(8) [of nodes edges k rem st f t] map_of_fst [of "stWaiting st f" t] by (auto split: if_splits)

lemma map_of_remove: "map_of (filter (\<lambda>dep. fst dep \<noteq> k) ds) t = (if t = k then None else map_of ds t)"
  by (induction ds) auto

lemma start_inv:
  assumes "graphInv nodes edges w d" "distinct (map nKey nodes)"
  shows "loopInv nodes edges (orderStart nodes w)"
proof -
  define rs where "rs = filter (\<lambda>n. w (nKey n) = []) nodes"
  have w: "map_of (w f) t = (if refs nodes edges f t then Some (boundRefs nodes edges f t) else None)"
    "distinct (map fst (w f))" for f t using assms(1) unfolding graphInv_def by blast+
  have no: "\<not> refs nodes edges (nKey n) t" if "n \<in> set rs" for n t
    using w(1) [of "nKey n" t] that by (auto simp: rs_def split: if_splits)
  have m: "mset (heapInit orderLess rs) = mset rs" "set (heapInit orderLess rs) = set rs"
    using nodes.of_list(2) [of rs] by (auto dest: mset_eq_setD)
  have mk: "mset (map nKey (heapInit orderLess rs)) = mset (map nKey rs)" by (simp only: mset_map m)
  have "distinct (map nKey rs)" unfolding rs_def by (rule distinct_map_filter [OF assms(2)])
  then show ?thesis
    unfolding loopInv_def orderInv_def orderStart_def Let_def rs_def [symmetric]
    using w no m nodes.of_list(1) mk by (auto simp: free_def rs_def simp del: mset_map)
qed

text \<open>The release loop.\<close>

lemma release_step:
  assumes "orderInv nodes edges k (insert d rem) st" "d \<notin> rem" "distinct (map nKey nodes)" "k \<in> keys (stOut st)"
    and "d \<in> keys nodes"
  shows "\<exists>st'. releaseLoop nodes k (d # ds) st = releaseLoop nodes k ds st' \<and> orderInv nodes edges k rem st' \<and>
    stOut st' = stOut st \<and> stWarnings st' = stWarnings st"
proof -
  note p = orderInv_parts [OF assms(1)]
  note wf = waiting_fst [OF assms(1)]
  show ?thesis
  proof (cases "k \<in> set (map fst (stWaiting st d))")
    case False
    then have "d \<in> set (stQueued st) \<or> \<not> refs nodes edges d k" using wf by blast
    then have "orderInv nodes edges k rem st"
      using p unfolding orderInv_def by (auto split: if_splits)
    then show ?thesis using False by (intro exI [of _ st]) simp
  next
    case True
    then have dq: "d \<notin> set (stQueued st)" and dr: "refs nodes edges d k" using wf by blast+
    define rest where "rest = filter (\<lambda>dep. fst dep \<noteq> k) (stWaiting st d)"
    define st1 where "st1 = st \<lparr> stWaiting := (stWaiting st)(d := rest) \<rparr>"
    have rest: "map_of rest t = (if refs nodes edges d t \<and> t \<notin> keys (stOut st) then Some (boundRefs nodes edges d t) else None)"
      for t unfolding rest_def map_of_remove p(8) using dq assms(4) by auto
    have dist: "distinct (map fst rest)" unfolding rest_def by (rule distinct_map_filter [OF p(7)])
    obtain n where n: "n \<in> set nodes" "nKey n = d" using assms(5) by auto
    have node: "nodeAt nodes d = n" using nodeAt_key [OF assms(3) n(1)] n(2) by simp
    show ?thesis
    proof (cases "rest = []")
      case False
      then have "orderInv nodes edges k rem st1"
        using p rest dist assms(2) dq unfolding orderInv_def st1_def by (auto split: if_splits)
      then show ?thesis using True False by (intro exI [of _ st1]) (simp add: Let_def st1_def rest_def)
    next
      case empty: True
      define st2 where "st2 = st1 \<lparr> stQueued := d # stQueued st1, stReady := heapPush orderLess n (stReady st1) \<rparr>"
      have free: "free nodes edges (stOut st) n"
        using rest n(2) unfolding empty free_def by (metis map_of.simps(1) option.distinct(1))
      have push: "isHeap orderLess (heapPush orderLess n (stReady st))"
        "mset (heapPush orderLess n (stReady st)) = add_mset n (mset (stReady st))"
        using nodes.push p(3) by blast+
      then have sp: "set (heapPush orderLess n (stReady st)) = insert n (set (stReady st))"
        by (metis set_mset_add_mset_insert set_mset_mset)
      have mk: "mset (map nKey (heapPush orderLess n (stReady st))) = add_mset d (mset (map nKey (stReady st)))"
        by (simp only: mset_map push image_mset_add_mset n)
      have "orderInv nodes edges k rem st2"
        using p dist assms(2) dq push sp free n mk unfolding orderInv_def st2_def st1_def empty
        by (auto simp del: mset_map split: if_splits)
      then show ?thesis using True empty dq
        by (intro exI [of _ st2]) (simp add: Let_def st2_def st1_def rest_def node)
    qed
  qed
qed

lemma release_all:
  assumes "orderInv nodes edges k (set ds) st" "distinct ds" "distinct (map nKey nodes)" "k \<in> keys (stOut st)"
    and "set ds \<subseteq> keys nodes"
  shows "orderInv nodes edges k {} (releaseLoop nodes k ds st) \<and>
    stOut (releaseLoop nodes k ds st) = stOut st \<and> stWarnings (releaseLoop nodes k ds st) = stWarnings st"
  using assms
proof (induction ds arbitrary: st)
  case (Cons d ds)
  obtain st' where st': "releaseLoop nodes k (d # ds) st = releaseLoop nodes k ds st'" "orderInv nodes edges k (set ds) st'"
    "stOut st' = stOut st" "stWarnings st' = stWarnings st"
    using release_step [of nodes edges k d "set ds" st ds] Cons.prems by auto
  then show ?case using Cons.IH [OF st'(2)] Cons.prems by simp
qed simp

text \<open>What is left to put out, by key.\<close>

lemma left_iff:
  assumes "distinct (map nKey nodes)" "set xs \<subseteq> set nodes" "m \<in> set nodes"
  shows "m \<in> set xs \<longleftrightarrow> nKey m \<in> keys xs"
proof
  assume "nKey m \<in> keys xs"
  then obtain x where "x \<in> set xs" "nKey x = nKey m" by auto
  then show "m \<in> set xs" using assms by (metis distinct_map inj_on_eq_iff subsetD)
qed auto

text \<open>The pick.\<close>

definition pickable :: "orderState \<Rightarrow> orderNode \<Rightarrow> bool" where
  "pickable st n \<longleftrightarrow> nKey n \<notin> set (stQueued st) \<and> \<not> list_ex snd (stWaiting st (nKey n))"

lemma pickLoop_spec:
  "case pickLoop st pick ns of
     None \<Rightarrow> pick = None \<and> (\<forall>n \<in> set ns. \<not> pickable st n)
   | Some p \<Rightarrow> (pick = Some p \<or> (p \<in> set ns \<and> pickable st p)) \<and>
       (\<forall>n \<in> set ns. pickable st n \<longrightarrow> \<not> orderLess n p) \<and> (\<forall>q. pick = Some q \<longrightarrow> \<not> orderLess q p)"
proof (induction ns arbitrary: pick)
  case Nil
  then show ?case by (cases pick) (simp_all add: nodes.irrefl)
next
  case (Cons n ns)
  show ?case
  proof (cases "pickable st n \<and> (case pick of None \<Rightarrow> True | Some p \<Rightarrow> orderLess n p)")
    case True
    then have s: "pickLoop st pick (n # ns) = pickLoop st (Some n) ns" by (simp add: pickable_def)
    from Cons.IH [of "Some n"]
    obtain p where p: "pickLoop st (Some n) ns = Some p" "n = p \<or> (p \<in> set ns \<and> pickable st p)"
      "\<forall>n \<in> set ns. pickable st n \<longrightarrow> \<not> orderLess n p" "\<not> orderLess n p" by (auto split: option.splits)
    have "\<not> orderLess q p" if "pick = Some q" for q
      using nodes.le_trans [OF p(4), of q] nodes.asym [of n q] True that by auto
    then show ?thesis unfolding s p(1) option.case using p True by auto
  next
    case False
    then have s: "pickLoop st pick (n # ns) = pickLoop st pick ns" by (auto simp: pickable_def Let_def)
    note ih = Cons.IH [of pick]
    show ?thesis
    proof (cases "pickLoop st pick ns")
      case None
      then show ?thesis unfolding s using ih False by auto
    next
      case (Some p)
      have "\<not> orderLess n p" if n: "pickable st n"
      proof -
        obtain q where "pick = Some q" "\<not> orderLess n q" using False n by (auto split: option.splits)
        then show ?thesis using nodes.le_trans [of q p n] ih Some by simp
      qed
      then show ?thesis unfolding s using ih Some by auto
    qed
  qed
qed

lemma pickable_loose:
  assumes "orderInv nodes edges [] {} st"
  shows "pickable st n \<longleftrightarrow> nKey n \<notin> set (stQueued st) \<and> loose nodes edges (stOut st) n"
proof -
  have "list_ex snd (stWaiting st (nKey n)) \<longleftrightarrow> (\<exists>t. map_of (stWaiting st (nKey n)) t = Some True)"
    using orderInv_parts(7) [OF assms] by (force simp: list_ex_iff)
  also have "\<dots> \<longleftrightarrow> nKey n \<notin> set (stQueued st) \<and>
      (\<exists>t. refs nodes edges (nKey n) t \<and> t \<notin> keys (stOut st) \<and> boundRefs nodes edges (nKey n) t)"
    unfolding orderInv_parts(8) [OF assms] by auto
  finally show ?thesis
    unfolding pickable_def loose_def using refs_facts(2) [of nodes edges "nKey n"] by blast
qed

lemma not_free:
  assumes "orderInv nodes edges [] {} st" "m \<in> set nodes" "nKey m \<notin> set (stQueued st)"
  shows "\<not> free nodes edges (stOut st) m"
proof -
  obtain t b ds where "stWaiting st (nKey m) = (t, b) # ds"
    using orderInv_parts(9) [OF assms] by (metis neq_Nil_conv surj_pair)
  then have "t \<in> set (map fst (stWaiting st (nKey m)))" by simp
  then show ?thesis using waiting_fst [OF assms(1), of t "nKey m"] by (auto simp: free_def)
qed

lemma pop_inv:
  assumes inv: "loopInv nodes edges st" and ne: "stReady st \<noteq> []" and pop: "heapPop orderLess (stReady st) = (n, rest)"
    and dist: "distinct (map nKey nodes)"
  defines "st' \<equiv> st \<lparr> stReady := rest, stOut := stOut st @ [n] \<rparr>"
  shows "orderInv nodes edges (nKey n) {f. refs nodes edges f (nKey n)} st'"
    and "leastOrder nodes edges [] (stOut st') \<and> stWarnings st' = reported nodes edges [] (stOut st')"
proof -
  have oi: "orderInv nodes edges [] {} st" using inv by (simp add: loopInv_def)
  note p = orderInv_parts [OF oi]
  have q: "isHeap orderLess rest" "mset (stReady st) = add_mset n (mset rest)" "\<forall>y \<in># mset rest. \<not> orderLess y n"
    using nodes.pop [OF p(3) _ pop] ne by auto
  have sr: "set (stReady st) = insert n (set rest)" using arg_cong [OF q(2), of set_mset] by simp
  have mk: "mset (map nKey (stReady st)) = add_mset (nKey n) (mset (map nKey rest))"
    by (simp only: mset_map q image_mset_add_mset)
  have "distinct (map nKey (stOut st) @ map nKey (stReady st))"
    using p(1,4) by (metis mset_append mset_eq_imp_distinct_iff)
  then have new1: "nKey n \<notin> keys (stOut st)" using sr by auto
  then have new: "nKey n \<notin> keys (stOut st)" "\<forall>x \<in> set (stOut st). nKey x \<noteq> nKey n"
    unfolding set_map by (blast, metis image_eqI)
  have fr: "free nodes edges (stOut st) n" using p(10) sr by blast
  have fr2: "\<forall>x \<in> set rest. free nodes edges (stOut st @ [n]) x"
    using p(10) unfolding sr free_def by auto
  show "orderInv nodes edges (nKey n) {f. refs nodes edges f (nKey n)} st'"
    unfolding orderInv_def st'_def using p(1-9) q(1) sr mk new fr2
    by (auto simp del: mset_map split: if_splits)
  have least: "leastAt nodes edges (stOut st) n"
  proof -
    have n: "n \<in> set nodes - set (stOut st)" using p(6) sr new by auto
    have "\<not> orderLess m n" if m: "m \<in> set nodes - set (stOut st)" "free nodes edges (stOut st) m" for m
    proof -
      have "nKey m \<in> set (stQueued st)" using not_free [OF oi] m by blast
      moreover have "nKey m \<notin> keys (stOut st)" using m left_iff [OF dist p(5)] by blast
      ultimately have "m \<in> set (stReady st)"
        using queued_set [OF oi] m left_iff [OF dist p(6)] by blast
      then show ?thesis using nodes.pop_least [OF p(3) _ pop, of m] ne by simp
    qed
    then show ?thesis using n fr unfolding leastAt_def Let_def by auto
  qed
  then show "leastOrder nodes edges [] (stOut st') \<and> stWarnings st' = reported nodes edges [] (stOut st')"
    using inv free_unmet [OF fr] by (simp add: st'_def loopInv_def leastOrder_snoc reported_snoc)
qed

lemma break_inv:
  assumes inv: "loopInv nodes edges st" and ne: "stReady st = []" and dist: "distinct (map nKey nodes)"
    and br: "breakCycle nodes st = Inr st1" and pop: "heapPop orderLess (stReady st1) = (n, rest)"
  defines "st' \<equiv> st1 \<lparr> stReady := rest, stOut := stOut st1 @ [n] \<rparr>"
  shows "orderInv nodes edges (nKey n) {f. refs nodes edges f (nKey n)} st'"
    and "leastOrder nodes edges [] (stOut st') \<and> stWarnings st' = reported nodes edges [] (stOut st')"
proof -
  have oi: "orderInv nodes edges [] {} st" using inv by (simp add: loopInv_def)
  note p = orderInv_parts [OF oi]
  have q: "set (stQueued st) = keys (stOut st)" using queued_set [OF oi] ne by simp
  obtain m where m: "pickLoop st None nodes = Some m" using br by (auto simp: breakCycle_def split: option.splits)
  define texts where "texts = map (\<lambda>dep. display (nodeAt nodes (fst dep))) (stWaiting st (nKey m))"
  have st1: "st1 = st \<lparr> stWarnings := stWarnings st @ map (brokenText m) (sort texts),
     stWaiting := (stWaiting st)(nKey m := []), stQueued := nKey m # stQueued st, stReady := heapPush orderLess m [] \<rparr>"
    using br m ne by (simp add: breakCycle_def texts_def Let_def)
  have "n = m \<and> mset rest = {#}"
    using nodes.pop_push_empty [of "[]" m n rest] pop unfolding st1 by (simp add: heapFrom_def)
  then have nm: "n = m" "rest = []" by simp_all
  have pick: "m \<in> set nodes" "nKey m \<notin> keys (stOut st)" "loose nodes edges (stOut st) m"
    "\<And>x. x \<in> set nodes \<Longrightarrow> nKey x \<notin> keys (stOut st) \<Longrightarrow> loose nodes edges (stOut st) x \<Longrightarrow> \<not> orderLess x m"
    using pickLoop_spec [where st = st and pick = None and ns = nodes] unfolding m option.case pickable_loose [OF oi] q by blast+
  have new: "\<forall>x \<in> set (stOut st). nKey x \<noteq> nKey m" using pick(2) unfolding set_map by (metis image_eqI)
  have st': "st' = st \<lparr> stWarnings := stWarnings st @ map (brokenText m) (sort texts),
     stWaiting := (stWaiting st)(nKey m := []), stQueued := nKey m # stQueued st, stReady := [], stOut := stOut st @ [m] \<rparr>"
    by (simp add: st'_def st1 nm)
  show "orderInv nodes edges (nKey n) {f. refs nodes edges f (nKey n)} st'"
    unfolding orderInv_def st' nm(1) using p pick(1,2) new q ne by (auto simp: heapFrom_def simp del: mset_map split: if_splits)
  have unfree: "\<not> free nodes edges (stOut st) x" if "x \<in> set nodes - set (stOut st)" for x
    using not_free [OF oi] that left_iff [OF dist p(5)] q by blast
  then have least: "leastAt nodes edges (stOut st) m"
    unfolding leastAt_def Let_def using pick left_iff [OF dist p(5)] by auto
  have d: "distinct (map fst (stWaiting st (nKey m)))" by (rule p(7))
  have "set (map fst (stWaiting st (nKey m))) = {t. refs nodes edges (nKey m) t \<and> t \<notin> keys (stOut st)}"
    using waiting_fst [OF oi] pick(2) q by blast
  then have "mset_set {t. refs nodes edges (nKey m) t \<and> t \<notin> keys (stOut st)} = mset (map fst (stWaiting st (nKey m)))"
    using mset_set_set [OF d] by simp
  then have "image_mset (\<lambda>t. display (nodeAt nodes t)) (mset_set {t. refs nodes edges (nKey m) t \<and> t \<notin> keys (stOut st)}) = mset texts"
    unfolding texts_def by (simp only: mset_map multiset.map_comp comp_def)
  then have "map (brokenText m) (sort texts) = unmetTexts nodes edges (stOut st) m"
    unfolding unmetTexts_def by (simp only: sorted_list_of_multiset_mset)
  then show "leastOrder nodes edges [] (stOut st') \<and> stWarnings st' = reported nodes edges [] (stOut st')"
    using inv least by (simp add: st' loopInv_def leastOrder_snoc reported_snoc)
qed

text \<open>One turn of the main loop, and when it fails.\<close>

lemma step_inv:
  assumes inv: "loopInv nodes edges st" and dist: "distinct (map nKey nodes)"
    and d: "\<And>t. distinct (d t) \<and> set (d t) = {f. refs nodes edges f t}" and step: "orderStep nodes d st = Inr st'"
  shows "loopInv nodes edges st'"
proof -
  obtain st1 where s1: "(if stReady st = [] then breakCycle nodes st else Inr st) = Inr st1"
    using step unfolding orderStep_def res_bind_Inr by blast
  obtain n rest where s2: "heapPop orderLess (stReady st1) = (n, rest)" by (cases "heapPop orderLess (stReady st1)")
  have s: "(if stReady st = [] then breakCycle nodes st else Inr st) = Inr st1"
    "heapPop orderLess (stReady st1) = (n, rest)"
    "st' = releaseLoop nodes (nKey n) (d (nKey n)) (st1 \<lparr> stReady := rest, stOut := stOut st1 @ [n] \<rparr>)"
    using step s1 s2 unfolding orderStep_def by simp_all
  let ?s = "st1 \<lparr> stReady := rest, stOut := stOut st1 @ [n] \<rparr>"
  have i: "orderInv nodes edges (nKey n) {f. refs nodes edges f (nKey n)} ?s"
    "leastOrder nodes edges [] (stOut ?s) \<and> stWarnings ?s = reported nodes edges [] (stOut ?s)"
    using pop_inv [OF inv _ _ dist] break_inv [OF inv _ dist _ s(2)] s(1,2) by (cases "stReady st = []"; auto)+
  have "set (d (nKey n)) \<subseteq> keys nodes" using d refs_facts(1) by blast
  then have "orderInv nodes edges (nKey n) {} st' \<and> stOut st' = stOut ?s \<and> stWarnings st' = stWarnings ?s"
    unfolding s(3) using i(1) d dist by (intro release_all) auto
  then show ?thesis using i(2) unfolding loopInv_def orderInv_def by auto
qed

lemma step_fails:
  assumes inv: "loopInv nodes edges st" and dist: "distinct (map nKey nodes)" and less: "length (stOut st) < length nodes"
    and step: "orderStep nodes d st = Inl e"
  shows "\<not> acyclic (boundRel nodes edges)"
proof
  assume ac: "acyclic (boundRel nodes edges)"
  have oi: "orderInv nodes edges [] {} st" using inv by (simp add: loopInv_def)
  note p = orderInv_parts [OF oi]
  have fail: "stReady st = []" "pickLoop st None nodes = None"
    using step by (auto simp: orderStep_def res_simps breakCycle_def Let_def split: if_splits option.splits prod.splits)
  have q: "set (stQueued st) = keys (stOut st)" using queued_set [OF oi] fail by simp
  have stuck: "\<not> loose nodes edges (stOut st) m" if "m \<in> set nodes" "nKey m \<notin> keys (stOut st)" for m
    using pickLoop_spec [where st = st and pick = None and ns = nodes] that unfolding fail option.case pickable_loose [OF oi] q by blast
  have "\<exists>k. k \<in> keys nodes - keys (stOut st)"
  proof (rule ccontr)
    assume "\<not> ?thesis"
    then have "card (keys nodes) \<le> card (keys (stOut st))" by (intro card_mono) auto
    then show False using less distinct_card [OF dist] distinct_card [OF p(2)] by simp
  qed
  then obtain k where k: "k \<in> keys nodes - keys (stOut st)" by blast
  have "wf ((boundRel nodes edges)\<inverse>)" using rel_finite(2) ac by (rule finite_acyclic_wf_converse)
  from wfE_min [OF this k] obtain z where z: "z \<in> keys nodes - keys (stOut st)"
    "\<And>y. (y, z) \<in> (boundRel nodes edges)\<inverse> \<Longrightarrow> y \<notin> keys nodes - keys (stOut st)" by blast
  then obtain m where m: "m \<in> set nodes" "nKey m = z" by auto
  obtain t where t: "boundRefs nodes edges z t" "t \<notin> keys (stOut st)"
    using stuck [OF m(1)] z(1) m(2) unfolding loose_def by blast
  have "t \<in> keys nodes" using refs_facts t(1) by blast
  then show False using z(2) [of t] t by (simp add: boundRel_def)
qed

definition goodOrder :: "orderNode list \<Rightarrow> orderEdge list \<Rightarrow> orderNode list \<Rightarrow> string list \<Rightarrow> bool" where
  "goodOrder nodes edges out warns \<longleftrightarrow> mset out = mset nodes \<and> distinct (map nKey out) \<and>
     leastOrder nodes edges [] out \<and> warns = reported nodes edges [] out"

lemma loop_result:
  assumes "loopInv nodes edges st" "distinct (map nKey nodes)"
    and "\<And>t. distinct (d t) \<and> set (d t) = {f. refs nodes edges f t}"
  shows "case orderLoop nodes d st of Inl e \<Rightarrow> \<not> acyclic (boundRel nodes edges)
     | Inr (out, warns) \<Rightarrow> goodOrder nodes edges out warns"
  using assms(1)
proof (induction "length nodes - length (stOut st)" arbitrary: st rule: less_induct)
  case less
  have oi: "orderInv nodes edges [] {} st" using less(2) by (simp add: loopInv_def)
  note p = orderInv_parts [OF oi]
  show ?case
  proof (cases "length (stOut st) < length nodes")
    case True
    show ?thesis
    proof (cases "orderStep nodes d st")
      case (Inl e)
      then show ?thesis using step_fails [OF less(2) assms(2) True Inl] True by (subst orderLoop.simps) simp
    next
      case (Inr st')
      have "loopInv nodes edges st'" by (rule step_inv [OF less(2) assms(2,3) Inr])
      then show ?thesis using less(1) [of st'] orderStep_out [OF Inr] True Inr by (subst orderLoop.simps) simp
    qed
  next
    case False
    have d: "distinct (stOut st)" "distinct nodes" using p(2) assms(2) by (simp_all add: distinct_map)
    have "card (set (stOut st)) = card (set nodes)"
      using False card_mono [OF _ p(5)] distinct_card [OF d(1)] distinct_card [OF d(2)] by simp
    then have "set (stOut st) = set nodes" using p(5) by (intro card_subset_eq) auto
    then have "mset (stOut st) = mset nodes" using d by (simp add: set_eq_iff_mset_eq_distinct)
    then show ?thesis using False less(2) p(2) by (subst orderLoop.simps) (simp add: goodOrder_def loopInv_def)
  qed
qed

lemma order_result:
  "case orderObjects nodes edges of
     Inl e \<Rightarrow> \<not> distinct (map nKey nodes) \<or> \<not> acyclic (boundRel nodes edges)
   | Inr (out, warns) \<Rightarrow> distinct (map nKey nodes) \<and> goodOrder nodes edges out warns"
proof (cases "distinct (map nKey nodes)")
  case True
  then have n: "firstDup [] nodes = None" by (simp add: firstDup_None)
  obtain w d where g: "graphLoop nodes (\<lambda>_. []) (\<lambda>_. []) edges = (w, d)" by (cases "graphLoop nodes (\<lambda>_. []) (\<lambda>_. []) edges")
  have gi: "graphInv nodes edges w d" by (rule graph_built [OF g])
  have "case orderLoop nodes d (orderStart nodes w) of Inl e \<Rightarrow> \<not> acyclic (boundRel nodes edges)
     | Inr (out, warns) \<Rightarrow> goodOrder nodes edges out warns"
    using loop_result [OF start_inv [OF gi True] True] gi unfolding graphInv_def by blast
  then show ?thesis using True by (auto simp: orderObjects_def n g split: sum.splits prod.splits)
next
  case False
  then obtain k where "firstDup [] nodes = Some k" using firstDup_None [of "[]" nodes] by (cases "firstDup [] nodes") auto
  then show ?thesis using False by (simp add: orderObjects_def)
qed

section \<open>What the order promises\<close>

lemma leastOrder_at: "leastOrder nodes edges zs (xs @ n # ys) \<Longrightarrow> leastAt nodes edges (zs @ xs) n"
proof (induction xs arbitrary: zs)
  case (Cons x xs)
  then show ?case using Cons.IH [of "zs @ [x]"] by simp
qed simp

lemma reported_at:
  "x \<in> set (reported nodes edges zs out) \<longleftrightarrow> (\<exists>xs n ys. out = xs @ n # ys \<and> x \<in> set (unmetTexts nodes edges (zs @ xs) n))"
proof (induction out arbitrary: zs)
  case (Cons m out)
  have "(\<exists>xs n ys. m # out = xs @ n # ys \<and> x \<in> set (unmetTexts nodes edges (zs @ xs) n)) \<longleftrightarrow>
      x \<in> set (unmetTexts nodes edges zs m) \<or>
      (\<exists>xs n ys. out = xs @ n # ys \<and> x \<in> set (unmetTexts nodes edges ((zs @ [m]) @ xs) n))"
    by (auto simp: Cons_eq_append_conv) (metis append_Nil append_Nil2)+
  then show ?case using Cons by simp
qed simp

lemma unmet_set:
  "x \<in> set (unmetTexts nodes edges xs n) \<longleftrightarrow>
     (\<exists>t. refs nodes edges (nKey n) t \<and> t \<notin> keys xs \<and> x = brokenText n (display (nodeAt nodes t)))"
proof -
  have "{t. refs nodes edges (nKey n) t \<and> t \<notin> keys xs} \<subseteq> keys nodes" using refs_facts(1) by blast
  then have "finite {t. refs nodes edges (nKey n) t \<and> t \<notin> keys xs}" by (rule finite_subset) simp
  then show ?thesis unfolding unmetTexts_def by auto
qed

lemma leastAt_loose: "leastAt nodes edges xs n \<Longrightarrow> loose nodes edges xs n"
  using free_loose unfolding leastAt_def Let_def by (auto split: if_splits)

text \<open>An order in which every reference of \<open>R\<close> is to an object before shows there is no cycle in it.\<close>

lemma earlier_acyclic:
  assumes "distinct (map nKey out)" "R \<subseteq> keys out \<times> keys out"
    and earlier: "\<And>xs n ys t. out = xs @ n # ys \<Longrightarrow> (nKey n, t) \<in> R \<Longrightarrow> t \<in> keys xs"
  shows "acyclic R"
proof -
  define pos where "pos k = length (takeWhile (\<lambda>n. nKey n \<noteq> k) out)" for k
  have at: "pos (nKey n) = length xs" if "out = xs @ n # ys" for xs n ys
  proof -
    have "nKey n \<notin> keys xs" using assms(1) that by auto
    then have "\<forall>x \<in> set xs. nKey x \<noteq> nKey n" unfolding set_map by (metis image_eqI)
    then show ?thesis unfolding pos_def that by (simp add: takeWhile_append)
  qed
  have "R\<inverse> \<subseteq> measure pos"
  proof clarify
    fix f t assume ft: "(f, t) \<in> R"
    then obtain n where "n \<in> set out" "nKey n = f" using assms(2) by auto
    then obtain xs ys where o: "out = xs @ n # ys" by (meson split_list)
    then have "t \<in> keys xs" using earlier ft \<open>nKey n = f\<close> by blast
    then obtain m as bs where m: "nKey m = t" "xs = as @ m # bs" by (auto dest: split_list)
    have "pos t = length as" using at [of as m "bs @ n # ys"] o m by simp
    then show "(t, f) \<in> measure pos" using at [OF o] m \<open>nKey n = f\<close> by simp
  qed
  then have "wf (R\<inverse>)" by (rule wf_subset [OF wf_measure])
  then show ?thesis using wf_acyclic acyclic_converse by blast
qed

lemma good_bound: "goodOrder nodes edges out warns \<Longrightarrow> acyclic (boundRel nodes edges)"
proof -
  assume g: "goodOrder nodes edges out warns"
  have "keys out = keys nodes" using g unfolding goodOrder_def by (metis mset_eq_setD set_map)
  then have "boundRel nodes edges \<subseteq> keys out \<times> keys out"
    using refs_facts(1) [OF refs_facts(2)] by (auto simp: boundRel_def)
  then show ?thesis
  proof (rule earlier_acyclic [rotated])
    show "distinct (map nKey out)" using g by (simp add: goodOrder_def)
    fix xs n ys t assume "out = xs @ n # ys" "(nKey n, t) \<in> boundRel nodes edges"
    then show "t \<in> keys xs"
      using g leastOrder_at [of nodes edges "[]" xs n ys] leastAt_loose
      unfolding goodOrder_def boundRel_def loose_def by fastforce
  qed
qed

lemma good_warnings: "goodOrder nodes edges out warns \<Longrightarrow> warns = [] \<longleftrightarrow> acyclic (refRel nodes edges)"
proof -
  assume g: "goodOrder nodes edges out warns"
  have k: "set out = set nodes" "distinct (map nKey out)" using g unfolding goodOrder_def by (auto dest: mset_eq_setD)
  have silent: "warns = [] \<longleftrightarrow> (\<forall>xs n ys t. out = xs @ n # ys \<and> refs nodes edges (nKey n) t \<longrightarrow> t \<in> keys xs)"
  proof -
    have "warns = [] \<longleftrightarrow> (\<forall>x. x \<notin> set (reported nodes edges [] out))" using g by (simp add: goodOrder_def flip: set_empty2)
    then show ?thesis unfolding reported_at unmet_set append_Nil by blast
  qed
  show ?thesis
  proof
    assume "warns = []"
    then have "t \<in> keys xs" if "out = xs @ n # ys" "(nKey n, t) \<in> refRel nodes edges" for xs n ys t
      using silent that by (simp add: refRel_def)
    moreover have "refRel nodes edges \<subseteq> keys out \<times> keys out"
      using refs_facts(1) k by (auto simp: refRel_def)
    ultimately show "acyclic (refRel nodes edges)" using earlier_acyclic [OF k(2)] by blast
  next
    assume ac: "acyclic (refRel nodes edges)"
    have "free nodes edges xs n" if o: "out = xs @ n # ys" for xs n ys
    proof -
      have "wf ((refRel nodes edges)\<inverse>)" using rel_finite(1) ac by (rule finite_acyclic_wf_converse)
      moreover have "nKey n \<in> keys nodes - keys xs" using k o by (auto simp flip: k(1))
      ultimately obtain z where z: "z \<in> keys nodes - keys xs"
        "\<And>y. (y, z) \<in> (refRel nodes edges)\<inverse> \<Longrightarrow> y \<notin> keys nodes - keys xs" by (metis wfE_min)
      then obtain m where m: "m \<in> set nodes" "nKey m = z" by auto
      have "t \<in> keys xs" if "refs nodes edges z t" for t
        using z(2) [of t] that refs_facts(1) [OF that] by (auto simp: refRel_def)
      then have "free nodes edges xs m" "m \<in> set nodes - set xs" using m z(1) by (auto simp: free_def)
      then show ?thesis using leastOrder_at [of nodes edges "[]" xs n ys] g o
        unfolding goodOrder_def leastAt_def Let_def by (auto split: if_splits)
    qed
    then show "warns = []" unfolding silent free_def by blast
  qed
qed

text \<open>
  C15: the script of a database creates every object once and after what it references.  A
  schema-bound reference is always respected; any other one is respected or named in a warning,
  and there is no warning exactly when the references can all be respected.
\<close>

theorem order_respects_references:
  assumes "orderObjects nodes edges = Inr (out, warns)"
  shows "mset out = mset nodes \<and>
    (\<forall>xs n ys t. out = xs @ n # ys \<and> refs nodes edges (nKey n) t \<longrightarrow>
       t \<in> keys xs \<or> (\<not> boundRefs nodes edges (nKey n) t \<and> brokenText n (display (nodeAt nodes t)) \<in> set warns)) \<and>
    (warns = [] \<longleftrightarrow> acyclic (refRel nodes edges))"
proof -
  have g: "goodOrder nodes edges out warns" using order_result [of nodes edges] assms by simp
  show ?thesis
  proof (intro conjI allI impI)
    show "mset out = mset nodes" using g by (simp add: goodOrder_def)
    fix xs n ys t assume o: "out = xs @ n # ys \<and> refs nodes edges (nKey n) t"
    have "loose nodes edges xs n"
      using g o leastOrder_at [of nodes edges "[]" xs n ys] leastAt_loose unfolding goodOrder_def by fastforce
    moreover have "brokenText n (display (nodeAt nodes t)) \<in> set warns" if "t \<notin> keys xs"
      using g o that unfolding goodOrder_def by (auto simp: reported_at unmet_set)
    ultimately show "t \<in> keys xs \<or>
      (\<not> boundRefs nodes edges (nKey n) t \<and> brokenText n (display (nodeAt nodes t)) \<in> set warns)"
      unfolding loose_def by blast
  qed (rule good_warnings [OF g])
qed

text \<open>
  C16: an order is found whenever there is one to find: the only failures are two objects under
  one key and a cycle of schema-bound references.
\<close>

theorem order_found:
  "isOk (orderObjects nodes edges) \<longleftrightarrow> distinct (map nKey nodes) \<and> acyclic (boundRel nodes edges)"
  using order_result [of nodes edges] good_bound [of nodes edges]
  by (cases "orderObjects nodes edges") (auto split: prod.splits)

section \<open>One order\<close>






section \<open>A database\<close>

definition sampleNodes :: "orderNode list" where
  "sampleNodes =
     [\<lparr> nKey = ''p'', nRank = 3, nSchema = ''d'', nName = ''p'' \<rparr>, \<lparr> nKey = ''v'', nRank = 2, nSchema = ''d'', nName = ''v'' \<rparr>,
      \<lparr> nKey = ''q'', nRank = 3, nSchema = ''d'', nName = ''q'' \<rparr>, \<lparr> nKey = ''t'', nRank = 1, nSchema = ''d'', nName = ''t'' \<rparr>]"

definition sampleEdges :: "orderEdge list" where
  "sampleEdges =
     [\<lparr> eFrom = ''v'', eTo = ''t'', eBound = True \<rparr>, \<lparr> eFrom = ''q'', eTo = ''p'', eBound = False \<rparr>,
      \<lparr> eFrom = ''p'', eTo = ''q'', eBound = False \<rparr>, \<lparr> eFrom = ''p'', eTo = ''v'', eBound = False \<rparr>]"

lemma sample_order:
  "orderObjects sampleNodes sampleEdges = Inr (map (\<lambda>i. sampleNodes ! i) [3, 1, 0, 2],
     [''dependency cycle broken: [d].[p] -> [d].[q]''])"
  by code_simp

lemma order_respects_references_witness:
  "mset (map (\<lambda>i. sampleNodes ! i) [3, 1, 0, 2]) = mset sampleNodes \<and> \<not> acyclic (refRel sampleNodes sampleEdges)"
  using order_respects_references [OF sample_order] by simp


end
