(* ===== verification/Url.thy ===== *)
theory Url
  imports GoStrings "HOL-Library.Char_ord" "HOL-Library.List_Lexorder"
begin

text \<open>
  What the connection strings use of \<open>net/url\<close>: query values, percent escapes and the text of a
  URL, with a reader for each.  The round trips shown here are what makes a value written into a
  connection string come back as that value and as nothing else.
\<close>

section \<open>Escapes\<close>

datatype encoding = EncodePath | EncodeHost | EncodeUserPassword | EncodeQueryComponent

definition alnum :: "char \<Rightarrow> bool" where
  "alnum c \<longleftrightarrow> is_digit c \<or> is_upper c \<or> is_lower c"

text \<open>\<open>shouldEscape\<close>.\<close>

definition shouldEscape :: "char \<Rightarrow> encoding \<Rightarrow> bool" where
  "shouldEscape c mode =
     (if alnum c then False
      else if mode = EncodeHost \<and> (c \<in> set ''!$&()*+,;=:[]<>'' \<or> c = squote \<or> c = dquote) then False
      else if c \<in> set ''-_.~'' then False
      else if c \<in> set ''$&+,/:;=?@'' then
        (case mode of
           EncodePath \<Rightarrow> c = CHR ''?''
         | EncodeUserPassword \<Rightarrow> c \<in> set ''@/?:''
         | EncodeQueryComponent \<Rightarrow> True
         | EncodeHost \<Rightarrow> True)
      else True)"

definition upperhex :: "nat \<Rightarrow> char" where
  "upperhex n = (if n < 10 then char_of (48 + n) else char_of (55 + n))"

fun url_escape :: "encoding \<Rightarrow> string \<Rightarrow> string" where
  "url_escape mode [] = []"
| "url_escape mode (c # s) =
     (if c = CHR '' '' \<and> mode = EncodeQueryComponent then CHR ''+'' # url_escape mode s
      else if shouldEscape c mode
      then CHR ''%'' # upperhex (of_char c div 16) # upperhex (of_char c mod 16) # url_escape mode s
      else c # url_escape mode s)"

definition unhex :: "char \<Rightarrow> nat option" where
  "unhex c = (let n = (of_char c :: nat) in
     if 48 \<le> n \<and> n \<le> 57 then Some (n - 48)
     else if 97 \<le> n \<and> n \<le> 102 then Some (n - 87)
     else if 65 \<le> n \<and> n \<le> 70 then Some (n - 55) else None)"

text \<open>Reading escapes back; \<open>None\<close> for a malformed one.\<close>

fun url_unescape :: "bool \<Rightarrow> string \<Rightarrow> string option" where
  "url_unescape sp [] = Some []"
| "url_unescape sp (c # s) =
     (if c = CHR ''%'' then
        (case s of
           a # b # t \<Rightarrow>
             (case (unhex a, unhex b) of
                (Some x, Some y) \<Rightarrow> map_option ((#) (char_of (x * 16 + y))) (url_unescape sp t)
              | _ \<Rightarrow> None)
         | _ \<Rightarrow> None)
      else if c = CHR ''+'' \<and> sp then map_option ((#) (CHR '' '')) (url_unescape sp s)
      else map_option ((#) c) (url_unescape sp s))"

lemma unhex_upperhex: "n < 16 \<Longrightarrow> unhex (upperhex n) = Some n"
  by (auto simp: unhex_def upperhex_def)

lemma of_char_hex: "(of_char c :: nat) div 16 < 16" "(of_char c :: nat) mod 16 < 16"
proof -
  have "(of_char c :: nat) < 256" by simp
  then show "(of_char c :: nat) div 16 < 16" "(of_char c :: nat) mod 16 < 16" by linarith+
qed

lemma char_hex: "char_of ((of_char c :: nat) div 16 * 16 + of_char c mod 16) = c"
  by (simp only: div_mult_mod_eq char_of_char)

lemma plain_not_percent: "\<not> shouldEscape c mode \<Longrightarrow> c \<noteq> CHR ''%''"
  by (auto simp: shouldEscape_def alnum_def is_digit_def is_upper_def is_lower_def char_consts)

lemma plain_not_plus: "\<not> shouldEscape c EncodeQueryComponent \<Longrightarrow> c \<noteq> CHR ''+''"
  by (auto simp: shouldEscape_def alnum_def is_digit_def is_upper_def is_lower_def char_consts)

lemma unescape_escape:
  "url_unescape (mode = EncodeQueryComponent) (url_escape mode s) = Some s"
proof (induction s)
  case (Cons c s)
  then show ?case
    using plain_not_percent [of c mode] plain_not_plus [of c]
    by (cases mode) (auto simp: unhex_upperhex of_char_hex char_hex)
qed simp

text \<open>The characters an escaped text can hold.\<close>

lemma upperhex_char: "n < 16 \<Longrightarrow> is_digit (upperhex n) \<or> is_upper (upperhex n)"
  by (auto simp: upperhex_def is_digit_def is_upper_def)

lemma escape_chars:
  "x \<in> set (url_escape mode s) \<Longrightarrow> x = CHR ''%'' \<or> x = CHR ''+'' \<and> mode = EncodeQueryComponent \<or>
     \<not> shouldEscape x mode"
proof (induction s)
  case (Cons c s)
  have "\<not> shouldEscape (upperhex n) mode" if "n < 16" for n
    using upperhex_char [OF that] by (auto simp: shouldEscape_def alnum_def)
  then show ?case using Cons of_char_hex [of c] by (auto split: if_splits)
qed simp

lemma escape_free:
  "shouldEscape x mode \<Longrightarrow> x \<noteq> CHR ''%'' \<Longrightarrow> x \<noteq> CHR ''+'' \<Longrightarrow> x \<notin> set (url_escape mode s)"
  using escape_chars by blast

section \<open>Query values\<close>

text \<open>
  A \<open>url.Values\<close> the package builds has one value per key; \<open>Set\<close> replaces it.
\<close>

type_synonym qvalues = "(string \<times> string) list"

fun qSet :: "qvalues \<Rightarrow> string \<Rightarrow> string \<Rightarrow> qvalues" where
  "qSet [] k v = [(k, v)]"
| "qSet ((k', v') # q) k v = (if k' = k then (k, v) # q else (k', v') # qSet q k v)"

definition qDel :: "qvalues \<Rightarrow> string \<Rightarrow> qvalues" where
  "qDel q k = filter (\<lambda>(k', v). k' \<noteq> k) q"

definition qGet :: "qvalues \<Rightarrow> string \<Rightarrow> string" where
  "qGet q k = (case map_of q k of None \<Rightarrow> [] | Some v \<Rightarrow> v)"

definition qEncode :: "qvalues \<Rightarrow> string" where
  "qEncode q = str_join ''&'' (map (\<lambda>k. url_escape EncodeQueryComponent k @ ''='' @
       url_escape EncodeQueryComponent (qGet q k)) (sort (map fst q)))"

text \<open>Reading a query back.\<close>

definition cutAt :: "char \<Rightarrow> string \<Rightarrow> (string \<times> string) option" where
  "cutAt c s = (case index_byte s c of None \<Rightarrow> None | Some i \<Rightarrow> Some (take i s, drop (Suc i) s))"

definition readPair :: "string \<Rightarrow> (string \<times> string) option" where
  "readPair s =
     (case cutAt (CHR ''='') s of
        None \<Rightarrow> None
      | Some (a, b) \<Rightarrow>
          (case (url_unescape True a, url_unescape True b) of (Some k, Some v) \<Rightarrow> Some (k, v) | _ \<Rightarrow> None))"

definition readQuery :: "string \<Rightarrow> (string \<times> string) option list" where
  "readQuery s = (if s = [] then [] else map readPair (split_byte s (CHR ''&'')))"

lemma cutAt_append: "c \<notin> set a \<Longrightarrow> cutAt c (a @ c # b) = Some (a, b)"
  using index_byte_append [of c a b] by (simp add: cutAt_def)

lemma qSet_map: "map_of (qSet q k v) = (map_of q)(k \<mapsto> v)"
  by (induction q k v rule: qSet.induct) auto

lemma qSet_keys: "set (map fst (qSet q k v)) = insert k (set (map fst q))"
  by (induction q k v rule: qSet.induct) auto

lemma qSet_distinct: "distinct (map fst q) \<Longrightarrow> distinct (map fst (qSet q k v))"
proof (induction q k v rule: qSet.induct)
  case (2 k' v' q k v)
  then show ?case using qSet_keys [of q k v] by (auto simp del: set_map)
qed simp

lemma qDel_map: "map_of (qDel q k) = (map_of q)(k := None)"
  by (induction q) (auto simp: qDel_def)

lemma qDel_distinct: "distinct (map fst q) \<Longrightarrow> distinct (map fst (qDel q k))"
  by (induction q) (auto simp: qDel_def)

lemma readPair_escape:
  "readPair (url_escape EncodeQueryComponent k @ ''='' @ url_escape EncodeQueryComponent v) = Some (k, v)"
proof -
  have "CHR ''='' \<notin> set (url_escape EncodeQueryComponent k)"
    by (rule escape_free) (simp_all add: shouldEscape_def alnum_def is_digit_def is_upper_def is_lower_def char_consts)
  then show ?thesis
    using unescape_escape [of EncodeQueryComponent] by (simp add: readPair_def cutAt_append)
qed

lemma qGet_in: "distinct (map fst q) \<Longrightarrow> (k, v) \<in> set q \<Longrightarrow> qGet q k = v"
  by (simp add: qGet_def map_of_is_SomeI)

text \<open>What is encoded reads back as its pairs, in the order of their keys.\<close>

lemma readQuery_encode:
  assumes "distinct (map fst q)"
  shows "readQuery (qEncode q) = map (\<lambda>k. Some (k, qGet q k)) (sort (map fst q))"
proof (cases "q = []")
  case True
  then show ?thesis by (simp add: readQuery_def qEncode_def)
next
  case False
  let ?e = "\<lambda>k. url_escape EncodeQueryComponent k @ ''='' @ url_escape EncodeQueryComponent (qGet q k)"
  let ?ks = "sort (map fst q)"
  have ne: "?ks \<noteq> []" using False by (metis length_0_conv length_map length_sort)
  have "CHR ''&'' \<notin> set (url_escape EncodeQueryComponent s)" for s
    by (rule escape_free) (simp_all add: shouldEscape_def alnum_def is_digit_def is_upper_def is_lower_def char_consts)
  then have "split_byte (str_join [CHR ''&''] (map ?e ?ks)) (CHR ''&'') = map ?e ?ks"
    using ne by (intro split_join) auto
  moreover have "str_join ''&'' (map ?e ?ks) \<noteq> []"
    using ne by (cases ?ks) (auto simp: str_join_Cons)
  moreover have "map readPair (map ?e ?ks) = map (\<lambda>k. Some (k, qGet q k)) ?ks"
    using readPair_escape by simp
  ultimately show ?thesis unfolding readQuery_def qEncode_def by (simp only: if_False)
qed

section \<open>The text of a URL\<close>

text \<open>\<open>url.User\<close> and \<open>url.UserPassword\<close>.\<close>

record userinfo =
  uiName :: string
  uiPassword :: "string option"

record url =
  urlUser :: "userinfo option"
  urlHost :: string
  urlPath :: string
  urlQuery :: string

definition userText :: "userinfo \<Rightarrow> string" where
  "userText u =
     (if uiName u = [] \<and> (uiPassword u = None \<or> uiPassword u = Some []) then []
      else url_escape EncodeUserPassword (uiName u) @
        (case uiPassword u of None \<Rightarrow> [] | Some p \<Rightarrow> '':'' @ url_escape EncodeUserPassword p))"

text \<open>\<open>URL.String\<close> for the scheme \<open>sqlserver\<close> and a path that is empty or begins with a slash.\<close>

definition urlString :: "url \<Rightarrow> string" where
  "urlString u =
     ''sqlserver:'' @
     (if urlHost u \<noteq> [] \<or> urlPath u \<noteq> [] \<or> urlUser u \<noteq> None then
        ''//'' @ (case urlUser u of None \<Rightarrow> [] | Some i \<Rightarrow> userText i @ ''@'') @ url_escape EncodeHost (urlHost u)
      else []) @
     url_escape EncodePath (urlPath u) @
     (if urlQuery u \<noteq> [] then ''?'' @ urlQuery u else [])"

text \<open>
  Reading one back: the query after the first \<open>?\<close>, the path from the first slash of the rest, and the
  user information before the last \<open>@\<close> of what is left.
\<close>

definition readUser :: "string \<Rightarrow> (string \<times> string option) option" where
  "readUser s =
     (case cutAt (CHR '':'') s of
        None \<Rightarrow> map_option (\<lambda>n. (n, None)) (url_unescape False s)
      | Some (a, b) \<Rightarrow>
          (case (url_unescape False a, url_unescape False b) of
             (Some n, Some p) \<Rightarrow> Some (n, Some p) | _ \<Rightarrow> None))"

record urlRead =
  rdUser :: "(string \<times> string option) option option"
  rdHost :: "string option"
  rdPath :: "string option"
  rdQuery :: "(string \<times> string) option list"

definition readURL :: "string \<Rightarrow> urlRead option" where
  "readURL s =
     (if \<not> has_prefix s ''sqlserver://'' then None
      else let t = drop 12 s;
               (front, query) = (case cutAt (CHR ''?'') t of None \<Rightarrow> (t, []) | Some (a, b) \<Rightarrow> (a, b));
               (authority, path) = (case index_byte front (CHR ''/'') of None \<Rightarrow> (front, []) | Some i \<Rightarrow> (take i front, drop i front));
               (user, host) = (case last_index_any authority ''@'' of
                  None \<Rightarrow> (None, authority)
                | Some i \<Rightarrow> (Some (readUser (take i authority)), drop (Suc i) authority))
           in Some \<lparr> rdUser = user, rdHost = url_unescape False host, rdPath = url_unescape False path,
                     rdQuery = readQuery query \<rparr>)"

end
