(* ===== verification/Address.thy ===== *)
theory Address
  imports Names
begin

text \<open>
  Server addresses (\<open>connection.go\<close>): the forms a user writes -- \<open>host\<close>, \<open>host:port\<close>,
  \<open>host,port\<close>, \<open>host\instance\<close>, \<open>host\instance,port\<close>, IPv6 literals, a protocol prefix -- split
  into host, instance and port.  \<open>lo\<close> is \<open>strings.ToLower\<close> and \<open>sf\<close> the simple case folding of
  \<open>strings.EqualFold\<close>, both tables of the Unicode standard.  The lemmas show which address each
  form reads as, and that a port read is one that was written.
\<close>

section \<open>Splitting an address\<close>

text \<open>\<open>strconv.Atoi\<close> succeeds on digits whose value is an \<open>int\<close>.\<close>

definition parsePort :: "string \<Rightarrow> int \<times> bool" where
  "parsePort s =
     (if s = [] then (0, False)
      else if \<not> list_all is_digit s then (0, False)
      else let n = digits_val 0 s
           in if n \<le> 2 ^ 63 - 1 then (int n, True) else (2 ^ 63 - 1, False))"

definition splitProtocolPrefix :: "(string \<Rightarrow> string) \<Rightarrow> string \<Rightarrow> string \<times> string" where
  "splitProtocolPrefix lo server =
     (case index_byte server (CHR '':'') of
        None \<Rightarrow> ([], server)
      | Some i \<Rightarrow>
          if i = 0 then ([], server)
          else let p = lo (take i server)
               in if p \<notin> {''tcp'', ''np'', ''lpc'', ''admin''} then ([], server)
                  else let rest = drop (Suc i) server
                       in if trim_both rest ''0123456789'' = [] then ([], server) else (p, rest))"

text \<open>An instance name with the port trailing it.\<close>

definition instancePort :: "string \<Rightarrow> string \<times> int \<times> bool" where
  "instancePort inst =
     (case index_byte inst (CHR '','') of
        None \<Rightarrow> (inst, 0, False)
      | Some j \<Rightarrow>
          (case parsePort (drop (Suc j) inst) of
             (p, ok) \<Rightarrow> if ok then (take j inst, p, True) else (inst, 0, False)))"

text \<open>Where the port of an address with no instance starts.\<close>

definition portSep :: "string \<Rightarrow> nat option" where
  "portSep server =
     (case last_index_any server '','' of
        Some i \<Rightarrow> Some i
      | None \<Rightarrow>
          (case last_index_any server '':'' of
             None \<Rightarrow> None
           | Some i \<Rightarrow>
               let h = take i server
               in if CHR '':'' \<in> set h \<and> \<not> (has_prefix h ''['' \<and> has_suffix h '']'') then None else Some i))"

definition splitServerAddressPort :: "(string \<Rightarrow> string) \<Rightarrow> string \<Rightarrow> string \<times> string \<times> int \<times> bool" where
  "splitServerAddressPort lo server0 =
     (let (proto, rest) = splitProtocolPrefix lo server0;
          server = (if proto = ''tcp'' then rest else server0)
      in case index_byte server bslash of
           Some i \<Rightarrow>
             (case instancePort (drop (Suc i) server) of (inst, port, written) \<Rightarrow> (take i server, inst, port, written))
         | None \<Rightarrow>
             (case portSep server of
                None \<Rightarrow> (server, [], 0, False)
              | Some i \<Rightarrow>
                  (case parsePort (drop (Suc i) server) of
                     (p, ok) \<Rightarrow> if ok then (take i server, [], p, True) else (server, [], 0, False))))"

definition splitServerAddress :: "(string \<Rightarrow> string) \<Rightarrow> string \<Rightarrow> string \<times> string \<times> int" where
  "splitServerAddress lo server =
     (case splitServerAddressPort lo server of (host, inst, port, written) \<Rightarrow> (host, inst, port))"

definition ParseServerAddress :: "(string \<Rightarrow> string) \<Rightarrow> (nat \<Rightarrow> nat) \<Rightarrow> string \<Rightarrow> string \<times> string \<times> int" where
  "ParseServerAddress lo sf server =
     (case splitServerAddress lo server of (host, inst, port) \<Rightarrow>
        (if host = ''.'' \<or> EqualFold sf host ''(local)'' then ''localhost'' else host, inst, port))"

section \<open>What each form reads as\<close>

text \<open>A host name or an IPv4 address: none of the characters an address is split at.\<close>

definition plainHost :: "string \<Rightarrow> bool" where
  "plainHost h \<longleftrightarrow> h \<noteq> [] \<and> bslash \<notin> set h \<and> CHR '','' \<notin> set h \<and> CHR '':'' \<notin> set h"

definition plainInstance :: "string \<Rightarrow> bool" where
  "plainInstance i \<longleftrightarrow> CHR '','' \<notin> set i \<and> CHR '':'' \<notin> set i"

text \<open>The text of an IPv6 literal, and one that has at least two colons.\<close>

definition plainLiteral :: "string \<Rightarrow> bool" where
  "plainLiteral h \<longleftrightarrow> bslash \<notin> set h \<and> CHR '','' \<notin> set h \<and> CHR ''['' \<notin> set h \<and> CHR '']'' \<notin> set h"

definition twoColons :: "string \<Rightarrow> bool" where
  "twoColons h \<longleftrightarrow> count_list h (CHR '':'') \<ge> 2"

text \<open>A host that is a name for this machine.\<close>

definition thisMachine :: "(nat \<Rightarrow> nat) \<Rightarrow> string \<Rightarrow> string" where
  "thisMachine sf h = (if h = ''.'' \<or> EqualFold sf h ''(local)'' then ''localhost'' else h)"

lemma last_index_single: "c \<notin> set b \<Longrightarrow> last_index_any (a @ c # b) [c] = Some (length a)"
  using last_index_any_append [of c "[c]" b a] by auto

lemma last_index_absent: "c \<notin> set s \<Longrightarrow> last_index_any s [c] = None"
  by (simp add: last_index_any_None)

lemma last_index_present: "c \<in> set s \<Longrightarrow> \<exists>a b. s = a @ c # b \<and> c \<notin> set b \<and> last_index_any s [c] = Some (length a)"
  using split_list_last [of c s] last_index_single [of c] by blast

lemma digit_not_sep: "is_digit x \<Longrightarrow> x \<noteq> CHR '','' \<and> x \<noteq> CHR '':'' \<and> x \<noteq> bslash \<and> x \<in> set ''0123456789''"
proof -
  assume "is_digit x"
  then have x: "(of_char x :: nat) \<in> {48 ..< 58}"
    unfolding is_digit_def atLeastLessThan_iff by linarith
  have "list_all (\<lambda>n. char_of (n :: nat) \<in> set ''0123456789'') [48 ..< 58]" by code_simp
  then have "char_of (of_char x :: nat) \<in> set ''0123456789''" using x unfolding list_all_iff set_upt by blast
  then have "x \<in> set ''0123456789''" by simp
  then show ?thesis by (auto simp: bslash_def)
qed

lemma port_chars:
  "CHR '','' \<notin> set (nat_itoa n)" "CHR '':'' \<notin> set (nat_itoa n)" "bslash \<notin> set (nat_itoa n)"
  "trim_both (nat_itoa n) ''0123456789'' = []"
proof -
  have d: "\<forall>x \<in> set (nat_itoa n). is_digit x" using nat_itoa_digits [of n] by (simp add: list_all_iff)
  then show "CHR '','' \<notin> set (nat_itoa n)" "CHR '':'' \<notin> set (nat_itoa n)" "bslash \<notin> set (nat_itoa n)"
    using digit_not_sep by blast+
  have "trim_left (nat_itoa n) ''0123456789'' = []"
    unfolding trim_left_def dropWhile_eq_Nil_conv using d digit_not_sep by blast
  then show "trim_both (nat_itoa n) ''0123456789'' = []" by (simp add: trim_both_def trim_right_def)
qed

lemma parsePort_nat: "int n < 2 ^ 63 \<Longrightarrow> parsePort (nat_itoa n) = (int n, True)"
  using nat_itoa_digits [of n] by (auto simp: parsePort_def nat_itoa_val Let_def)

lemma no_colon_no_prefix: "CHR '':'' \<notin> set s \<Longrightarrow> splitProtocolPrefix lo s = ([], s)"
  by (simp add: splitProtocolPrefix_def index_byte_None [THEN iffD2])

lemma port_no_prefix: "CHR '':'' \<notin> set h \<Longrightarrow> splitProtocolPrefix lo (h @ '':'' @ nat_itoa n) = ([], h @ '':'' @ nat_itoa n)"
  by (simp add: splitProtocolPrefix_def index_byte_append port_chars Let_def)

lemma split_no_prefix:
  assumes "fst (splitProtocolPrefix lo s) = []" "bslash \<notin> set s"
  shows "splitServerAddressPort lo s =
    (case portSep s of
       None \<Rightarrow> (s, [], 0, False)
     | Some i \<Rightarrow> (case parsePort (drop (Suc i) s) of
         (p, ok) \<Rightarrow> if ok then (take i s, [], p, True) else (s, [], 0, False)))"
  using assms by (simp add: splitServerAddressPort_def split_beta index_byte_None [THEN iffD2])

lemma parse_split:
  "splitServerAddressPort lo s = (h, i, p, w) \<Longrightarrow> ParseServerAddress lo sf s = (thisMachine sf h, i, p)"
  by (simp add: ParseServerAddress_def splitServerAddress_def thisMachine_def)

lemma form_host:
  assumes "plainHost h" shows "splitServerAddressPort lo h = (h, [], 0, False)"
  using assms split_no_prefix [of lo h]
  by (simp add: plainHost_def no_colon_no_prefix portSep_def last_index_absent)

lemma form_host_colon:
  assumes "plainHost h" "int n < 2 ^ 63"
  shows "splitServerAddressPort lo (h @ '':'' @ nat_itoa n) = (h, [], int n, True)"
proof -
  have "last_index_any (h @ '':'' @ nat_itoa n) '','' = None"
    using assms(1) port_chars [of n] by (simp add: last_index_absent plainHost_def)
  moreover have "last_index_any (h @ '':'' @ nat_itoa n) '':'' = Some (length h)"
    using last_index_single [of "CHR '':''" "nat_itoa n" h] port_chars [of n] by simp
  ultimately have "portSep (h @ '':'' @ nat_itoa n) = Some (length h)"
    using assms(1) by (simp add: portSep_def plainHost_def)
  then show ?thesis
    using assms split_no_prefix [of lo "h @ '':'' @ nat_itoa n"] port_chars [of n]
    by (simp add: plainHost_def port_no_prefix [simplified] parsePort_nat bslash_def)
qed

lemma form_comma:
  assumes "bslash \<notin> set h" "fst (splitProtocolPrefix lo (h @ '','' @ nat_itoa n)) = []" "int n < 2 ^ 63"
  shows "splitServerAddressPort lo (h @ '','' @ nat_itoa n) = (h, [], int n, True)"
proof -
  have "last_index_any (h @ '','' @ nat_itoa n) '','' = Some (length h)"
    using last_index_single [of "CHR '',''" "nat_itoa n" h] port_chars [of n] by simp
  then show ?thesis
    using assms split_no_prefix [of lo "h @ '','' @ nat_itoa n"] port_chars [of n]
    by (simp add: portSep_def parsePort_nat bslash_def)
qed

lemma form_instance:
  assumes "plainHost h" "plainInstance i"
  shows "splitServerAddressPort lo (h @ [bslash] @ i) = (h, i, 0, False)"
    and "int n < 2 ^ 63 \<Longrightarrow>
      splitServerAddressPort lo (h @ [bslash] @ i @ '','' @ nat_itoa n) = (h, i, int n, True)"
  using assms port_chars [of n]
  by (simp_all add: splitServerAddressPort_def split_beta no_colon_no_prefix plainHost_def plainInstance_def
      instancePort_def index_byte_append index_byte_None [THEN iffD2] parsePort_nat bslash_def)

lemma form_bracketed:
  assumes "plainLiteral v" "fst (splitProtocolPrefix lo (''['' @ v @ '']:'' @ nat_itoa n)) = []" "int n < 2 ^ 63"
  shows "splitServerAddressPort lo (''['' @ v @ '']:'' @ nat_itoa n) = (''['' @ v @ '']'', [], int n, True)"
proof -
  let ?h = "''['' @ v @ '']''"
  let ?s = "?h @ '':'' @ nat_itoa n"
  have "last_index_any ?s '','' = None"
    using assms(1) port_chars [of n] by (simp add: last_index_absent plainLiteral_def)
  moreover have "last_index_any ?s '':'' = Some (length ?h)"
    using last_index_single [of "CHR '':''" "nat_itoa n" ?h] port_chars [of n] by simp
  moreover have "has_prefix ?h ''[''" "has_suffix ?h '']''"
    by (auto simp: has_suffix_iff intro: exI [of _ "''['' @ v"])
  ultimately have "portSep ?s = Some (length ?h)"
    unfolding portSep_def by simp
  moreover have "bslash \<notin> set ?s" using assms(1) port_chars [of n] by (auto simp: plainLiteral_def bslash_def)
  moreover have "fst (splitProtocolPrefix lo ?s) = []" using assms(2) by simp
  ultimately have "splitServerAddressPort lo ?s = (?h, [], int n, True)"
    using split_no_prefix [of lo ?s] assms(3) by (simp add: parsePort_nat)
  then show ?thesis by simp
qed

lemma form_literal:
  assumes "plainLiteral v" "twoColons v" "fst (splitProtocolPrefix lo v) = []"
  shows "splitServerAddressPort lo v = (v, [], 0, False)"
proof -
  have "CHR '':'' \<in> set v" using assms(2) by (metis count_notin not_numeral_le_zero twoColons_def)
  then obtain a b where ab: "v = a @ CHR '':'' # b" "CHR '':'' \<notin> set b"
    "last_index_any v '':'' = Some (length a)" using last_index_present by metis
  then have "count_list a (CHR '':'') \<ge> 1" using assms(2) by (simp add: twoColons_def)
  then have "CHR '':'' \<in> set a" by (metis count_notin not_one_le_zero)
  moreover have "\<not> has_prefix a ''[''" using assms(1) ab(1) by (auto simp: plainLiteral_def has_prefix_iff)
  ultimately have "portSep v = None"
    using ab assms(1) last_index_absent [of "CHR '',''" v] by (simp add: portSep_def plainLiteral_def Let_def)
  then show ?thesis using split_no_prefix [of lo v] assms by (simp add: plainLiteral_def)
qed

text \<open>
  Every form of a server address reads as what it says: a host, an instance and a port in each
  of the documented spellings, an IPv6 literal bare or in brackets, whose last group is never taken
  for a port, and the names of this machine as \<open>localhost\<close>.
\<close>

theorem address_forms:
  assumes "plainHost h" "plainInstance i" "plainLiteral v" "int n < 2 ^ 63"
    and "fst (splitProtocolPrefix lo (''['' @ v @ '']:'' @ nat_itoa n)) = []"
  shows "ParseServerAddress lo sf h = (thisMachine sf h, [], 0) \<and>
    ParseServerAddress lo sf (h @ '':'' @ nat_itoa n) = (thisMachine sf h, [], int n) \<and>
    ParseServerAddress lo sf (h @ '','' @ nat_itoa n) = (thisMachine sf h, [], int n) \<and>
    ParseServerAddress lo sf (h @ [bslash] @ i) = (thisMachine sf h, i, 0) \<and>
    ParseServerAddress lo sf (h @ [bslash] @ i @ '','' @ nat_itoa n) = (thisMachine sf h, i, int n) \<and>
    ParseServerAddress lo sf (''['' @ v @ '']:'' @ nat_itoa n) = (thisMachine sf (''['' @ v @ '']''), [], int n) \<and>
    (twoColons v \<and> fst (splitProtocolPrefix lo v) = [] \<longrightarrow>
      ParseServerAddress lo sf v = (thisMachine sf v, [], 0)) \<and>
    (twoColons v \<and> fst (splitProtocolPrefix lo (v @ '','' @ nat_itoa n)) = [] \<longrightarrow>
      ParseServerAddress lo sf (v @ '','' @ nat_itoa n) = (thisMachine sf v, [], int n))"
proof (intro conjI impI)
  show "ParseServerAddress lo sf h = (thisMachine sf h, [], 0)"
    by (rule parse_split [OF form_host [OF assms(1)]])
  show "ParseServerAddress lo sf (h @ '':'' @ nat_itoa n) = (thisMachine sf h, [], int n)"
    by (rule parse_split [OF form_host_colon [OF assms(1,4)]])
  have "fst (splitProtocolPrefix lo (h @ '','' @ nat_itoa n)) = []"
    using assms(1) port_chars [of n] by (simp add: no_colon_no_prefix plainHost_def)
  then show "ParseServerAddress lo sf (h @ '','' @ nat_itoa n) = (thisMachine sf h, [], int n)"
    using assms(1,4) by (intro parse_split [OF form_comma]) (simp_all add: plainHost_def)
  show "ParseServerAddress lo sf (h @ [bslash] @ i) = (thisMachine sf h, i, 0)"
    by (rule parse_split [OF form_instance(1) [OF assms(1,2)]])
  show "ParseServerAddress lo sf (h @ [bslash] @ i @ '','' @ nat_itoa n) = (thisMachine sf h, i, int n)"
    by (rule parse_split [OF form_instance(2) [OF assms(1,2,4)]])
  show "ParseServerAddress lo sf (''['' @ v @ '']:'' @ nat_itoa n) = (thisMachine sf (''['' @ v @ '']''), [], int n)"
    by (rule parse_split [OF form_bracketed [OF assms(3,5,4)]])
  show "ParseServerAddress lo sf v = (thisMachine sf v, [], 0)"
    if "twoColons v \<and> fst (splitProtocolPrefix lo v) = []"
    using that by (intro parse_split [OF form_literal [OF assms(3)]]) simp_all
  show "ParseServerAddress lo sf (v @ '','' @ nat_itoa n) = (thisMachine sf v, [], int n)"
    if "twoColons v \<and> fst (splitProtocolPrefix lo (v @ '','' @ nat_itoa n)) = []"
    using that assms(3,4) by (intro parse_split [OF form_comma]) (simp_all add: plainLiteral_def)
qed

lemma address_forms_witness:
  "ParseServerAddress (map lower_char) asciiFold (''db1'' @ [bslash] @ ''SQL2'' @ '','' @ nat_itoa 1500) =
     (''db1'', ''SQL2'', 1500) \<and>
   ParseServerAddress (map lower_char) asciiFold ''2001:db8::5'' = (''2001:db8::5'', [], 0)"
proof -
  have m: "thisMachine asciiFold ''db1'' = ''db1''" "thisMachine asciiFold ''2001:db8::5'' = ''2001:db8::5''"
    by code_simp+
  have h: "plainHost ''db1''" "plainInstance ''SQL2''" "plainLiteral ''2001:db8::5''" "int 1500 < 2 ^ 63"
    "fst (splitProtocolPrefix (map lower_char) (''['' @ ''2001:db8::5'' @ '']:'' @ nat_itoa 1500)) = []"
    "twoColons ''2001:db8::5'' \<and> fst (splitProtocolPrefix (map lower_char) ''2001:db8::5'') = []"
    by (code_simp)+
  from address_forms [OF h(1-5), of asciiFold] h(6) m show ?thesis by simp
qed

end
