(* ===== verification/Dsn.thy ===== *)
theory Dsn
  imports Url Address
begin

text \<open>
  Connection strings (\<open>connection_dsn.go\<close>, \<open>auth.go\<close>, \<open>kerberos.go\<close> and \<open>ConnectionOptions\<close> of
  \<open>connection.go\<close>): the options of a connection become one \<open>sqlserver://\<close> URL, with the target as
  its host and path and everything else as query values.  \<open>goos\<close> is \<open>runtime.GOOS\<close>, \<open>lo\<close>
  \<open>strings.ToLower\<close> and \<open>sf\<close> the folding of \<open>strings.EqualFold\<close>.  The lemmas read the URL back: no
  option can change what another one says, and \<open>ExtraParams\<close> cannot touch what a field controls,
  in whatever order Go's map hands them out.
\<close>

section \<open>Authentication methods\<close>

text \<open>\<open>OtherAuth n\<close> is an \<open>AuthMethod\<close> value that names no method.\<close>

datatype AuthMethod =
    AuthSQLServer | AuthWindows | AuthEntraDefault | AuthEntraPassword | AuthEntraMSI
  | AuthEntraServicePrincipal | AuthEntraServicePrincipalAccessToken | AuthEntraIntegrated
  | AuthEntraInteractive | AuthEntraDeviceCode | AuthEntraAzCLI | AuthEntraAzureDeveloperCLI
  | AuthEntraAzurePipelines | AuthEntraOnBehalfOf | OtherAuth int

definition authMethodNames :: "(AuthMethod \<times> string) list" where
  "authMethodNames =
     [(AuthSQLServer, ''AuthSQLServer''), (AuthWindows, ''AuthWindows''), (AuthEntraDefault, ''AuthEntraDefault''),
      (AuthEntraPassword, ''AuthEntraPassword''), (AuthEntraMSI, ''AuthEntraMSI''),
      (AuthEntraServicePrincipal, ''AuthEntraServicePrincipal''),
      (AuthEntraServicePrincipalAccessToken, ''AuthEntraServicePrincipalAccessToken''),
      (AuthEntraIntegrated, ''AuthEntraIntegrated''), (AuthEntraInteractive, ''AuthEntraInteractive''),
      (AuthEntraDeviceCode, ''AuthEntraDeviceCode''), (AuthEntraAzCLI, ''AuthEntraAzCLI''),
      (AuthEntraAzureDeveloperCLI, ''AuthEntraAzureDeveloperCLI''),
      (AuthEntraAzurePipelines, ''AuthEntraAzurePipelines''), (AuthEntraOnBehalfOf, ''AuthEntraOnBehalfOf'')]"

definition authNumber :: "AuthMethod \<Rightarrow> int" where
  "authNumber m =
     (case m of AuthSQLServer \<Rightarrow> 0 | AuthWindows \<Rightarrow> 1 | AuthEntraDefault \<Rightarrow> 2 | AuthEntraPassword \<Rightarrow> 3
      | AuthEntraMSI \<Rightarrow> 4 | AuthEntraServicePrincipal \<Rightarrow> 5 | AuthEntraServicePrincipalAccessToken \<Rightarrow> 6
      | AuthEntraIntegrated \<Rightarrow> 7 | AuthEntraInteractive \<Rightarrow> 8 | AuthEntraDeviceCode \<Rightarrow> 9 | AuthEntraAzCLI \<Rightarrow> 10
      | AuthEntraAzureDeveloperCLI \<Rightarrow> 11 | AuthEntraAzurePipelines \<Rightarrow> 12 | AuthEntraOnBehalfOf \<Rightarrow> 13
      | OtherAuth n \<Rightarrow> n)"

definition authString :: "AuthMethod \<Rightarrow> string" where
  "authString m =
     (case map_of authMethodNames m of Some s \<Rightarrow> s
      | None \<Rightarrow> ''AuthMethod('' @ itoa (authNumber m) @ '')'')"

definition isEntraMethod :: "AuthMethod \<Rightarrow> bool" where
  "isEntraMethod m \<longleftrightarrow> authNumber m \<ge> authNumber AuthEntraDefault"

definition fedauthValue :: "(AuthMethod \<times> string) list" where
  "fedauthValue =
     [(AuthEntraDefault, ''ActiveDirectoryDefault''), (AuthEntraPassword, ''ActiveDirectoryPassword''),
      (AuthEntraMSI, ''ActiveDirectoryManagedIdentity''),
      (AuthEntraServicePrincipal, ''ActiveDirectoryServicePrincipal''),
      (AuthEntraServicePrincipalAccessToken, ''ActiveDirectoryServicePrincipalAccessToken''),
      (AuthEntraIntegrated, ''ActiveDirectoryIntegrated''), (AuthEntraInteractive, ''ActiveDirectoryInteractive''),
      (AuthEntraDeviceCode, ''ActiveDirectoryDeviceCode''), (AuthEntraAzCLI, ''ActiveDirectoryAzCli''),
      (AuthEntraAzureDeveloperCLI, ''ActiveDirectoryAzureDeveloperCli''),
      (AuthEntraAzurePipelines, ''ActiveDirectoryAzurePipelines''), (AuthEntraOnBehalfOf, ''ActiveDirectoryOnBehalfOf'')]"

definition defaultPublicClientID :: string where
  "defaultPublicClientID = ''04b07795-8ddb-461a-bbee-02f9e1bf7b46''"

section \<open>Options\<close>

record KerberosOptions =
  kConfigFile :: string
  kCredCacheFile :: string
  kKeytabFile :: string
  kRealm :: string
  kDNSLookupKDC :: "bool option"
  kUDPPreferenceLimit :: int

text \<open>
  Durations are nanoseconds.  Of the fields that hold a function or an object only whether they
  are set is kept.  \<open>oExtraParams\<close> is the map in the order its iteration takes.
\<close>

record ConnectionOptions =
  oServer :: string
  oPort :: int
  oDatabase :: string
  oAuth :: AuthMethod
  oUser :: string
  oPassword :: string
  oTenantID :: string
  oClientID :: string
  oClientCertPath :: string
  oClientCertPassword :: string
  oAccessToken :: string
  oAccessTokenProvider :: bool
  oApplicationClientID :: string
  oServerSPN :: string
  oKerberos :: KerberosOptions
  oEncrypt :: string
  oTrustServerCertificate :: bool
  oHostNameInCertificate :: string
  oDisableInstanceDiscovery :: bool
  oSendCertificateChain :: bool
  oTokenFilePath :: string
  oEntraCache :: bool
  oDeviceCodePrompt :: bool
  oConnectTimeout :: int
  oApplicationName :: string
  oMaxOpenConns :: int
  oMaxIdleConns :: int
  oConnMaxLifetime :: int
  oConnMaxIdleTime :: int
  oDialer :: bool
  oSessionInitSQL :: string
  oExtraParams :: "(string \<times> string list) list"

definition second :: int where
  "second = 1000000000"

definition applyDefaults :: "ConnectionOptions \<Rightarrow> ConnectionOptions" where
  "applyDefaults o1 =
     (let o2 = (if oConnectTimeout o1 = 0 then o1 \<lparr> oConnectTimeout := 30 * second \<rparr> else o1);
          o3 = (if oApplicationName o2 = [] then o2 \<lparr> oApplicationName := ''gosmo'' \<rparr> else o2);
          o4 = (if oDatabase o3 = [] then o3 \<lparr> oDatabase := ''master'' \<rparr> else o3);
          o5 = (if oMaxIdleConns o4 = 0 then o4 \<lparr> oMaxIdleConns := 2 \<rparr> else o4)
      in if oConnMaxIdleTime o5 = 0 then o5 \<lparr> oConnMaxIdleTime := 5 * 60 * second \<rparr> else o5)"

definition address :: "(string \<Rightarrow> string) \<Rightarrow> (nat \<Rightarrow> nat) \<Rightarrow> ConnectionOptions \<Rightarrow> string \<times> string \<times> int" where
  "address lo sf opts =
     (case ParseServerAddress lo sf (oServer opts) of (host, inst, port) \<Rightarrow>
        (host, inst, if port = 0 then oPort opts else port))"

definition configured :: "KerberosOptions \<Rightarrow> bool" where
  "configured k \<longleftrightarrow> kConfigFile k \<noteq> [] \<or> kCredCacheFile k \<noteq> [] \<or> kKeytabFile k \<noteq> [] \<or>
     kRealm k \<noteq> [] \<or> kDNSLookupKDC k \<noteq> None \<or> kUDPPreferenceLimit k \<noteq> 0"

text \<open>\<open>if cond { q.Set(k, v) }\<close>.\<close>

definition setIf :: "bool \<Rightarrow> string \<Rightarrow> string \<Rightarrow> qvalues \<Rightarrow> qvalues" where
  "setIf b k v q = (if b then qSet q k v else q)"

definition formatBool :: "bool \<Rightarrow> string" where
  "formatBool b = (if b then ''true'' else ''false'')"

definition applyDSN :: "KerberosOptions \<Rightarrow> qvalues \<Rightarrow> qvalues" where
  "applyDSN k q0 =
     (let q1 = setIf (kConfigFile k \<noteq> []) ''krb5-configfile'' (kConfigFile k) q0;
          q2 = setIf (kCredCacheFile k \<noteq> []) ''krb5-credcachefile'' (kCredCacheFile k) q1;
          q3 = setIf (kKeytabFile k \<noteq> []) ''krb5-keytabfile'' (kKeytabFile k) q2;
          q4 = setIf (kRealm k \<noteq> []) ''krb5-realm'' (kRealm k) q3;
          q5 = (case kDNSLookupKDC k of None \<Rightarrow> q4 | Some b \<Rightarrow> qSet q4 ''krb5-dnslookupkdc'' (formatBool b))
      in setIf (kUDPPreferenceLimit k \<noteq> 0) ''krb5-udppreferencelimit'' (itoa (kUDPPreferenceLimit k)) q5)"

section \<open>Query values\<close>

text \<open>Integer division of a duration truncates; the sum wraps at 64 bits.\<close>

definition wrap64 :: "int \<Rightarrow> int" where
  "wrap64 x = (x + 2 ^ 63) mod 2 ^ 64 - 2 ^ 63"

definition quot :: "int \<Rightarrow> int \<Rightarrow> int" where
  "quot a b = (if a < 0 then - ((- a) div b) else a div b)"

definition timeoutSeconds :: "int \<Rightarrow> int" where
  "timeoutSeconds t = quot (wrap64 (t + second - 1)) second"

definition commonDSNValues :: "ConnectionOptions \<Rightarrow> qvalues" where
  "commonDSNValues opts =
     (let timeout = itoa (timeoutSeconds (oConnectTimeout opts));
          q1 = qSet (qSet (qSet (qSet [] ''database'' (oDatabase opts)) ''app name'' (oApplicationName opts))
                 ''connection timeout'' timeout) ''dial timeout'' timeout;
          q2 = setIf (oTrustServerCertificate opts) ''TrustServerCertificate'' ''true'' q1;
          q3 = setIf (oEncrypt opts \<noteq> []) ''encrypt'' (oEncrypt opts) q2
      in setIf (oHostNameInCertificate opts \<noteq> []) ''hostNameInCertificate'' (oHostNameInCertificate opts) q3)"

definition reservedDSNKeys :: "string list" where
  "reservedDSNKeys =
     [''server'', ''port'', ''database'', ''user id'', ''password'', ''app name'', ''connection timeout'',
      ''encrypt'', ''trustservercertificate'', ''hostnameincertificate'',
      ''fedauth'', ''authenticator'', ''serverspn'', ''tenantid'',
      ''applicationclientid'', ''clientcertpath'', ''tokenfilepath'',
      ''sendcertificatechain'', ''disableinstancediscovery'', ''userassertion'',
      ''data source'', ''address'', ''network address'', ''addr'',
      ''initial catalog'', ''user'', ''uid'', ''pwd'',
      ''app'', ''application name'', ''connect timeout'', ''timeout'',
      ''trust server certificate'', ''host name in certificate'', ''server spn'']"

definition overridableDSNKeys :: "string list" where
  "overridableDSNKeys = [''dial timeout'']"

definition adoDSNSynonyms :: "(string \<times> string) list" where
  "adoDSNSynonyms =
     [(''application intent'', ''applicationintent''), (''multi subnet failover'', ''multisubnetfailover''),
      (''failover partner'', ''failoverpartner''), (''failover partner spn'', ''failoverpartnerspn''),
      (''server certificate'', ''servercertificate''), (''wsid'', ''workstation id''),
      (''column encryption setting'', ''columnencryption'')]"

text \<open>
  The error of a refused entry; \<open>reason\<close> and \<open>Reserved\<close> as given.  It wraps no sentinel of the
  package, so it is carried by its own type.
\<close>

record ExtraParamError =
  xKey :: string
  xReserved :: bool
  xReason :: string

definition extraErrorText :: "ExtraParamError \<Rightarrow> goerr" where
  "extraErrorText e = errorf ''gosmo: extra connection parameter %q %s'' [AText (xKey e), AText (xReason e)]"

definition canonicalKey :: "(string \<Rightarrow> string) \<Rightarrow> string \<Rightarrow> string" where
  "canonicalKey lo k =
     (let key = lo (trim_space k)
      in case map_of adoDSNSynonyms key of Some canonical \<Rightarrow> canonical | None \<Rightarrow> key)"

definition reservedReason :: string where
  "reservedReason = ''is set through a ConnectionOptions field, not ExtraParams''"

text \<open>The inner loop over the keys already set.\<close>

fun existingLoop :: "(nat \<Rightarrow> nat) \<Rightarrow> string \<Rightarrow> string \<Rightarrow> string list \<Rightarrow> qvalues \<Rightarrow> ExtraParamError + qvalues" where
  "existingLoop sf k key [] q = Inr q"
| "existingLoop sf k key (e # es) q =
     (if EqualFold sf e key then
        (if key \<notin> set overridableDSNKeys
         then Inl \<lparr> xKey = k, xReserved = True, xReason = reservedReason \<rparr>
         else existingLoop sf k key es (qDel q e))
      else existingLoop sf k key es q)"

fun mergeLoop :: "(string \<Rightarrow> string) \<Rightarrow> (nat \<Rightarrow> nat) \<Rightarrow> string list \<Rightarrow> qvalues \<Rightarrow> (string \<times> string list) list \<Rightarrow>
    ExtraParamError + qvalues" where
  "mergeLoop lo sf seen q [] = Inr q"
| "mergeLoop lo sf seen q ((k, vs) # extra) =
     (let key = canonicalKey lo k
      in if key = [] then Inl \<lparr> xKey = k, xReserved = False, xReason = ''has an empty name'' \<rparr>
         else if key \<in> set reservedDSNKeys \<or> has_prefix key ''krb5-''
         then Inl \<lparr> xKey = k, xReserved = True, xReason = reservedReason \<rparr>
         else if key \<in> set seen then Inl \<lparr> xKey = k, xReserved = False, xReason = ''is given more than once'' \<rparr>
         else if length vs \<noteq> 1
         then Inl \<lparr> xKey = k, xReserved = False,
                xReason = ''needs exactly one value, has '' @ itoa (int (length vs)) \<rparr>
         else (case existingLoop sf k key (map fst q) q of
             Inl e \<Rightarrow> Inl e
           | Inr q' \<Rightarrow> mergeLoop lo sf (key # seen) (qSet q' key (hd vs)) extra))"

definition mergeExtraParams :: "(string \<Rightarrow> string) \<Rightarrow> (nat \<Rightarrow> nat) \<Rightarrow> qvalues \<Rightarrow> (string \<times> string list) list \<Rightarrow>
    ExtraParamError + qvalues" where
  "mergeExtraParams lo sf q extra = mergeLoop lo sf [] q extra"

definition hasExtraParam :: "(nat \<Rightarrow> nat) \<Rightarrow> (string \<times> string list) list \<Rightarrow> string \<Rightarrow> bool" where
  "hasExtraParam sf extra key \<longleftrightarrow>
     list_ex (\<lambda>(k, vs). EqualFold sf (trim_space k) key \<and> vs \<noteq> [] \<and> hd vs \<noteq> []) extra"

section \<open>IP addresses\<close>

text \<open>Whether \<open>netip.ParseAddr\<close> accepts a text.\<close>

definition isHex :: "char \<Rightarrow> bool" where
  "isHex c \<longleftrightarrow> unhex c \<noteq> None"

definition octet :: "string \<Rightarrow> bool" where
  "octet s \<longleftrightarrow> s \<noteq> [] \<and> list_all is_digit s \<and> (length s = 1 \<or> hd s \<noteq> CHR ''0'') \<and> digits_val 0 s \<le> 255"

definition isIPv4 :: "string \<Rightarrow> bool" where
  "isIPv4 s \<longleftrightarrow> (let fs = split_byte s (CHR ''.'') in length fs = 4 \<and> list_all octet fs)"

text \<open>The end of \<open>parseIPv6\<close>: \<open>i\<close> bytes read, the place of a \<open>::\<close>, the rest.\<close>

definition v6End :: "nat \<Rightarrow> nat option \<Rightarrow> string \<Rightarrow> bool" where
  "v6End i ellipsis s \<longleftrightarrow> s = [] \<and> (if i < 16 then ellipsis \<noteq> None else ellipsis = None)"

function v6Loop :: "nat \<Rightarrow> nat option \<Rightarrow> string \<Rightarrow> bool" where
  "v6Loop i ellipsis s =
     (if i \<ge> 16 then v6End i ellipsis s
      else let g = takeWhile isHex s; s1 = drop (length g) s
           in if length g > 4 \<or> g = [] then False
              else if s1 \<noteq> [] \<and> hd s1 = CHR ''.'' then
                (ellipsis \<noteq> None \<or> i = 12) \<and> i + 4 \<le> 16 \<and> isIPv4 s \<and> v6End (i + 4) ellipsis []
              else if s1 = [] then v6End (i + 2) ellipsis []
              else if hd s1 \<noteq> CHR '':'' \<or> length s1 = 1 then False
              else let s2 = tl s1
                   in if hd s2 = CHR '':'' then
                        (if ellipsis \<noteq> None then False
                         else if tl s2 = [] then v6End (i + 2) (Some (i + 2)) []
                         else v6Loop (i + 2) (Some (i + 2)) (tl s2))
                      else v6Loop (i + 2) ellipsis s2)"
  by pat_completeness auto

termination by (relation "measure (\<lambda>(i, e, s). 16 - i)") auto

declare v6Loop.simps [simp del]

definition isIPv6 :: "string \<Rightarrow> bool" where
  "isIPv6 t =
     (let (s, zoned) = (case index_byte t (CHR ''%'') of None \<Rightarrow> (t, True) | Some i \<Rightarrow> (take i t, drop (Suc i) t \<noteq> []))
      in if \<not> zoned then False
         else if has_prefix s ''::'' then (drop 2 s = [] \<or> v6Loop 0 (Some 0) (drop 2 s))
         else v6Loop 0 None s)"

definition parseAddrOK :: "string \<Rightarrow> bool" where
  "parseAddrOK s =
     (case find (\<lambda>c. c \<in> set ''.:%'') s of
        None \<Rightarrow> False
      | Some c \<Rightarrow> if c = CHR ''.'' then isIPv4 s else if c = CHR '':'' then isIPv6 s else False)"

section \<open>The target\<close>

definition emdash :: string where
  "emdash = [char_of (0xE2 :: nat), char_of (0x80 :: nat), char_of (0x94 :: nat)]"

definition unsupportedProtocols :: "(string \<times> string) list" where
  "unsupportedProtocols =
     [(''np'', ''named pipes (np:) are not supported; connect over TCP '' @ emdash @ '' host, host'' @ [bslash] @ ''instance or host,port''),
      (''lpc'', ''shared memory (lpc:) is not supported; connect over TCP '' @ emdash @ '' host, host'' @ [bslash] @ ''instance or host,port''),
      (''admin'', ''the admin: prefix is not supported; to reach the dedicated admin connection, name its TCP port (host,port)'')]"

definition dsnHost :: "(string \<Rightarrow> string) \<Rightarrow> (nat \<Rightarrow> nat) \<Rightarrow> ConnectionOptions \<Rightarrow> (string \<times> string) res" where
  "dsnHost lo sf opts =
     (let server = oServer opts;
          proto = fst (splitProtocolPrefix lo server);
          (host, inst, port) = address lo sf opts;
          (h0, i0, p, written) = splitServerAddressPort lo server;
          h = trim_both host ''[]''
      in case map_of unsupportedProtocols proto of
           Some why \<Rightarrow> Inl (invalidf ''gosmo: server %q: %s'' [AText server, AText why])
         | None \<Rightarrow>
           if oPort opts < 0 \<or> oPort opts > 65535
           then Inl (invalidf ''gosmo: ConnectionOptions.Port %d out of range 0-65535'' [ANum (oPort opts)])
           else if written \<and> (p < 1 \<or> p > 65535)
           then Inl (invalidf ''gosmo: server %q: port %d out of range 1-65535'' [AText server, ANum p])
           else if CHR '','' \<in> set host \<or> CHR '','' \<in> set inst
           then Inl (invalidf ''gosmo: server %q: the port after the comma must be digits only (host,1433)'' [AText server])
           else if CHR '':'' \<in> set h \<and> \<not> parseAddrOK h
           then Inl (invalidf (''gosmo: server %q: %q is neither a host nor an IPv6 address; '' @
               ''a port is written host:1433 or host,1433, digits only'') [AText server, AText host])
           else if EqualFold sf host ''(localdb)''
           then Inl (invalidf (''gosmo: server %q: LocalDB ((localdb)'' @ [bslash] @ ''...) answers on shared memory or named pipes only, '' @
               ''which are not supported; connect over TCP '' @ emdash @ '' host, host'' @ [bslash] @ ''instance or host,port'') [AText server])
           else if CHR '':'' \<in> set host \<and> port = 0 \<and> inst \<noteq> []
           then Inl (invalidf (''gosmo: server %q: an IPv6 address with a named instance needs '' @
               ''an explicit port (%s'' @ [bslash] @ ''%s,<port>)'')
               [AText server, AText (trim_both (if has_prefix host ''['' then host else ''['' @ host @ '']'') ''[]''), AText inst])
           else let host1 = (if CHR '':'' \<in> set host \<and> \<not> has_prefix host ''['' then ''['' @ host @ '']'' else host);
                    port1 = (if CHR '':'' \<in> set host \<and> port = 0 then 1433 else port)
                in Inr (if port1 > 0 then host1 @ '':'' @ itoa port1 else host1, inst))"

section \<open>Entra options\<close>

definition entraClientAtTenant :: "(nat \<Rightarrow> nat) \<Rightarrow> ConnectionOptions \<Rightarrow> string res" where
  "entraClientAtTenant sf opts =
     (let bare = (if oTenantID opts \<noteq> [] then Inr (oUser opts @ ''@'' @ oTenantID opts) else Inr (oUser opts))
      in case index_byte (oUser opts) (CHR ''@'') of
           None \<Rightarrow> bare
         | Some at \<Rightarrow>
             if at \<ge> 1 \<and> Suc at < length (oUser opts) then
               (let tenant = drop (Suc at) (oUser opts)
                in if oTenantID opts \<noteq> [] \<and> \<not> EqualFold sf tenant (oTenantID opts)
                   then Inl (invalidf ''gosmo: %s: User %q names tenant %q, but TenantID is %q''
                     [AText (authString (oAuth opts)), AText (oUser opts), AText tenant, AText (oTenantID opts)])
                   else Inr (oUser opts))
             else bare)"

definition setEntraAppCredential :: "qvalues \<Rightarrow> ConnectionOptions \<Rightarrow> qvalues" where
  "setEntraAppCredential q opts =
     (let q1 = (if oClientCertPath opts \<noteq> [] then
                  setIf (oClientCertPassword opts \<noteq> []) ''password'' (oClientCertPassword opts)
                    (qSet q ''clientcertpath'' (oClientCertPath opts))
                else if oPassword opts \<noteq> [] then qSet q ''password'' (oPassword opts) else q)
      in setIf (oSendCertificateChain opts) ''sendcertificatechain'' ''true'' q1)"

definition appClientID :: string where
  "appClientID = ''User (the application's client ID)''"

definition missingField :: "(nat \<Rightarrow> nat) \<Rightarrow> ConnectionOptions \<Rightarrow> string" where
  "missingField sf opts =
     (case oAuth opts of
        AuthEntraPassword \<Rightarrow>
          if oUser opts = [] then ''User (the user's UPN)''
          else if oPassword opts = [] then ''Password'' else []
      | AuthEntraServicePrincipal \<Rightarrow>
          if oUser opts = [] then appClientID
          else if oPassword opts = [] \<and> oClientCertPath opts = [] then ''Password (a client secret) or ClientCertPath'' else []
      | AuthEntraServicePrincipalAccessToken \<Rightarrow> if oAccessToken opts = [] then ''AccessToken'' else []
      | AuthEntraOnBehalfOf \<Rightarrow>
          if oUser opts = [] then appClientID
          else if oAccessToken opts = [] then ''AccessToken (the inbound user assertion)''
          else if oPassword opts = [] \<and> oClientCertPath opts = [] \<and> \<not> hasExtraParam sf (oExtraParams opts) ''clientassertion''
          then ''Password (a client secret), ClientCertPath, or a '' @ [dquote] @ ''clientassertion'' @ [dquote] @ '' ExtraParams entry''
          else []
      | AuthEntraAzurePipelines \<Rightarrow>
          if oUser opts = [] \<and> oTenantID opts \<noteq> [] then appClientID @ '' when TenantID is set'' else []
      | _ \<Rightarrow> [])"

definition checkEntraFields :: "(nat \<Rightarrow> nat) \<Rightarrow> ConnectionOptions \<Rightarrow> goerr option" where
  "checkEntraFields sf opts =
     (let missing = missingField sf opts
      in if missing \<noteq> [] then Some (invalidf ''gosmo: %s requires %s'' [AText (authString (oAuth opts)), AText missing])
         else None)"

text \<open>The per-method parameters of an Entra sign-in.\<close>

definition clientOr :: "ConnectionOptions \<Rightarrow> string" where
  "clientOr opts = (if oApplicationClientID opts \<noteq> [] then oApplicationClientID opts else defaultPublicClientID)"

definition entraMethodValues :: "(nat \<Rightarrow> nat) \<Rightarrow> ConnectionOptions \<Rightarrow> qvalues \<Rightarrow> qvalues res" where
  "entraMethodValues sf opts q =
     (case oAuth opts of
        AuthEntraMSI \<Rightarrow>
          Inr (setIf (oTokenFilePath opts \<noteq> []) ''tokenfilepath'' (oTokenFilePath opts)
            (setIf (oClientID opts \<noteq> []) ''user id'' (oClientID opts) q))
      | AuthEntraServicePrincipal \<Rightarrow>
          res_bind (entraClientAtTenant sf opts) (\<lambda>u. Inr (setEntraAppCredential (qSet q ''user id'' u) opts))
      | AuthEntraServicePrincipalAccessToken \<Rightarrow> Inr (qSet q ''password'' (oAccessToken opts))
      | AuthEntraOnBehalfOf \<Rightarrow>
          res_bind (entraClientAtTenant sf opts) (\<lambda>u.
            Inr (setEntraAppCredential (qSet (qSet q ''user id'' u) ''userassertion'' (oAccessToken opts)) opts))
      | AuthEntraPassword \<Rightarrow>
          Inr (qSet (qSet (qSet q ''user id'' (oUser opts)) ''password'' (oPassword opts)) ''applicationclientid'' (clientOr opts))
      | AuthEntraInteractive \<Rightarrow>
          Inr (setIf (oUser opts \<noteq> []) ''user id'' (oUser opts) (qSet q ''applicationclientid'' (clientOr opts)))
      | AuthEntraDeviceCode \<Rightarrow>
          Inr (setIf (oApplicationClientID opts \<noteq> []) ''applicationclientid'' (oApplicationClientID opts) q)
      | AuthEntraAzurePipelines \<Rightarrow>
          (if oUser opts \<noteq> [] then res_bind (entraClientAtTenant sf opts) (\<lambda>u. Inr (qSet q ''user id'' u)) else Inr q)
      | _ \<Rightarrow> Inr q)"

definition entraValues :: "(nat \<Rightarrow> nat) \<Rightarrow> ConnectionOptions \<Rightarrow> qvalues \<Rightarrow> qvalues res" where
  "entraValues sf opts q =
     (case map_of fedauthValue (oAuth opts) of
        None \<Rightarrow> Inl (invalidf ''gosmo: unsupported auth method %d'' [ANum (authNumber (oAuth opts))])
      | Some fv \<Rightarrow>
          (case checkEntraFields sf opts of
             Some e \<Rightarrow> Inl e
           | None \<Rightarrow>
               res_bind (entraMethodValues sf opts (qSet q ''fedauth'' fv)) (\<lambda>q1.
                 Inr (setIf (oTenantID opts \<noteq> []) ''tenantid'' (oTenantID opts)
                   (setIf (oDisableInstanceDiscovery opts) ''disableinstancediscovery'' ''true'' q1)))))"

section \<open>The connection string\<close>

text \<open>The classic path: Windows or SQL Server authentication.\<close>

definition classicValues :: "string \<Rightarrow> ConnectionOptions \<Rightarrow> qvalues \<Rightarrow> qvalues" where
  "classicValues goos opts q =
     (case oAuth opts of
        AuthWindows \<Rightarrow>
          (let q1 = setIf (oServerSPN opts \<noteq> []) ''serverspn'' (oServerSPN opts) q
           in if goos \<noteq> ''windows'' \<or> configured (oKerberos opts)
              then applyDSN (oKerberos opts) (qSet q1 ''authenticator'' ''krb5'') else q1)
      | _ \<Rightarrow> q)"

definition classicUser :: "string \<Rightarrow> ConnectionOptions \<Rightarrow> userinfo option" where
  "classicUser goos opts =
     (case oAuth opts of
        AuthWindows \<Rightarrow>
          if goos \<noteq> ''windows'' \<or> configured (oKerberos opts) then
            (if oUser opts \<noteq> [] \<and> oPassword opts \<noteq> []
             then Some \<lparr> uiName = oUser opts, uiPassword = Some (oPassword opts) \<rparr>
             else if oUser opts \<noteq> [] then Some \<lparr> uiName = oUser opts, uiPassword = None \<rparr> else None)
          else if oUser opts \<noteq> [] then Some \<lparr> uiName = oUser opts, uiPassword = None \<rparr> else None
      | _ \<Rightarrow>
          if oUser opts \<noteq> [] \<or> oPassword opts \<noteq> []
          then Some \<lparr> uiName = oUser opts, uiPassword = Some (oPassword opts) \<rparr> else None)"

definition extraRes :: "ExtraParamError + qvalues \<Rightarrow> qvalues res" where
  "extraRes r = map_sum extraErrorText id r"

definition instancePath :: "string \<Rightarrow> string" where
  "instancePath inst = (if inst \<noteq> [] then ''/'' @ inst else [])"

definition serverRequired :: goerr where
  "serverRequired = invalidf ''gosmo: ConnectionOptions.Server is required'' []"

definition buildDSN :: "string \<Rightarrow> (string \<Rightarrow> string) \<Rightarrow> (nat \<Rightarrow> nat) \<Rightarrow> ConnectionOptions \<Rightarrow> (string \<times> string) res" where
  "buildDSN goos lo sf opts =
     (if oServer opts = [] then Inl serverRequired
      else res_bind (dsnHost lo sf opts) (\<lambda>(dialHost, inst).
        let q = commonDSNValues opts
        in if isEntraMethod (oAuth opts) then
             res_bind (entraValues sf opts q) (\<lambda>q1.
               res_bind (extraRes (mergeExtraParams lo sf q1 (oExtraParams opts))) (\<lambda>q2.
                 Inr (urlString \<lparr> urlUser = None, urlHost = dialHost, urlPath = instancePath inst, urlQuery = qEncode q2 \<rparr>,
                      ''azuresql'')))
           else
             res_bind (extraRes (mergeExtraParams lo sf (classicValues goos opts q) (oExtraParams opts))) (\<lambda>q2.
               Inr (urlString \<lparr> urlUser = classicUser goos opts, urlHost = dialHost, urlPath = instancePath inst,
                      urlQuery = qEncode q2 \<rparr>, ''sqlserver''))))"

definition baseDSN :: "(string \<Rightarrow> string) \<Rightarrow> (nat \<Rightarrow> nat) \<Rightarrow> ConnectionOptions \<Rightarrow> string res" where
  "baseDSN lo sf opts =
     (if oServer opts = [] then Inl serverRequired
      else res_bind (dsnHost lo sf opts) (\<lambda>(dialHost, inst).
        res_bind (extraRes (mergeExtraParams lo sf (commonDSNValues opts) (oExtraParams opts))) (\<lambda>q.
          Inr (urlString \<lparr> urlUser = None, urlHost = dialHost, urlPath = instancePath inst, urlQuery = qEncode q \<rparr>))))"

section \<open>Reading a connection string back\<close>

lemmas escape_table = shouldEscape_def alnum_def is_digit_def is_upper_def is_lower_def char_consts

lemma escaped_free:
  "CHR ''/'' \<notin> set (url_escape EncodeUserPassword s)" "CHR ''?'' \<notin> set (url_escape EncodeUserPassword s)"
  "CHR ''@'' \<notin> set (url_escape EncodeUserPassword s)" "CHR '':'' \<notin> set (url_escape EncodeUserPassword s)"
  "CHR ''/'' \<notin> set (url_escape EncodeHost s)" "CHR ''?'' \<notin> set (url_escape EncodeHost s)"
  "CHR ''@'' \<notin> set (url_escape EncodeHost s)" "CHR ''?'' \<notin> set (url_escape EncodePath s)"
  by (rule escape_free; simp add: escape_table)+

lemma unescape_plain: "mode \<noteq> EncodeQueryComponent \<Longrightarrow> url_unescape False (url_escape mode s) = Some s"
  using unescape_escape [of mode s] by simp

lemma escape_slash: "url_escape EncodePath (CHR ''/'' # p) = CHR ''/'' # url_escape EncodePath p"
  by (simp add: escape_table)

lemma readUser_text:
  assumes "uiName u \<noteq> [] \<or> (uiPassword u \<noteq> None \<and> uiPassword u \<noteq> Some [])"
  shows "readUser (userText u) = Some (uiName u, uiPassword u)"
proof (cases "uiPassword u")
  case None
  have "cutAt (CHR '':'') (url_escape EncodeUserPassword (uiName u)) = None"
    using escaped_free(4) [of "uiName u"] by (simp add: cutAt_def index_byte_None [THEN iffD2])
  then show ?thesis using assms None by (simp add: userText_def readUser_def unescape_plain)
next
  case (Some p)
  have "cutAt (CHR '':'') (url_escape EncodeUserPassword (uiName u) @ CHR '':'' # url_escape EncodeUserPassword p) =
      Some (url_escape EncodeUserPassword (uiName u), url_escape EncodeUserPassword p)"
    using escaped_free(4) by (simp add: cutAt_append)
  then show ?thesis using assms Some by (auto simp: userText_def readUser_def unescape_plain)
qed

lemma userText_free: "CHR ''/'' \<notin> set (userText u)" "CHR ''?'' \<notin> set (userText u)"
  using escaped_free(1,2) by (auto simp: userText_def split: option.splits)

definition userOK :: "userinfo option \<Rightarrow> bool" where
  "userOK u \<longleftrightarrow> (case u of None \<Rightarrow> True
     | Some i \<Rightarrow> uiName i \<noteq> [] \<or> (uiPassword i \<noteq> None \<and> uiPassword i \<noteq> Some []))"

lemma readURL_string:
  assumes "userOK (urlUser u)" "urlPath u = instancePath inst" "urlHost u \<noteq> [] \<or> inst \<noteq> []"
  shows "readURL (urlString u) = Some \<lparr> rdUser = map_option (\<lambda>i. Some (uiName i, uiPassword i)) (urlUser u),
     rdHost = Some (urlHost u), rdPath = Some (instancePath inst), rdQuery = readQuery (urlQuery u) \<rparr>"
proof -
  let ?who = "case urlUser u of None \<Rightarrow> [] | Some i \<Rightarrow> userText i @ ''@''"
  let ?auth = "?who @ url_escape EncodeHost (urlHost u)"
  let ?path = "url_escape EncodePath (instancePath inst)"
  let ?q = "if urlQuery u \<noteq> [] then ''?'' @ urlQuery u else []"
  have s: "urlString u = ''sqlserver://'' @ (?auth @ ?path) @ ?q"
    using assms(2,3) by (auto simp: urlString_def instancePath_def)
  have who: "CHR ''/'' \<notin> set ?auth" "CHR ''?'' \<notin> set (?auth @ ?path)"
    using userText_free escaped_free by (auto split: option.splits)
  have front: "(case cutAt (CHR ''?'') ((?auth @ ?path) @ ?q) of None \<Rightarrow> ((?auth @ ?path) @ ?q, []) | Some (a, b) \<Rightarrow> (a, b)) =
      (?auth @ ?path, urlQuery u)"
  proof (cases "urlQuery u = []")
    case True
    then show ?thesis using who(2) by (simp add: cutAt_def index_byte_None [THEN iffD2])
  next
    case False
    then show ?thesis using cutAt_append [OF who(2), of "urlQuery u"] by simp
  qed
  have path: "(case index_byte (?auth @ ?path) (CHR ''/'') of None \<Rightarrow> (?auth @ ?path, [])
      | Some i \<Rightarrow> (take i (?auth @ ?path), drop i (?auth @ ?path))) = (?auth, ?path)"
  proof (cases "inst = []")
    case True
    then show ?thesis using who(1) by (simp add: instancePath_def index_byte_None [THEN iffD2])
  next
    case False
    then have "?path = CHR ''/'' # url_escape EncodePath inst" using escape_slash by (simp add: instancePath_def)
    then show ?thesis using index_byte_append [OF who(1)] by simp
  qed
  have user: "(case last_index_any ?auth ''@'' of None \<Rightarrow> (None, ?auth)
      | Some i \<Rightarrow> (Some (readUser (take i ?auth)), drop (Suc i) ?auth)) =
      (map_option (\<lambda>i. Some (uiName i, uiPassword i)) (urlUser u), url_escape EncodeHost (urlHost u))"
  proof (cases "urlUser u")
    case None
    then show ?thesis using escaped_free(7) [of "urlHost u"] by (simp add: last_index_absent)
  next
    case (Some i)
    then have "readUser (userText i) = Some (uiName i, uiPassword i)"
      using assms(1) by (intro readUser_text) (simp add: userOK_def)
    then show ?thesis using Some last_index_single [OF escaped_free(7), of "userText i" "urlHost u"] by simp
  qed
  have "drop 12 (urlString u) = (?auth @ ?path) @ ?q" "has_prefix (urlString u) ''sqlserver://''"
    unfolding s by simp_all
  then show ?thesis
    unfolding readURL_def Let_def by (simp only: front path user prod.case if_False not_True_eq_False)
      (simp add: unescape_plain)
qed

section \<open>Extra parameters\<close>

text \<open>Both keys of the connection's own values that \<open>EqualFold\<close> could take for the overridable one.\<close>

abbreviation dial :: string where
  "dial \<equiv> ''dial timeout''"

definition onlyDial :: "(nat \<Rightarrow> nat) \<Rightarrow> string list \<Rightarrow> bool" where
  "onlyDial sf ks \<longleftrightarrow> (\<forall>k \<in> set ks. EqualFold sf k dial \<longrightarrow> k = dial)"

lemma EqualFold_refl [simp]: "EqualFold sf s s"
  by (simp add: EqualFold_def list_all2_same equalRune_def)

lemma EqualFold_sym: "EqualFold sf s t = EqualFold sf t s"
proof -
  have "equalRune sf = (\<lambda>a b. equalRune sf b a)"
    by (intro ext) (simp add: equalRune_def min.commute max.commute eq_commute)
  then show ?thesis unfolding EqualFold_def by (metis list_all2_conv_all_nth)
qed

lemma existingLoop_other:
  "key \<noteq> dial \<Longrightarrow> existingLoop sf k key es q =
     (if list_ex (\<lambda>e. EqualFold sf e key) es then Inl \<lparr> xKey = k, xReserved = True, xReason = reservedReason \<rparr> else Inr q)"
  by (induction es) (auto simp: overridableDSNKeys_def)

lemma existingLoop_dial:
  "onlyDial sf es \<Longrightarrow> existingLoop sf k dial es q = Inr (if dial \<in> set es then qDel q dial else q)"
proof (induction es arbitrary: q)
  case (Cons e es)
  have "qDel (qDel q dial) dial = qDel q dial" by (simp add: qDel_def)
  then show ?case using Cons by (cases "e = dial") (auto simp: overridableDSNKeys_def onlyDial_def)
qed simp

text \<open>An entry that is well formed by itself, and its key's place among the keys already there.\<close>

definition goodEntry :: "(string \<Rightarrow> string) \<Rightarrow> string \<times> string list \<Rightarrow> bool" where
  "goodEntry lo e \<longleftrightarrow> (let key = canonicalKey lo (fst e) in
     key \<noteq> [] \<and> key \<notin> set reservedDSNKeys \<and> \<not> has_prefix key ''krb5-'' \<and> length (snd e) = 1)"

definition freeKey :: "(nat \<Rightarrow> nat) \<Rightarrow> string list \<Rightarrow> string \<Rightarrow> bool" where
  "freeKey sf ks key \<longleftrightarrow> (if key = dial then True else \<not> list_ex (\<lambda>e. EqualFold sf e key) ks)"

lemma merge_step:
  assumes "onlyDial sf (map fst q)" "distinct (map fst q)"
  shows "existingLoop sf k key (map fst q) q =
      (if freeKey sf (map fst q) key
       then Inr (if key = dial \<and> dial \<in> set (map fst q) then qDel q dial else q)
       else Inl \<lparr> xKey = k, xReserved = True, xReason = reservedReason \<rparr>)"
  using existingLoop_other [of key sf k "map fst q" q] existingLoop_dial [OF assms(1), of k q]
  by (cases "key = dial") (auto simp: freeKey_def)

definition addEntry :: "qvalues \<Rightarrow> string \<Rightarrow> string \<Rightarrow> qvalues" where
  "addEntry q key v = qSet (if key = dial \<and> dial \<in> set (map fst q) then qDel q dial else q) key v"

definition entryKey :: "(string \<Rightarrow> string) \<Rightarrow> string \<times> string list \<Rightarrow> string" where
  "entryKey lo e = canonicalKey lo (fst e)"

definition addAll :: "(string \<Rightarrow> string) \<Rightarrow> qvalues \<Rightarrow> (string \<times> string list) list \<Rightarrow> qvalues" where
  "addAll lo q extra = foldl (\<lambda>q e. addEntry q (entryKey lo e) (hd (snd e))) q extra"

lemma qDel_keys: "set (map fst (qDel q k)) = set (map fst q) - {k}"
  by (auto simp: qDel_def)

lemma addEntry_facts:
  "set (map fst (addEntry q key v)) = insert key (set (map fst q))"
  "map_of (addEntry q key v) = (map_of q)(key \<mapsto> v)"
  "distinct (map fst q) \<Longrightarrow> distinct (map fst (addEntry q key v))"
  unfolding addEntry_def by (auto simp only: qSet_keys qDel_keys qSet_map qDel_map split: if_splits)
    (simp_all add: qSet_distinct qDel_distinct)

lemma freeKey_insert:
  "set ks' = insert key (set ks) \<Longrightarrow> freeKey sf ks' k2 \<longleftrightarrow> freeKey sf ks k2 \<and> freeKey sf [key] k2"
  by (auto simp: freeKey_def list_ex_iff)

lemma mergeLoop_iff:
  assumes "onlyDial sf (map fst q)" "distinct (map fst q)" "onlyDial sf (map (entryKey lo) extra)"
  shows "mergeLoop lo sf seen q extra = Inr q' \<longleftrightarrow>
    list_all (goodEntry lo) extra \<and> (\<forall>e \<in> set extra. entryKey lo e \<notin> set seen) \<and>
    (\<forall>e \<in> set extra. freeKey sf (map fst q) (entryKey lo e)) \<and>
    sorted_wrt (\<lambda>a b. entryKey lo a \<noteq> entryKey lo b \<and> freeKey sf [entryKey lo a] (entryKey lo b)) extra \<and>
    q' = addAll lo q extra"
  using assms
proof (induction extra arbitrary: seen q)
  case Nil
  then show ?case by (auto simp: addAll_def)
next
  case (Cons e extra)
  obtain k vs where e: "e = (k, vs)" by (cases e)
  let ?key = "canonicalKey lo k"
  let ?q = "addEntry q ?key (hd vs)"
  have "EqualFold sf ?key dial \<longrightarrow> ?key = dial"
    using Cons.prems(3) by (simp add: e entryKey_def onlyDial_def)
  then have od: "onlyDial sf (map fst ?q)"
    using Cons.prems(1) unfolding onlyDial_def addEntry_facts(1) by blast
  have IH: "mergeLoop lo sf (?key # seen) ?q extra = Inr q' \<longleftrightarrow>
    list_all (goodEntry lo) extra \<and> (\<forall>e \<in> set extra. entryKey lo e \<notin> set (?key # seen)) \<and>
    (\<forall>e \<in> set extra. freeKey sf (map fst ?q) (entryKey lo e)) \<and>
    sorted_wrt (\<lambda>a b. entryKey lo a \<noteq> entryKey lo b \<and> freeKey sf [entryKey lo a] (entryKey lo b)) extra \<and>
    q' = addAll lo ?q extra"
    by (rule Cons.IH [OF od addEntry_facts(3) [OF Cons.prems(2)]]) (use Cons.prems(3) in \<open>simp add: onlyDial_def\<close>)
  have free: "freeKey sf (map fst ?q) k2 \<longleftrightarrow> freeKey sf (map fst q) k2 \<and> freeKey sf [?key] k2" for k2
    by (rule freeKey_insert [OF addEntry_facts(1)])
  have step: "mergeLoop lo sf seen q (e # extra) = Inr q' \<longleftrightarrow>
      goodEntry lo e \<and> ?key \<notin> set seen \<and> freeKey sf (map fst q) ?key \<and>
      mergeLoop lo sf (?key # seen) ?q extra = Inr q'"
    using merge_step [OF Cons.prems(1,2), of k ?key] unfolding e
    by (auto simp: Let_def goodEntry_def addEntry_def)
  show ?case unfolding step IH free
    by (auto simp: e entryKey_def addAll_def)
qed

text \<open>The conditions again, without the order of the entries.\<close>

lemma freeKey_pair:
  "onlyDial sf [a, b] \<Longrightarrow> (a \<noteq> b \<and> freeKey sf [a] b) \<longleftrightarrow> \<not> EqualFold sf a b"
  using EqualFold_refl EqualFold_sym by (auto simp: freeKey_def onlyDial_def)

definition apart :: "(nat \<Rightarrow> nat) \<Rightarrow> (string \<Rightarrow> string) \<Rightarrow> (string \<times> string list) set \<Rightarrow> bool" where
  "apart sf lo E \<longleftrightarrow> pairwise (\<lambda>a b. \<not> EqualFold sf (entryKey lo a) (entryKey lo b)) E"

lemma sorted_apart:
  assumes "onlyDial sf (map (entryKey lo) extra)" "distinct extra"
  shows "sorted_wrt (\<lambda>a b. entryKey lo a \<noteq> entryKey lo b \<and> freeKey sf [entryKey lo a] (entryKey lo b)) extra
     \<longleftrightarrow> apart sf lo (set extra)"
  using assms
proof (induction extra)
  case Nil
  then show ?case by (simp add: apart_def pairwise_def)
next
  case (Cons e extra)
  have od: "onlyDial sf [entryKey lo e, entryKey lo x]" if "x \<in> set extra" for x
    using Cons.prems(1) that by (auto simp: onlyDial_def)
  have IH: "sorted_wrt (\<lambda>a b. entryKey lo a \<noteq> entryKey lo b \<and> freeKey sf [entryKey lo a] (entryKey lo b)) extra
     \<longleftrightarrow> apart sf lo (set extra)"
    using Cons.IH Cons.prems by (simp add: onlyDial_def)
  have "apart sf lo (set (e # extra)) \<longleftrightarrow>
      (\<forall>x \<in> set extra. \<not> EqualFold sf (entryKey lo e) (entryKey lo x)) \<and> apart sf lo (set extra)"
    using Cons.prems(2) by (auto simp: apart_def pairwise_insert EqualFold_sym [of sf _ "entryKey lo e"])
  then show ?case using IH freeKey_pair [OF od] by simp
qed

lemma merge_Inr:
  assumes "onlyDial sf (map fst q)" "distinct (map fst q)" "onlyDial sf (map (entryKey lo) extra)" "distinct extra"
  shows "mergeExtraParams lo sf q extra = Inr q' \<longleftrightarrow>
    (\<forall>e \<in> set extra. goodEntry lo e \<and> freeKey sf (map fst q) (entryKey lo e)) \<and> apart sf lo (set extra) \<and>
    q' = addAll lo q extra"
  using mergeLoop_iff [OF assms(1-3), of "[]" q'] sorted_apart [OF assms(3,4)]
  by (auto simp: mergeExtraParams_def list_all_iff)

lemma addAll_facts:
  "distinct (map fst q) \<Longrightarrow> distinct (map fst (addAll lo q extra))"
  "set (map fst (addAll lo q extra)) = entryKey lo ` set extra \<union> set (map fst q)"
  "distinct (map (entryKey lo) extra) \<Longrightarrow> map_of (addAll lo q extra) k =
     (case map_of (map (\<lambda>e. (entryKey lo e, hd (snd e))) extra) k of Some v \<Rightarrow> Some v | None \<Rightarrow> map_of q k)"
proof -
  show "distinct (map fst q) \<Longrightarrow> distinct (map fst (addAll lo q extra))"
    by (induction extra arbitrary: q) (simp_all add: addAll_def addEntry_facts(3) del: set_map)
  show "set (map fst (addAll lo q extra)) = entryKey lo ` set extra \<union> set (map fst q)"
  proof (induction extra arbitrary: q)
    case (Cons e extra)
    then show ?case using addEntry_facts(1) [of q "entryKey lo e" "hd (snd e)"] by (auto simp: addAll_def simp del: set_map)
  qed (simp add: addAll_def)
  show "distinct (map (entryKey lo) extra) \<Longrightarrow> map_of (addAll lo q extra) k =
     (case map_of (map (\<lambda>e. (entryKey lo e, hd (snd e))) extra) k of Some v \<Rightarrow> Some v | None \<Rightarrow> map_of q k)"
  proof (induction extra arbitrary: q)
    case (Cons e extra)
    let ?q = "addEntry q (entryKey lo e) (hd (snd e))"
    have "map_of (map (\<lambda>e. (entryKey lo e, hd (snd e))) extra) (entryKey lo e) = None"
      using Cons.prems by (auto simp: map_of_eq_None_iff image_image)
    then show ?case using Cons.IH [of ?q] Cons.prems addEntry_facts(2) [of q "entryKey lo e" "hd (snd e)"]
      by (auto simp: addAll_def split: option.split)
  qed (simp add: addAll_def)
qed

lemma apart_distinct: "apart sf lo (set extra) \<Longrightarrow> distinct extra \<Longrightarrow> distinct (map (entryKey lo) extra)"
  unfolding distinct_map inj_on_def apart_def pairwise_def using EqualFold_refl by metis

text \<open>An encoding depends on the mapping alone.\<close>

lemma qEncode_cong:
  assumes "map_of q = map_of r" "distinct (map fst q)" "distinct (map fst r)"
  shows "qEncode q = qEncode r"
proof -
  have "set (map fst q) = set (map fst r)" using assms(1) by (metis dom_map_of_conv_image_fst set_map)
  then have "sort (map fst q) = sort (map fst r)"
    using assms(2,3) by (metis distinct_sort set_sort sorted_distinct_set_unique sorted_sort)
  then show ?thesis using assms(1) by (simp add: qEncode_def qGet_def)
qed

lemma merge_order:
  assumes "onlyDial sf (map fst q)" "distinct (map fst q)" "onlyDial sf (map (entryKey lo) extra)"
    and "distinct extra" "distinct extra'" "set extra' = set extra" "mergeExtraParams lo sf q extra = Inr q'"
  shows "\<exists>q''. mergeExtraParams lo sf q extra' = Inr q'' \<and> qEncode q'' = qEncode q'"
proof -
  have od: "onlyDial sf (map (entryKey lo) extra')" using assms(3,6) by (simp add: onlyDial_def)
  have q': "q' = addAll lo q extra" "apart sf lo (set extra)"
    using assms(7) merge_Inr [OF assms(1-4)] by blast+
  have ok: "mergeExtraParams lo sf q extra' = Inr (addAll lo q extra')"
    using assms(7) merge_Inr [OF assms(1-4)] merge_Inr [OF assms(1,2) od assms(5)] assms(6) by auto
  have d: "distinct (map (entryKey lo) extra)" "distinct (map (entryKey lo) extra')"
    using apart_distinct q'(2) assms(4-6) by metis+
  have "map_of (map (\<lambda>e. (entryKey lo e, hd (snd e))) extra) = map_of (map (\<lambda>e. (entryKey lo e, hd (snd e))) extra')"
    using assms(6) d by (intro map_of_inject_set [THEN iffD2]) (simp_all add: comp_def)
  then have "map_of (addAll lo q extra') = map_of (addAll lo q extra)"
    using addAll_facts(3) [OF d(1), of q] addAll_facts(3) [OF d(2), of q] by (intro ext) simp
  then have "qEncode (addAll lo q extra') = qEncode q'"
    unfolding q'(1) by (rule qEncode_cong) (rule addAll_facts(1) [OF assms(2)])+
  then show ?thesis using ok by blast
qed

section \<open>What a connection string says\<close>

text \<open>The values the fields of the options write, before \<open>ExtraParams\<close>, and the keys they can have.\<close>

definition fieldValues :: "string \<Rightarrow> (nat \<Rightarrow> nat) \<Rightarrow> ConnectionOptions \<Rightarrow> qvalues res" where
  "fieldValues goos sf opts =
     (if isEntraMethod (oAuth opts) then entraValues sf opts (commonDSNValues opts)
      else Inr (classicValues goos opts (commonDSNValues opts)))"

definition fieldKeys :: "string list" where
  "fieldKeys =
     [''database'', ''app name'', ''connection timeout'', dial, ''TrustServerCertificate'', ''encrypt'',
      ''hostNameInCertificate'', ''fedauth'', ''user id'', ''password'', ''tokenfilepath'', ''clientcertpath'',
      ''sendcertificatechain'', ''userassertion'', ''applicationclientid'', ''tenantid'', ''disableinstancediscovery'',
      ''serverspn'', ''authenticator'', ''krb5-configfile'', ''krb5-credcachefile'', ''krb5-keytabfile'',
      ''krb5-realm'', ''krb5-dnslookupkdc'', ''krb5-udppreferencelimit'']"

definition okQ :: "qvalues \<Rightarrow> bool" where
  "okQ q \<longleftrightarrow> distinct (map fst q) \<and> set (map fst q) \<subseteq> set fieldKeys"

lemma okQ_set: "okQ q \<Longrightarrow> k \<in> set fieldKeys \<Longrightarrow> okQ (qSet q k v)"
  unfolding okQ_def by (simp only: qSet_keys qSet_distinct) simp

lemma okQ_setIf: "okQ q \<Longrightarrow> k \<in> set fieldKeys \<Longrightarrow> okQ (setIf b k v q)"
  by (simp add: setIf_def okQ_set)

lemma okQ_Nil: "okQ []"
  by (simp add: okQ_def)

lemmas okQ_rules = okQ_Nil okQ_set okQ_setIf

lemma okQ_common: "okQ (commonDSNValues opts)"
  unfolding commonDSNValues_def Let_def by (intro okQ_rules) (simp_all add: fieldKeys_def)

lemma okQ_kerberos: "okQ q \<Longrightarrow> okQ (applyDSN k q)"
  unfolding applyDSN_def Let_def
  by (cases "kDNSLookupKDC k") (simp_all, (intro okQ_rules; simp add: fieldKeys_def)+)

lemma okQ_classic: "okQ q \<Longrightarrow> okQ (classicValues goos opts q)"
  by (cases "oAuth opts") (auto simp: classicValues_def Let_def intro!: okQ_kerberos okQ_set okQ_setIf, simp_all add: fieldKeys_def)

lemma okQ_credential: "okQ q \<Longrightarrow> okQ (setEntraAppCredential q opts)"
  unfolding setEntraAppCredential_def Let_def by (auto intro!: okQ_set okQ_setIf) (simp_all add: fieldKeys_def)

lemma okQ_method: "okQ q \<Longrightarrow> entraMethodValues sf opts q = Inr r \<Longrightarrow> okQ r"
  by (cases "oAuth opts") (auto simp: entraMethodValues_def res_simps split: if_splits
      intro!: okQ_credential okQ_set okQ_setIf, simp_all add: fieldKeys_def)

lemma okQ_fields: "fieldValues goos sf opts = Inr q \<Longrightarrow> okQ q"
proof -
  assume f: "fieldValues goos sf opts = Inr q"
  show "okQ q"
  proof (cases "isEntraMethod (oAuth opts)")
    case True
    obtain fv r where r: "entraMethodValues sf opts (qSet (commonDSNValues opts) ''fedauth'' fv) = Inr r"
      "q = setIf (oTenantID opts \<noteq> []) ''tenantid'' (oTenantID opts)
        (setIf (oDisableInstanceDiscovery opts) ''disableinstancediscovery'' ''true'' r)"
      using f True by (auto simp: fieldValues_def entraValues_def res_simps split: option.splits)
    have "okQ r" by (rule okQ_method [OF okQ_set [OF okQ_common] r(1)]) (simp add: fieldKeys_def)
    then show ?thesis unfolding r(2) by (intro okQ_setIf) (simp_all add: fieldKeys_def)
  next
    case False
    then show ?thesis using f okQ_classic [OF okQ_common] by (auto simp: fieldValues_def)
  qed
qed

lemma EqualFold_ascii_length: "is_ascii s \<Longrightarrow> is_ascii t \<Longrightarrow> EqualFold sf s t \<Longrightarrow> length s = length t"
  by (auto simp: EqualFold_def runes_ascii dest: list_all2_lengthD)

lemma okQ_dial: "okQ q \<Longrightarrow> onlyDial sf (map fst q)"
proof -
  assume q: "okQ q"
  have table: "list_all (\<lambda>k. is_ascii k \<and> (k = dial \<or> length k \<noteq> length dial)) fieldKeys" "is_ascii dial"
    by code_simp+
  show ?thesis unfolding onlyDial_def
  proof (intro ballI impI)
    fix k assume k: "k \<in> set (map fst q)" "EqualFold sf k dial"
    then have "k \<in> set fieldKeys" using q by (auto simp: okQ_def)
    then show "k = dial" using table k(2) EqualFold_ascii_length [of k dial sf] unfolding list_all_iff by blast
  qed
qed

lemma dsn_parts:
  assumes "buildDSN goos lo sf opts = Inr (dsn, drv)"
  obtains host inst fields q where "dsnHost lo sf opts = Inr (host, inst)" "fieldValues goos sf opts = Inr fields"
    "mergeExtraParams lo sf fields (oExtraParams opts) = Inr q"
    "drv = (if isEntraMethod (oAuth opts) then ''azuresql'' else ''sqlserver'')"
    "dsn = urlString \<lparr> urlUser = (if isEntraMethod (oAuth opts) then None else classicUser goos opts),
       urlHost = host, urlPath = instancePath inst, urlQuery = qEncode q \<rparr>"
proof -
  have extra: "extraRes r = Inr v \<longleftrightarrow> r = Inr v" for r and v :: qvalues
    by (cases r) (auto simp: extraRes_def)
  show ?thesis using assms that
    by (cases "isEntraMethod (oAuth opts)")
      (auto simp: buildDSN_def fieldValues_def res_simps extra Let_def split: if_splits)
qed

lemma userOK_classic: "userOK (classicUser goos opts)"
  by (cases "oAuth opts") (auto simp: userOK_def classicUser_def)

text \<open>
  C14: a connection string says what the options say and nothing else.  Read back, its host and
  path are the target, its user information the login, and its query the values the fields
  wrote -- each under its own key, whatever characters the values hold -- with the \<open>ExtraParams\<close>
  added.  No extra parameter is one a field controls, and none changes a value a field wrote,
  \<open>dial timeout\<close> apart.
\<close>

theorem dsn_reads_back:
  assumes "buildDSN goos lo sf opts = Inr (dsn, drv)" "dsnHost lo sf opts = Inr (host, inst)" "host \<noteq> [] \<or> inst \<noteq> []"
    and "onlyDial sf (map (entryKey lo) (oExtraParams opts))" "distinct (map fst (oExtraParams opts))"
  shows "\<exists>fields q. fieldValues goos sf opts = Inr fields \<and>
    readURL dsn = Some \<lparr> rdUser = (if isEntraMethod (oAuth opts) then None
        else map_option (\<lambda>i. Some (uiName i, uiPassword i)) (classicUser goos opts)),
      rdHost = Some host, rdPath = Some (instancePath inst),
      rdQuery = map (\<lambda>k. Some (k, qGet q k)) (sort (map fst q)) \<rparr> \<and>
    distinct (map fst q) \<and>
    (\<forall>k. map_of q k = (case map_of (map (\<lambda>e. (entryKey lo e, hd (snd e))) (oExtraParams opts)) k of
        Some v \<Rightarrow> Some v | None \<Rightarrow> map_of fields k)) \<and>
    (\<forall>k \<in> set (map fst fields). k \<noteq> dial \<longrightarrow> qGet q k = qGet fields k) \<and>
    (\<forall>e \<in> set (oExtraParams opts). goodEntry lo e)"
proof -
  obtain fields q where d: "fieldValues goos sf opts = Inr fields" "mergeExtraParams lo sf fields (oExtraParams opts) = Inr q"
    "dsn = urlString \<lparr> urlUser = (if isEntraMethod (oAuth opts) then None else classicUser goos opts),
       urlHost = host, urlPath = instancePath inst, urlQuery = qEncode q \<rparr>"
    using dsn_parts [OF assms(1)] assms(2) by (metis Inr_inject prod.inject)
  let ?u = "\<lparr> urlUser = (if isEntraMethod (oAuth opts) then None else classicUser goos opts),
       urlHost = host, urlPath = instancePath inst, urlQuery = qEncode q \<rparr>"
  have ok: "okQ fields" by (rule okQ_fields [OF d(1)])
  then have f: "onlyDial sf (map fst fields)" "distinct (map fst fields)" by (rule okQ_dial) (use ok in \<open>simp add: okQ_def\<close>)
  have de: "distinct (oExtraParams opts)" using assms(5) by (simp add: distinct_map)
  have m: "\<forall>e \<in> set (oExtraParams opts). goodEntry lo e \<and> freeKey sf (map fst fields) (entryKey lo e)"
    "apart sf lo (set (oExtraParams opts))" "q = addAll lo fields (oExtraParams opts)"
    using d(2) merge_Inr [OF f assms(4) de] by blast+
  have dk: "distinct (map (entryKey lo) (oExtraParams opts))" by (rule apart_distinct [OF m(2) de])
  have map_q: "map_of q k = (case map_of (map (\<lambda>e. (entryKey lo e, hd (snd e))) (oExtraParams opts)) k of
        Some v \<Rightarrow> Some v | None \<Rightarrow> map_of fields k)" for k
    unfolding m(3) by (rule addAll_facts(3) [OF dk])
  have dq: "distinct (map fst q)" unfolding m(3) by (rule addAll_facts(1) [OF f(2)])
  have "userOK (urlUser ?u)" using userOK_classic by (simp add: userOK_def)
  then have read: "readURL dsn = Some \<lparr> rdUser = map_option (\<lambda>i. Some (uiName i, uiPassword i)) (urlUser ?u),
     rdHost = Some host, rdPath = Some (instancePath inst), rdQuery = readQuery (qEncode q) \<rparr>"
    unfolding d(3) using readURL_string [of ?u inst] assms(3) by simp
  have keep: "qGet q k = qGet fields k" if "k \<in> set (map fst fields)" "k \<noteq> dial" for k
  proof -
    have "k \<noteq> entryKey lo e" if e: "e \<in> set (oExtraParams opts)" for e
    proof
      assume "k = entryKey lo e"
      then have "\<not> list_ex (\<lambda>x. EqualFold sf x k) (map fst fields)"
        using bspec [OF m(1) e] \<open>k \<noteq> dial\<close> by (simp add: freeKey_def)
      then show False unfolding list_ex_iff using EqualFold_refl [of sf k] \<open>k \<in> set (map fst fields)\<close> by blast
    qed
    then have "k \<notin> fst ` set (map (\<lambda>e. (entryKey lo e, hd (snd e))) (oExtraParams opts))"
      unfolding set_map image_image fst_conv by blast
    then have "map_of (map (\<lambda>e. (entryKey lo e, hd (snd e))) (oExtraParams opts)) k = None"
      by (simp only: map_of_eq_None_iff not_False_eq_True)
    then show ?thesis using map_q by (simp add: qGet_def)
  qed
  show ?thesis
    using d(1) read dq map_q keep m(1) readQuery_encode [OF dq] by (intro exI [of _ fields] exI [of _ q]) auto
qed

lemma extra_sel:
  "oServer (opts \<lparr> oExtraParams := x \<rparr>) = oServer opts"
  "oPort (opts \<lparr> oExtraParams := x \<rparr>) = oPort opts"
  "oDatabase (opts \<lparr> oExtraParams := x \<rparr>) = oDatabase opts"
  "oAuth (opts \<lparr> oExtraParams := x \<rparr>) = oAuth opts"
  "oUser (opts \<lparr> oExtraParams := x \<rparr>) = oUser opts"
  "oPassword (opts \<lparr> oExtraParams := x \<rparr>) = oPassword opts"
  "oTenantID (opts \<lparr> oExtraParams := x \<rparr>) = oTenantID opts"
  "oClientID (opts \<lparr> oExtraParams := x \<rparr>) = oClientID opts"
  "oClientCertPath (opts \<lparr> oExtraParams := x \<rparr>) = oClientCertPath opts"
  "oClientCertPassword (opts \<lparr> oExtraParams := x \<rparr>) = oClientCertPassword opts"
  "oAccessToken (opts \<lparr> oExtraParams := x \<rparr>) = oAccessToken opts"
  "oApplicationClientID (opts \<lparr> oExtraParams := x \<rparr>) = oApplicationClientID opts"
  "oServerSPN (opts \<lparr> oExtraParams := x \<rparr>) = oServerSPN opts"
  "oKerberos (opts \<lparr> oExtraParams := x \<rparr>) = oKerberos opts"
  "oEncrypt (opts \<lparr> oExtraParams := x \<rparr>) = oEncrypt opts"
  "oTrustServerCertificate (opts \<lparr> oExtraParams := x \<rparr>) = oTrustServerCertificate opts"
  "oHostNameInCertificate (opts \<lparr> oExtraParams := x \<rparr>) = oHostNameInCertificate opts"
  "oDisableInstanceDiscovery (opts \<lparr> oExtraParams := x \<rparr>) = oDisableInstanceDiscovery opts"
  "oSendCertificateChain (opts \<lparr> oExtraParams := x \<rparr>) = oSendCertificateChain opts"
  "oTokenFilePath (opts \<lparr> oExtraParams := x \<rparr>) = oTokenFilePath opts"
  "oConnectTimeout (opts \<lparr> oExtraParams := x \<rparr>) = oConnectTimeout opts"
  "oApplicationName (opts \<lparr> oExtraParams := x \<rparr>) = oApplicationName opts"
  "oExtraParams (opts \<lparr> oExtraParams := x \<rparr>) = x"
  by simp_all

text \<open>
  A connection string does not depend on the order in which Go's map of \<open>ExtraParams\<close> is
  iterated: every order that the same options can be met in builds the same text.
\<close>

theorem dsn_ignores_map_order:
  assumes "buildDSN goos lo sf opts = Inr r" "onlyDial sf (map (entryKey lo) (oExtraParams opts))"
    and "distinct (map fst (oExtraParams opts))" "distinct extra" "set extra = set (oExtraParams opts)"
  shows "buildDSN goos lo sf (opts \<lparr> oExtraParams := extra \<rparr>) = Inr r"
proof -
  let ?o = "opts \<lparr> oExtraParams := extra \<rparr>"
  obtain dsn drv where r: "r = (dsn, drv)" by (cases r)
  obtain host inst fields q where d: "dsnHost lo sf opts = Inr (host, inst)" "fieldValues goos sf opts = Inr fields"
    "mergeExtraParams lo sf fields (oExtraParams opts) = Inr q"
    "drv = (if isEntraMethod (oAuth opts) then ''azuresql'' else ''sqlserver'')"
    "dsn = urlString \<lparr> urlUser = (if isEntraMethod (oAuth opts) then None else classicUser goos opts),
       urlHost = host, urlPath = instancePath inst, urlQuery = qEncode q \<rparr>"
    using dsn_parts assms(1) unfolding r by metis
  have ok: "okQ fields" by (rule okQ_fields [OF d(2)])
  then have f: "onlyDial sf (map fst fields)" "distinct (map fst fields)" by (rule okQ_dial) (use ok in \<open>simp add: okQ_def\<close>)
  have de: "distinct (oExtraParams opts)" using assms(3) by (simp add: distinct_map)
  obtain q' where q': "mergeExtraParams lo sf fields extra = Inr q'" "qEncode q' = qEncode q"
    using merge_order [OF f assms(2) de assms(4,5) d(3)] by blast
  have has: "hasExtraParam sf extra k = hasExtraParam sf (oExtraParams opts) k" for k
    using assms(5) by (simp add: hasExtraParam_def list_ex_iff)
  have target: "dsnHost lo sf ?o = dsnHost lo sf opts" by (simp only: dsnHost_def address_def extra_sel)
  have check: "checkEntraFields sf ?o = checkEntraFields sf opts"
    by (simp only: checkEntraFields_def missingField_def extra_sel has)
  have client: "entraClientAtTenant sf ?o = entraClientAtTenant sf opts" "setEntraAppCredential v ?o = setEntraAppCredential v opts"
    "clientOr ?o = clientOr opts" for v
    by (simp_all only: entraClientAtTenant_def setEntraAppCredential_def clientOr_def extra_sel)
  have meth: "entraMethodValues sf ?o v = entraMethodValues sf opts v" for v
    by (simp only: entraMethodValues_def client extra_sel)
  have vals: "entraValues sf ?o v = entraValues sf opts v" "classicValues goos ?o v = classicValues goos opts v" for v
    by (simp_all only: entraValues_def check meth classicValues_def extra_sel)
  have rest: "commonDSNValues ?o = commonDSNValues opts" "classicUser goos ?o = classicUser goos opts"
    by (simp_all only: commonDSNValues_def classicUser_def extra_sel)
  have "oServer opts \<noteq> []" using assms(1) by (auto simp: buildDSN_def split: if_splits)
  then show ?thesis
    using d q' unfolding r buildDSN_def extra_sel target vals rest fieldValues_def
    by (cases "isEntraMethod (oAuth opts)") (auto simp: extraRes_def)
qed

text \<open>
  A target that is accepted names what the address says: the instance unchanged, and a port,
  when there is one, between 1 and 65535, after the host; an IPv6 address is in brackets and always
  has a port.  Neither part holds a comma.
\<close>

theorem dsn_target:
  assumes "dsnHost lo sf opts = Inr (host, inst)"
  shows "case address lo sf opts of (h, i, p) \<Rightarrow>
    (let b = (if CHR '':'' \<in> set h \<and> \<not> has_prefix h ''['' then ''['' @ h @ '']'' else h);
         q = (if p = 0 \<and> CHR '':'' \<in> set h then 1433 else p)
     in inst = i \<and> CHR '','' \<notin> set h \<and> CHR '','' \<notin> set i \<and> 0 \<le> q \<and> q \<le> 65535 \<and>
        host = (if q = 0 then b else b @ '':'' @ itoa q) \<and>
        (if CHR '':'' \<in> set h then parseAddrOK (trim_both h ''[]'') \<and> q \<noteq> 0 \<or> CHR '':'' \<notin> set (trim_both h ''[]'') else True))"
proof -
  obtain h i p where a: "address lo sf opts = (h, i, p)" by (metis surj_pair)
  obtain h0 i0 p0 w where s: "splitServerAddressPort lo (oServer opts) = (h0, i0, p0, w)" by (metis surj_pair)
  have p: "p = (if p0 = 0 then oPort opts else p0)" "\<not> w \<longrightarrow> p0 = 0"
    using a s by (auto simp: address_def ParseServerAddress_def splitServerAddress_def)
      (auto simp: splitServerAddressPort_def Let_def instancePort_def split: prod.splits option.splits if_splits)
  have "0 \<le> oPort opts" "oPort opts \<le> 65535" "w \<longrightarrow> 1 \<le> p0 \<and> p0 \<le> 65535"
    using assms s by (auto simp: dsnHost_def Let_def a split: option.splits if_splits)
  then have bound: "0 \<le> p" "p \<le> 65535" using p by auto
  show ?thesis using assms bound
    by (auto simp: dsnHost_def Let_def a s split: option.splits if_splits)
qed

section \<open>A connection\<close>

definition sampleOptions :: ConnectionOptions where
  "sampleOptions = \<lparr> oServer = ''db1'', oPort = 1500, oDatabase = ''a&b'', oAuth = AuthSQLServer, oUser = ''sa'',
     oPassword = ''p@ss'', oTenantID = [], oClientID = [], oClientCertPath = [], oClientCertPassword = [],
     oAccessToken = [], oAccessTokenProvider = False, oApplicationClientID = [], oServerSPN = [],
     oKerberos = \<lparr> kConfigFile = [], kCredCacheFile = [], kKeytabFile = [], kRealm = [], kDNSLookupKDC = None,
       kUDPPreferenceLimit = 0 \<rparr>,
     oEncrypt = [], oTrustServerCertificate = True, oHostNameInCertificate = [], oDisableInstanceDiscovery = False,
     oSendCertificateChain = False, oTokenFilePath = [], oEntraCache = False, oDeviceCodePrompt = False,
     oConnectTimeout = 500000000, oApplicationName = ''app'', oMaxOpenConns = 0, oMaxIdleConns = 0,
     oConnMaxLifetime = 0, oConnMaxIdleTime = 0, oDialer = False, oSessionInitSQL = [],
     oExtraParams = [(''WSID'', [''me'']), (''log'', [''63''])] \<rparr>"

abbreviation asciiLower :: "string \<Rightarrow> string" where
  "asciiLower \<equiv> map lower_char"

lemma sample_address: "address asciiLower asciiFold sampleOptions = (''db1'', [], 1500)"
  "splitServerAddressPort asciiLower ''db1'' = (''db1'', [], 0, False)"
proof -
  show s: "splitServerAddressPort asciiLower ''db1'' = (''db1'', [], 0, False)"
    by (rule form_host) (simp add: plainHost_def bslash_def)
  have "\<not> EqualFold asciiFold ''db1'' ''(local)''"
    using EqualFold_ascii_length [of "''db1''" "''(local)''" asciiFold] by (auto simp: is_ascii_def)
  then show "address asciiLower asciiFold sampleOptions = (''db1'', [], 1500)"
    using parse_split [OF s, of asciiFold] by (simp add: address_def thisMachine_def sampleOptions_def)
qed

lemma sample_target: "dsnHost asciiLower asciiFold sampleOptions = Inr (''db1:1500'', [])"
proof -
  have "\<not> EqualFold asciiFold ''db1'' ''(localdb)''"
    using EqualFold_ascii_length [of "''db1''" "''(localdb)''" asciiFold] by (auto simp: is_ascii_def)
  moreover have "oServer sampleOptions = ''db1''" "oPort sampleOptions = 1500" by (simp_all add: sampleOptions_def)
  moreover have "fst (splitProtocolPrefix asciiLower ''db1'') = []" by (simp add: no_colon_no_prefix)
  moreover have "itoa 1500 = ''1500''" by code_simp
  ultimately show ?thesis by (simp add: dsnHost_def sample_address unsupportedProtocols_def trim_both_def trim_left_def trim_right_def)
qed

lemma sample_keys: "entryKey asciiLower (''WSID'', [''me'']) = ''workstation id''" "entryKey asciiLower (''log'', [''63'']) = ''log''"
proof -
  have "trim_space ''WSID'' = ''WSID''" "trim_space ''log'' = ''log''"
    by (rule trim_space_ascii; simp add: is_ascii_def isSpaceRune_def byte_def)+
  moreover have "asciiLower ''WSID'' = ''wsid''" "asciiLower ''log'' = ''log''" by code_simp+
  ultimately show "entryKey asciiLower (''WSID'', [''me'']) = ''workstation id''" "entryKey asciiLower (''log'', [''63'']) = ''log''"
    by (simp_all add: entryKey_def canonicalKey_def adoDSNSynonyms_def Let_def)
qed

lemma sample_pairs:
  "onlyDial asciiFold (map (entryKey asciiLower) (oExtraParams sampleOptions))"
  "distinct (map fst (oExtraParams sampleOptions))" "apart asciiFold asciiLower (set (oExtraParams sampleOptions))"
proof -
  have x: "oExtraParams sampleOptions = [(''WSID'', [''me'']), (''log'', [''63''])]" by (simp add: sampleOptions_def)
  have "\<not> EqualFold asciiFold ''workstation id'' dial" "\<not> EqualFold asciiFold ''log'' dial"
    "\<not> EqualFold asciiFold ''workstation id'' ''log''" "\<not> EqualFold asciiFold ''log'' ''workstation id''"
    using EqualFold_ascii_length [of "''workstation id''" dial asciiFold] EqualFold_ascii_length [of "''log''" dial asciiFold]
      EqualFold_ascii_length [of "''workstation id''" "''log''" asciiFold]
      EqualFold_ascii_length [of "''log''" "''workstation id''" asciiFold] by (auto simp: is_ascii_def)
  then show "onlyDial asciiFold (map (entryKey asciiLower) (oExtraParams sampleOptions))"
    "distinct (map fst (oExtraParams sampleOptions))" "apart asciiFold asciiLower (set (oExtraParams sampleOptions))"
    unfolding x by (simp_all add: onlyDial_def sample_keys apart_def pairwise_def)
qed

abbreviation sampleFields :: qvalues where
  "sampleFields \<equiv> [(''database'', ''a&b''), (''app name'', ''app''), (''connection timeout'', ''1''), (dial, ''1''),
      (''TrustServerCertificate'', ''true'')]"

lemma sample_fields:
  "fieldValues ''linux'' asciiFold sampleOptions = Inr sampleFields"
  "freeKey asciiFold (map fst sampleFields) ''workstation id''" "freeKey asciiFold (map fst sampleFields) ''log''"
proof -
  have t: "itoa (timeoutSeconds 500000000) = ''1''" by code_simp
  have o: "oAuth sampleOptions = AuthSQLServer" "oConnectTimeout sampleOptions = 500000000" "oEncrypt sampleOptions = []"
    "oHostNameInCertificate sampleOptions = []" "oTrustServerCertificate sampleOptions"
    "oDatabase sampleOptions = ''a&b''" "oApplicationName sampleOptions = ''app''" by (simp_all add: sampleOptions_def)
  show "fieldValues ''linux'' asciiFold sampleOptions = Inr sampleFields"
    unfolding fieldValues_def isEntraMethod_def classicValues_def commonDSNValues_def Let_def o t
    by (simp add: authNumber_def setIf_def o)
  have l: "list_all (\<lambda>k. is_ascii k \<and> length k \<noteq> 14 \<and> length k \<noteq> 3) (map fst sampleFields)" by (simp add: is_ascii_def)
  have "\<not> EqualFold asciiFold k k'" if "k \<in> set (map fst sampleFields)" "k' = ''workstation id'' \<or> k' = ''log''" for k k'
  proof
    assume e: "EqualFold asciiFold k k'"
    have k: "is_ascii k" "length k \<noteq> 14" "length k \<noteq> 3" using bspec [OF l [unfolded list_all_iff] that(1)] by blast+
    have "is_ascii k'" "length k' = 14 \<or> length k' = 3" using that(2) by (auto simp: is_ascii_def)
    then show False using k EqualFold_ascii_length [OF k(1) _ e] by linarith
  qed
  then show "freeKey asciiFold (map fst sampleFields) ''workstation id''" "freeKey asciiFold (map fst sampleFields) ''log''"
    unfolding freeKey_def list_ex_iff if_bool_eq_disj by blast+
qed

lemma sample_built: "\<exists>dsn. buildDSN ''linux'' asciiLower asciiFold sampleOptions = Inr (dsn, ''sqlserver'')"
proof -
  have x: "oExtraParams sampleOptions = [(''WSID'', [''me'']), (''log'', [''63''])]" "oAuth sampleOptions = AuthSQLServer"
    "oServer sampleOptions \<noteq> []" by (simp_all add: sampleOptions_def)
  obtain q where q: "fieldValues ''linux'' asciiFold sampleOptions = Inr q" "freeKey asciiFold (map fst q) ''workstation id''"
    "freeKey asciiFold (map fst q) ''log''" using sample_fields by blast
  have ok: "onlyDial asciiFold (map fst q)" "distinct (map fst q)"
    using okQ_dial okQ_fields [OF q(1)] by (auto simp: okQ_def)
  have d: "distinct (oExtraParams sampleOptions)" using sample_pairs(2) by (simp add: distinct_map)
  have keys: "canonicalKey asciiLower ''WSID'' = ''workstation id''" "canonicalKey asciiLower ''log'' = ''log''"
    using sample_keys by (simp_all add: entryKey_def)
  have "\<forall>e \<in> set (oExtraParams sampleOptions). goodEntry asciiLower e \<and> freeKey asciiFold (map fst q) (entryKey asciiLower e)"
    unfolding x using q(2,3) by (simp add: goodEntry_def keys sample_keys reservedDSNKeys_def)
  then have "mergeExtraParams asciiLower asciiFold q (oExtraParams sampleOptions) = Inr (addAll asciiLower q (oExtraParams sampleOptions))"
    using merge_Inr [OF ok sample_pairs(1) d] sample_pairs(3) by blast
  then show ?thesis using q(1) x
    by (simp add: buildDSN_def sample_target fieldValues_def isEntraMethod_def authNumber_def extraRes_def)
qed

lemma dsn_reads_back_witness:
  "\<exists>dsn q. buildDSN ''linux'' asciiLower asciiFold sampleOptions = Inr (dsn, ''sqlserver'') \<and>
     map_option rdHost (readURL dsn) = Some (Some ''db1:1500'') \<and>
     map_option rdUser (readURL dsn) = Some (Some (Some (''sa'', Some ''p@ss''))) \<and>
     map_of q ''workstation id'' = Some ''me'' \<and> qGet q ''database'' = ''a&b''"
proof -
  obtain dsn where dsn: "buildDSN ''linux'' asciiLower asciiFold sampleOptions = Inr (dsn, ''sqlserver'')"
    using sample_built by blast
  have "''db1:1500'' \<noteq> [] \<or> [] \<noteq> ([] :: string)" by simp
  from dsn_reads_back [OF dsn sample_target this sample_pairs(1,2)] obtain fields q where
    r: "readURL dsn = Some \<lparr> rdUser = (if isEntraMethod (oAuth sampleOptions) then None
        else map_option (\<lambda>i. Some (uiName i, uiPassword i)) (classicUser ''linux'' sampleOptions)),
      rdHost = Some ''db1:1500'', rdPath = Some (instancePath []),
      rdQuery = map (\<lambda>k. Some (k, qGet q k)) (sort (map fst q)) \<rparr>"
    and f: "fieldValues ''linux'' asciiFold sampleOptions = Inr fields"
    and q: "map_of q ''workstation id'' = (case map_of (map (\<lambda>e. (entryKey asciiLower e, hd (snd e))) (oExtraParams sampleOptions))
        ''workstation id'' of Some v \<Rightarrow> Some v | None \<Rightarrow> map_of fields ''workstation id'')"
    and k: "\<forall>k \<in> set (map fst fields). k \<noteq> dial \<longrightarrow> qGet q k = qGet fields k"
    by blast
  have x: "oExtraParams sampleOptions = [(''WSID'', [''me'']), (''log'', [''63''])]" "oAuth sampleOptions = AuthSQLServer"
    "oUser sampleOptions = ''sa''" "oPassword sampleOptions = ''p@ss''" by (simp_all add: sampleOptions_def)
  have "qGet q ''database'' = ''a&b''" using k f sample_fields(1) by (auto simp: qGet_def)
  moreover have "map_of q ''workstation id'' = Some ''me''" using q by (simp add: x sample_keys)
  ultimately show ?thesis using dsn r
    by (intro exI [of _ dsn] exI [of _ q]) (simp add: isEntraMethod_def authNumber_def x classicUser_def)
qed

lemma dsn_ignores_map_order_witness:
  "buildDSN ''linux'' asciiLower asciiFold (sampleOptions \<lparr> oExtraParams := [(''log'', [''63'']), (''WSID'', [''me''])] \<rparr>) =
     buildDSN ''linux'' asciiLower asciiFold sampleOptions"
proof -
  obtain r where r: "buildDSN ''linux'' asciiLower asciiFold sampleOptions = Inr r" using sample_built by blast
  have "distinct [(''log'', [''63'']), (''WSID'', [''me''])]"
    "set [(''log'', [''63'']), (''WSID'', [''me''])] = set (oExtraParams sampleOptions)"
    by (auto simp: sampleOptions_def)
  from dsn_ignores_map_order [OF r sample_pairs(1,2) this] show ?thesis unfolding r .
qed

lemma dsn_target_witness:
  "address asciiLower asciiFold sampleOptions = (''db1'', [], 1500) \<and> ''db1:1500'' = ''db1'' @ '':'' @ itoa 1500"
  using dsn_target [OF sample_target] by (simp add: sample_address)

end
