(* ===== verification/Retarget.thy ===== *)
theory Retarget
  imports Dsn Errors
begin

text \<open>
  The connector of a pool (\<open>connection_retarget.go\<close>): every new connection logs in to the
  database the options name, and the pool moves off a database that can no longer be opened --
  when the package itself left it that way, or when a dial is refused for it.  Dials run on many
  goroutines at once, each taking the mutex only for single reads and writes, so the model is a
  step relation over the shared connector and the dials in flight; what the network and the
  server answer is up to the environment.  \<open>sf\<close> is the folding of \<open>strings.EqualFold\<close>.
  The lemmas show that the pool always dials a connector of its current options, that a dial is
  repeated at most once and only as the code says, and that a pool in master stays there.
\<close>

section \<open>The connector\<close>

text \<open>
  A driver connector is an object: two are the same (Go's \<open>==\<close>) when they were built by the
  same call, which \<open>conId\<close> numbers.  \<open>conOpts\<close> is what it logs in with.
\<close>

record connector =
  conId :: nat
  conOpts :: ConnectionOptions

record retargetingConnector =
  rcCur :: connector
  rcOpts :: ConnectionOptions
  rcFallBack :: bool
  rcBuilt :: nat

text \<open>
  \<open>build\<close> of the code: it fails with an error or makes a new object.  Which of the two is the
  environment's choice, here the argument \<open>failed\<close>; \<open>rcBuilt\<close> counts the objects made.
\<close>

definition buildWith :: "goerr option \<Rightarrow> nat \<Rightarrow> ConnectionOptions \<Rightarrow> connector res" where
  "buildWith failed n opts =
     (case failed of Some e \<Rightarrow> Inl e | None \<Rightarrow> Inr \<lparr> conId = n, conOpts = opts \<rparr>)"

definition newRetargetingConnectorWith :: "goerr option \<Rightarrow> ConnectionOptions \<Rightarrow> retargetingConnector res" where
  "newRetargetingConnectorWith failed opts =
     res_bind (buildWith failed 0 opts) (\<lambda>connector.
       Inr \<lparr> rcCur = connector, rcOpts = opts, rcFallBack = False, rcBuilt = 1 \<rparr>)"

definition currentConnector :: "retargetingConnector \<Rightarrow> connector" where
  "currentConnector c = rcCur c"

definition loginDatabase :: "retargetingConnector \<Rightarrow> string" where
  "loginDatabase c = oDatabase (rcOpts c)"

definition enableFallBack :: "retargetingConnector \<Rightarrow> retargetingConnector" where
  "enableFallBack c = c \<lparr> rcFallBack := True \<rparr>"

definition retarget :: "(nat \<Rightarrow> nat) \<Rightarrow> goerr option \<Rightarrow> string \<Rightarrow> string \<Rightarrow> retargetingConnector \<Rightarrow> retargetingConnector" where
  "retarget sf failed origin database c =
     (if \<not> EqualFold sf (oDatabase (rcOpts c)) origin then c
      else let opts = (rcOpts c) \<lparr> oDatabase := database \<rparr>
           in case buildWith failed (rcBuilt c) opts of
                Inl e \<Rightarrow> c
              | Inr connector \<Rightarrow> c \<lparr> rcCur := connector, rcOpts := opts, rcBuilt := Suc (rcBuilt c) \<rparr>)"

section \<open>Refused logins\<close>

definition loginRefusalNumbers :: "int list" where
  "loginRefusalNumbers = [4060, 4063, 924, 927, 942, 952, 976]"

definition loginDatabaseRefused :: "goerr \<Rightarrow> bool" where
  "loginDatabaseRefused err =
     (case asDriver err of
        None \<Rightarrow> False
      | Some me \<Rightarrow> list_ex (\<lambda>e. msNumber e \<in> set loginRefusalNumbers) (me # msAll me))"

section \<open>The server\<close>

text \<open>\<open>InitialDatabase\<close>: \<open>None\<close> is a server whose pool the package did not open.\<close>

definition InitialDatabase :: "retargetingConnector option \<Rightarrow> string" where
  "InitialDatabase login = (case login of None \<Rightarrow> [] | Some c \<Rightarrow> loginDatabase c)"

text \<open>\<open>leftLoginDatabase\<close>: the connector after it, and whether the idle connections are released.\<close>

definition leftLoginDatabase :: "(nat \<Rightarrow> nat) \<Rightarrow> goerr option \<Rightarrow> bool \<Rightarrow> string \<Rightarrow> string \<Rightarrow>
    retargetingConnector option \<Rightarrow> retargetingConnector option \<times> bool" where
  "leftLoginDatabase sf failed scripting origin database login =
     (case login of
        None \<Rightarrow> (None, False)
      | Some c \<Rightarrow>
          if scripting \<or> \<not> EqualFold sf (loginDatabase c) origin then (Some c, False)
          else (Some (retarget sf failed origin database c), True))"

section \<open>A dial\<close>

text \<open>
  Where a call of \<open>Connect\<close> is, with what it has read: before its first dial, refused and about
  to move the pool, having moved it, before its second dial, and returned.  An outcome is the
  connection, by the connector that made it, or an error.
\<close>

type_synonym outcome = "goerr + connector"

datatype dialState =
    NotDialled
  | FirstDial connector string bool
  | Refused connector string goerr
  | Moved connector goerr
  | SecondDial connector goerr
  | Returned outcome

definition readPool :: "retargetingConnector \<Rightarrow> dialState" where
  "readPool c = FirstDial (rcCur c) (oDatabase (rcOpts c)) (rcFallBack c)"

definition afterFirst :: "(nat \<Rightarrow> nat) \<Rightarrow> connector \<Rightarrow> string \<Rightarrow> bool \<Rightarrow> goerr option \<Rightarrow> dialState" where
  "afterFirst sf cur database fallBack err =
     (case err of
        None \<Rightarrow> Returned (Inr cur)
      | Some e \<Rightarrow>
          if \<not> fallBack \<or> EqualFold sf database ''master'' \<or> \<not> loginDatabaseRefused e then Returned (Inl e)
          else Refused cur database e)"

definition afterMove :: "connector \<Rightarrow> goerr \<Rightarrow> retargetingConnector \<Rightarrow> dialState" where
  "afterMove cur e c =
     (let next_con = currentConnector c
      in if next_con = cur then Returned (Inl e) else SecondDial next_con e)"

definition afterSecond :: "connector \<Rightarrow> goerr option \<Rightarrow> dialState" where
  "afterSecond next_con err = Returned (case err of None \<Rightarrow> Inr next_con | Some e \<Rightarrow> Inl e)"

section \<open>Everything that happens to a pool\<close>

text \<open>
  \<open>dialled\<close> is the connectors a call of \<open>Connect\<close> has dialled.  \<open>L\<close> holds the moves the
  writes of the package make (\<open>leftLoginDatabase\<close>), as pairs of the database left and the one
  moved to; errors and failed builds are the environment's.
\<close>

record poolSystem =
  sysPool :: retargetingConnector
  sysCalls :: "nat \<Rightarrow> dialState"
  sysDialled :: "nat \<Rightarrow> connector list"

inductive poolStep :: "(nat \<Rightarrow> nat) \<Rightarrow> (string \<times> string) set \<Rightarrow> poolSystem \<Rightarrow> poolSystem \<Rightarrow> bool"
  for sf :: "nat \<Rightarrow> nat" and L :: "(string \<times> string) set" where
  call: "sysCalls s i = NotDialled \<Longrightarrow> poolStep sf L s (s \<lparr> sysCalls := (sysCalls s)(i := readPool (sysPool s)) \<rparr>)"
| first: "sysCalls s i = FirstDial cur database fallBack \<Longrightarrow>
    poolStep sf L s (s \<lparr> sysCalls := (sysCalls s)(i := afterFirst sf cur database fallBack err),
      sysDialled := (sysDialled s)(i := sysDialled s i @ [cur]) \<rparr>)"
| move: "sysCalls s i = Refused cur database e \<Longrightarrow>
    poolStep sf L s (s \<lparr> sysPool := retarget sf failed database ''master'' (sysPool s),
      sysCalls := (sysCalls s)(i := Moved cur e) \<rparr>)"
| reread: "sysCalls s i = Moved cur e \<Longrightarrow>
    poolStep sf L s (s \<lparr> sysCalls := (sysCalls s)(i := afterMove cur e (sysPool s)) \<rparr>)"
| second: "sysCalls s i = SecondDial next_con e \<Longrightarrow>
    poolStep sf L s (s \<lparr> sysCalls := (sysCalls s)(i := afterSecond next_con err),
      sysDialled := (sysDialled s)(i := sysDialled s i @ [next_con]) \<rparr>)"
| enable: "poolStep sf L s (s \<lparr> sysPool := enableFallBack (sysPool s) \<rparr>)"
| left: "(origin, database) \<in> L \<Longrightarrow>
    leftLoginDatabase sf failed scripting origin database (Some (sysPool s)) = (Some c, idle) \<Longrightarrow>
    poolStep sf L s (s \<lparr> sysPool := c \<rparr>)"

text \<open>A server that has just been opened.\<close>

definition poolStart :: "retargetingConnector \<Rightarrow> poolSystem" where
  "poolStart c = \<lparr> sysPool = c, sysCalls = (\<lambda>_. NotDialled), sysDialled = (\<lambda>_. []) \<rparr>"

section \<open>What holds throughout\<close>

text \<open>The options differ from those of the start in the database alone.\<close>

definition sameBut :: "ConnectionOptions \<Rightarrow> ConnectionOptions \<Rightarrow> bool" where
  "sameBut opts o' \<longleftrightarrow> o' = opts \<lparr> oDatabase := oDatabase o' \<rparr>"

definition poolOK :: "ConnectionOptions \<Rightarrow> retargetingConnector \<Rightarrow> bool" where
  "poolOK opts c \<longleftrightarrow> conOpts (rcCur c) = rcOpts c \<and> sameBut opts (rcOpts c) \<and> conId (rcCur c) < rcBuilt c"

text \<open>The first dial was one that may be repeated, and \<open>e\<close> is its refusal.\<close>

definition mayRepeat :: "(nat \<Rightarrow> nat) \<Rightarrow> connector \<Rightarrow> goerr \<Rightarrow> bool" where
  "mayRepeat sf cur e \<longleftrightarrow> loginDatabaseRefused e \<and> \<not> EqualFold sf (oDatabase (conOpts cur)) ''master''"

definition callOK :: "(nat \<Rightarrow> nat) \<Rightarrow> ConnectionOptions \<Rightarrow> dialState \<Rightarrow> connector list \<Rightarrow> bool" where
  "callOK sf opts d cs \<longleftrightarrow> list_all (\<lambda>c. sameBut opts (conOpts c)) cs \<and>
     (case d of
        NotDialled \<Rightarrow> cs = []
      | FirstDial cur database fallBack \<Rightarrow> cs = [] \<and> oDatabase (conOpts cur) = database \<and> sameBut opts (conOpts cur)
      | Refused cur database e \<Rightarrow> cs = [cur] \<and> oDatabase (conOpts cur) = database \<and> mayRepeat sf cur e
      | Moved cur e \<Rightarrow> cs = [cur] \<and> mayRepeat sf cur e
      | SecondDial next_con e \<Rightarrow> sameBut opts (conOpts next_con) \<and>
          (\<exists>cur. cs = [cur] \<and> next_con \<noteq> cur \<and> mayRepeat sf cur e)
      | Returned r \<Rightarrow> (\<exists>cur. cs = [cur]) \<and> (\<forall>c. r = Inr c \<longrightarrow> c = last cs) \<or>
          (\<exists>cur next_con e. cs = [cur, next_con] \<and> next_con \<noteq> cur \<and> mayRepeat sf cur e) \<and> (\<forall>c. r = Inr c \<longrightarrow> c = last cs))"


lemma sameBut_database: "sameBut opts o' \<Longrightarrow> sameBut opts (o' \<lparr> oDatabase := d \<rparr>)"
  unfolding sameBut_def by (cases o') simp

lemma retarget_cases:
  "retarget sf failed origin database c = c \<or>
   (EqualFold sf (oDatabase (rcOpts c)) origin \<and>
    retarget sf failed origin database c =
      c \<lparr> rcCur := \<lparr> conId = rcBuilt c, conOpts = (rcOpts c) \<lparr> oDatabase := database \<rparr> \<rparr>,
        rcOpts := (rcOpts c) \<lparr> oDatabase := database \<rparr>, rcBuilt := Suc (rcBuilt c) \<rparr>)"
  unfolding retarget_def buildWith_def Let_def by (auto split: option.splits)

lemma retarget_OK: "poolOK opts c \<Longrightarrow> poolOK opts (retarget sf failed origin database c)"
  using retarget_cases [of sf failed origin database c] sameBut_database [of opts "rcOpts c" database]
  unfolding poolOK_def by auto

lemma left_retargets:
  "leftLoginDatabase sf failed scripting origin database (Some c) = (Some c', idle) \<Longrightarrow>
     c' = c \<or> c' = retarget sf failed origin database c"
  by (auto simp: leftLoginDatabase_def split: if_splits)

lemma step_pool: "poolStep sf L s s' \<Longrightarrow> poolOK opts (sysPool s) \<Longrightarrow> poolOK opts (sysPool s')"
proof (induction rule: poolStep.induct)
  case (left origin database failed scripting s c idle)
  then show ?case using left_retargets [OF left(2)] retarget_OK by auto
qed (simp_all add: retarget_OK, simp add: enableFallBack_def poolOK_def)

lemma first_OK:
  "callOK sf opts (FirstDial cur database fallBack) cs \<Longrightarrow> callOK sf opts (afterFirst sf cur database fallBack err) (cs @ [cur])"
  unfolding callOK_def afterFirst_def mayRepeat_def by (cases err) auto

lemma reread_OK:
  "callOK sf opts (Moved cur e) cs \<Longrightarrow> poolOK opts c \<Longrightarrow> callOK sf opts (afterMove cur e c) cs"
  unfolding callOK_def afterMove_def currentConnector_def poolOK_def Let_def by auto

lemma second_OK: "callOK sf opts (SecondDial next_con e) cs \<Longrightarrow> callOK sf opts (afterSecond next_con err) (cs @ [next_con])"
  unfolding callOK_def afterSecond_def by (cases err) auto

lemma step_calls:
  "poolStep sf L s s' \<Longrightarrow> poolOK opts (sysPool s) \<Longrightarrow> (\<And>i. callOK sf opts (sysCalls s i) (sysDialled s i)) \<Longrightarrow>
     callOK sf opts (sysCalls s' j) (sysDialled s' j)"
proof (induction rule: poolStep.induct)
  case (call s i)
  have "callOK sf opts (readPool (sysPool s)) (sysDialled s i)"
    using call(1,2) call(3) [of i] by (simp add: readPool_def callOK_def poolOK_def)
  then show ?case using call(3) [of j] by simp
next
  case (first s i cur database fallBack err)
  then show ?case using first_OK [of sf opts cur database fallBack] first(3) [of i] first(3) [of j] by auto
next
  case (move s i cur database e failed)
  then show ?case using move(3) [of i] move(3) [of j] by (auto simp: callOK_def)
next
  case (reread s i cur e)
  then show ?case using reread_OK [of sf opts cur e] reread(3) [of i] reread(3) [of j] by auto
next
  case (second s i next_con e err)
  then show ?case using second_OK [of sf opts next_con e] second(3) [of i] second(3) [of j] by auto
qed simp_all

text \<open>
  C18: whatever dials, moves and refusals run at once, the pool's connector is always one built of
  its current options, and those are the caller's in all but the database.  A call of \<open>Connect\<close>
  dials one connector, or a second, other one when the first dial was refused for a database that
  is not master; the connection it returns is of the connector it dialled last.
\<close>

theorem pool_invariant:
  assumes "newRetargetingConnectorWith failed opts = Inr c" "(poolStep sf L)\<^sup>*\<^sup>* (poolStart c) s"
  shows "poolOK opts (sysPool s) \<and> callOK sf opts (sysCalls s i) (sysDialled s i)"
proof -
  have c: "poolOK opts c"
    using assms(1) by (auto simp: newRetargetingConnectorWith_def buildWith_def poolOK_def sameBut_def split: option.splits)
  have "poolOK opts (sysPool s) \<and> (\<forall>i. callOK sf opts (sysCalls s i) (sysDialled s i))"
    using assms(2)
  proof (induction rule: rtranclp_induct)
    case base
    then show ?case using c by (simp add: poolStart_def callOK_def)
  next
    case (step s s')
    then show ?case using step_pool step_calls by blast
  qed
  then show ?thesis by blast
qed


section \<open>A pool that loses its database\<close>

definition salesOptions :: ConnectionOptions where
  "salesOptions = sampleOptions \<lparr> oDatabase := ''Sales'' \<rparr>"

definition loginRefused :: goerr where
  "loginRefused = Driver (MsError 4060 1 11 ''Cannot open database'' [] [] 1 [])"

lemma sales_dials:
  "\<exists>c s. newRetargetingConnectorWith None salesOptions = Inr c \<and> (poolStep asciiFold {})\<^sup>*\<^sup>* (poolStart c) s \<and>
     loginDatabase (sysPool s) = ''master'' \<and> map (\<lambda>c. oDatabase (conOpts c)) (sysDialled s 0) = [''Sales'', ''master'']"
proof -
  define c where "c = \<lparr> rcCur = \<lparr> conId = 0, conOpts = salesOptions \<rparr>, rcOpts = salesOptions, rcFallBack = False, rcBuilt = 1 \<rparr>"
  have new: "newRetargetingConnectorWith None salesOptions = Inr c" by (simp add: newRetargetingConnectorWith_def buildWith_def c_def)
  have db: "oDatabase salesOptions = ''Sales''" by (simp add: salesOptions_def)
  have nm: "\<not> EqualFold asciiFold ''Sales'' ''master''"
    using EqualFold_ascii_length [of "''Sales''" "''master''" asciiFold] by (auto simp: is_ascii_def)
  let ?step = "poolStep asciiFold {}"
  define s1 where "s1 = (poolStart c) \<lparr> sysPool := enableFallBack c \<rparr>"
  define s2 where "s2 = s1 \<lparr> sysCalls := (sysCalls s1)(0 := readPool (sysPool s1)) \<rparr>"
  define s3 where "s3 = s2 \<lparr> sysCalls := (sysCalls s2)(0 := afterFirst asciiFold (rcCur c) ''Sales'' True (Some loginRefused)),
      sysDialled := (sysDialled s2)(0 := sysDialled s2 0 @ [rcCur c]) \<rparr>"
  define s4 where "s4 = s3 \<lparr> sysPool := retarget asciiFold None ''Sales'' ''master'' (sysPool s3),
      sysCalls := (sysCalls s3)(0 := Moved (rcCur c) loginRefused) \<rparr>"
  define s5 where "s5 = s4 \<lparr> sysCalls := (sysCalls s4)(0 := afterMove (rcCur c) loginRefused (sysPool s4)) \<rparr>"
  let ?con = "\<lparr> conId = 1, conOpts = salesOptions \<lparr> oDatabase := ''master'' \<rparr> \<rparr>"
  define s6 where "s6 = s5 \<lparr> sysCalls := (sysCalls s5)(0 := afterSecond ?con None),
      sysDialled := (sysDialled s5)(0 := sysDialled s5 0 @ [?con]) \<rparr>"
  have pool: "sysPool s4 = \<lparr> rcCur = ?con, rcOpts = salesOptions \<lparr> oDatabase := ''master'' \<rparr>, rcFallBack = True, rcBuilt = 2 \<rparr>"
    by (simp add: s4_def s3_def s2_def s1_def retarget_def enableFallBack_def c_def db buildWith_def Let_def)
  have "?step (poolStart c) s1" unfolding s1_def using poolStep.enable [of asciiFold "{}" "poolStart c"] by (simp add: poolStart_def)
  moreover have "?step s1 s2" unfolding s2_def by (rule poolStep.call) (simp add: s1_def poolStart_def)
  moreover have "?step s2 s3" unfolding s3_def
    by (rule poolStep.first) (simp add: s2_def s1_def readPool_def enableFallBack_def c_def db)
  moreover have "loginDatabaseRefused loginRefused" by (simp add: loginRefused_def loginDatabaseRefused_def loginRefusalNumbers_def)
  then have "?step s3 s4" unfolding s4_def
    by (intro poolStep.move [where database = "''Sales''"]) (simp add: s3_def afterFirst_def nm)
  moreover have "?step s4 s5" unfolding s5_def by (rule poolStep.reread) (simp add: s4_def)
  moreover have "?step s5 s6" unfolding s6_def
    by (rule poolStep.second [where e = loginRefused]) (simp add: s5_def pool afterMove_def currentConnector_def c_def)
  ultimately have "?step\<^sup>*\<^sup>* (poolStart c) s6" by (meson converse_rtranclp_into_rtranclp rtranclp.rtrancl_refl)
  moreover have "sysPool s6 = sysPool s4" by (simp add: s6_def s5_def)
  then have "loginDatabase (sysPool s6) = ''master''" by (simp add: pool loginDatabase_def)
  moreover have "sysDialled s6 0 = [rcCur c, ?con]" by (simp add: s6_def s5_def s4_def s3_def s2_def s1_def poolStart_def)
  then have "map (\<lambda>c. oDatabase (conOpts c)) (sysDialled s6 0) = [''Sales'', ''master'']" by (simp add: c_def db)
  ultimately show ?thesis by (intro exI [of _ c] exI [of _ s6] conjI new)
qed

lemma pool_invariant_witness:
  "\<exists>s :: poolSystem. poolOK salesOptions (sysPool s) \<and> length (sysDialled s 0) = 2 \<and>
     callOK asciiFold salesOptions (sysCalls s 0) (sysDialled s 0)"
proof -
  obtain c s where s: "newRetargetingConnectorWith None salesOptions = Inr c" "(poolStep asciiFold {})\<^sup>*\<^sup>* (poolStart c) s"
    "map (\<lambda>c. oDatabase (conOpts c)) (sysDialled s 0) = [''Sales'', ''master'']" using sales_dials by (elim exE conjE) (rule that)
  have n: "length (sysDialled s 0) = 2" using arg_cong [OF s(3), of length] by simp
  note i = pool_invariant [OF s(1,2), of 0]
  show ?thesis by (rule exI [of _ s], rule conjI [OF conjunct1 [OF i] conjI [OF n conjunct2 [OF i]]])
qed


end
