(* ===== verification/Permission.thy ===== *)
theory Permission
  imports BackupRestore Calls "HOL-Library.Char_ord" "HOL-Library.List_Lexorder"
begin

text \<open>
  Granting permissions (\<open>permission_options.go\<close>, with the name tables of \<open>security.go\<close>,
  \<open>server_security.go\<close> and \<open>column_permission.go\<close>): one GRANT, DENY or REVOKE on any securable.
  A permission name can be neither quoted nor bound, so every class of securable has a list of
  the names it takes.  \<open>lo\<close> is \<open>strings.ToLower\<close>, used in messages only.  The lemmas show
  that exactly the sensible requests are accepted and that what is sent says what was asked.
\<close>

section \<open>Names of permissions\<close>

abbreviation PermSelect :: string where "PermSelect \<equiv> ''SELECT''"
abbreviation PermInsert :: string where "PermInsert \<equiv> ''INSERT''"
abbreviation PermUpdate :: string where "PermUpdate \<equiv> ''UPDATE''"
abbreviation PermDelete :: string where "PermDelete \<equiv> ''DELETE''"
abbreviation PermExecute :: string where "PermExecute \<equiv> ''EXECUTE''"
abbreviation PermControl :: string where "PermControl \<equiv> ''CONTROL''"
abbreviation PermView :: string where "PermView \<equiv> ''VIEW DEFINITION''"
abbreviation PermAlter :: string where "PermAlter \<equiv> ''ALTER''"
abbreviation PermReferences :: string where "PermReferences \<equiv> ''REFERENCES''"
abbreviation PermTakeOwnership :: string where "PermTakeOwnership \<equiv> ''TAKE OWNERSHIP''"
abbreviation PermViewChangeTracking :: string where "PermViewChangeTracking \<equiv> ''VIEW CHANGE TRACKING''"

text \<open>Each Go map from names to \<open>true\<close> is the list of its keys.\<close>

definition objectPermissionNames :: "string list" where
  "objectPermissionNames =
    [PermAlter, PermControl, PermDelete, PermInsert, PermReferences, PermSelect, PermTakeOwnership, PermUpdate,
     PermView, PermViewChangeTracking]"

definition schemaPermissionNames :: "string list" where
  "schemaPermissionNames =
    [PermAlter, PermControl, PermDelete, PermExecute, PermInsert, PermReferences, PermSelect, PermTakeOwnership,
     PermUpdate, PermView, PermViewChangeTracking]"

definition viewPermissionNames :: "string list" where
  "viewPermissionNames =
    [PermAlter, PermControl, PermDelete, PermInsert, PermReferences, PermSelect, PermTakeOwnership, PermUpdate,
     PermView]"

definition procedurePermissionNames :: "string list" where
  "procedurePermissionNames =
    [PermAlter, PermControl, PermExecute, PermReferences, PermTakeOwnership, PermView]"

definition scalarFunctionPermissionNames :: "string list" where
  "scalarFunctionPermissionNames =
    [PermAlter, PermControl, PermExecute, PermReferences, PermTakeOwnership, PermView]"

definition inlineFunctionPermissionNames :: "string list" where
  "inlineFunctionPermissionNames =
    [PermAlter, PermControl, PermDelete, PermInsert, PermReferences, PermSelect, PermTakeOwnership, PermUpdate,
     PermView]"

definition tableFunctionPermissionNames :: "string list" where
  "tableFunctionPermissionNames =
    [PermAlter, PermControl, PermReferences, PermSelect, PermTakeOwnership, PermView]"

definition sequencePermissionNames :: "string list" where
  "sequencePermissionNames =
    [PermAlter, PermControl, PermReferences, PermUpdate, PermTakeOwnership, PermView]"

definition synonymPermissionNames :: "string list" where
  "synonymPermissionNames =
    [PermAlter, PermControl, PermDelete, PermExecute, PermInsert, PermSelect, PermTakeOwnership, PermUpdate,
     PermView]"

definition userTypePermissionNames :: "string list" where
  "userTypePermissionNames =
    [PermControl, PermExecute, PermReferences, PermTakeOwnership, PermView]"

definition certificatePermissionNames :: "string list" where
  "certificatePermissionNames =
    [PermAlter, PermControl, PermReferences, PermTakeOwnership, PermView]"

definition columnPermissionNames :: "string list" where
  "columnPermissionNames =
    [PermSelect, PermUpdate, PermReferences]"

definition databasePermissionNames :: "string list" where
  "databasePermissionNames =
    [''ALTER'', ''ALTER ANY APPLICATION ROLE'', ''ALTER ANY ASSEMBLY'', ''ALTER ANY ASYMMETRIC KEY'',
     ''ALTER ANY CERTIFICATE'', ''ALTER ANY CONTRACT'', ''ALTER ANY DATABASE AUDIT'',
     ''ALTER ANY DATABASE DDL TRIGGER'', ''ALTER ANY DATABASE EVENT NOTIFICATION'', ''ALTER ANY DATASPACE'',
     ''ALTER ANY FULLTEXT CATALOG'', ''ALTER ANY MESSAGE TYPE'', ''ALTER ANY REMOTE SERVICE BINDING'',
     ''ALTER ANY ROLE'', ''ALTER ANY ROUTE'', ''ALTER ANY SCHEMA'', ''ALTER ANY SECURITY POLICY'',
     ''ALTER ANY SERVICE'', ''ALTER ANY SYMMETRIC KEY'', ''ALTER ANY USER'', ''AUTHENTICATE'',
     ''BACKUP DATABASE'', ''BACKUP LOG'', ''CHECKPOINT'', ''CONNECT'', ''CONNECT REPLICATION'', ''CONTROL'',
     ''CREATE AGGREGATE'', ''CREATE ASSEMBLY'', ''CREATE ASYMMETRIC KEY'', ''CREATE CERTIFICATE'',
     ''CREATE CONTRACT'', ''CREATE DATABASE'', ''CREATE DATABASE DDL EVENT NOTIFICATION'', ''CREATE DEFAULT'',
     ''CREATE FULLTEXT CATALOG'', ''CREATE FUNCTION'', ''CREATE MESSAGE TYPE'', ''CREATE PROCEDURE'',
     ''CREATE QUEUE'', ''CREATE REMOTE SERVICE BINDING'', ''CREATE ROLE'', ''CREATE ROUTE'', ''CREATE RULE'',
     ''CREATE SCHEMA'', ''CREATE SERVICE'', ''CREATE SYMMETRIC KEY'', ''CREATE SYNONYM'', ''CREATE TABLE'',
     ''CREATE TYPE'', ''CREATE VIEW'', ''CREATE XML SCHEMA COLLECTION'', ''DELETE'', ''EXECUTE'',
     ''EXECUTE ANY EXTERNAL SCRIPT'', ''INSERT'', ''KILL DATABASE CONNECTION'', ''REFERENCES'', ''SELECT'',
     ''SHOWPLAN'', ''SUBSCRIBE QUERY NOTIFICATIONS'', ''TAKE OWNERSHIP'', ''UNMASK'', ''UPDATE'',
     ''VIEW DATABASE STATE'', ''VIEW DEFINITION'']"

definition serverPermissionNames :: "string list" where
  "serverPermissionNames =
    [''ADMINISTER BULK OPERATIONS'', ''ALTER ANY AVAILABILITY GROUP'', ''ALTER ANY CONNECTION'',
     ''ALTER ANY CREDENTIAL'', ''ALTER ANY DATABASE'', ''ALTER ANY ENDPOINT'', ''ALTER ANY EVENT NOTIFICATION'',
     ''ALTER ANY EVENT SESSION'', ''ALTER ANY LINKED SERVER'', ''ALTER ANY LOGIN'', ''ALTER ANY SERVER AUDIT'',
     ''ALTER ANY SERVER ROLE'', ''ALTER RESOURCES'', ''ALTER SERVER STATE'', ''ALTER SETTINGS'', ''ALTER TRACE'',
     ''AUTHENTICATE SERVER'', ''CONNECT ANY DATABASE'', ''CONNECT SQL'', ''CONTROL SERVER'',
     ''CREATE ANY DATABASE'', ''CREATE AVAILABILITY GROUP'', ''CREATE DDL EVENT NOTIFICATION'',
     ''CREATE ENDPOINT'', ''CREATE SERVER ROLE'', ''CREATE TRACE EVENT NOTIFICATION'',
     ''EXTERNAL ACCESS ASSEMBLY'', ''IMPERSONATE ANY LOGIN'', ''SELECT ALL USER SECURABLES'', ''SHUTDOWN'',
     ''UNSAFE ASSEMBLY'', ''VIEW ANY DATABASE'', ''VIEW ANY DEFINITION'', ''VIEW SERVER STATE'',
     ''VIEW SERVER SECURITY AUDIT'']"

section \<open>Securables\<close>

text \<open>Verbs and classes are strings of named types, so a caller can pass any text.\<close>

type_synonym PermissionVerb = string
type_synonym SecurableClass = string

abbreviation VerbGrant :: PermissionVerb where "VerbGrant \<equiv> ''GRANT''"
abbreviation VerbDeny :: PermissionVerb where "VerbDeny \<equiv> ''DENY''"
abbreviation VerbRevoke :: PermissionVerb where "VerbRevoke \<equiv> ''REVOKE''"

abbreviation SecurableServer :: SecurableClass where "SecurableServer \<equiv> ''SERVER''"
abbreviation SecurableDatabase :: SecurableClass where "SecurableDatabase \<equiv> ''DATABASE''"
abbreviation SecurableSchema :: SecurableClass where "SecurableSchema \<equiv> ''SCHEMA''"
abbreviation SecurableTable :: SecurableClass where "SecurableTable \<equiv> ''TABLE''"
abbreviation SecurableView :: SecurableClass where "SecurableView \<equiv> ''VIEW''"
abbreviation SecurableProcedure :: SecurableClass where "SecurableProcedure \<equiv> ''PROCEDURE''"
abbreviation SecurableScalarFunction :: SecurableClass where "SecurableScalarFunction \<equiv> ''SCALAR FUNCTION''"
abbreviation SecurableInlineFunction :: SecurableClass where "SecurableInlineFunction \<equiv> ''INLINE FUNCTION''"
abbreviation SecurableTableFunction :: SecurableClass where "SecurableTableFunction \<equiv> ''TABLE FUNCTION''"
abbreviation SecurableSequence :: SecurableClass where "SecurableSequence \<equiv> ''SEQUENCE''"
abbreviation SecurableSynonym :: SecurableClass where "SecurableSynonym \<equiv> ''SYNONYM''"
abbreviation SecurableUserType :: SecurableClass where "SecurableUserType \<equiv> ''TYPE''"
abbreviation SecurableCertificate :: SecurableClass where "SecurableCertificate \<equiv> ''CERTIFICATE''"

text \<open>\<open>Columns\<close> is \<open>None\<close> when the slice is nil.\<close>

record Securable =
  scClass :: SecurableClass
  scSchema :: string
  scName :: string
  scColumns :: "string list option"

record PermissionOptions =
  poWithGrantOption :: bool
  poCascade :: bool
  poGrantOptionOnly :: bool

definition objectNamesTable :: "(SecurableClass \<times> string list) list" where
  "objectNamesTable =
     [(SecurableSchema, schemaPermissionNames), (SecurableTable, objectPermissionNames),
      (SecurableView, viewPermissionNames), (SecurableProcedure, procedurePermissionNames),
      (SecurableScalarFunction, scalarFunctionPermissionNames), (SecurableInlineFunction, inlineFunctionPermissionNames),
      (SecurableTableFunction, tableFunctionPermissionNames), (SecurableSequence, sequencePermissionNames),
      (SecurableSynonym, synonymPermissionNames), (SecurableUserType, userTypePermissionNames),
      (SecurableCertificate, certificatePermissionNames)]"

definition objectNames :: "SecurableClass \<Rightarrow> string list option" where
  "objectNames c = map_of objectNamesTable c"

definition HasColumns :: "SecurableClass \<Rightarrow> bool" where
  "HasColumns c \<longleftrightarrow> c \<in> {SecurableTable, SecurableView, SecurableInlineFunction, SecurableTableFunction}"

definition SchemaScoped :: "SecurableClass \<Rightarrow> bool" where
  "SchemaScoped c \<longleftrightarrow>
     c \<in> {SecurableTable, SecurableView, SecurableProcedure, SecurableScalarFunction, SecurableInlineFunction,
          SecurableTableFunction, SecurableSequence, SecurableSynonym, SecurableUserType}"

definition allows :: "SecurableClass \<Rightarrow> string \<Rightarrow> bool \<Rightarrow> bool" where
  "allows c name columns \<longleftrightarrow>
     (if columns then
        HasColumns c \<and> name \<in> set columnPermissionNames \<and> (case objectNames c of None \<Rightarrow> False | Some m \<Rightarrow> name \<in> set m)
      else if c = SecurableServer then name \<in> set serverPermissionNames
      else if c = SecurableDatabase then name \<in> set databasePermissionNames
      else (case objectNames c of None \<Rightarrow> False | Some m \<Rightarrow> name \<in> set m))"

text \<open>The catalogs of names, in order.\<close>

definition PermissionNames :: "SecurableClass \<Rightarrow> string list" where
  "PermissionNames c =
     (if c = SecurableServer then sort serverPermissionNames
      else if c = SecurableDatabase then sort databasePermissionNames
      else (case objectNames c of None \<Rightarrow> [] | Some m \<Rightarrow> sort m))"

definition ColumnPermissionNames :: "SecurableClass \<Rightarrow> string list" where
  "ColumnPermissionNames c = filter (\<lambda>name. allows c name True) (sort columnPermissionNames)"

section \<open>Checks\<close>

definition onClause :: "Securable \<Rightarrow> string" where
  "onClause s =
     (if scClass s = SecurableServer \<or> scClass s = SecurableDatabase then []
      else if scClass s = SecurableSchema then ''ON SCHEMA::'' @ QuoteName (scName s)
      else if scClass s = SecurableUserType then ''ON TYPE::'' @ QualifiedName (scSchema s) (scName s)
      else if scClass s = SecurableCertificate then ''ON CERTIFICATE::'' @ QuoteName (scName s)
      else ''ON '' @ QualifiedName (scSchema s) (scName s))"

definition namedClass :: "SecurableClass \<Rightarrow> bool" where
  "namedClass c \<longleftrightarrow> c \<noteq> SecurableServer \<and> c \<noteq> SecurableDatabase"

text \<open>The column list, or the permission on the whole securable.\<close>

definition checkNames :: "(string \<Rightarrow> string) \<Rightarrow> Securable \<Rightarrow> string \<Rightarrow> string \<Rightarrow> goerr option" where
  "checkNames lo s lower perm =
     (case scColumns s of
        Some cols \<Rightarrow>
          if \<not> HasColumns (scClass s)
          then Some (invalidf ''gosmo: %s permission: a %s has no column permissions'' [AText lower, AText (lo (scClass s))])
          else if cols = [] then Some (invalidf ''gosmo: %s column permission: no columns named'' [AText lower])
          else if \<not> allows (scClass s) perm True
          then Some (invalidf ''gosmo: %s column permission: %q cannot be granted on a column of a %s''
            [AText lower, AText perm, AText (lo (scClass s))])
          else None
      | None \<Rightarrow>
          if \<not> allows (scClass s) perm False
          then Some (invalidf ''gosmo: %s permission: %q cannot be granted on a %s'' [AText lower, AText perm, AText (lo (scClass s))])
          else None)"

definition checkPermission :: "(string \<Rightarrow> string) \<Rightarrow> Securable \<Rightarrow> PermissionVerb \<Rightarrow> string \<Rightarrow> goerr option" where
  "checkPermission lo s verb perm =
     (let lower = lo verb; c = scClass s; named = namedClass c
      in if verb \<notin> {VerbGrant, VerbDeny, VerbRevoke}
         then Some (invalidf ''gosmo: apply permission: unknown verb %q'' [AText verb])
         else if objectNames c = None \<and> named
         then Some (invalidf ''gosmo: %s permission: unknown securable class %q'' [AText lower, AText c])
         else if named \<and> scName s = []
         then Some (invalidf ''gosmo: %s permission: a %s securable needs a name'' [AText lower, AText (lo c)])
         else if \<not> named \<and> (scName s \<noteq> [] \<or> scSchema s \<noteq> [])
         then Some (invalidf ''gosmo: %s permission: a %s permission names no securable'' [AText lower, AText (lo c)])
         else if \<not> SchemaScoped c \<and> scSchema s \<noteq> []
         then Some (invalidf ''gosmo: %s permission: a %s is not schema-scoped'' [AText lower, AText (lo c)])
         else (case (if SchemaScoped c then requireSchema (lower @ '' permission'') (scSchema s) (scName s) else None) of
                 Some e \<Rightarrow> Some e
               | None \<Rightarrow> checkNames lo s lower perm))"

section \<open>The statement\<close>

record permissionStmt =
  psVerb :: string
  psPermission :: string
  psColumns :: "string list option"
  psOn :: string
  psPrincipal :: string
  psOpts :: PermissionOptions

definition columnList :: "string list option \<Rightarrow> string list" where
  "columnList cs = (case cs of None \<Rightarrow> [] | Some l \<Rightarrow> l)"

definition renderPermission :: "(string \<Rightarrow> string) \<Rightarrow> permissionStmt \<Rightarrow> string res" where
  "renderPermission lo p =
     (let opts = psOpts p; verb = psVerb p
      in if poWithGrantOption opts \<and> verb \<noteq> VerbGrant
         then Inl (invalidf ''gosmo: %s: WITH GRANT OPTION applies to GRANT only'' [AText (lo verb)])
         else if poGrantOptionOnly opts \<and> verb \<noteq> VerbRevoke
         then Inl (invalidf ''gosmo: %s: GRANT OPTION FOR applies to REVOKE only'' [AText (lo verb)])
         else if poCascade opts \<and> verb = VerbGrant
         then Inl (invalidf ''gosmo: grant: CASCADE applies to DENY and REVOKE only'' [])
         else Inr (verb @ '' '' @ (if poGrantOptionOnly opts then ''GRANT OPTION FOR '' else []) @ psPermission p @
           (if columnList (psColumns p) \<noteq> [] then '' ('' @ str_join '', '' (map QuoteName (columnList (psColumns p))) @ '')'' else []) @
           (if psOn p \<noteq> [] then '' '' @ psOn p else []) @
           (if verb = VerbRevoke then '' FROM '' else '' TO '') @ QuoteName (psPrincipal p) @
           (if poWithGrantOption opts then '' WITH GRANT OPTION''
            else if poCascade opts \<or> poGrantOptionOnly opts then '' CASCADE'' else [])))"

text \<open>A nil \<open>PermissionName\<close> is \<open>None\<close>.\<close>

definition permissionStatement :: "(string \<Rightarrow> string) \<Rightarrow> Securable \<Rightarrow> PermissionVerb \<Rightarrow> string option \<Rightarrow> string \<Rightarrow>
    PermissionOptions \<Rightarrow> string res" where
  "permissionStatement lo s verb perm grantee opts =
     (case perm of
        None \<Rightarrow> Inl (invalidf ''gosmo: %s permission: no permission named'' [AText (lo verb)])
      | Some name \<Rightarrow>
          (case checkPermission lo s verb name of
             Some e \<Rightarrow> Inl e
           | None \<Rightarrow> renderPermission lo \<lparr> psVerb = verb, psPermission = name, psColumns = scColumns s,
               psOn = onClause s, psPrincipal = grantee, psOpts = opts \<rparr>))"

section \<open>Applying it\<close>

definition onText :: "Securable \<Rightarrow> string" where
  "onText s =
     (let on1 = onClause s
      in if on1 = [] then []
         else let on2 = (if columnList (scColumns s) \<noteq> []
                then on1 @ '' ('' @ str_join '', '' (map QuoteName (columnList (scColumns s))) @ '')'' else on1)
              in ''on'' @ drop 2 on2 @ '' '')"

definition fromOrTo :: "PermissionVerb \<Rightarrow> string" where
  "fromOrTo verb = (if verb = VerbRevoke then ''from'' else ''to'')"

text \<open>\<open>permissionName()\<close>; a nil name has been refused before it is asked for.\<close>

definition permissionName :: "string option \<Rightarrow> string" where
  "permissionName perm = (case perm of None \<Rightarrow> [] | Some name \<Rightarrow> name)"

definition databaseApplyPermission :: "(string \<Rightarrow> string) \<Rightarrow> 'w driver \<Rightarrow> ctx \<Rightarrow> database \<Rightarrow> PermissionVerb \<Rightarrow> Securable \<Rightarrow>
    string option \<Rightarrow> string \<Rightarrow> PermissionOptions \<Rightarrow> 'w st \<Rightarrow> goerr option \<times> 'w st" where
  "databaseApplyPermission lo D c d verb sec perm grantee opts s =
     (if scClass sec = SecurableServer
      then (Some (invalidf ''gosmo: %s permission: a server permission goes through Server.ApplyPermission'' [AText (lo verb)]), s)
      else (case permissionStatement lo sec verb perm grantee opts of
              Inl e \<Rightarrow> (Some e, s)
            | Inr q \<Rightarrow>
                (case databaseExec D c d q [] s of
                   (Some e, s1) \<Rightarrow> (Some (Wrapped ''gosmo: %s %s %s%s %q in %q: %w''
                     [AText (lo verb), AText (permissionName perm), AText (onText sec), AText (fromOrTo verb),
                      AText grantee, AText (dName d)] e), s1)
                 | (None, s1) \<Rightarrow> (None, s1))))"

definition serverApplyPermission :: "(string \<Rightarrow> string) \<Rightarrow> 'w driver \<Rightarrow> ctx \<Rightarrow> server \<Rightarrow> PermissionVerb \<Rightarrow> Securable \<Rightarrow>
    string option \<Rightarrow> string \<Rightarrow> PermissionOptions \<Rightarrow> 'w st \<Rightarrow> goerr option \<times> 'w st" where
  "serverApplyPermission lo D c srv verb sec perm grantee opts s =
     (if scClass sec \<noteq> SecurableServer
      then (Some (invalidf ''gosmo: %s permission: a %s permission goes through Database.ApplyPermission''
        [AText (lo verb), AText (lo (scClass sec))]), s)
      else (case permissionStatement lo sec verb perm grantee opts of
              Inl e \<Rightarrow> (Some e, s)
            | Inr q \<Rightarrow>
                (case applyInMaster D c srv q s of
                   (Some e, s1) \<Rightarrow> (Some (Wrapped ''gosmo: %s %s %s %q: %w''
                     [AText (lo verb), AText (permissionName perm), AText (fromOrTo verb), AText grantee] e), s1)
                 | (None, s1) \<Rightarrow> (None, s1))))"

section \<open>What is accepted\<close>

text \<open>
  A request that makes sense: a known verb and class, a securable named as its class is named, a
  permission the class takes (on a column, one that columns take), and modifiers of the verb.
\<close>

definition rightlyNamed :: "Securable \<Rightarrow> bool" where
  "rightlyNamed s \<longleftrightarrow> (scName s \<noteq> [] \<longleftrightarrow> namedClass (scClass s)) \<and> (scSchema s \<noteq> [] \<longleftrightarrow> SchemaScoped (scClass s))"

definition takesPermission :: "Securable \<Rightarrow> string \<Rightarrow> bool" where
  "takesPermission s name \<longleftrightarrow>
     (case scColumns s of
        None \<Rightarrow> name \<in> set (PermissionNames (scClass s))
      | Some cols \<Rightarrow> cols \<noteq> [] \<and> name \<in> set (ColumnPermissionNames (scClass s)))"

definition fitModifiers :: "PermissionVerb \<Rightarrow> PermissionOptions \<Rightarrow> bool" where
  "fitModifiers verb opts \<longleftrightarrow>
     (if verb = VerbGrant then \<not> poCascade opts \<and> \<not> poGrantOptionOnly opts
      else \<not> poWithGrantOption opts \<and> (if verb = VerbRevoke then True else \<not> poGrantOptionOnly opts))"

definition permissionAccepted :: "Securable \<Rightarrow> PermissionVerb \<Rightarrow> string option \<Rightarrow> PermissionOptions \<Rightarrow> bool" where
  "permissionAccepted s verb perm opts \<longleftrightarrow>
     (case perm of None \<Rightarrow> False
      | Some name \<Rightarrow> verb \<in> {VerbGrant, VerbDeny, VerbRevoke} \<and> rightlyNamed s \<and> takesPermission s name \<and> fitModifiers verb opts)"

lemmas class_tables = objectNames_def objectNamesTable_def HasColumns_def SchemaScoped_def namedClass_def

lemma allows_whole: "allows c name False \<longleftrightarrow> name \<in> set (PermissionNames c)"
  by (auto simp: allows_def PermissionNames_def split: option.splits)

lemma allows_column: "allows c name True \<longleftrightarrow> name \<in> set (ColumnPermissionNames c)"
  by (auto simp: ColumnPermissionNames_def) (simp add: allows_def)

lemma columns_known: "HasColumns c \<Longrightarrow> objectNames c \<noteq> None" "SchemaScoped c \<Longrightarrow> objectNames c \<noteq> None"
  "SchemaScoped c \<Longrightarrow> namedClass c" "objectNames c \<noteq> None \<Longrightarrow> namedClass c"
  by (auto simp: class_tables split: if_splits)

lemma PermissionNames_known: "name \<in> set (PermissionNames c) \<Longrightarrow> objectNames c \<noteq> None \<or> \<not> namedClass c"
  by (cases "objectNames c") (simp_all add: PermissionNames_def namedClass_def split: if_splits)

lemma ColumnPermissionNames_known: "name \<in> set (ColumnPermissionNames c) \<Longrightarrow> HasColumns c"
  by (auto simp: ColumnPermissionNames_def allows_def)

lemma checkNames_iff: "checkNames lo s lower perm = None \<longleftrightarrow> takesPermission s perm"
  using ColumnPermissionNames_known [of perm "scClass s"]
  by (auto simp: checkNames_def takesPermission_def allows_whole allows_column split: option.splits)

lemma checkPermission_iff:
  "checkPermission lo s verb perm = None \<longleftrightarrow> verb \<in> {VerbGrant, VerbDeny, VerbRevoke} \<and> rightlyNamed s \<and> takesPermission s perm"
proof -
  have known: "objectNames (scClass s) \<noteq> None \<or> \<not> namedClass (scClass s)" if "takesPermission s perm"
    using that PermissionNames_known [of perm "scClass s"] columns_known(1) [of "scClass s"] ColumnPermissionNames_known [of perm "scClass s"]
    by (auto simp: takesPermission_def split: option.splits)
  show ?thesis
    using known columns_known(3) [of "scClass s"]
    by (auto simp: checkPermission_def Let_def checkNames_iff rightlyNamed_def requireSchema_def split: if_splits)
qed

lemma checkPermission_error: "checkPermission lo s verb perm = Some e \<Longrightarrow> errors_is e ErrInvalidRequest \<or> errors_is e ErrSchemaRequired"
  by (auto simp: checkPermission_def checkNames_def requireSchema_def Let_def split: if_splits option.splits)

lemma render_accepts:
  "psVerb p \<in> {VerbGrant, VerbDeny, VerbRevoke} \<Longrightarrow> isOk (renderPermission lo p) \<longleftrightarrow> fitModifiers (psVerb p) (psOpts p)"
  by (auto simp: renderPermission_def fitModifiers_def Let_def)

lemma render_error: "renderPermission lo p = Inl e \<Longrightarrow> errors_is e ErrInvalidRequest"
  by (auto simp: renderPermission_def Let_def split: if_splits)

section \<open>The statement in pieces\<close>

definition nameParts :: "Securable \<Rightarrow> piece list" where
  "nameParts s = (if scSchema s = [] then [Ident (scName s)] else [Ident (scSchema s), Raw ''.'', Ident (scName s)])"

definition onPieces :: "Securable \<Rightarrow> piece list" where
  "onPieces s =
     (if \<not> namedClass (scClass s) then []
      else Raw (if scClass s = SecurableSchema then ''ON SCHEMA::'' else if scClass s = SecurableUserType then ''ON TYPE::''
                else if scClass s = SecurableCertificate then ''ON CERTIFICATE::'' else ''ON '') # nameParts s)"

definition columnPieces :: "string list \<Rightarrow> piece list" where
  "columnPieces cs = (if cs = [] then [] else Raw '' ('' # joinPieces '', '' (map (\<lambda>c. [Ident c]) cs) @ [Raw '')''])"

definition permissionPieces :: "Securable \<Rightarrow> PermissionVerb \<Rightarrow> string \<Rightarrow> string \<Rightarrow> PermissionOptions \<Rightarrow> piece list" where
  "permissionPieces s verb name grantee opts =
     Raw (verb @ '' '' @ (if poGrantOptionOnly opts then ''GRANT OPTION FOR '' else []) @ name) #
     columnPieces (columnList (scColumns s)) @
     (if onPieces s = [] then [] else Raw '' '' # onPieces s) @
     [Raw (if verb = VerbRevoke then '' FROM '' else '' TO ''), Ident grantee,
      Raw (if poWithGrantOption opts then '' WITH GRANT OPTION''
           else if poCascade opts \<or> poGrantOptionOnly opts then '' CASCADE'' else [])]"

lemma render_on: "rightlyNamed s \<Longrightarrow> render (onPieces s) = onClause s"
  by (auto simp: onPieces_def onClause_def nameParts_def rightlyNamed_def class_tables QualifiedName_def split: if_splits)

lemma onClause_empty: "onClause s = [] \<longleftrightarrow> onPieces s = []"
  by (auto simp: onClause_def onPieces_def namedClass_def)

lemma render_columns:
  "render (columnPieces cs) = (if cs = [] then [] else '' ('' @ str_join '', '' (map QuoteName cs) @ '')'')"
  by (simp add: columnPieces_def render_join comp_def)

lemma render_permission:
  assumes "rightlyNamed s" "renderPermission lo \<lparr> psVerb = verb, psPermission = name, psColumns = scColumns s,
    psOn = onClause s, psPrincipal = grantee, psOpts = opts \<rparr> = Inr q"
  shows "q = render (permissionPieces s verb name grantee opts)"
proof -
  have on: "render (if onPieces s = [] then [] else Raw '' '' # onPieces s) = (if onClause s \<noteq> [] then '' '' @ onClause s else [])"
    using render_on [OF assms(1)] by (simp add: onClause_empty)
  show ?thesis
    using assms(2) unfolding renderPermission_def Let_def permissionPieces_def render_simps renderPiece.simps on render_columns
    by (auto split: if_splits)
qed

text \<open>Permission names and verbs are words of capitals.\<close>

definition capsText :: "string \<Rightarrow> bool" where
  "capsText s \<longleftrightarrow> list_all (\<lambda>c. c \<in> set ''ABCDEFGHIJKLMNOPQRSTUVWXYZ '') s"

lemma caps_plain: "capsText s \<Longrightarrow> d \<noteq> Some squote \<Longrightarrow> plain p s d"
proof (induction s arbitrary: p)
  case (Cons c s)
  have "firstOf s d \<noteq> Some squote" using Cons.prems by (cases s) (auto simp: capsText_def char_consts)
  then show ?case using Cons by (auto simp: capsText_def char_consts)
qed simp

lemma allowed_caps: "allows c name b \<Longrightarrow> capsText name"
proof -
  have t: "list_all capsText columnPermissionNames" "list_all capsText serverPermissionNames" "list_all capsText databasePermissionNames"
    "list_all (\<lambda>e. list_all capsText (snd e)) objectNamesTable" by code_simp+
  have o: "capsText name" if "objectNames c = Some m" "name \<in> set m" for m
    using that t(4) map_of_SomeD unfolding objectNames_def list_all_iff by fastforce
  show "allows c name b \<Longrightarrow> capsText name"
    using t(1-3) o unfolding allows_def list_all_iff by (auto split: if_splits option.splits)
qed

lemma wf_on: "onPieces s \<noteq> [] \<Longrightarrow> sepc d \<Longrightarrow> wfD (Some (CHR '' '')) (onPieces s) d"
  by (auto simp: onPieces_def nameParts_def clause_simps split: if_splits)

lemma okClause_columns: "okClause (joinPieces '', '' (map (\<lambda>c. [Ident c]) cs))"
  by (rule okClause_join [OF sepText_comma(1)]) (auto simp: okClause_def clause_simps)

lemma wf_permissionPieces:
  assumes "verb \<in> {VerbGrant, VerbDeny, VerbRevoke}" "capsText name"
  shows "wfPieces None (permissionPieces s verb name grantee opts)"
proof -
  let ?head = "verb @ '' '' @ (if poGrantOptionOnly opts then ''GRANT OPTION FOR '' else []) @ name"
  have h: "capsText ?head" using assms by (auto simp: capsText_def)
  then have head: "plain p ?head d" if "d \<noteq> Some squote" for p d using caps_plain that by blast
  have tail: "wfD p [Raw (if verb = VerbRevoke then '' FROM '' else '' TO ''), Ident grantee,
      Raw (if poWithGrantOption opts then '' WITH GRANT OPTION''
           else if poCascade opts \<or> poGrantOptionOnly opts then '' CASCADE'' else [])] None" for p
    by (simp add: clause_simps)
  have on: "wfD p ((if onPieces s = [] then [] else Raw '' '' # onPieces s)) (Some (CHR '' ''))" for p
    using wf_on [of s "Some (CHR '' '')"] by (auto simp: clause_simps)
  have cols: "wfD p (columnPieces (columnList (scColumns s))) (Some (CHR '' ''))" for p
    by (auto simp: columnPieces_def clause_simps okClauseD [OF okClause_columns])
  have first: "firstPieceD (columnPieces (columnList (scColumns s)) @ (if onPieces s = [] then [] else Raw '' '' # onPieces s) @
      [Raw (if verb = VerbRevoke then '' FROM '' else '' TO ''), Ident grantee,
      Raw (if poWithGrantOption opts then '' WITH GRANT OPTION''
           else if poCascade opts \<or> poGrantOptionOnly opts then '' CASCADE'' else [])]) None = Some (CHR '' '')"
    by (simp add: columnPieces_def)
  have next_on: "firstPieceD ((if onPieces s = [] then [] else Raw '' '' # onPieces s) @
      [Raw (if verb = VerbRevoke then '' FROM '' else '' TO ''), Ident grantee,
      Raw (if poWithGrantOption opts then '' WITH GRANT OPTION''
           else if poCascade opts \<or> poGrantOptionOnly opts then '' CASCADE'' else [])]) None = Some (CHR '' '')"
    by simp
  have next_tail: "firstPieceD [Raw (if verb = VerbRevoke then '' FROM '' else '' TO ''), Ident grantee,
      Raw (if poWithGrantOption opts then '' WITH GRANT OPTION''
           else if poCascade opts \<or> poGrantOptionOnly opts then '' CASCADE'' else [])] None = Some (CHR '' '')"
    by simp
  show ?thesis
    unfolding wfD_None [symmetric] permissionPieces_def wfD.simps(2) first wfD_append next_on next_tail
    using head cols on tail by (simp add: char_consts)
qed

text \<open>What a request quotes, and the request with every name blanked.\<close>

definition permissionValues :: "Securable \<Rightarrow> string \<Rightarrow> string list" where
  "permissionValues s grantee =
     columnList (scColumns s) @ filter (\<lambda>n. n \<noteq> []) [scSchema s, scName s] @ [grantee]"

definition blankSecurable :: "Securable \<Rightarrow> Securable" where
  "blankSecurable s = s \<lparr> scSchema := masked (scSchema s), scName := masked (scName s),
     scColumns := map_option (map (\<lambda>_. [])) (scColumns s) \<rparr>"

lemma pieceVals_permission:
  "rightlyNamed s \<Longrightarrow> pieceVals (permissionPieces s verb name grantee opts) = permissionValues s grantee"
  using columns_known(3) [of "scClass s"]
  by (auto simp: permissionPieces_def permissionValues_def columnPieces_def pieceVals_join onPieces_def nameParts_def
      rightlyNamed_def comp_def)

lemma blank_columns: "map blankPiece (columnPieces (map (\<lambda>_. []) cs)) = map blankPiece (columnPieces cs)"
  by (auto simp: columnPieces_def blank_join comp_def)

lemma permission_shape:
  "map blankPiece (permissionPieces (blankSecurable s) verb name [] opts) = map blankPiece (permissionPieces s verb name grantee opts)"
proof -
  have c: "columnList (scColumns (blankSecurable s)) = map (\<lambda>_. []) (columnList (scColumns s))"
    by (auto simp: blankSecurable_def columnList_def split: option.splits)
  have o: "map blankPiece (onPieces (blankSecurable s)) = map blankPiece (onPieces s)" "onPieces (blankSecurable s) = [] \<longleftrightarrow> onPieces s = []"
    by (simp_all add: onPieces_def nameParts_def blankSecurable_def)
  show ?thesis unfolding permissionPieces_def c list.map map_append blank_columns using o by auto
qed

lemma blank_accepted: "rightlyNamed (blankSecurable s) = rightlyNamed s" "takesPermission (blankSecurable s) = takesPermission s"
  by (auto simp: rightlyNamed_def blankSecurable_def) (auto simp: takesPermission_def split: option.splits)

lemma accepted_text:
  assumes "permissionAccepted s verb (Some name) opts"
  shows "permissionStatement lo s verb (Some name) grantee opts = Inr (render (permissionPieces s verb name grantee opts))"
proof -
  have a: "verb \<in> {VerbGrant, VerbDeny, VerbRevoke}" "rightlyNamed s" "takesPermission s name" "fitModifiers verb opts"
    using assms by (simp_all add: permissionAccepted_def)
  let ?p = "\<lparr> psVerb = verb, psPermission = name, psColumns = scColumns s, psOn = onClause s, psPrincipal = grantee, psOpts = opts \<rparr>"
  have "isOk (renderPermission lo ?p)" using render_accepts [of ?p lo] a by simp
  then obtain q where q: "renderPermission lo ?p = Inr q" by (auto simp: isOk_iff)
  then show ?thesis
    using render_permission [OF a(2) q] checkPermission_iff [of lo s verb name] a by (simp add: permissionStatement_def)
qed

lemma accepted_wf: "permissionAccepted s verb (Some name) opts \<Longrightarrow> wfPieces None (permissionPieces s verb name grantee opts)"
proof -
  assume a: "permissionAccepted s verb (Some name) opts"
  have "capsText name"
    using a allowed_caps [of "scClass s" name]
    by (auto simp: permissionAccepted_def takesPermission_def simp flip: allows_whole allows_column split: option.splits)
  then show ?thesis using a by (intro wf_permissionPieces) (simp_all add: permissionAccepted_def)
qed

lemma permission_refused:
  assumes "\<not> permissionAccepted s verb perm opts"
  shows "\<exists>e. permissionStatement lo s verb perm grantee opts = Inl e \<and>
    (errors_is e ErrInvalidRequest \<or> errors_is e ErrSchemaRequired)"
proof (cases perm)
  case None
  then show ?thesis using assms by (simp add: permissionStatement_def)
next
  case (Some name)
  show ?thesis
  proof (cases "checkPermission lo s verb name")
    case (Some e)
    then show ?thesis using assms \<open>perm = Some name\<close> checkPermission_error [OF Some] by (auto simp: permissionStatement_def)
  next
    case None
    let ?p = "\<lparr> psVerb = verb, psPermission = name, psColumns = scColumns s, psOn = onClause s, psPrincipal = grantee, psOpts = opts \<rparr>"
    have "\<not> isOk (renderPermission lo ?p)"
      using assms None Some checkPermission_iff [of lo s verb name] render_accepts [of ?p lo]
      by (auto simp: permissionAccepted_def)
    then obtain e where e: "renderPermission lo ?p = Inl e" by (cases "renderPermission lo ?p") auto
    then show ?thesis using assms None Some render_error [OF e] by (auto simp: permissionStatement_def)
  qed
qed

lemma permission_decided: "isOk (permissionStatement lo s verb perm grantee opts) \<longleftrightarrow> permissionAccepted s verb perm opts"
proof (cases "permissionAccepted s verb perm opts")
  case True
  then obtain name where "perm = Some name" by (auto simp: permissionAccepted_def split: option.splits)
  then show ?thesis using True accepted_text [of s verb name opts lo grantee] by simp
next
  case False
  then show ?thesis using permission_refused [OF False, of lo grantee] by auto
qed

text \<open>
  C20: GRANT, DENY and REVOKE.  Exactly the requests that make sense are sent -- a known verb, a
  securable named as its class is, a permission the class takes, modifiers of the verb -- and
  any other is refused as invalid or for its missing schema.  What is sent quotes the columns,
  the securable's name and the grantee, in this order, leaves nothing open, and is otherwise the
  same whatever the names hold.
\<close>

theorem permission_statement_faithful:
  "(if permissionAccepted s verb perm opts
    then \<exists>q q'. permissionStatement lo s verb perm grantee opts = Inr q \<and> quotedValues q = permissionValues s grantee \<and> allClosed q \<and>
      permissionStatement lo (blankSecurable s) verb perm [] opts = Inr q' \<and> skeleton q = skeleton q'
    else \<exists>e. permissionStatement lo s verb perm grantee opts = Inl e \<and>
      (errors_is e ErrInvalidRequest \<or> errors_is e ErrSchemaRequired))"
proof (cases "permissionAccepted s verb perm opts")
  case True
  then obtain name where n: "perm = Some name" by (auto simp: permissionAccepted_def split: option.splits)
  then have a: "permissionAccepted s verb (Some name) opts" "permissionAccepted (blankSecurable s) verb (Some name) opts"
    "rightlyNamed s" using True by (auto simp: permissionAccepted_def blank_accepted)
  note r = rendered [OF accepted_wf [OF a(1), of grantee] refl] rendered [OF accepted_wf [OF a(2), of "[]"] refl]
  show ?thesis
    using True n r accepted_text [OF a(1), of lo grantee] accepted_text [OF a(2), of lo "[]"]
      pieceSkeleton_shape [OF permission_shape [of s verb name opts grantee]] pieceVals_permission [OF a(3)] by simp
qed (use permission_refused [of s verb perm opts lo grantee] in simp)

text \<open>
  The catalog a permissions grid enumerates is exactly what the statement takes: the names are
  sorted, none comes twice, and a grant of a name is accepted just when the catalog of the class
  has it -- for the whole securable and, in the shorter catalog, for its columns.
\<close>

theorem permission_catalogs:
  "sorted (PermissionNames c) \<and> distinct (PermissionNames c) \<and> set (ColumnPermissionNames c) \<subseteq> set (PermissionNames c) \<and>
   isOk (permissionStatement lo \<lparr> scClass = c, scSchema = sch, scName = n, scColumns = None \<rparr> VerbGrant (Some name) grantee opts) =
     (rightlyNamed \<lparr> scClass = c, scSchema = sch, scName = n, scColumns = None \<rparr> \<and> name \<in> set (PermissionNames c) \<and>
      fitModifiers VerbGrant opts) \<and>
   isOk (permissionStatement lo \<lparr> scClass = c, scSchema = sch, scName = n, scColumns = Some cols \<rparr> VerbGrant (Some name) grantee opts) =
     (rightlyNamed \<lparr> scClass = c, scSchema = sch, scName = n, scColumns = Some cols \<rparr> \<and> cols \<noteq> [] \<and>
      name \<in> set (ColumnPermissionNames c) \<and> fitModifiers VerbGrant opts)"
proof -
  have t: "distinct serverPermissionNames" "distinct databasePermissionNames" "list_all (\<lambda>e. distinct (snd e)) objectNamesTable"
    by code_simp+
  have d: "distinct m" if "objectNames c = Some m" for m
    using t(3) map_of_SomeD [OF that [unfolded objectNames_def]] unfolding list_all_iff by fastforce
  have cols: "set (ColumnPermissionNames c) \<subseteq> set (PermissionNames c)"
  proof
    fix x assume "x \<in> set (ColumnPermissionNames c)"
    then have "HasColumns c" "case objectNames c of None \<Rightarrow> False | Some m \<Rightarrow> x \<in> set m"
      by (auto simp: ColumnPermissionNames_def allows_def)
    then show "x \<in> set (PermissionNames c)" by (auto simp: PermissionNames_def HasColumns_def split: option.splits)
  qed
  show ?thesis
    unfolding permission_decided using t d cols
    by (auto simp: PermissionNames_def permissionAccepted_def takesPermission_def split: option.splits)
qed

end
