(* ===== verification/Floats.thy ===== *)
theory Floats
  imports Complex_Main GoStrings
begin

text \<open>
  The floating-point numbers of Go: \<open>float64\<close> and \<open>float32\<close> as the rational a finite value stands
  for, with the negative zero, the infinities and NaN apart.  The conversions round to the nearest
  value of the format, ties to even; \<open>strconv.FormatFloat(f, 'f', places, 64)\<close> rounds the exact
  value the same way in decimal.
\<close>

datatype gofloat = Fin rat | NegZero | PosInf | NegInf | NaN

definition notFinite :: "gofloat \<Rightarrow> bool" where
  "notFinite f \<longleftrightarrow> f \<in> {PosInf, NegInf, NaN}"

definition roundEven :: "rat \<Rightarrow> int" where
  "roundEven q =
     (let n = \<lfloor>q\<rfloor>; r = q - of_int n
      in if r < 1 / 2 then n else if 1 / 2 < r then n + 1 else if even n then n else n + 1)"

fun bitLen :: "nat \<Rightarrow> nat" where
  "bitLen n = (if n = 0 then 0 else Suc (bitLen (n div 2)))"

declare bitLen.simps [simp del]

text \<open>The binary exponent of a number: the largest power of two that it reaches.\<close>

definition exponentOf :: "rat \<Rightarrow> int" where
  "exponentOf q =
     (case quotient_of \<bar>q\<bar> of
        (n, d) \<Rightarrow>
          let k = int (bitLen (nat n)) - int (bitLen (nat d))
          in if 2 powi k \<le> \<bar>q\<bar> then k else k - 1)"

text \<open>The nearest number of \<open>p\<close> bits whose unit is at least \<open>2 ^ low\<close>.\<close>

definition roundBits :: "int \<Rightarrow> int \<Rightarrow> rat \<Rightarrow> rat" where
  "roundBits p low q =
     (if q = 0 then 0
      else let u = 2 powi (max (exponentOf q - (p - 1)) low) in of_int (roundEven (q / u)) * u)"

text \<open>\<open>float64(n)\<close> of an integer, and \<open>float32(f)\<close>.\<close>

definition float64Of :: "int \<Rightarrow> rat" where
  "float64Of n = roundBits 53 (-1074) (of_int n)"

definition maxFloat32 :: rat where
  "maxFloat32 = (2 ^ 24 - 1) * 2 ^ 104"

definition float32Of :: "gofloat \<Rightarrow> gofloat" where
  "float32Of f =
     (case f of
        Fin q \<Rightarrow>
          let r = roundBits 24 (-149) q
          in if maxFloat32 < r then PosInf else if r < - maxFloat32 then NegInf
             else if r = 0 \<and> q < 0 then NegZero else Fin r
      | _ \<Rightarrow> f)"

text \<open>\<open>strconv.FormatFloat(f, 'f', places, 64)\<close> of a finite value.\<close>

definition zeroPad :: "nat \<Rightarrow> string \<Rightarrow> string" where
  "zeroPad w s = replicate (w - length s) (CHR ''0'') @ s"

definition fixedDigits :: "nat \<Rightarrow> nat \<Rightarrow> string" where
  "fixedDigits places m =
     (let s = zeroPad (Suc places) (nat_itoa m); k = length s - places
      in if places = 0 then s else take k s @ ''.'' @ drop k s)"

definition formatFixed :: "gofloat \<Rightarrow> nat \<Rightarrow> string" where
  "formatFixed f places =
     (case f of
        Fin q \<Rightarrow> (if q < 0 then ''-'' else []) @ fixedDigits places (nat (roundEven (\<bar>q\<bar> * 10 ^ places)))
      | NegZero \<Rightarrow> ''-'' @ fixedDigits places 0
      | PosInf \<Rightarrow> ''+Inf'' | NegInf \<Rightarrow> ''-Inf'' | NaN \<Rightarrow> ''NaN'')"

section \<open>Rounding\<close>

lemma roundEven_int [simp]: "roundEven (of_int n) = n"
  by (simp add: roundEven_def)

lemma roundEven_near: "2 * \<bar>of_int (roundEven q) - q\<bar> \<le> 1"
proof -
  have "of_int \<lfloor>q\<rfloor> \<le> q" "q < of_int \<lfloor>q\<rfloor> + 1" by linarith+
  then show ?thesis unfolding roundEven_def Let_def abs_if by (simp add: field_simps) linarith
qed

lemma roundEven_mono_int: "q \<le> of_int n \<Longrightarrow> roundEven q \<le> n"
proof -
  assume q: "q \<le> of_int n"
  have "2 * \<bar>of_int (roundEven q) - q\<bar> \<le> 1" by (rule roundEven_near)
  show ?thesis
  proof (cases "q = of_int n")
    case True
    then show ?thesis by simp
  next
    case False
    then have "\<lfloor>q\<rfloor> < n" using q by linarith
    then show ?thesis by (simp add: roundEven_def Let_def)
  qed
qed

lemma roundEven_mono_int': "of_int n \<le> q \<Longrightarrow> n \<le> roundEven q"
proof -
  assume "of_int n \<le> q"
  then have "n \<le> \<lfloor>q\<rfloor>" by linarith
  then show ?thesis by (simp add: roundEven_def Let_def)
qed

lemma roundEven_abs: "\<bar>q\<bar> \<le> of_int n \<Longrightarrow> \<bar>roundEven q\<bar> \<le> n"
  using roundEven_mono_int [of q n] roundEven_mono_int' [of "-n" q] by (simp add: abs_le_iff)

lemma bitLen_bounds: "n < 2 ^ bitLen n" "0 < n \<Longrightarrow> 2 ^ (bitLen n - 1) \<le> n"
proof (induction n rule: bitLen.induct)
  case (1 n)
  {
    case 1
    then show ?case using "1.IH"(1) by (cases "n = 0") (simp_all add: bitLen.simps [of n])
  next
    case 2
    then show ?case
      using "1.IH"(2) by (cases "n div 2 = 0") (auto simp: bitLen.simps [of n] bitLen.simps [of 0] bitLen.simps [of "n div 2"])
  }
qed

lemma exponentOf_bounds:
  assumes "q \<noteq> 0"
  shows "2 powi exponentOf q \<le> \<bar>q\<bar>" "\<bar>q\<bar> < 2 powi (exponentOf q + 1)"
proof -
  obtain n d where nd: "quotient_of \<bar>q\<bar> = (n, d)" by (cases "quotient_of \<bar>q\<bar>")
  have q: "\<bar>q\<bar> = of_int n / of_int d" and d: "0 < d"
    using quotient_of_div [OF nd] quotient_of_denom_pos [OF nd] by simp_all
  have "0 < \<bar>q\<bar>" using assms by simp
  then have n: "0 < n" using q d by (simp add: zero_less_divide_iff)
  define a where "a = bitLen (nat n)"
  define b where "b = bitLen (nat d)"
  have pos: "0 < a" "0 < b" using n d by (simp_all add: a_def b_def bitLen.simps [of "nat _"])
  have above: "nat n < 2 ^ a" "nat d < 2 ^ b" using bitLen_bounds(1) by (simp_all add: a_def b_def)
  have below: "2 ^ (a - 1) \<le> nat n" "2 ^ (b - 1) \<le> nat d"
    using bitLen_bounds(2) [of "nat n"] bitLen_bounds(2) [of "nat d"] n d by (simp_all add: a_def b_def)
  have int_n: "2 ^ (a - 1) \<le> n" "n < 2 ^ a" using below(1) above(1) n by (simp_all add: le_nat_iff nat_less_iff)
  have int_d: "2 ^ (b - 1) \<le> d" "d < 2 ^ b" using below(2) above(2) d by (simp_all add: le_nat_iff nat_less_iff)
  have N: "(2::rat) ^ (a - 1) \<le> of_int n" "of_int n < (2::rat) ^ a"
    using int_n by (metis of_int_le_iff of_int_numeral of_int_power, metis of_int_less_iff of_int_numeral of_int_power)
  have D: "(2::rat) ^ (b - 1) \<le> of_int d" "of_int d < (2::rat) ^ b"
    using int_d by (metis of_int_le_iff of_int_numeral of_int_power, metis of_int_less_iff of_int_numeral of_int_power)
  have "\<bar>q\<bar> < 2 ^ a / 2 ^ (b - 1)" unfolding q
    by (rule frac_less) (use N D n in auto)
  also have "\<dots> = 2 powi (int a - int b + 1)" using pos by (simp add: power_int_diff power_int_add power_diff power_int_of_nat)
  finally have up: "\<bar>q\<bar> < 2 powi (int a - int b + 1)" .
  have "2 powi (int a - int b - 1) = (2::rat) ^ (a - 1) / 2 ^ b" using pos by (simp add: power_int_diff power_diff power_int_of_nat)
  also have "\<dots> \<le> \<bar>q\<bar>" unfolding q by (rule frac_le) (use N D n d in auto)
  finally have low: "2 powi (int a - int b - 1) \<le> \<bar>q\<bar>" .
  show "2 powi exponentOf q \<le> \<bar>q\<bar>" "\<bar>q\<bar> < 2 powi (exponentOf q + 1)"
    using up low by (simp_all add: exponentOf_def nd Let_def flip: a_def b_def)
qed

text \<open>A number of \<open>p\<close> bits is its own nearest, and the nearest number is one.\<close>

lemma powi_split: "1 \<le> p \<Longrightarrow> (2::rat) powi (p + x) = 2 ^ nat p * 2 powi x"
  by (simp add: power_int_add) (simp add: power_int_def)

lemma roundBits_below:
  assumes q: "q = of_int m * 2 powi e" and m: "\<bar>m\<bar> < 2 ^ nat p" and e: "low \<le> e" and p: "1 \<le> p"
  shows "roundBits p low q = q"
proof (cases "q = 0")
  case False
  define E where "E = exponentOf q"
  define x where "x = max (E - (p - 1)) low"
  have "of_int \<bar>m\<bar> < (2::rat) ^ nat p" using m by (metis of_int_less_iff of_int_numeral of_int_power)
  then have "\<bar>q\<bar> < 2 powi (p + e)" using p by (simp add: q abs_mult powi_split)
  moreover have "2 powi E \<le> \<bar>q\<bar>" using exponentOf_bounds(1) [OF False] by (simp add: E_def)
  ultimately have "(2::rat) powi E < 2 powi (p + e)" by (rule le_less_trans [rotated])
  then have "E < p + e" by (meson linorder_not_le one_le_numeral power_int_increasing)
  then have below: "x \<le> e" unfolding x_def using e by simp
  have "q / 2 powi x = of_int m * 2 powi (e - x)" by (simp add: q power_int_diff)
  also have "2 powi (e - x) = (of_int (2 ^ nat (e - x)) :: rat)" using below by (simp add: power_int_def)
  finally have units: "q / 2 powi x = of_int (m * 2 ^ nat (e - x))" by simp
  then have "of_int (roundEven (q / 2 powi x)) = q / 2 powi x" by (metis roundEven_int)
  then show ?thesis by (simp add: roundBits_def False Let_def flip: E_def x_def)
qed (simp add: roundBits_def)

lemma roundBits_exact:
  assumes q: "q = of_int m * 2 powi e" and m: "\<bar>m\<bar> \<le> 2 ^ nat p" and e: "low \<le> e" and p: "1 \<le> p"
  shows "roundBits p low q = q"
proof (cases "\<bar>m\<bar> = 2 ^ nat p")
  case True
  then have "even \<bar>m\<bar>" using p by simp
  then obtain k where k: "m = 2 * k" by (auto elim: evenE)
  have "q = of_int k * 2 powi (e + 1)" by (simp add: q k power_int_add)
  moreover have "\<bar>k\<bar> < 2 ^ nat p" 
  proof -
    have "2 * \<bar>k\<bar> = 2 ^ nat p" using True k by (simp add: abs_mult)
    moreover have "0 < (2::int) ^ nat p" by simp
    ultimately show ?thesis by linarith
  qed
  ultimately show ?thesis using roundBits_below e p by simp
next
  case False
  then show ?thesis using roundBits_below [OF q _ e p] m by simp
qed

lemma roundBits_form:
  assumes "1 \<le> p"
  obtains m e where "roundBits p low q = of_int m * 2 powi e" "\<bar>m\<bar> \<le> 2 ^ nat p" "low \<le> e"
proof (cases "q = 0")
  case True
  then show ?thesis using that [of 0 low] by (simp add: roundBits_def)
next
  case False
  define x where "x = max (exponentOf q - (p - 1)) low"
  have "\<bar>q\<bar> < 2 powi (exponentOf q + 1)" by (rule exponentOf_bounds(2) [OF False])
  also have "\<dots> \<le> 2 powi (p + x)" by (rule power_int_increasing) (simp_all add: x_def)
  finally have "\<bar>q / 2 powi x\<bar> \<le> of_int (2 ^ nat p)" using assms by (simp add: powi_split field_simps)
  then have "\<bar>roundEven (q / 2 powi x)\<bar> \<le> 2 ^ nat p" by (rule roundEven_abs)
  then show ?thesis using that [of "roundEven (q / 2 powi x)" x] by (simp add: roundBits_def False Let_def x_def)
qed

lemma roundBits_twice: "1 \<le> p \<Longrightarrow> roundBits p low (roundBits p low q) = roundBits p low q"
  by (rule roundBits_form [of p low q]) (simp_all add: roundBits_exact)

lemma roundBits_max32:
  assumes q: "\<bar>q\<bar> \<le> maxFloat32"
  shows "\<bar>roundBits 24 (-149) q\<bar> \<le> maxFloat32"
proof (cases "q = 0")
  case True
  then show ?thesis by (simp add: roundBits_def maxFloat32_def)
next
  case False
  define x where "x = max (exponentOf q - 23) (-149)"
  have "(2::rat) powi exponentOf q \<le> \<bar>q\<bar>" by (rule exponentOf_bounds(1) [OF False])
  also have "\<dots> < 2 powi 128" using q by (simp add: maxFloat32_def power_int_def)
  finally have "exponentOf q < 128" by (meson linorder_not_le one_le_numeral power_int_increasing)
  then have x: "x \<le> 104" by (simp add: x_def)
  show ?thesis
  proof (cases "x = 104")
    case True
    then have "\<bar>q / 2 powi x\<bar> \<le> of_int (2 ^ 24 - 1)" using q by (simp add: maxFloat32_def power_int_def field_simps)
    then have "\<bar>roundEven (q / 2 powi x)\<bar> \<le> 2 ^ 24 - 1" by (rule roundEven_abs)
    then have "\<bar>of_int (roundEven (q / 2 powi x)) :: rat\<bar> \<le> 2 ^ 24 - 1" by (simp flip: of_int_abs)
    then show ?thesis using True by (simp add: roundBits_def False Let_def maxFloat32_def power_int_def abs_mult flip: x_def)
  next
    case less: False
    have "\<bar>q\<bar> < 2 powi (exponentOf q + 1)" by (rule exponentOf_bounds(2) [OF False])
    also have "\<dots> \<le> 2 powi (24 + x)" by (rule power_int_increasing) (simp_all add: x_def)
    finally have "\<bar>q\<bar> < 2 ^ 24 * 2 powi x" using powi_split [of 24 x] by simp
    then have "\<bar>q / 2 powi x\<bar> \<le> of_int (2 ^ 24)" by (simp add: field_simps)
    then have "\<bar>roundEven (q / 2 powi x)\<bar> \<le> 2 ^ 24" by (rule roundEven_abs)
    then have m: "\<bar>of_int (roundEven (q / 2 powi x)) :: rat\<bar> \<le> 2 ^ 24" by (simp flip: of_int_abs)
    have "(2::rat) powi x \<le> 2 powi 103" using less x by (intro power_int_increasing) simp_all
    then have "\<bar>of_int (roundEven (q / 2 powi x))\<bar> * (2::rat) powi x \<le> 2 ^ 24 * 2 powi 103"
      using m by (intro mult_mono) simp_all
    also have "\<dots> \<le> maxFloat32" by (simp add: maxFloat32_def power_int_def)
    finally show ?thesis by (simp add: roundBits_def False Let_def abs_mult flip: x_def)
  qed
qed

fun tooBig32 :: "gofloat \<Rightarrow> bool" where
  "tooBig32 (Fin q) \<longleftrightarrow> maxFloat32 < \<bar>q\<bar>"
| "tooBig32 NegZero \<longleftrightarrow> False"
| "tooBig32 NaN \<longleftrightarrow> False"
| "tooBig32 _ \<longleftrightarrow> True"

lemma float32_stable:
  assumes "\<not> notFinite f" "\<not> tooBig32 f"
  shows "\<not> notFinite (float32Of f)" "\<not> tooBig32 (float32Of f)" "float32Of (float32Of f) = float32Of f"
proof -
  have "\<not> notFinite (float32Of f) \<and> \<not> tooBig32 (float32Of f) \<and> float32Of (float32Of f) = float32Of f"
  proof (cases f)
    case (Fin q)
    then have "\<bar>roundBits 24 (-149) q\<bar> \<le> maxFloat32" using assms roundBits_max32 by simp
    then show ?thesis using Fin by (auto simp: float32Of_def notFinite_def Let_def roundBits_twice abs_le_iff)
  qed (use assms in \<open>auto simp: float32Of_def notFinite_def\<close>)
  then show "\<not> notFinite (float32Of f)" "\<not> tooBig32 (float32Of f)" "float32Of (float32Of f) = float32Of f" by auto
qed

end
