(* ===== verification/BulkValue.thy ===== *)
theory BulkValue
  imports Times Utf8 Floats Quote "HOL-Library.Word"
begin

text \<open>
  The values of a bulk load (\<open>bulkvalue.go\<close>): \<open>BulkColumn.Converter\<close> and the check of each column
  type.  A Go value is a \<open>bulkVal\<close>; a refusal keeps the format of its reason and the arguments.
  The texts of floats in messages, \<open>strconv.ParseFloat\<close>, the driver's reading of a
  \<open>uniqueidentifier\<close> and the encoders of \<open>golang.org/x/text\<close> are a \<open>bulkLib\<close>, a parameter of the
  checks.  A time is in a Location of one offset from UTC (UTC, or \<open>time.FixedZone\<close>).
\<close>

datatype bulkVal =
    BNil
  | BInt int
  | BFloat gofloat
  | BFloat32 gofloat
  | BBool bool
  | BBytes string
  | BStr string
  | BTime gotime
  | BSized int
  | BDefined bulkVal
  | BValuer "bulkVal option"
  | BPtr "bulkVal option"
  | BOther string

text \<open>
  \<open>driver.IsValue\<close> and \<open>driver.DefaultParameterConverter.ConvertValue\<close> (\<open>None\<close>: its error).
  \<open>BSized\<close> is an integer of a sized, unsigned or defined type, \<open>BDefined\<close> a value of a defined type
  over another kind, \<open>BValuer\<close> what a \<open>driver.Valuer\<close> answers, \<open>BPtr\<close> a pointer.
\<close>

fun isValue :: "bulkVal \<Rightarrow> bool" where
  "isValue BNil \<longleftrightarrow> True"
| "isValue (BInt n) \<longleftrightarrow> True"
| "isValue (BFloat f) \<longleftrightarrow> True"
| "isValue (BBool b) \<longleftrightarrow> True"
| "isValue (BBytes b) \<longleftrightarrow> True"
| "isValue (BStr s) \<longleftrightarrow> True"
| "isValue (BTime t) \<longleftrightarrow> True"
| "isValue _ \<longleftrightarrow> False"

fun convertValue :: "bulkVal \<Rightarrow> bulkVal option" where
  "convertValue (BSized n) = (if n < 2 ^ 63 then Some (BInt n) else None)"
| "convertValue (BFloat32 f) = Some (BFloat f)"
| "convertValue (BDefined (BFloat f)) = Some (BFloat f)"
| "convertValue (BDefined (BBool b)) = Some (BBool b)"
| "convertValue (BDefined (BBytes b)) = Some (BBytes b)"
| "convertValue (BDefined (BStr s)) = Some (BStr s)"
| "convertValue (BDefined v) = None"
| "convertValue (BValuer v) = (case v of Some w \<Rightarrow> if isValue w then Some w else None | None \<Rightarrow> None)"
| "convertValue (BPtr None) = Some BNil"
| "convertValue (BPtr (Some v)) = convertValue v"
| "convertValue (BOther s) = None"
| "convertValue v = Some v"

definition driverValue :: "bulkVal \<Rightarrow> bulkVal" where
  "driverValue v = (case convertValue v of Some w \<Rightarrow> w | None \<Rightarrow> v)"

text \<open>The column, and the reason of a refusal.\<close>

record BulkColumn =
  bcName :: string
  bcType :: string
  bcLength :: int
  bcPrecision :: nat
  bcScale :: nat
  bcCodePage :: int
  bcDatabaseCodePage :: int

type_synonym reason = "string \<times> fmt_arg list"

text \<open>\<open>BulkValueError\<close>: the row, the column and the reason.\<close>

record BulkValueError =
  bveRow :: int
  bveColumn :: string
  bveReason :: reason

type_synonym conv = "bulkVal \<Rightarrow> reason + bulkVal"

text \<open>What the library functions the checks call answer: a number, a value out of range, or no number.\<close>

datatype 'a parsed = Parsed 'a | RangeErr | SyntaxErr

record bulkLib =
  fmtG :: "gofloat \<Rightarrow> string"
  fmtF :: "gofloat \<Rightarrow> string"
  fmtV :: "gofloat \<Rightarrow> string"
  parseFloat :: "string \<Rightarrow> nat \<Rightarrow> gofloat parsed"
  guidOf :: "string \<Rightarrow> string option"
  encodePage :: "int \<Rightarrow> string \<Rightarrow> string option"

section \<open>Bits and integers\<close>

text \<open>
  \<open>strings.ToLower\<close> of a text is one of the four words just when its ASCII lower case is: no rune
  outside ASCII has one of their letters as its lower case.
\<close>

definition convBit :: conv where
  "convBit v =
     (case v of
        BStr s \<Rightarrow>
          let l = map lower_char s
          in if l \<in> {''1'', ''true''} then Inr (BBool True)
             else if l \<in> {''0'', ''false''} then Inr (BBool False)
             else Inl (''%q is not a bit (1, 0, true or false)'', [AText s])
      | _ \<Rightarrow> Inr v)"

text \<open>\<open>strconv.ParseInt(s, 10, 64)\<close>: \<open>ParseUint\<close> stops at the digit that overflows.\<close>

definition maxUint64 :: nat where
  "maxUint64 = 2 ^ 64 - 1"

fun parseDigits :: "nat \<Rightarrow> string \<Rightarrow> nat parsed" where
  "parseDigits n [] = Parsed n"
| "parseDigits n (c # s) =
     (if \<not> is_digit c then SyntaxErr
      else if maxUint64 div 10 + 1 \<le> n then RangeErr
      else let m = n * 10 + digit_val c in if maxUint64 < m then RangeErr else parseDigits m s)"

definition signed :: "string \<Rightarrow> bool \<times> string" where
  "signed s = (case s of c # t \<Rightarrow> if c = CHR ''-'' \<or> c = CHR ''+'' then (c = CHR ''-'', t) else (False, s)
               | [] \<Rightarrow> (False, []))"

definition parseInt :: "string \<Rightarrow> int parsed" where
  "parseInt s =
     (case signed s of
        (neg, t) \<Rightarrow>
          if t = [] then SyntaxErr
          else (case parseDigits 0 t of
              SyntaxErr \<Rightarrow> SyntaxErr
            | RangeErr \<Rightarrow> RangeErr
            | Parsed u \<Rightarrow>
                if \<not> neg \<and> 2 ^ 63 \<le> u then RangeErr
                else if neg \<and> 2 ^ 63 < u then RangeErr
                else Parsed (if neg then - int u else int u)))"

definition maxInt64 :: int where "maxInt64 = 2 ^ 63 - 1"
definition minInt64 :: int where "minInt64 = - (2 ^ 63)"

text \<open>\<open>v < float64(n)\<close> and \<open>v > float64(n)\<close> of a finite \<open>v\<close>.\<close>

definition outOfRange :: "int \<Rightarrow> int \<Rightarrow> string \<Rightarrow> reason" where
  "outOfRange lo hi text = (''%s is out of range (%d to %d)'', [AText text, ANum lo, ANum hi])"

definition intOfFloat :: "bulkLib \<Rightarrow> int \<Rightarrow> int \<Rightarrow> gofloat \<Rightarrow> reason + bulkVal" where
  "intOfFloat lib lo hi f =
     (case f of
        Fin q \<Rightarrow>
          if q \<noteq> of_int \<lfloor>q\<rfloor> then Inl (''%s is not a whole number'', [AText (fmtG lib f)])
          else if q < float64Of lo \<or> float64Of hi < q \<or> q = float64Of hi \<and> hi = maxInt64
          then Inl (outOfRange lo hi (fmtF lib f))
          else Inr (BInt \<lfloor>q\<rfloor>)
      | NegZero \<Rightarrow>
          if 0 < float64Of lo \<or> float64Of hi < 0 then Inl (outOfRange lo hi (fmtF lib f)) else Inr (BInt 0)
      | _ \<Rightarrow> Inl (''%s is not a whole number'', [AText (fmtG lib f)]))"

definition intConv :: "bulkLib \<Rightarrow> int \<Rightarrow> int \<Rightarrow> conv" where
  "intConv lib lo hi v =
     (case v of
        BInt n \<Rightarrow> if n < lo \<or> hi < n then Inl (outOfRange lo hi (itoa n)) else Inr v
      | BFloat f \<Rightarrow> intOfFloat lib lo hi f
      | BStr s \<Rightarrow>
          (case parseInt s of
             SyntaxErr \<Rightarrow> Inl (''%q is not an integer'', [AText s])
           | RangeErr \<Rightarrow> Inl (outOfRange lo hi s)
           | Parsed n \<Rightarrow> if n < lo \<or> hi < n then Inl (outOfRange lo hi s) else Inr (BInt n))
      | _ \<Rightarrow> Inr v)"

section \<open>Decimals and money\<close>

definition digitsOnly :: "string \<Rightarrow> bool" where
  "digitsOnly s \<longleftrightarrow> list_all is_digit s"

definition splitDecimal :: "string \<Rightarrow> bool \<times> string \<times> string \<times> bool" where
  "splitDecimal s =
     (case signed s of
        (neg, t) \<Rightarrow>
          let (intPart, fracPart) = (case index_byte t (CHR ''.'') of Some i \<Rightarrow> (take i t, drop (Suc i) t) | None \<Rightarrow> (t, []))
          in (neg, intPart, fracPart, intPart @ fracPart \<noteq> [] \<and> digitsOnly intPart \<and> digitsOnly fracPart))"

definition decimalText :: "bool \<Rightarrow> string \<Rightarrow> string \<Rightarrow> string" where
  "decimalText neg intPart fracPart =
     (let a = (if intPart = [] then ''0'' else intPart);
          b = (if neg then ''-'' @ a else a)
      in if fracPart = [] then b else b @ ''.'' @ fracPart)"

definition numberText :: "bulkVal \<Rightarrow> nat \<Rightarrow> string option" where
  "numberText v places =
     (case v of
        BInt n \<Rightarrow> Some (itoa n)
      | BFloat f \<Rightarrow> if notFinite f then None else Some (formatFixed f places)
      | _ \<Rightarrow> None)"

text \<open>\<open>strings.TrimLeft(s, "0")\<close>.\<close>

abbreviation trimZeros :: "string \<Rightarrow> string" where
  "trimZeros s \<equiv> trim_left s ''0''"

text \<open>The text the two checks read: a string as it is, a number's own; or what they do with another value.\<close>

definition numericText :: "bulkLib \<Rightarrow> nat \<Rightarrow> bulkVal \<Rightarrow> (reason + bulkVal) + string" where
  "numericText lib places v =
     (case v of
        BStr s \<Rightarrow> Inr s
      | _ \<Rightarrow> (case numberText v places of
           Some s \<Rightarrow> Inr s
         | None \<Rightarrow> (case v of
              BFloat f \<Rightarrow> Inl (Inl (''%v is not a finite number'', [AText (fmtV lib f)]))
            | _ \<Rightarrow> Inl (Inr v))))"

definition decimalConv :: "bulkLib \<Rightarrow> nat \<Rightarrow> nat \<Rightarrow> conv" where
  "decimalConv lib precision scale v =
     (case numericText lib scale v of
        Inl r \<Rightarrow> r
      | Inr s \<Rightarrow>
          (case splitDecimal s of
             (neg, intPart, fracPart, ok) \<Rightarrow>
               if \<not> ok then Inl (''%q is not a decimal number'', [AText s])
               else if scale < length fracPart
               then Inl (''%s has more than %d decimal places'', [AText s, ANum (int scale)])
               else if int precision - int scale < int (length (trimZeros intPart))
               then Inl (''%s does not fit decimal(%d,%d)'', [AText s, ANum (int precision), ANum (int scale)])
               else Inr (BStr (decimalText neg (trimZeros intPart) fracPart))))"

text \<open>
  The loop of \<open>moneyConv\<close> over the digits: \<open>units\<close> is a \<open>uint64\<close>, and the loop ends at the digit
  that would wrap it.
\<close>

fun moneyLoop :: "string \<Rightarrow> bool \<Rightarrow> 64 word \<Rightarrow> bool \<times> 64 word" where
  "moneyLoop [] inRange units = (inRange, units)"
| "moneyLoop (c # s) inRange units =
     (if \<not> inRange then (inRange, units)
      else let d = (of_nat (digit_val c) :: 64 word)
           in moneyLoop s (units \<le> (- 1 - d) div 10) (units * 10 + d))"

definition moneyText :: "int \<Rightarrow> string" where
  "moneyText units = (let s = itoa units; k = length s - 4 in take k s @ ''.'' @ drop k s)"

definition moneyConv :: "bulkLib \<Rightarrow> int \<Rightarrow> int \<Rightarrow> conv" where
  "moneyConv lib lo hi v =
     (case numericText lib 4 v of
        Inl r \<Rightarrow> r
      | Inr s \<Rightarrow>
          (case splitDecimal s of
             (neg, intPart, fracPart, ok) \<Rightarrow>
               if \<not> ok then Inl (''%q is not a money amount'', [AText s])
               else if 4 < length fracPart then Inl (''%s has more than 4 decimal places'', [AText s])
               else
                 let digits = trimZeros (intPart @ fracPart @ replicate (4 - length fracPart) (CHR ''0''));
                     (inRange, units) = moneyLoop digits (length digits \<le> 19) 0;
                     limit = (if neg then word_of_int (- (lo + 1)) + 1 else word_of_int hi)
                 in if \<not> inRange \<or> limit < units
                    then Inl (''%s is out of range (%s to %s)'', [AText s, AText (moneyText lo), AText (moneyText hi)])
                    else Inr (BStr (decimalText neg (trimZeros intPart) fracPart))))"

section \<open>Floats and times\<close>

definition floatConv :: "bulkLib \<Rightarrow> nat \<Rightarrow> conv" where
  "floatConv lib bits v =
     (let name = (if bits = 32 then ''real'' else ''float'');
          check = (\<lambda>f text.
            if notFinite f \<or> bits = 32 \<and> tooBig32 f
            then Inl (''%s is out of range for %s'', [AText (if text = [] then fmtG lib f else text), AText name])
            else Inr (if bits = 32 then BFloat32 (float32Of f) else BFloat f))
      in case v of
           BFloat f \<Rightarrow> check f []
         | BInt n \<Rightarrow> check (Fin (float64Of n)) []
         | BStr s \<Rightarrow>
             (case parseFloat lib s bits of
                SyntaxErr \<Rightarrow> Inl (''%q is not a number'', [AText s])
              | RangeErr \<Rightarrow> Inl (''%s is out of range for %s'', [AText s, AText name])
              | Parsed f \<Rightarrow> check f s)
         | _ \<Rightarrow> Inr v)"

text \<open>The fields of a time, and \<open>Format("2006-01-02 15:04:05.999999999")\<close>.\<close>

definition tYear :: "gotime \<Rightarrow> int" where
  "tYear t = fst (civil (tWall t div nsPerDay))"

definition tYearDay :: "gotime \<Rightarrow> int" where
  "tYearDay t =
     (let y = tYear t - 1 in tWall t div nsPerDay - (365 * y + y div 4 - y div 100 + y div 400) + 1)"

definition tSecondOfDay :: "gotime \<Rightarrow> int" where
  "tSecondOfDay t = tWall t mod nsPerDay div 1000000000"

definition tHour :: "gotime \<Rightarrow> int" where "tHour t = tSecondOfDay t div 3600"
definition tMinute :: "gotime \<Rightarrow> int" where "tMinute t = tSecondOfDay t div 60 mod 60"
definition tSecond :: "gotime \<Rightarrow> int" where "tSecond t = tSecondOfDay t mod 60"
definition tNanosecond :: "gotime \<Rightarrow> int" where "tNanosecond t = tWall t mod 1000000000"

definition fraction9 :: "int \<Rightarrow> string" where
  "fraction9 n =
     (let s = rev (dropWhile (\<lambda>c. c = CHR ''0'') (rev (padded 9 n))) in if s = [] then [] else ''.'' @ s)"

definition timeText :: "gotime \<Rightarrow> string" where
  "timeText t = dateText t @ '' '' @ clockText t @ fraction9 (tNanosecond t)"

definition nsPerMinute :: int where
  "nsPerMinute = 60000000000"

text \<open>\<open>Add\<close>, and \<open>Truncate(time.Minute)\<close>: on the instant, not the clock.\<close>

definition addMinute :: "gotime \<Rightarrow> gotime" where
  "addMinute t = t\<lparr>tWall := tWall t + nsPerMinute\<rparr>"

definition truncateMinute :: "gotime \<Rightarrow> gotime" where
  "truncateMinute t = t\<lparr>tWall := tWall t - instant t mod nsPerMinute\<rparr>"

text \<open>\<open>time.Date\<close>: the days from the start of year 1, and a clock on a day.\<close>

definition dayNumber :: "int \<Rightarrow> int \<Rightarrow> int \<Rightarrow> int" where
  "dayNumber y m d =
     (let c = (if m \<le> 2 then y - 1 else y); mp = (if m \<le> 2 then m + 9 else m - 3)
      in 365 * c + c div 4 - c div 100 + c div 400 + (153 * mp + 2) div 5 + d - 1 - 306)"

definition dateClock :: "int \<Rightarrow> int \<Rightarrow> int \<Rightarrow> int \<Rightarrow> int \<Rightarrow> int" where
  "dateClock y m d hour minute = dayNumber y m d * nsPerDay + (hour * 60 + minute) * nsPerMinute"

definition timeConv :: "string \<Rightarrow> conv" where
  "timeConv typ v =
     (case v of
        BTime t \<Rightarrow>
          if typ \<in> {''date'', ''datetime2'', ''datetimeoffset''} then
            (if tYear t < 1 \<or> 9999 < tYear t
             then Inl (''%s is out of range for %s (years 1 to 9999)'', [AText (timeText t), AText typ])
             else Inr v)
          else if typ = ''datetime'' then
            (if tYear t < 1753 \<or> 9999 < tYear t \<or>
                tYear t = 9999 \<and> tYearDay t = 365 \<and> tHour t = 23 \<and> tMinute t = 59 \<and> tSecond t = 59 \<and>
                998500000 \<le> tNanosecond t
             then Inl (''%s is out of range for datetime (1753-01-01 to 9999-12-31 23:59:59.997)'', [AText (timeText t)])
             else Inr v)
          else if typ = ''smalldatetime'' then
            (let r0 = (if 29999 \<le> tSecond t * 1000 + tNanosecond t div 1000000 then addMinute t else t);
                 r = truncateMinute r0
             in if tWall r < dateClock 1900 1 1 0 0 \<or> dateClock 2079 6 6 23 59 < tWall r
                then Inl (''%s is out of range for smalldatetime (1900-01-01 to 2079-06-06 23:59)'', [AText (timeText t)])
                else Inr (BTime r))
          else Inr v
      | _ \<Rightarrow> Inr v)"

section \<open>Identifiers, bytes and text\<close>

definition isHexDigit :: "char \<Rightarrow> bool" where
  "isHexDigit c \<longleftrightarrow> is_digit c \<or> c \<in> set ''abcdef'' \<or> c \<in> set ''ABCDEF''"

text \<open>The ellipsis U+2026 that \<open>truncateForError\<close> appends, in UTF-8.\<close>

definition truncateForError :: "string \<Rightarrow> string" where
  "truncateForError s = (if length s \<le> 40 then s else take 40 s @ [CHR 0xE2, CHR 0x80, CHR 0xA6])"

definition guidShape :: "string \<Rightarrow> bool" where
  "guidShape t \<longleftrightarrow> length t = 36 \<and>
     list_all (\<lambda>i. if i \<in> {8, 13, 18, 23} then t ! i = CHR ''-'' else isHexDigit (t ! i)) [0..<36]"

definition convGUID :: "bulkLib \<Rightarrow> conv" where
  "convGUID lib v =
     (case v of
        BBytes b \<Rightarrow>
          if length b \<noteq> 16 then Inl (''%d bytes is not a uniqueidentifier (16)'', [ANum (int (length b))]) else Inr v
      | BStr s \<Rightarrow>
          let t = (if length s = 38 \<and> s ! 0 = CHR ''{'' \<and> s ! 37 = CHR ''}'' then take 36 (drop 1 s) else s);
              refused = Inl (''%q is not a uniqueidentifier'', [AText (truncateForError s)])
          in if \<not> guidShape t then refused
             else (case guidOf lib t of None \<Rightarrow> refused | Some b \<Rightarrow> Inr (BBytes b))
      | _ \<Rightarrow> Inr v)"

text \<open>A value padded to the length of a fixed-length column.\<close>

definition padTo :: "int \<Rightarrow> char \<Rightarrow> string \<Rightarrow> string" where
  "padTo n c s = s @ replicate (nat (n - int (length s))) c"

definition tooLong :: "int \<Rightarrow> int \<Rightarrow> reason" where
  "tooLong got n = (''%d bytes is longer than the column's %d'', [ANum got, ANum n])"

definition binaryConv :: "int \<Rightarrow> bool \<Rightarrow> conv" where
  "binaryConv n fixed v =
     (case v of
        BBytes b \<Rightarrow>
          if 0 < n \<and> n < int (length b) then Inl (tooLong (int (length b)) n)
          else Inr (BBytes (if fixed \<and> int (length b) < n then padTo n (CHR 0x00) b else b))
      | _ \<Rightarrow> Inr v)"

definition stringOf :: "bulkVal \<Rightarrow> string option" where
  "stringOf v = (case v of BStr s \<Rightarrow> Some s | BInt n \<Rightarrow> Some (itoa n) | _ \<Rightarrow> None)"

definition notUTF8 :: reason where
  "notUTF8 = (''the text is not valid UTF-8'', [])"

text \<open>\<open>utf8.ValidString\<close>: no position reads as the replacement rune of width one.\<close>

function validString :: "string \<Rightarrow> bool" where
  "validString [] = True"
| "validString (c # s) =
     (let (r, w) = decodeRune (c # s) in \<not> (r = runeError \<and> w = 1) \<and> validString (drop w (c # s)))"
  by pat_completeness auto
termination
proof (relation "measure length", simp)
  fix c s x r w
  assume "x = decodeRune (c # s)" "(r, w) = x"
  then have "0 < w" using decodeRune_width [of "c # s"] by (metis list.distinct(1) snd_conv)
  then show "(drop w (c # s), c # s) \<in> measure length" by simp
qed

definition ncharConv :: "int \<Rightarrow> bool \<Rightarrow> conv" where
  "ncharConv n fixed v =
     (case stringOf v of
        None \<Rightarrow> Inr v
      | Some s \<Rightarrow>
          if \<not> validString s then Inl notUTF8
          else if n \<le> 0 then Inr (BStr s)
          else
            let units = int (utf16Units s)
            in if n < units then Inl (''%d characters is longer than the column's %d'', [ANum units, ANum n])
               else Inr (BStr (if fixed \<and> units < n then s @ replicate (nat (n - units)) (CHR '' '') else s)))"

text \<open>The code pages with an encoder; \<open>encoder\<close> is \<open>None\<close> for UTF-8.\<close>

definition codePages :: "int list" where
  "codePages = [437, 850, 874, 932, 936, 949, 950, 1250, 1251, 1252, 1253, 1254, 1255, 1256, 1257, 1258]"

type_synonym encoder = "int option"

definition encoderFor :: "string \<Rightarrow> int \<Rightarrow> encoder res" where
  "encoderFor name cp =
     (if cp = 65001 then Inr None
      else if cp \<notin> set codePages
      then Inl (unsupportedf ''gosmo: bulk load into %s: no encoder for code page %d''
                  [AText (if name = [] then ''a char column'' else ''column '' @ QuoteName name), ANum cp])
      else Inr (Some cp))"

definition unencodable :: "bulkLib \<Rightarrow> string \<Rightarrow> int \<Rightarrow> int \<Rightarrow> string \<Rightarrow> reason" where
  "unencodable lib s enc cp whose =
     (case find (\<lambda>r. encodePage lib enc (encodeRune r) = None) (runes s) of
        Some r \<Rightarrow> (''%q (U+%04X) is not in the %s code page %d'', [ANum (int r), ANum (int r), AText whose, ANum cp])
      | None \<Rightarrow> (''the text cannot be encoded in the %s code page %d'', [AText whose, ANum cp]))"

definition encodeText :: "bulkLib \<Rightarrow> encoder \<Rightarrow> int \<Rightarrow> string \<Rightarrow> string \<Rightarrow> reason + string" where
  "encodeText lib enc cp s whose =
     (case enc of
        None \<Rightarrow> Inr s
      | Some e \<Rightarrow> (case encodePage lib e s of None \<Rightarrow> Inl (unencodable lib s e cp whose) | Some b \<Rightarrow> Inr b))"

text \<open>The function \<open>charConv\<close> returns for a UTF-8 column.\<close>

definition utf8Conv :: "int \<Rightarrow> bool \<Rightarrow> conv" where
  "utf8Conv n fixed v0 =
     (let checked = (\<lambda>v. case stringOf v of
            None \<Rightarrow> Inr v
          | Some s \<Rightarrow>
              if \<not> validString s then Inl notUTF8
              else if 0 < n \<and> n < int (length s) then Inl (tooLong (int (length s)) n)
              else Inr (BStr (if fixed \<and> int (length s) < n then padTo n (CHR '' '') s else s)))
      in case v0 of
           BBytes b \<Rightarrow> if \<not> validString b then Inl notUTF8 else checked (BStr b)
         | _ \<Rightarrow> checked v0)"

text \<open>The function it returns for another column, by its encoders.\<close>

definition pageConv :: "bulkLib \<Rightarrow> encoder \<Rightarrow> encoder \<Rightarrow> int \<Rightarrow> bool \<Rightarrow> int \<Rightarrow> int \<Rightarrow> conv" where
  "pageConv lib col load n fixed codePage dbCodePage v =
     (case v of
        BBytes b \<Rightarrow>
          if codePage \<noteq> dbCodePage then Inr v
          else if 0 < n \<and> n < int (length b) then Inl (tooLong (int (length b)) n)
          else Inr (BBytes (if fixed \<and> int (length b) < n then padTo n (CHR '' '') b else b))
      | _ \<Rightarrow>
        (case stringOf v of
           None \<Rightarrow> Inr v
         | Some s \<Rightarrow>
             if \<not> validString s then Inl notUTF8
             else (case encodeText lib col codePage s ''column's'' of
                 Inl why \<Rightarrow> Inl why
               | Inr stored \<Rightarrow>
                   if 0 < n \<and> n < int (length stored) then Inl (tooLong (int (length stored)) n)
                   else
                     let pad = (if fixed then replicate (nat (n - int (length stored))) (CHR '' '') else [])
                     in if codePage = dbCodePage then Inr (BBytes (stored @ pad))
                        else (case encodeText lib load dbCodePage (s @ pad) ''database's'' of
                            Inl why \<Rightarrow> Inl why
                          | Inr b \<Rightarrow> Inr (BBytes b)))))"

definition charConv :: "bulkLib \<Rightarrow> string \<Rightarrow> int \<Rightarrow> bool \<Rightarrow> int \<Rightarrow> int \<Rightarrow> conv res" where
  "charConv lib name n fixed codePage dbCodePage =
     (if codePage = 65001 then Inr (utf8Conv n fixed)
      else res_bind (encoderFor name dbCodePage) (\<lambda>load.
           res_bind (if codePage \<noteq> dbCodePage then encoderFor name codePage else Inr load) (\<lambda>col.
           Inr (pageConv lib col load n fixed codePage dbCodePage))))"

section \<open>A column's converter\<close>

definition columnConv :: "bulkLib \<Rightarrow> BulkColumn \<Rightarrow> conv res" where
  "columnConv lib c =
     (let t = bcType c in
      if t = ''bit'' then Inr convBit
      else if t = ''tinyint'' then Inr (intConv lib 0 255)
      else if t = ''smallint'' then Inr (intConv lib (- 32768) 32767)
      else if t = ''int'' then Inr (intConv lib (- 2147483648) 2147483647)
      else if t = ''bigint'' then Inr (intConv lib minInt64 maxInt64)
      else if t \<in> {''decimal'', ''numeric''} then Inr (decimalConv lib (bcPrecision c) (bcScale c))
      else if t = ''money'' then Inr (moneyConv lib minInt64 maxInt64)
      else if t = ''smallmoney'' then Inr (moneyConv lib (- 2147483648) 2147483647)
      else if t = ''float'' then Inr (floatConv lib 64)
      else if t = ''real'' then Inr (floatConv lib 32)
      else if t \<in> {''date'', ''time'', ''datetime'', ''smalldatetime'', ''datetime2'', ''datetimeoffset''}
      then Inr (timeConv t)
      else if t = ''uniqueidentifier'' then Inr (convGUID lib)
      else if t \<in> {''binary'', ''varbinary''} then Inr (binaryConv (bcLength c) (t = ''binary''))
      else if t = ''image'' then Inr (binaryConv (- 1) False)
      else if t \<in> {''nchar'', ''nvarchar''} then Inr (ncharConv (bcLength c) (t = ''nchar''))
      else if t \<in> {''ntext'', ''xml''} then Inr (ncharConv (- 1) False)
      else if t \<in> {''char'', ''varchar''}
      then charConv lib (bcName c) (bcLength c) (t = ''char'') (bcCodePage c) (bcDatabaseCodePage c)
      else if t = ''text'' then charConv lib (bcName c) (- 1) False (bcCodePage c) (bcDatabaseCodePage c)
      else Inr Inr)"

definition Converter :: "bulkLib \<Rightarrow> BulkColumn \<Rightarrow> (bulkVal \<Rightarrow> BulkValueError + bulkVal) res" where
  "Converter lib c =
     res_bind (columnConv lib c) (\<lambda>conv.
       Inr (\<lambda>v. case conv (driverValue v) of
           Inl reason \<Rightarrow> Inl \<lparr>bveRow = 0, bveColumn = bcName c, bveReason = reason\<rparr>
         | Inr out \<Rightarrow> Inr out))"

section \<open>What a converter returns is stable\<close>

lemma driverValue_value [simp]: "isValue v \<Longrightarrow> driverValue v = v"
  by (cases v) (simp_all add: driverValue_def)




named_theorems conv_defs "the checks of a column"

lemmas [conv_defs] = convBit_def intConv_def decimalConv_def moneyConv_def floatConv_def timeConv_def convGUID_def
  binaryConv_def ncharConv_def utf8Conv_def pageConv_def numericText_def numberText_def stringOf_def








lemma space_ascii [simp]: "byte (CHR '' '') = 32"
  by (simp add: byte_def)







section \<open>The numbers a text denotes\<close>

text \<open>A sign and digits; a sign, digits, and digits after a point, with the number of places.\<close>

definition signs :: "string set" where
  "signs = {[], ''-'', ''+''}"

definition readsInt :: "string \<Rightarrow> int \<Rightarrow> bool" where
  "readsInt s n \<longleftrightarrow> (\<exists>sg \<in> signs. \<exists>i. s = sg @ i \<and> i \<noteq> [] \<and> list_all is_digit i \<and>
     n = (if sg = ''-'' then - 1 else 1) * int (digits_val 0 i))"

definition readsDecimal :: "string \<Rightarrow> nat \<Rightarrow> rat \<Rightarrow> bool" where
  "readsDecimal s places q \<longleftrightarrow> (\<exists>sg \<in> signs. \<exists>i p f. s = sg @ i @ p @ f \<and> (p = ''.'' \<or> p = [] \<and> f = []) \<and>
     i @ f \<noteq> [] \<and> list_all is_digit i \<and> list_all is_digit f \<and> places = length f \<and>
     q = (if sg = ''-'' then - 1 else 1) * (of_nat (digits_val 0 (i @ f)) / 10 ^ length f))"

lemma digit_marks [simp]: "\<not> is_digit (CHR ''+'')" "\<not> is_digit (CHR ''.'')" "is_digit (CHR ''0'')"
  by (simp_all add: is_digit_def)

lemma signed_append: "sg \<in> signs \<Longrightarrow> t \<noteq> [] \<Longrightarrow> is_digit (hd t) \<or> hd t = CHR ''.'' \<Longrightarrow> signed (sg @ t) = (sg = ''-'', t)"
  by (cases t) (auto simp: signs_def signed_def)

lemma signed_cases: "signed s = (neg, t) \<Longrightarrow> \<exists>sg \<in> signs. s = sg @ t \<and> neg = (sg = ''-'')"
  by (auto simp: signed_def signs_def split: list.splits if_splits)

lemma parseDigits_val: "parseDigits n s = Parsed m \<Longrightarrow> list_all is_digit s \<and> m = digits_val n s"
  by (induction n s rule: parseDigits.induct) (auto simp: Let_def mult.commute split: if_splits)

lemma digits_val_ge: "n \<le> digits_val n s"
proof (induction n s rule: digits_val.induct)
  case (2 a c s)
  have "a \<le> a * 10 + digit_val c" by simp
  then show ?case using 2 by simp
qed simp

lemma parseDigits_fits: "list_all is_digit s \<Longrightarrow> digits_val n s \<le> maxUint64 \<Longrightarrow> parseDigits n s = Parsed (digits_val n s)"
proof (induction n s rule: parseDigits.induct)
  case (2 n c s)
  have "n * 10 + digit_val c \<le> maxUint64"
    using digits_val_ge [of "n * 10 + digit_val c" s] 2(3) by (simp add: mult.commute)
  moreover from this have "n \<le> maxUint64 div 10" by simp
  ultimately show ?case using 2 by (simp add: Let_def mult.commute)
qed simp

lemma parseInt_reads: "parseInt s = Parsed n \<longleftrightarrow> readsInt s n \<and> minInt64 \<le> n \<and> n \<le> maxInt64"
proof
  assume *: "parseInt s = Parsed n"
  obtain neg t where st: "signed s = (neg, t)" by (cases "signed s")
  with * obtain u where u: "t \<noteq> []" "parseDigits 0 t = Parsed u" "n = (if neg then - int u else int u)"
    "neg \<or> u < 2 ^ 63" "neg \<longrightarrow> u \<le> 2 ^ 63"
    by (auto simp: parseInt_def split: if_splits parsed.splits)
  obtain sg where "sg \<in> signs" "s = sg @ t" "neg = (sg = ''-'')" using signed_cases [OF st] by auto
  then have "readsInt s n" using u parseDigits_val [OF u(2)] by (auto simp: readsInt_def)
  moreover have "minInt64 \<le> n \<and> n \<le> maxInt64" using u(3-5) by (auto simp: minInt64_def maxInt64_def)
  ultimately show "readsInt s n \<and> minInt64 \<le> n \<and> n \<le> maxInt64" by simp
next
  assume *: "readsInt s n \<and> minInt64 \<le> n \<and> n \<le> maxInt64"
  then obtain sg i where i: "sg \<in> signs" "s = sg @ i" "i \<noteq> []" "list_all is_digit i"
    "n = (if sg = ''-'' then - 1 else 1) * int (digits_val 0 i)" by (auto simp: readsInt_def)
  have "signed s = (sg = ''-'', i)" unfolding i(2) by (rule signed_append) (use i in \<open>cases i; auto\<close>)+
  moreover have "digits_val 0 i \<le> 2 ^ 63" "sg \<noteq> ''-'' \<longrightarrow> digits_val 0 i < 2 ^ 63"
    using * i(5) by (auto simp: minInt64_def maxInt64_def split: if_splits)
  moreover have "parseDigits 0 i = Parsed (digits_val 0 i)"
    using parseDigits_fits [OF i(4), of 0] calculation(2) by (simp add: maxUint64_def)
  ultimately show "parseInt s = Parsed n" using i by (auto simp: parseInt_def)
qed

definition signedVal :: "bool \<Rightarrow> string \<Rightarrow> string \<Rightarrow> rat" where
  "signedVal neg i f = (if neg then - 1 else 1) * (of_nat (digits_val 0 (i @ f)) / 10 ^ length f)"

lemma digits_no_point: "list_all is_digit s \<Longrightarrow> CHR ''.'' \<notin> set s"
  by (auto simp: list_all_iff)

lemma splitDecimal_join:
  assumes "sg \<in> signs" "p = ''.'' \<or> p = [] \<and> f = []" "i @ f \<noteq> []" "list_all is_digit i" "list_all is_digit f"
  shows "splitDecimal (sg @ i @ p @ f) = (sg = ''-'', i, f, True)"
proof -
  have hd: "is_digit (hd (i @ p @ f)) \<or> hd (i @ p @ f) = CHR ''.''"
  proof (cases i)
    case Nil
    then show ?thesis using assms by auto
  qed (use assms in auto)
  have sg: "signed (sg @ i @ p @ f) = (sg = ''-'', i @ p @ f)"
    by (rule signed_append [OF assms(1) _ hd]) (use assms in auto)
  show ?thesis
  proof (cases "p = []")
    case True
    then have "f = []" "index_byte i (CHR ''.'') = None" using assms digits_no_point by (auto simp: index_byte_None)
    then show ?thesis using True sg assms by (simp add: splitDecimal_def digitsOnly_def)
  next
    case False
    then have p: "p = ''.''" using assms by auto
    have "index_byte (i @ p @ f) (CHR ''.'') = Some (length i)"
      using index_byte_append [of "CHR ''.''" i] digits_no_point [OF assms(4)] p by simp
    then show ?thesis using p sg assms by (simp add: splitDecimal_def digitsOnly_def)
  qed
qed

lemma splitDecimal_cases:
  assumes "splitDecimal s = (neg, i, f, True)"
  obtains sg p where "sg \<in> signs" "neg = (sg = ''-'')" "s = sg @ i @ p @ f" "p = ''.'' \<or> p = [] \<and> f = []"
    "i @ f \<noteq> []" "list_all is_digit i" "list_all is_digit f"
proof -
  obtain neg' t where st: "signed s = (neg', t)" by (cases "signed s")
  obtain sg where sg: "sg \<in> signs" "s = sg @ t" "neg' = (sg = ''-'')" using signed_cases [OF st] by auto
  show thesis
  proof (cases "index_byte t (CHR ''.'')")
    case None
    then have "neg = neg'" "i = t" "f = []" "i \<noteq> []" "list_all is_digit i"
      using assms st by (auto simp: splitDecimal_def digitsOnly_def)
    then show thesis using that [of sg "[]"] sg by simp
  next
    case (Some k)
    then have "t = take k t @ ''.'' @ drop (Suc k) t"
      using index_byte_Some [OF Some] id_take_nth_drop [of k t] by simp
    moreover have "neg = neg'" "i = take k t" "f = drop (Suc k) t" "i @ f \<noteq> []" "list_all is_digit i" "list_all is_digit f"
      using assms st Some by (auto simp: splitDecimal_def digitsOnly_def)
    ultimately show thesis using that [of sg "''.''"] sg by simp
  qed
qed

lemma readsDecimal_split:
  "readsDecimal s places q \<longleftrightarrow> (\<exists>neg i f. splitDecimal s = (neg, i, f, True) \<and> places = length f \<and> q = signedVal neg i f)"
proof
  assume "readsDecimal s places q"
  then show "\<exists>neg i f. splitDecimal s = (neg, i, f, True) \<and> places = length f \<and> q = signedVal neg i f"
    unfolding readsDecimal_def signedVal_def using splitDecimal_join by blast
next
  assume "\<exists>neg i f. splitDecimal s = (neg, i, f, True) \<and> places = length f \<and> q = signedVal neg i f"
  then obtain neg i f where *: "splitDecimal s = (neg, i, f, True)" "places = length f" "q = signedVal neg i f" by auto
  show "readsDecimal s places q"
    using * by (elim splitDecimal_cases) (unfold readsDecimal_def signedVal_def, blast)
qed

lemma trimZeros_val [simp]: "digits_val 0 (trimZeros i @ f) = digits_val 0 (i @ f)"
  by (induction i) (simp_all add: trim_left_def digit_val_def)

lemma trimZeros_append: "trimZeros (trimZeros i @ f) = trimZeros (i @ f)"
  by (induction i) (simp_all add: trim_left_def)

definition integerText :: "string \<Rightarrow> string" where
  "integerText i = (if i = [] then ''0'' else i)"

lemma splitDecimal_text:
  assumes "list_all is_digit i" "list_all is_digit f"
  shows "splitDecimal (decimalText neg i f) = (neg, integerText i, f, True)"
proof -
  have "decimalText neg i f = (if neg then ''-'' else []) @ integerText i @ (if f = [] then [] else ''.'') @ f"
    by (simp add: decimalText_def integerText_def)
  also have "splitDecimal \<dots> = ((if neg then ''-'' else []) = ''-'', integerText i, f, True)"
    by (rule splitDecimal_join) (use assms in \<open>auto simp: signs_def integerText_def\<close>)
  finally show ?thesis by simp
qed

lemma trimZeros_integerText [simp]: "trimZeros (integerText (trimZeros i)) = trimZeros i"
  using trimZeros_append [of i "[]"] by (simp add: integerText_def) (simp add: trim_left_def)

lemma signedVal_text: "signedVal neg (integerText (trimZeros i)) f = signedVal neg i f"
  by (simp add: signedVal_def) (metis trimZeros_integerText trimZeros_val)

section \<open>Decimals and money, exactly\<close>

text \<open>
  The amount a value stands for, with the decimal places it is given with: a float stands for itself
  rounded to the places of the column, ties to even.
\<close>

fun readsAmount :: "nat \<Rightarrow> bulkVal \<Rightarrow> nat \<Rightarrow> rat \<Rightarrow> bool" where
  "readsAmount places (BInt n) p q \<longleftrightarrow> p = 0 \<and> q = of_int n"
| "readsAmount places (BFloat (Fin x)) p q \<longleftrightarrow> p = places \<and>
     q = (if x < 0 then - 1 else 1) * (of_int (roundEven (\<bar>x\<bar> * 10 ^ places)) / 10 ^ places)"
| "readsAmount places (BFloat NegZero) p q \<longleftrightarrow> p = places \<and> q = 0"
| "readsAmount places (BStr s) p q \<longleftrightarrow> readsDecimal s p q"
| "readsAmount places _ p q \<longleftrightarrow> False"

fun numeric :: "bulkVal \<Rightarrow> bool" where
  "numeric (BInt n) \<longleftrightarrow> True"
| "numeric (BFloat f) \<longleftrightarrow> True"
| "numeric (BStr s) \<longleftrightarrow> True"
| "numeric _ \<longleftrightarrow> False"

lemma zeros_val [simp]: "digits_val 0 (replicate k (CHR ''0'') @ s) = digits_val 0 s"
  by (induction k) (simp_all add: digit_val_def)

lemma fixedDigits_split:
  obtains i f p where "fixedDigits places m = i @ p @ f" "p = ''.'' \<or> p = [] \<and> f = []" "i \<noteq> []"
    "list_all is_digit i" "list_all is_digit f" "length f = places" "digits_val 0 (i @ f) = m"
proof -
  define s where "s = zeroPad (Suc places) (nat_itoa m)"
  define k where "k = length s - places"
  have len: "Suc places \<le> length s" by (simp add: s_def zeroPad_def)
  have ne: "s \<noteq> []" using len by auto
  have d: "list_all is_digit s" using nat_itoa_digits [of m] by (auto simp: s_def zeroPad_def list_all_iff)
  have "list_all is_digit (take k s @ drop k s)" using d by simp
  then have td: "list_all is_digit (take k s)" "list_all is_digit (drop k s)" by (simp_all only: list_all_append)
  have v: "digits_val 0 s = m" by (simp add: s_def zeroPad_def nat_itoa_val)
  show thesis
  proof (cases "places = 0")
    case True
    then have "fixedDigits places m = s" by (simp add: fixedDigits_def s_def)
    then show thesis using that [of s "[]" "[]"] ne d v True by simp
  next
    case False
    then have "fixedDigits places m = take k s @ ''.'' @ drop k s"
      by (simp add: fixedDigits_def Let_def s_def k_def)
    then show thesis using that [of "take k s" "''.''" "drop k s"] len ne td v by (simp add: k_def)
  qed
qed

lemma splitDecimal_fixed:
  obtains i f where "splitDecimal ((if neg then ''-'' else []) @ fixedDigits places m) = (neg, i, f, True)"
    "length f = places" "signedVal neg i f = (if neg then - 1 else 1) * (of_nat m / 10 ^ places)"
proof -
  obtain i f p where x: "fixedDigits places m = i @ p @ f" "p = ''.'' \<or> p = [] \<and> f = []" "i \<noteq> []"
    "list_all is_digit i" "list_all is_digit f" "length f = places" "digits_val 0 (i @ f) = m"
    by (rule fixedDigits_split)
  have "splitDecimal ((if neg then ''-'' else []) @ i @ p @ f) = ((if neg then ''-'' else []) = ''-'', i, f, True)"
    by (rule splitDecimal_join) (use x in \<open>auto simp: signs_def\<close>)
  then show thesis using that [of i f] x by (simp add: signedVal_def)
qed

lemma splitDecimal_itoa:
  obtains i where "splitDecimal (itoa n) = (n < 0, i, [], True)" "signedVal (n < 0) i [] = of_int n"
proof -
  have "itoa n = (if n < 0 then ''-'' else []) @ nat_itoa (nat \<bar>n\<bar>) @ [] @ []" by (simp add: itoa_def)
  also have "splitDecimal \<dots> = ((if n < 0 then ''-'' else []) = ''-'', nat_itoa (nat \<bar>n\<bar>), [], True)"
    by (rule splitDecimal_join) (use nat_itoa_digits in \<open>auto simp: signs_def\<close>)
  finally show thesis using that [of "nat_itoa (nat \<bar>n\<bar>)"] by (simp add: signedVal_def nat_itoa_val)
qed

lemma readsDecimal_one:
  "splitDecimal s = (neg, i, f, True) \<Longrightarrow> readsDecimal s p q \<longleftrightarrow> p = length f \<and> q = signedVal neg i f"
  by (auto simp: readsDecimal_split)

lemma numericText_reads:
  assumes "numericText lib places v = Inr s"
  shows "readsAmount places v p q \<longleftrightarrow> readsDecimal s p q"
proof -
  have fixed: "readsDecimal ((if neg then ''-'' else []) @ fixedDigits places m) p q \<longleftrightarrow>
      p = places \<and> q = (if neg then - 1 else 1) * (of_nat m / 10 ^ places)" for neg m
    by (rule splitDecimal_fixed [of neg places m]) (simp add: readsDecimal_one)
  have whole: "readsDecimal (itoa n) p q \<longleftrightarrow> p = 0 \<and> q = of_int n" for n
    by (rule splitDecimal_itoa [of n]) (simp add: readsDecimal_one)
  show ?thesis
  proof (cases v)
    case (BFloat f)
    have z: "readsDecimal (CHR ''-'' # fixedDigits places 0) p q \<longleftrightarrow> p = places \<and> q = 0" using fixed [of True 0] by simp
    show ?thesis
    proof (cases f)
      case (Fin x)
      have "0 \<le> roundEven (\<bar>x\<bar> * 10 ^ places)" by (rule roundEven_mono_int') simp
      then show ?thesis using BFloat Fin assms fixed [of "x < 0" "nat (roundEven (\<bar>x\<bar> * 10 ^ places))"]
        by (auto simp: numericText_def numberText_def notFinite_def formatFixed_def)
    qed (use BFloat assms z in \<open>auto simp: numericText_def numberText_def notFinite_def formatFixed_def\<close>)
  qed (use assms whole in \<open>auto simp: numericText_def numberText_def\<close>)
qed

lemma numericText_other:
  "numericText lib places v = Inl r \<Longrightarrow> numeric v \<Longrightarrow> (\<exists>e. r = Inl e) \<and> \<not> readsAmount places v p q"
  by (cases v; cases "case v of BFloat f \<Rightarrow> f | _ \<Rightarrow> NaN")
    (auto simp: numericText_def numberText_def notFinite_def split: if_splits)

text \<open>A check of amounts accepts the values whose amount fits, and stores that amount.\<close>

definition exactFor :: "conv \<Rightarrow> nat \<Rightarrow> (nat \<Rightarrow> rat \<Rightarrow> bool) \<Rightarrow> bulkVal \<Rightarrow> bool" where
  "exactFor f places fits v \<longleftrightarrow>
     (case f v of
        Inr out \<Rightarrow> \<exists>t p q. out = BStr t \<and> readsAmount places v p q \<and> fits p q \<and> readsDecimal t p q
      | Inl e \<Rightarrow> \<not> (\<exists>p q. readsAmount places v p q \<and> fits p q))"

text \<open>What the two checks have in common.\<close>

definition amountCheck :: "bulkLib \<Rightarrow> conv \<Rightarrow> nat \<Rightarrow> (nat \<Rightarrow> rat \<Rightarrow> bool) \<Rightarrow> bool" where
  "amountCheck lib f places fits \<longleftrightarrow>
     (\<forall>v r. numericText lib places v = Inl r \<longrightarrow> f v = r) \<and>
     (\<forall>v s neg i fp. numericText lib places v = Inr s \<longrightarrow> splitDecimal s = (neg, i, fp, True) \<longrightarrow>
        list_all is_digit i \<longrightarrow> list_all is_digit fp \<longrightarrow>
        (if fits (length fp) (signedVal neg i fp) then f v = Inr (BStr (decimalText neg (trimZeros i) fp))
         else \<exists>e. f v = Inl e)) \<and>
     (\<forall>v s neg i fp. numericText lib places v = Inr s \<longrightarrow> splitDecimal s = (neg, i, fp, False) \<longrightarrow> (\<exists>e. f v = Inl e))"

lemma amountCheckI:
  assumes "\<And>v r. numericText lib places v = Inl r \<Longrightarrow> f v = r"
    and "\<And>v s neg i fp. numericText lib places v = Inr s \<Longrightarrow> splitDecimal s = (neg, i, fp, True) \<Longrightarrow>
      list_all is_digit i \<Longrightarrow> list_all is_digit fp \<Longrightarrow>
      (if fits (length fp) (signedVal neg i fp) then f v = Inr (BStr (decimalText neg (trimZeros i) fp))
       else \<exists>e. f v = Inl e)"
    and "\<And>v s neg i fp. numericText lib places v = Inr s \<Longrightarrow> splitDecimal s = (neg, i, fp, False) \<Longrightarrow> \<exists>e. f v = Inl e"
  shows "amountCheck lib f places fits"
  using assms unfolding amountCheck_def by blast

lemma amountCheckD:
  assumes "amountCheck lib f places fits"
  shows "numericText lib places v = Inl r \<Longrightarrow> f v = r"
    and "numericText lib places v = Inr s \<Longrightarrow> splitDecimal s = (neg, i, fp, True) \<Longrightarrow>
      list_all is_digit i \<Longrightarrow> list_all is_digit fp \<Longrightarrow>
      (if fits (length fp) (signedVal neg i fp) then f v = Inr (BStr (decimalText neg (trimZeros i) fp))
       else \<exists>e. f v = Inl e)"
    and "numericText lib places v = Inr s \<Longrightarrow> splitDecimal s = (neg, i, fp, False) \<Longrightarrow> \<exists>e. f v = Inl e"
  using assms unfolding amountCheck_def by blast+

lemma text_again:
  "list_all is_digit i \<Longrightarrow> list_all is_digit fp \<Longrightarrow>
   splitDecimal (decimalText neg (trimZeros i) fp) = (neg, integerText (trimZeros i), fp, True)"
  by (rule splitDecimal_text) (use trim_zeros(1) in auto)

lemma amount_exact:
  assumes check: "amountCheck lib f places fits" and "numeric v"
  shows "exactFor f places fits v"
proof (cases "numericText lib places v")
  case (Inl r)
  obtain e where "r = Inl e" using numericText_other [OF Inl assms(2), of 0 0] by blast
  then have "f v = Inl e" using amountCheckD(1) [OF check Inl] by simp
  then show ?thesis using numericText_other [OF Inl assms(2)] by (auto simp: exactFor_def)
next
  case (Inr s)
  obtain neg i fp ok where sp: "splitDecimal s = (neg, i, fp, ok)" by (metis surj_pair)
  have reads: "readsAmount places v p q \<longleftrightarrow> readsDecimal s p q" for p q by (rule numericText_reads [OF Inr])
  show ?thesis
  proof (cases ok)
    case True
    then have sp': "splitDecimal s = (neg, i, fp, True)" using sp by simp
    then have d: "list_all is_digit i" "list_all is_digit fp" by (auto elim: splitDecimal_cases)
    have one: "readsAmount places v p q \<longleftrightarrow> p = length fp \<and> q = signedVal neg i fp" for p q
      by (simp add: reads readsDecimal_one [OF sp'])
    have "readsDecimal (decimalText neg (trimZeros i) fp) (length fp) (signedVal neg i fp)"
      by (simp add: readsDecimal_one [OF text_again [OF d]] signedVal_text)
    then show ?thesis using amountCheckD(2) [OF check Inr sp' d] by (auto simp: exactFor_def one split: if_splits)
  next
    case False
    then have "\<not> readsDecimal s p q" for p q using sp by (auto simp: readsDecimal_split)
    then show ?thesis using amountCheckD(3) [OF check Inr] sp False by (auto simp: exactFor_def reads)
  qed
qed


definition fitsDecimal :: "nat \<Rightarrow> nat \<Rightarrow> nat \<Rightarrow> rat \<Rightarrow> bool" where
  "fitsDecimal precision scale p q \<longleftrightarrow> p \<le> scale \<and> \<bar>q\<bar> < 10 ^ (precision - scale)"

lemma signedVal_bound:
  assumes "list_all is_digit f"
  shows "\<bar>signedVal neg i f\<bar> < 10 ^ n \<longleftrightarrow> digits_val 0 i < 10 ^ n"
proof -
  let ?d = "digits_val 0 f" and ?m = "(10::nat) ^ length f"
  have v: "digits_val 0 (i @ f) = digits_val 0 i * ?m + ?d"
    by (metis digits_val_append digits_val_foldl)
  have "?d < ?m" by (rule digits_bound [OF assms])
  then have "digits_val 0 i * ?m + ?d < 10 ^ n * ?m \<longleftrightarrow> digits_val 0 i < 10 ^ n"
  proof (cases "digits_val 0 i < 10 ^ n")
    case True
    then show ?thesis using high_digit [of "digits_val 0 i" "10 ^ n" ?d ?m 0] \<open>?d < ?m\<close> by simp
  next
    case False
    then have "10 ^ n * ?m \<le> digits_val 0 i * ?m" by (intro mult_le_mono1) simp
    then show ?thesis using False by linarith
  qed
  moreover have "\<bar>signedVal neg i f\<bar> = of_nat (digits_val 0 (i @ f)) / of_nat ?m"
    by (simp add: signedVal_def abs_mult)
  moreover have "(of_nat (digits_val 0 (i @ f)) :: rat) / of_nat ?m < 10 ^ n \<longleftrightarrow> digits_val 0 (i @ f) < 10 ^ n * ?m"
  proof -
    have "0 < (of_nat ?m :: rat)" by simp
    then have "(of_nat (digits_val 0 (i @ f)) :: rat) / of_nat ?m < 10 ^ n \<longleftrightarrow>
        of_nat (digits_val 0 (i @ f)) < (of_nat (10 ^ n * ?m) :: rat)"
      unfolding of_nat_mult by (subst pos_divide_less_eq) simp_all
    then show ?thesis by (simp only: of_nat_less_iff)
  qed
  ultimately show ?thesis by (simp add: v)
qed

lemma decimal_check:
  assumes "scale \<le> precision"
  shows "amountCheck lib (decimalConv lib precision scale) scale (fitsDecimal precision scale)"
proof (rule amountCheckI)
  fix v s neg i fp
  assume *: "numericText lib scale v = Inr s" "splitDecimal s = (neg, i, fp, True)"
    "list_all is_digit i" "list_all is_digit fp"
  have "int precision - int scale < int (length (trimZeros i)) \<longleftrightarrow> \<not> length (trimZeros i) \<le> precision - scale"
    using assms by linarith
  also have "\<dots> \<longleftrightarrow> \<not> \<bar>signedVal neg i fp\<bar> < 10 ^ (precision - scale)"
    by (simp add: trimmed_length [OF *(3)] signedVal_bound [OF *(4)])
  finally show "if fitsDecimal precision scale (length fp) (signedVal neg i fp)
      then decimalConv lib precision scale v = Inr (BStr (decimalText neg (trimZeros i) fp))
      else \<exists>e. decimalConv lib precision scale v = Inl e"
    using * by (auto simp: decimalConv_def fitsDecimal_def)
qed (auto simp: decimalConv_def)

text \<open>The loop over the digits of an amount ends in range just when the amount is a \<open>uint64\<close>.\<close>

lemma moneyLoop_off: "moneyLoop s False w = (False, w)"
  by (cases s) simp_all

lemma moneyLoop_val:
  assumes "list_all is_digit s"
  shows "case moneyLoop s True w of (b, u) \<Rightarrow>
    (b \<longleftrightarrow> digits_val (unat w) s \<le> maxUint64) \<and> (b \<longrightarrow> unat u = digits_val (unat w) s)"
  using assms
proof (induction s arbitrary: w)
  case Nil
  have "unat w < 2 ^ 64" using unsigned_less [of w] by simp
  then show ?case by (simp add: maxUint64_def)
next
  case (Cons c s)
  define d :: "64 word" where "d = of_nat (digit_val c)"
  have "digit_val c < 10" using Cons.prems by (auto simp: is_digit_def digit_val_def)
  then have d: "unat d = digit_val c" by (simp add: d_def unat_of_nat)
  have "unat (- 1 - d) = maxUint64 - digit_val c"
  proof -
    have "unat (- 1 - d) = unat (- 1 :: 64 word) - unat d" by (rule unat_sub) simp
    also have "unat (- 1 :: 64 word) = maxUint64" by (simp add: maxUint64_def unsigned_minus_1_eq_mask mask_eq_exp_minus_1)
    finally show ?thesis by (simp add: d)
  qed
  then have cond: "w \<le> (- 1 - d) div 10 \<longleftrightarrow> 10 * unat w + digit_val c \<le> maxUint64"
    using \<open>digit_val c < 10\<close> by (simp add: word_le_nat_alt unat_div maxUint64_def) linarith
  show ?case
  proof (cases "w \<le> (- 1 - d) div 10")
    case True
    then have "10 * unat w + digit_val c < 2 ^ 64" using cond by (simp add: maxUint64_def)
    then have "unat (w * 10 + d) = 10 * unat w + digit_val c"
      by (simp add: unat_word_ariths d) 
    then show ?thesis using Cons.IH [of "w * 10 + d"] Cons.prems True by (simp add: Let_def flip: d_def)
  next
    case False
    then have "maxUint64 < digits_val (10 * unat w + digit_val c) s"
      using cond digits_val_ge [of "10 * unat w + digit_val c" s] by linarith
    then show ?thesis using False by (simp add: Let_def moneyLoop_off flip: d_def)
  qed
qed

definition fitsMoney :: "int \<Rightarrow> int \<Rightarrow> nat \<Rightarrow> rat \<Rightarrow> bool" where
  "fitsMoney lo hi p q \<longleftrightarrow> p \<le> 4 \<and> of_int lo \<le> q * 10000 \<and> q * 10000 \<le> of_int hi"

definition moneyBounds :: "int \<Rightarrow> int \<Rightarrow> bool" where
  "moneyBounds lo hi \<longleftrightarrow> minInt64 \<le> lo \<and> lo < 0 \<and> 0 \<le> hi \<and> hi \<le> maxInt64"

lemma shifted_val: "digits_val 0 (s @ replicate k (CHR ''0'')) = digits_val 0 s * 10 ^ k"
  using digits_val_foldl [of "digits_val 0 s" "replicate k (CHR ''0'')"] zeros_val [of k "[]"]
  by (simp add: digits_val_append)

lemma money_limit:
  assumes "moneyBounds lo hi"
  shows "unat (if neg then word_of_int (- (lo + 1)) + 1 else word_of_int hi :: 64 word) = nat (if neg then - lo else hi)"
proof -
  have "word_of_int (- (lo + 1)) + 1 = (word_of_int (- lo) :: 64 word)" by (simp add: algebra_simps)
  moreover have wd: "unat (word_of_int n :: 64 word) = nat n" if "0 \<le> n" "n < 2 ^ 64" for n
    using that by (simp add: unat_eq_nat_uint uint_word_of_int)
  moreover have "0 \<le> hi" "hi < 2 ^ 64" "0 \<le> - lo" "- lo < 2 ^ 64"
    using assms by (auto simp: moneyBounds_def minInt64_def maxInt64_def)
  ultimately show ?thesis using wd [of "- lo"] wd [of hi] by presburger
qed

lemma money_range:
  assumes d: "list_all is_digit s" and lim: "unat limit \<le> 2 ^ 63"
  shows "case moneyLoop (trimZeros s) (length (trimZeros s) \<le> 19) 0 of (b, u) \<Rightarrow>
    b \<and> \<not> limit < u \<longleftrightarrow> digits_val 0 s \<le> unat limit"
proof (cases "length (trimZeros s) \<le> 19")
  case True
  then have "digits_val 0 s < 10 ^ 19" using trimmed_length [OF d] by blast
  then have "digits_val 0 s \<le> maxUint64" by (simp add: maxUint64_def)
  then show ?thesis using moneyLoop_val [of "trimZeros s" 0] trim_zeros(1,2) [OF d] True
    by (auto simp: word_less_nat_alt split: prod.splits)
next
  case False
  then have "\<not> digits_val 0 s < 10 ^ 19" using trimmed_length [OF d] by blast
  then have "\<not> digits_val 0 s \<le> unat limit" using lim by simp
  then show ?thesis using False by (simp add: moneyLoop_off)
qed

lemma money_check:
  assumes bounds: "moneyBounds lo hi"
  shows "amountCheck lib (moneyConv lib lo hi) 4 (fitsMoney lo hi)"
proof (rule amountCheckI)
  fix v s neg i fp
  assume *: "numericText lib 4 v = Inr s" "splitDecimal s = (neg, i, fp, True)"
    "list_all is_digit i" "list_all is_digit fp"
  define ds where "ds = i @ fp @ replicate (4 - length fp) (CHR ''0'')"
  define limit :: "64 word" where "limit = (if neg then word_of_int (- (lo + 1)) + 1 else word_of_int hi)"
  have lim: "unat limit = nat (if neg then - lo else hi)" unfolding limit_def by (rule money_limit [OF bounds])
  have dds: "list_all is_digit ds" using * by (auto simp: ds_def list_all_iff)
  have range: "case moneyLoop (trimZeros ds) (length (trimZeros ds) \<le> 19) 0 of (b, u) \<Rightarrow>
      b \<and> \<not> limit < u \<longleftrightarrow> digits_val 0 ds \<le> unat limit"
    by (rule money_range [OF dds]) (use bounds in \<open>auto simp: lim moneyBounds_def minInt64_def maxInt64_def\<close>)
  have fits: "fitsMoney lo hi (length fp) (signedVal neg i fp) \<longleftrightarrow> length fp \<le> 4 \<and> digits_val 0 ds \<le> unat limit"
  proof (cases "length fp \<le> 4")
    case True
    have "digits_val 0 ds = digits_val 0 (i @ fp) * 10 ^ (4 - length fp)"
      using shifted_val [of "i @ fp"] by (simp add: ds_def)
    moreover have ten: "(10000 :: rat) = 10 ^ length fp * 10 ^ (4 - length fp)"
      using True by (simp flip: power_add)
    have "(of_nat (digits_val 0 (i @ fp)) :: rat) / 10 ^ length fp * 10000 =
        of_nat (digits_val 0 (i @ fp)) * 10 ^ (4 - length fp)" unfolding ten by simp
    ultimately have "(of_nat (digits_val 0 (i @ fp)) :: rat) / 10 ^ length fp * 10000 = of_nat (digits_val 0 ds)" by simp
    then have "signedVal neg i fp * 10000 = (if neg then - 1 else 1) * of_nat (digits_val 0 ds)"
      by (simp add: signedVal_def)
    also have "\<dots> = of_int ((if neg then - 1 else 1) * int (digits_val 0 ds))" by simp
    finally show ?thesis using True bounds unfolding fitsMoney_def moneyBounds_def lim
      by (simp only: of_int_le_iff) auto
  qed (simp add: fitsMoney_def)
  show "if fitsMoney lo hi (length fp) (signedVal neg i fp)
      then moneyConv lib lo hi v = Inr (BStr (decimalText neg (trimZeros i) fp))
      else \<exists>e. moneyConv lib lo hi v = Inl e"
    using * range by (auto simp: moneyConv_def fits Let_def split: prod.splits simp flip: ds_def limit_def)
qed (auto simp: moneyConv_def)

section \<open>Integers, exactly\<close>

text \<open>The whole number a value stands for.\<close>

fun wholeNumber :: "bulkVal \<Rightarrow> int \<Rightarrow> bool" where
  "wholeNumber (BInt m) n \<longleftrightarrow> n = m"
| "wholeNumber (BFloat (Fin q)) n \<longleftrightarrow> q = of_int n"
| "wholeNumber (BFloat NegZero) n \<longleftrightarrow> n = 0"
| "wholeNumber (BStr s) n \<longleftrightarrow> readsInt s n"
| "wholeNumber _ n \<longleftrightarrow> False"

lemma readsInt_signed:
  assumes "readsInt s n"
  shows "n = (case signed s of (neg, i) \<Rightarrow> (if neg then - 1 else 1) * int (digits_val 0 i))"
proof -
  obtain sg i where n: "sg \<in> signs" "s = sg @ i" "i \<noteq> []" "list_all is_digit i"
    "n = (if sg = ''-'' then - 1 else 1) * int (digits_val 0 i)" using assms by (auto simp: readsInt_def)
  have "is_digit (hd i)" using n by (cases i) simp_all
  then have "signed (sg @ i) = (sg = ''-'', i)" using signed_append n(1,3) by blast
  then show ?thesis using n by simp
qed

lemma wholeNumber_one:
  assumes "wholeNumber v n" "wholeNumber v m"
  shows "m = n"
proof (cases v)
  case (BFloat f)
  then show ?thesis using assms by (cases f) simp_all
next
  case (BStr s)
  then have "readsInt s n" "readsInt s m" using assms by simp_all
  then show ?thesis using readsInt_signed by metis
qed (use assms in simp_all)

text \<open>The bounds of the four types are \<open>float64\<close> values, except the greatest \<open>int64\<close>, which rounds up.\<close>

lemma float64Of_exact: "\<bar>n\<bar> \<le> 2 ^ 53 \<Longrightarrow> float64Of n = of_int n"
  unfolding float64Of_def by (rule roundBits_exact [where e = 0]) simp_all

lemma float64Of_min: "float64Of minInt64 = of_int minInt64"
  unfolding float64Of_def by (rule roundBits_exact [where m = "- 1" and e = 63]) (simp_all add: minInt64_def power_int_def)

lemma exponentOf_eq:
  assumes "2 powi e \<le> \<bar>q\<bar>" "\<bar>q\<bar> < 2 powi (e + 1)"
  shows "exponentOf q = e"
proof -
  have "(0::rat) < 2 powi e" by simp
  then have "q \<noteq> 0" using assms(1) by (metis abs_zero linorder_not_less)
  from exponentOf_bounds [OF this] assms have "(2::rat) powi exponentOf q < 2 powi (e + 1)"
    "(2::rat) powi e < 2 powi (exponentOf q + 1)" by linarith+
  then have "exponentOf q < e + 1" "e < exponentOf q + 1"
    by (meson linorder_not_le one_le_numeral power_int_increasing)+
  then show ?thesis by simp
qed

lemma float64Of_max: "float64Of maxInt64 = 2 ^ 63"
proof -
  have e: "exponentOf (9223372036854775807 :: rat) = 62" by (rule exponentOf_eq) (simp_all add: power_int_def)
  have f: "\<lfloor>9223372036854775807 / 1024 :: rat\<rfloor> = 9007199254740991" by (rule floor_unique) simp_all
  have "roundEven (9223372036854775807 / 1024) = 9007199254740992" by (simp add: roundEven_def f Let_def)
  then show ?thesis by (simp add: float64Of_def maxInt64_def roundBits_def e power_int_def Let_def)
qed

definition intBounds :: "(int \<times> int) set" where
  "intBounds = {(0, 255), (- 32768, 32767), (- 2147483648, 2147483647), (minInt64, maxInt64)}"

lemma intBounds_float:
  assumes "(lo, hi) \<in> intBounds"
  shows "float64Of lo = of_int lo" "float64Of hi = of_int (if hi = maxInt64 then hi + 1 else hi)"
    "lo \<le> 0" "0 \<le> hi" "minInt64 \<le> lo" "hi \<le> maxInt64"
  using assms by (auto simp: intBounds_def float64Of_exact float64Of_min float64Of_max)
    (simp_all add: maxInt64_def minInt64_def)

lemma intOfFloat_exact:
  assumes b: "(lo, hi) \<in> intBounds"
  shows "case intOfFloat lib lo hi f of
      Inr out \<Rightarrow> \<exists>n. out = BInt n \<and> wholeNumber (BFloat f) n \<and> lo \<le> n \<and> n \<le> hi
    | Inl e \<Rightarrow> \<not> (\<exists>n. wholeNumber (BFloat f) n \<and> lo \<le> n \<and> n \<le> hi)"
proof (cases f)
  case (Fin q)
  show ?thesis
  proof (cases "q = of_int \<lfloor>q\<rfloor>")
    case True
    then obtain n where q: "q = of_int n" by blast
    have "\<not> (q < float64Of lo \<or> float64Of hi < q \<or> q = float64Of hi \<and> hi = maxInt64) \<longleftrightarrow> lo \<le> n \<and> n \<le> hi"
      unfolding q intBounds_float(1,2) [OF b] of_int_less_iff of_int_eq_iff by auto
    then show ?thesis using Fin q by (auto simp: intOfFloat_def)
  qed (use Fin in \<open>auto simp: intOfFloat_def\<close>)
next
  case NegZero
  then show ?thesis using intBounds_float [OF b] by (auto simp: intOfFloat_def)
qed (auto simp: intOfFloat_def)

lemma int_exact:
  assumes b: "(lo, hi) \<in> intBounds" and "numeric v"
  shows "case intConv lib lo hi v of
      Inr out \<Rightarrow> \<exists>n. out = BInt n \<and> wholeNumber v n \<and> lo \<le> n \<and> n \<le> hi
    | Inl e \<Rightarrow> \<not> (\<exists>n. wholeNumber v n \<and> lo \<le> n \<and> n \<le> hi)"
proof (cases v)
  case (BFloat f)
  then show ?thesis using intOfFloat_exact [OF b, of f lib]
    by (cases "intOfFloat lib lo hi f") (simp_all add: intConv_def)
next
  case (BStr s)
  show ?thesis
  proof (cases "parseInt s")
    case (Parsed n)
    then have "wholeNumber v n" using BStr by (simp add: parseInt_reads)
    then have one: "wholeNumber v m \<longleftrightarrow> m = n" for m using wholeNumber_one by blast
    show ?thesis unfolding one using BStr Parsed by (auto simp: intConv_def)
  next
    case RangeErr
    then have "\<not> (readsInt s n \<and> lo \<le> n \<and> n \<le> hi)" for n
      using parseInt_reads [of s n] intBounds_float(5,6) [OF b] by auto
    then show ?thesis using BStr RangeErr by (simp add: intConv_def)
  next
    case SyntaxErr
    then have "\<not> (readsInt s n \<and> lo \<le> n \<and> n \<le> hi)" for n
      using parseInt_reads [of s n] intBounds_float(5,6) [OF b] by auto
    then show ?thesis using BStr SyntaxErr by (simp add: intConv_def)
  qed
qed (use assms in \<open>auto simp: intConv_def\<close>)


section \<open>Columns\<close>

definition intRange :: "BulkColumn \<Rightarrow> (int \<times> int) option" where
  "intRange c = map_of [(''tinyint'', 0, 255), (''smallint'', - 32768, 32767),
     (''int'', - 2147483648, 2147483647), (''bigint'', minInt64, maxInt64)] (bcType c)"

text \<open>The places of an amount column, and the amounts it holds: money counts in ten-thousandths.\<close>

definition amountRange :: "BulkColumn \<Rightarrow> (nat \<times> (nat \<Rightarrow> rat \<Rightarrow> bool)) option" where
  "amountRange c =
     (if bcType c \<in> {''decimal'', ''numeric''} then Some (bcScale c, fitsDecimal (bcPrecision c) (bcScale c))
      else if bcType c = ''money'' then Some (4, fitsMoney minInt64 maxInt64)
      else if bcType c = ''smallmoney'' then Some (4, fitsMoney (- 2147483648) 2147483647)
      else None)"

lemma Converter_column:
  "columnConv lib c = Inr conv \<Longrightarrow> Converter lib c =
     Inr (\<lambda>v. case conv (driverValue v) of
         Inl reason \<Rightarrow> Inl \<lparr>bveRow = 0, bveColumn = bcName c, bveReason = reason\<rparr>
       | Inr out \<Rightarrow> Inr out)"
  by (simp add: Converter_def)

lemma int_column: "intRange c = Some (lo, hi) \<Longrightarrow> columnConv lib c = Inr (intConv lib lo hi) \<and> (lo, hi) \<in> intBounds"
  by (auto simp: intRange_def columnConv_def Let_def intBounds_def split: if_splits)

lemma amount_column:
  assumes "amountRange c = Some (places, fits)" "bcScale c \<le> bcPrecision c"
  obtains conv where "columnConv lib c = Inr conv" "amountCheck lib conv places fits"
proof -
  have m: "moneyBounds minInt64 maxInt64" "moneyBounds (- 2147483648) 2147483647"
    by (simp_all add: moneyBounds_def minInt64_def maxInt64_def)
  consider "bcType c \<in> {''decimal'', ''numeric''}" | "bcType c = ''money''" | "bcType c = ''smallmoney''"
    using assms(1) by (auto simp: amountRange_def split: if_splits)
  then show thesis
  proof cases
    case 1
    then have "places = bcScale c" "fits = fitsDecimal (bcPrecision c) (bcScale c)"
      using assms(1) by (auto simp: amountRange_def)
    moreover have "columnConv lib c = Inr (decimalConv lib (bcPrecision c) (bcScale c))"
      using 1 by (auto simp: columnConv_def Let_def)
    ultimately show thesis using that decimal_check [OF assms(2)] by blast
  next
    case 2
    then have "places = 4" "fits = fitsMoney minInt64 maxInt64" using assms(1) by (auto simp: amountRange_def)
    moreover have "columnConv lib c = Inr (moneyConv lib minInt64 maxInt64)"
      using 2 by (simp add: columnConv_def Let_def)
    ultimately show thesis using that money_check [OF m(1)] by blast
  next
    case 3
    then have "places = 4" "fits = fitsMoney (- 2147483648) 2147483647" using assms(1) by (auto simp: amountRange_def)
    moreover have "columnConv lib c = Inr (moneyConv lib (- 2147483648) 2147483647)"
      using 3 by (simp add: columnConv_def Let_def)
    ultimately show thesis using that money_check [OF m(2)] by blast
  qed
qed

text \<open>
  C21: an integer column takes an integer, a whole float or decimal text exactly when the number it
  stands for is in the range of the column's type, and loads that very number; every other number is
  refused, under the column's name.  No \<open>float64\<close> wraps or rounds into range.
\<close>

theorem int_columns_exact:
  assumes "intRange c = Some (lo, hi)" and "numeric (driverValue v)"
  shows "case Converter lib c of
      Inl e \<Rightarrow> False
    | Inr check \<Rightarrow> (case check v of
        Inr out \<Rightarrow> \<exists>n. out = BInt n \<and> wholeNumber (driverValue v) n \<and> lo \<le> n \<and> n \<le> hi
      | Inl e \<Rightarrow> bveColumn e = bcName c \<and> \<not> (\<exists>n. wholeNumber (driverValue v) n \<and> lo \<le> n \<and> n \<le> hi))"
proof -
  have c: "columnConv lib c = Inr (intConv lib lo hi)" "(lo, hi) \<in> intBounds" using int_column assms(1) by auto
  show ?thesis using int_exact [OF c(2) assms(2), of lib]
    by (simp add: Converter_column [OF c(1)] split: sum.splits)
qed

text \<open>
  C22: a decimal, numeric, money or smallmoney column takes an integer, a finite float or decimal text
  exactly when the amount it stands for (a float's rounded to the column's places, ties to even) has
  no more places than the column and is within its precision or range, and sends a text of that very
  amount; the \<open>uint64\<close> that counts money's ten-thousandths never wraps into range.
\<close>

theorem amount_columns_exact:
  assumes "amountRange c = Some (places, fits)" and "bcScale c \<le> bcPrecision c"
    and "numeric (driverValue v)"
  shows "case Converter lib c of
      Inl e \<Rightarrow> False
    | Inr check \<Rightarrow> (case check v of
        Inr out \<Rightarrow> \<exists>t p q. out = BStr t \<and> readsAmount places (driverValue v) p q \<and> fits p q \<and> readsDecimal t p q
      | Inl e \<Rightarrow> bveColumn e = bcName c \<and> \<not> (\<exists>p q. readsAmount places (driverValue v) p q \<and> fits p q))"
proof -
  obtain conv where c: "columnConv lib c = Inr conv" "amountCheck lib conv places fits"
    using amount_column [OF assms(1,2)] by blast
  show ?thesis using amount_exact [OF c(2) assms(3)]
    by (simp add: exactFor_def Converter_column [OF c(1)] split: sum.splits)
qed



section \<open>A concrete column\<close>

definition sampleLib :: bulkLib where
  "sampleLib = \<lparr>fmtG = (\<lambda>f. []), fmtF = (\<lambda>f. []), fmtV = (\<lambda>f. []), parseFloat = (\<lambda>s bits. SyntaxErr),
     guidOf = (\<lambda>s. Some (replicate 16 (CHR 0x00))), encodePage = (\<lambda>cp s. if list_all (\<lambda>c. byte c < 128) s then Some s else None)\<rparr>"

definition sampleColumn :: "string \<Rightarrow> BulkColumn" where
  "sampleColumn ty = \<lparr>bcName = ''Price'', bcType = ty, bcLength = 10, bcPrecision = 5, bcScale = 2,
     bcCodePage = 1252, bcDatabaseCodePage = 1252\<rparr>"

lemma int_columns_exact_witness:
  "case Converter sampleLib (sampleColumn ''tinyint'') of
      Inl e \<Rightarrow> False
    | Inr check \<Rightarrow> (case check (BSized 300) of
        Inr out \<Rightarrow> False
      | Inl e \<Rightarrow> bveColumn e = ''Price'')"
proof -
  have "intRange (sampleColumn ''tinyint'') = Some (0, 255)" by (simp add: intRange_def sampleColumn_def)
  moreover have "driverValue (BSized 300) = BInt 300" by (simp add: driverValue_def)
  ultimately show ?thesis using int_columns_exact [of "sampleColumn ''tinyint''" 0 255 "BSized 300" sampleLib]
    by (auto simp: sampleColumn_def split: sum.splits)
qed

lemma amount_columns_exact_witness:
  "case Converter sampleLib (sampleColumn ''decimal'') of
      Inl e \<Rightarrow> False
    | Inr check \<Rightarrow> (case check (BFloat (Fin (5 / 4))) of
        Inr out \<Rightarrow> \<exists>t. out = BStr t \<and> readsDecimal t 2 (5 / 4)
      | Inl e \<Rightarrow> False)"
proof -
  have r: "amountRange (sampleColumn ''decimal'') = Some (2, fitsDecimal 5 2)"
    by (simp add: amountRange_def sampleColumn_def)
  have e: "roundEven 125 = 125" using roundEven_int [of 125] by simp
  have a: "readsAmount 2 (BFloat (Fin (5 / 4))) p q \<longleftrightarrow> p = 2 \<and> q = 5 / 4" for p q by (simp add: e)
  have f: "fitsDecimal 5 2 2 (5 / 4)" by (simp add: fitsDecimal_def)
  have drv: "driverValue (BFloat (Fin (5 / 4))) = BFloat (Fin (5 / 4))" by simp
  have ok: "bcScale (sampleColumn ''decimal'') \<le> bcPrecision (sampleColumn ''decimal'')"
    "numeric (driverValue (BFloat (Fin (5 / 4))))" by (simp_all add: sampleColumn_def)
  define x :: rat where "x = 5 / 4"
  show ?thesis using amount_columns_exact [OF r ok, of sampleLib, unfolded drv a] f
    unfolding x_def [symmetric] by (auto split: sum.splits)
qed



end
