(* ===== verification/BulkLoad.thy ===== *)
theory BulkLoad
  imports BulkValue Calls
begin

text \<open>
  \<open>bulkcopy.go\<close>: \<open>Database.BulkInsert\<close>, the loop that sends a load's rows, and the converters of its
  columns.  The rows the driver holds for the statement are a \<open>bulkSession\<close>; what the server answers
  to the catalog query, to \<open>INSERT BULK\<close>, to a row and to the flush is a \<open>bulkServer\<close>, a parameter.
  The statement's rows reach the table only when the flush succeeds; a connection that is discarded
  is closed before that.
\<close>

record BulkOptions =
  CheckConstraints :: bool
  FireTriggers :: bool
  KeepNulls :: bool
  TableLock :: bool
  RowsPerBatch :: int
  KilobytesPerBatch :: int
  OrderHint :: "string list"

record BulkCopy =
  bkSchema :: string
  bkTable :: string
  bkColumns :: "string list"
  bkOptions :: BulkOptions

text \<open>The \<open>iter.Seq2\<close> of rows: the pairs it yields.\<close>

type_synonym rowSeq = "(bulkVal list \<times> goerr option) list"

definition SliceRows :: "bulkVal list list \<Rightarrow> rowSeq" where
  "SliceRows rows = map (\<lambda>r. (r, None)) rows"

text \<open>
  The errors of a load: \<open>BadRow\<close> wraps a \<open>BulkValueError\<close> (which unwraps to \<open>ErrInvalidRequest\<close>)
  under the load's prefix.
\<close>

datatype loadErr = LoadErr goerr | BadRow string BulkValueError

fun loadErr_is :: "loadErr \<Rightarrow> sentinel \<Rightarrow> bool" where
  "loadErr_is (LoadErr e) t = errors_is e t"
| "loadErr_is (BadRow target e) t = (t = ErrInvalidRequest)"

record bulkServer =
  bsvColumns :: "string \<Rightarrow> BulkColumn list res"
  bsvPrepare :: "string \<Rightarrow> BulkOptions \<Rightarrow> string list \<Rightarrow> goerr option"
  bsvRow :: "bulkVal list list \<Rightarrow> bulkVal list \<Rightarrow> goerr option"
  bsvFlush :: "bulkVal list list \<Rightarrow> goerr + int option"

record bulkSession =
  bsPrepared :: bool
  bsSent :: "bulkVal list list"
  bsFlushed :: bool
  bsDiscarded :: bool

definition newSession :: bulkSession where
  "newSession = \<lparr>bsPrepared = False, bsSent = [], bsFlushed = False, bsDiscarded = False\<rparr>"

section \<open>The columns' converters\<close>

type_synonym check = "bulkVal \<Rightarrow> BulkValueError + bulkVal"

definition columnConverter :: "bulkLib \<Rightarrow> BulkColumn list \<Rightarrow> string \<Rightarrow> check option res" where
  "columnConverter lib cols name =
     (case find (\<lambda>c. bcName c = name) cols of
        None \<Rightarrow> Inr None
      | Some c \<Rightarrow> res_bind (Converter lib c) (\<lambda>conv. Inr (Some conv)))"

definition converters :: "bulkLib \<Rightarrow> bulkServer \<Rightarrow> BulkCopy \<Rightarrow> string \<Rightarrow> check option list res" where
  "converters lib srv bc target =
     (case bsvColumns srv target of
        Inl e \<Rightarrow> Inl (Wrapped ''gosmo: bulk insert into %s: read its columns: %w'' [AText target] e)
      | Inr cols \<Rightarrow> res_map (columnConverter lib cols) (bkColumns bc))"

section \<open>The rows\<close>

text \<open>The loop over a row's values: \<open>nil\<close>, and the value of a column that is not there, go as they are.\<close>

fun convertRow :: "check option list \<Rightarrow> bulkVal list \<Rightarrow> BulkValueError + bulkVal list" where
  "convertRow (c # cs) (v # vs) =
     (case (if v = BNil then Inr v else case c of None \<Rightarrow> Inr v | Some f \<Rightarrow> f v) of
        Inl e \<Rightarrow> Inl e
      | Inr w \<Rightarrow> (case convertRow cs vs of Inl e \<Rightarrow> Inl e | Inr ws \<Rightarrow> Inr (w # ws)))"
| "convertRow _ vs = Inr []"

definition discard :: "bulkSession \<Rightarrow> bulkSession" where
  "discard s = s\<lparr>bsDiscarded := True\<rparr>"

text \<open>
  The loop over the rows, \<open>n\<close> of which have been sent: the number sent, the error that stopped it,
  and the session.
\<close>

fun rowLoop :: "bulkServer \<Rightarrow> string \<Rightarrow> nat \<Rightarrow> check option list \<Rightarrow> int \<Rightarrow> rowSeq \<Rightarrow> bulkSession \<Rightarrow>
    int \<times> loadErr option \<times> bulkSession" where
  "rowLoop srv target width convs n [] s = (n, None, s)"
| "rowLoop srv target width convs n ((row, rerr) # rows) s =
     (case rerr of
        Some e \<Rightarrow>
          (n, Some (LoadErr (Wrapped ''gosmo: bulk insert into %s: reading row %d: %w'' [AText target, ANum (n + 1)] e)),
           discard s)
      | None \<Rightarrow>
          if length row \<noteq> width
          then (n, Some (LoadErr (invalidf ''gosmo: bulk insert into %s: row %d has %d values, want %d''
                  [AText target, ANum (n + 1), ANum (int (length row)), ANum (int width)])), discard s)
          else (case convertRow convs row of
              Inl ve \<Rightarrow> (n, Some (BadRow target (ve\<lparr>bveRow := n + 1\<rparr>)), discard s)
            | Inr vals \<Rightarrow>
                (case bsvRow srv (bsSent s) vals of
                   Some e \<Rightarrow>
                     (n, Some (LoadErr (Wrapped ''gosmo: bulk insert into %s: row %d: %w'' [AText target, ANum (n + 1)] e)),
                      discard s)
                 | None \<Rightarrow> rowLoop srv target width convs (n + 1) rows (s\<lparr>bsSent := bsSent s @ [vals]\<rparr>))))"

definition load :: "bulkLib \<Rightarrow> bulkServer \<Rightarrow> BulkCopy \<Rightarrow> string \<Rightarrow> rowSeq \<Rightarrow> int \<times> loadErr option \<times> bulkSession" where
  "load lib srv bc target rows =
     (case converters lib srv bc target of
        Inl e \<Rightarrow> (0, Some (LoadErr e), newSession)
      | Inr convs \<Rightarrow>
          (case bsvPrepare srv target (bkOptions bc) (bkColumns bc) of
             Some e \<Rightarrow> (0, Some (LoadErr (Wrapped ''gosmo: prepare bulk insert into %s: %w'' [AText target] e)), newSession)
           | None \<Rightarrow>
               (case rowLoop srv target (length (bkColumns bc)) convs 0 rows (newSession\<lparr>bsPrepared := True\<rparr>) of
                  (n, Some e, s) \<Rightarrow> (n, Some e, s)
                | (n, None, s) \<Rightarrow>
                    (case bsvFlush srv (bsSent s) of
                       Inl e \<Rightarrow> (n, Some (LoadErr (Wrapped ''gosmo: bulk insert into %s: flush: %w'' [AText target] e)), discard s)
                     | Inr copied \<Rightarrow>
                         (case copied of Some k \<Rightarrow> k | None \<Rightarrow> n, None, s\<lparr>bsFlushed := True\<rparr>)))))"

section \<open>BulkInsert\<close>

text \<open>
  \<open>Database.withSessionIn\<close>: a connection put in the database, \<open>fn\<close>, and the connection put back in
  the database it was in; \<open>drop\<close> is what \<open>fn\<close>'s value becomes when that fails and the connection is
  discarded.
\<close>

definition sessionAttempt :: "'w driver \<Rightarrow> database \<Rightarrow> 'w st \<Rightarrow> string res \<times> 'w st" where
  "sessionAttempt D d s =
     (case acquire D s of
        (Inl e, s1) \<Rightarrow> (Inl e, s1)
      | (Inr u, s1) \<Rightarrow>
          (case onWorld (drvQuery D Pooled (''DECLARE @home sysname = DB_NAME(); '' @ useBatch d ''SELECT @home'') []) s1 of
             (Inl e, s2) \<Rightarrow> (Inl (Entry (dName d) e), s2)
           | (Inr home, s2) \<Rightarrow> (Inr home, s2)))"

definition withSessionIn :: "'w driver \<Rightarrow> ctx \<Rightarrow> database \<Rightarrow> 'a \<Rightarrow> ('a \<Rightarrow> 'a) \<Rightarrow> 'w st \<Rightarrow> 'a res \<times> 'w st" where
  "withSessionIn D c d fn droppedBy s =
     (if txFrom c (dServer d)
      then (Inl (unsupportedf ''gosmo: %s: a call that holds its own session cannot run inside InTransaction''
              [AText (dName d)]), s)
      else (case withRetry (sessionAttempt D d) (pause D) s of
          (Inl e, s1) \<Rightarrow> (Inl e, s1)
        | (Inr home, s1) \<Rightarrow>
            (case onWorld (drvExec D Pooled (''USE '' @ QuoteName home) []) s1 of
               (Some e, s2) \<Rightarrow> (Inr (droppedBy fn), s2)
             | (None, s2) \<Rightarrow> (Inr fn, s2))))"

fun loadMessages :: "loadErr \<Rightarrow> loadErr" where
  "loadMessages (LoadErr e) = LoadErr (multiMessage e)"
| "loadMessages (BadRow target e) = BadRow target e"

fun prefixLoad :: "loadErr \<Rightarrow> string \<Rightarrow> loadErr" where
  "prefixLoad (LoadErr e) q = LoadErr (prefixEntry e q)"
| "prefixLoad (BadRow target e) q = BadRow target e"

definition bulkRefusal :: "ctx \<Rightarrow> database \<Rightarrow> BulkCopy \<Rightarrow> goerr option" where
  "bulkRefusal c d bc =
     (if bkTable bc = [] then Some (invalidf ''gosmo: bulk insert: no destination table'' [])
      else if bkColumns bc = []
      then Some (invalidf ''gosmo: bulk insert into %q: no columns specified'' [AText (bkTable bc)])
      else (case requireSchema ''bulk insert into'' (bkSchema bc) (bkTable bc) of
          Some e \<Rightarrow> Some e
        | None \<Rightarrow>
            if Scripting c
            then Some (unsupportedf (''gosmo: bulk insert into %s: a bulk copy cannot be scripted '' @
              [CHR 0xE2, CHR 0x80, CHR 0x94] @ '' its rows are a TDS stream, not T-SQL'')
              [AText (QualifiedName (bkSchema bc) (bkTable bc))])
            else refuseInTx c (dServer d) (''bulk insert into '' @ QualifiedName (bkSchema bc) (bkTable bc))))"

definition bulkSQL :: "string \<Rightarrow> BulkCopy \<Rightarrow> int \<Rightarrow> string" where
  "bulkSQL target bc n =
     ''INSERT BULK '' @ target @ '' ('' @ str_join '', '' (map QuoteName (bkColumns bc)) @ '') -- '' @ itoa n @ '' rows''"

definition BulkInsert :: "bulkLib \<Rightarrow> bulkServer \<Rightarrow> 'w driver \<Rightarrow> ctx \<Rightarrow> database \<Rightarrow> BulkCopy \<Rightarrow> rowSeq \<Rightarrow> 'w st \<Rightarrow>
    (int \<times> loadErr option \<times> bulkSession) \<times> 'w st" where
  "BulkInsert lib srv D c d bc rows s =
     (case bulkRefusal c d bc of
        Some e \<Rightarrow> ((0, Some (LoadErr e), newSession), s)
      | None \<Rightarrow>
          (let target = QualifiedName (bkSchema bc) (bkTable bc);
               what = ''bulk insert into '' @ target
           in case withSessionIn D c d (load lib srv bc target rows) (\<lambda>(n, e, b). (n, e, discard b)) s of
                (Inl e, s1) \<Rightarrow> ((0, Some (LoadErr (prefixEntry e what)), newSession), s1)
              | (Inr (n, err, b), s1) \<Rightarrow>
                  (case err of
                     Some e \<Rightarrow> ((n, Some (prefixLoad (loadMessages e) what), b), s1)
                   | None \<Rightarrow>
                       ((n, None, b),
                        observe c (dServer d) \<lparr>eServer = scriptServerName c (dServer d), eDatabase = dName d,
                          eSQL = bulkSQL target bc n\<rparr> s1))))"

section \<open>All the rows or none\<close>

text \<open>What a value may become, and a row: nil and the values of absent columns as they are, the others converted.\<close>

definition sentAs :: "check option \<times> bulkVal \<Rightarrow> bulkVal \<Rightarrow> bool" where
  "sentAs cv w \<longleftrightarrow> (case cv of
     (c, v) \<Rightarrow> if v = BNil then w = BNil else (case c of None \<Rightarrow> w = v | Some f \<Rightarrow> f v = Inr w))"

definition acceptedRow :: "check option list \<Rightarrow> bulkVal list \<Rightarrow> bulkVal list \<Rightarrow> bool" where
  "acceptedRow convs row vals \<longleftrightarrow> length row = length convs \<and> list_all2 sentAs (zip convs row) vals"

definition sentRow :: "check option list \<Rightarrow> bulkVal list \<times> goerr option \<Rightarrow> bulkVal list \<Rightarrow> bool" where
  "sentRow convs r vals \<longleftrightarrow> snd r = None \<and> acceptedRow convs (fst r) vals"

lemma convertRow_accepts:
  "length row = length convs \<Longrightarrow>
   (case convertRow convs row of
      Inr vals \<Rightarrow> acceptedRow convs row vals
    | Inl e \<Rightarrow> \<not> (\<exists>vals. acceptedRow convs row vals))"
proof (induction convs row rule: convertRow.induct)
  case (1 c cs v vs)
  show ?case
  proof (cases "if v = BNil then Inr v else case c of None \<Rightarrow> Inr v | Some f \<Rightarrow> f v")
    case (Inl e)
    then have "\<not> sentAs (c, v) w" for w by (auto simp: sentAs_def split: if_splits option.splits)
    then show ?thesis using Inl by (auto simp: acceptedRow_def list_all2_Cons1)
  next
    case (Inr w)
    then have w: "sentAs (c, v) w" by (auto simp: sentAs_def split: if_splits option.splits)
    then show ?thesis using 1 Inr by (auto simp: acceptedRow_def list_all2_Cons1 split: sum.splits)
  qed
qed (auto simp: acceptedRow_def)

text \<open>What the loop has done when it ends: \<open>new\<close> are the rows it sent.\<close>

definition loopPromise :: "check option list \<Rightarrow> rowSeq \<Rightarrow> int \<Rightarrow> loadErr option \<Rightarrow> bulkVal list list \<Rightarrow> bool" where
  "loopPromise convs rows m err new \<longleftrightarrow>
     length new \<le> length rows \<and> list_all2 (sentRow convs) (take (length new) rows) new \<and>
     (case err of
        None \<Rightarrow> length new = length rows
      | Some e \<Rightarrow> length new < length rows \<and>
          (case e of LoadErr g \<Rightarrow> True
           | BadRow tg ve \<Rightarrow> bveRow ve = m + 1 \<and> \<not> (\<exists>vals. acceptedRow convs (fst (rows ! length new)) vals)))"

lemma loopPromise_Cons: "sentRow convs r vals \<Longrightarrow> loopPromise convs rows m err new \<Longrightarrow> loopPromise convs (r # rows) m err (vals # new)"
  by (auto simp: loopPromise_def split: option.splits loadErr.splits)

lemma rowLoop_spec:
  assumes "rowLoop srv target width convs n rows s = (m, err, t)" "length convs = width" "n = int (length (bsSent s))"
  shows "\<exists>new. loopPromise convs rows m err new \<and> bsSent t = bsSent s @ new \<and> m = int (length (bsSent t)) \<and>
    bsPrepared t = bsPrepared s \<and> bsFlushed t = bsFlushed s \<and> bsDiscarded t = (bsDiscarded s \<or> err \<noteq> None)"
  using assms
proof (induction rows arbitrary: n s)
  case Nil
  then show ?case by (auto simp: loopPromise_def)
next
  case (Cons r rows)
  obtain row rerr where r: "r = (row, rerr)" by (cases r)
  note d = discard_def loopPromise_def
  show ?case
  proof (cases "rerr = None \<and> length row = width")
    case False
    then show ?thesis using Cons.prems r by (intro exI [of _ "[]"]) (auto simp: d split: option.splits if_splits)
  next
    case True
    then have fits: "length row = length convs" using Cons.prems by simp
    note conv = convertRow_accepts [OF fits]
    show ?thesis
    proof (cases "convertRow convs row")
      case (Inl ve)
      then show ?thesis using Cons.prems r True conv by (intro exI [of _ "[]"]) (auto simp: d)
    next
      case (Inr vals)
      then have ok: "sentRow convs r vals" using conv r True by (simp add: sentRow_def)
      show ?thesis
      proof (cases "bsvRow srv (bsSent s) vals")
        case (Some e)
        then show ?thesis using Cons.prems r True Inr by (intro exI [of _ "[]"]) (auto simp: d)
      next
        case None
        let ?s = "s\<lparr>bsSent := bsSent s @ [vals]\<rparr>"
        have "rowLoop srv target width convs (n + 1) rows ?s = (m, err, t)" using Cons.prems(1) r True Inr None by simp
        then have "\<exists>new. loopPromise convs rows m err new \<and> bsSent t = bsSent ?s @ new \<and> m = int (length (bsSent t)) \<and>
            bsPrepared t = bsPrepared ?s \<and> bsFlushed t = bsFlushed ?s \<and> bsDiscarded t = (bsDiscarded ?s \<or> err \<noteq> None)"
          by (rule Cons.IH) (use Cons.prems in simp_all)
        then show ?thesis using loopPromise_Cons [OF ok] by fastforce
      qed
    qed
  qed
qed

lemma res_map_length: "res_map f xs = Inr ys \<Longrightarrow> length ys = length xs"
  by (simp add: res_map_Inr list_all2_lengthD)

lemma converters_length: "converters lib srv bc target = Inr convs \<Longrightarrow> length convs = length (bkColumns bc)"
  by (auto simp: converters_def res_map_length split: sum.splits)

text \<open>What a load promises of its error and its session.\<close>

definition loadPromise :: "check option list res \<Rightarrow> rowSeq \<Rightarrow> loadErr option \<Rightarrow> bulkSession \<Rightarrow> bool" where
  "loadPromise convs rows err b \<longleftrightarrow>
     (case err of
        None \<Rightarrow> bsFlushed b \<and> (\<exists>cs. convs = Inr cs \<and> list_all2 (sentRow cs) rows (bsSent b))
      | Some e \<Rightarrow>
          \<not> bsFlushed b \<and>
          (if bsPrepared b
           then bsDiscarded b \<and>
             (\<exists>cs. convs = Inr cs \<and> list_all2 (sentRow cs) (take (length (bsSent b)) rows) (bsSent b) \<and>
               (case e of LoadErr g \<Rightarrow> True
                | BadRow tg ve \<Rightarrow> bveRow ve = int (length (bsSent b)) + 1 \<and> length (bsSent b) < length rows \<and>
                    \<not> (\<exists>vals. acceptedRow cs (fst (rows ! length (bsSent b))) vals)))
           else bsSent b = [] \<and> (case e of LoadErr g \<Rightarrow> True | BadRow tg ve \<Rightarrow> False)))"

lemma load_promise:
  assumes "load lib srv bc target rows = (n, err, b)"
  shows "loadPromise (converters lib srv bc target) rows err b"
proof (cases "converters lib srv bc target")
  case (Inl e)
  then show ?thesis using assms by (auto simp: load_def newSession_def loadPromise_def)
next
  case (Inr cs)
  show ?thesis
  proof (cases "bsvPrepare srv target (bkOptions bc) (bkColumns bc)")
    case (Some e)
    then show ?thesis using assms Inr by (auto simp: load_def newSession_def loadPromise_def)
  next
    case None
    obtain m err1 t where loop: "rowLoop srv target (length (bkColumns bc)) cs 0 rows (newSession\<lparr>bsPrepared := True\<rparr>) = (m, err1, t)"
      by (metis surj_pair)
    from rowLoop_spec [OF this converters_length [OF Inr]]
    have t: "loopPromise cs rows m err1 (bsSent t)" "m = int (length (bsSent t))" "bsPrepared t" "\<not> bsFlushed t"
        "bsDiscarded t = (err1 \<noteq> None)"
      by (auto simp: newSession_def)
    show ?thesis
    proof (cases err1)
      case (Some e1)
      then show ?thesis using assms Inr None loop t
        by (auto simp: load_def loadPromise_def loopPromise_def split: loadErr.splits)
    next
      case none: None
      then show ?thesis using assms Inr None loop t
        by (auto simp: load_def loadPromise_def loopPromise_def discard_def split: sum.splits)
    qed
  qed
qed

lemma promise_discard: "loadPromise convs rows err b \<Longrightarrow> loadPromise convs rows err (discard b)"
  by (cases err) (auto simp: loadPromise_def discard_def split: loadErr.splits)

lemma promise_wrapped: "loadPromise convs rows (Some e) b \<Longrightarrow> loadPromise convs rows (Some (prefixLoad (loadMessages e) what)) b"
  by (cases e; cases "bsPrepared b") (simp_all add: loadPromise_def)

lemma withSessionIn_result:
  "withSessionIn D c d fn droppedBy s = (r, s1) \<Longrightarrow> (\<exists>e. r = Inl e) \<or> r = Inr fn \<or> r = Inr (droppedBy fn)"
  by (auto simp: withSessionIn_def split: if_splits sum.splits prod.splits option.splits)

text \<open>
  C25: a bulk load is all or nothing.  \<open>BulkInsert\<close> returns no error only when the flush succeeded, and
  then every row of the source was read and sent, each value as its column's converter returned it.
  When it returns an error the rows were not flushed and the connection they were sent on has been
  discarded; those sent are the rows before the failing one, and an error about a value names the first
  row no conversion of which is accepted.
\<close>

theorem bulk_insert_all_or_nothing:
  "case BulkInsert lib srv D c d bc rows s of
     ((n, err, b), s1) \<Rightarrow> loadPromise (converters lib srv bc (QualifiedName (bkSchema bc) (bkTable bc))) rows err b"
proof -
  let ?target = "QualifiedName (bkSchema bc) (bkTable bc)"
  let ?convs = "converters lib srv bc ?target"
  obtain n err b where l: "load lib srv bc ?target rows = (n, err, b)" by (metis surj_pair)
  have p: "loadPromise ?convs rows err b" by (rule load_promise [OF l])
  have dropped: "loadPromise ?convs rows err (discard b)"
    by (rule promise_discard [OF p])
  have wrapped: "loadPromise ?convs rows (Some (prefixLoad (loadMessages e) w)) b'"
    if "err = Some e" "b' = b \<or> b' = discard b" for e w b'
    using promise_wrapped that p dropped by auto
  show ?thesis
  proof (cases "bulkRefusal c d bc")
    case (Some e)
    then show ?thesis by (simp add: BulkInsert_def loadPromise_def newSession_def)
  next
    case None
    let ?drop = "\<lambda>(n, e, b). (n, e, discard b)"
    obtain r s1 where w: "withSessionIn D c d (load lib srv bc ?target rows) ?drop s = (r, s1)" by (metis surj_pair)
    consider (failed) e where "r = Inl e" | (ran) b' where "r = Inr (n, err, b')" "b' = b \<or> b' = discard b"
      using withSessionIn_result [OF w] by (auto simp: l)
    then show ?thesis
    proof cases
      case failed
      then show ?thesis using None w by (simp add: BulkInsert_def Let_def loadPromise_def newSession_def)
    next
      case ran
      then show ?thesis using None w wrapped [OF _ ran(2)] p dropped
        by (cases err) (auto simp: BulkInsert_def Let_def)
    qed
  qed
qed

end
