(* ===== verification/AgentSteps.thy ===== *)
theory AgentSteps
  imports Calls
begin

text \<open>
  The steps of an Agent job (\<open>agent_job_step.go\<close>): the statements that add, change and delete a
  step, and \<open>ReorderSteps\<close>, which realises an order as deletions and insertions, repairs every
  ``go to step N'' afterwards, and sends all of it as one transactional batch.  The procedures of
  msdb are a parameter; \<open>msdbLaws\<close> states what their documentation says of them.
\<close>

record JobStepDefinition =
  sdName :: string
  sdSubsystem :: string
  sdCommand :: string
  sdDatabase :: string
  sdOnSuccessAction :: int
  sdOnSuccessStepID :: int
  sdOnFailAction :: int
  sdOnFailStepID :: int
  sdRetryAttempts :: int
  sdRetryInterval :: int
  sdOutputFileName :: string
  sdFlags :: int
  sdProxyName :: string
  sdAdditionalParameters :: string
  sdServer :: string
  sdDatabaseUserName :: string
  sdCmdExecSuccessCode :: int
  sdOSRunPriority :: int

text \<open>A \<open>JobStep\<close> has the same columns and its number (what it last ran as is not read here).\<close>

record JobStep = JobStepDefinition +
  jsStepID :: int

definition goToStepAction :: int where "goToStepAction = 4"
definition goToNextStepAction :: int where "goToNextStepAction = 3"

section \<open>The statements\<close>

text \<open>One more string bound: its placeholder is appended to the text.\<close>

definition bindText :: "string \<Rightarrow> string \<Rightarrow> goval list \<times> string \<Rightarrow> goval list \<times> string" where
  "bindText lead v a = (case boundArgs_str (fst a) v of (vals, p) \<Rightarrow> (vals, snd a @ lead @ p))"

definition plainText :: "string \<Rightarrow> goval list \<times> string \<Rightarrow> goval list \<times> string" where
  "plainText t a = (fst a, snd a @ t)"

definition bindUnlessEmpty :: "string \<Rightarrow> string \<Rightarrow> goval list \<times> string \<Rightarrow> goval list \<times> string" where
  "bindUnlessEmpty lead v a = (if v \<noteq> [] then bindText lead v a else a)"

definition stepExtraArgs :: "'a JobStepDefinition_scheme \<Rightarrow> goval list \<times> string \<Rightarrow> goval list \<times> string" where
  "stepExtraArgs req a =
     bindUnlessEmpty '', @database_user_name = '' (sdDatabaseUserName req)
     (bindUnlessEmpty '', @server = '' (sdServer req)
     (bindUnlessEmpty '', @additional_parameters = '' (sdAdditionalParameters req)
     (bindUnlessEmpty '', @proxy_name = '' (sdProxyName req)
     (plainText ('', @flags = '' @ itoa (sdFlags req) @ '', @cmdexec_success_code = '' @ itoa (sdCmdExecSuccessCode req) @
        '', @os_run_priority = '' @ itoa (sdOSRunPriority req)) a))))"

definition flowArgs :: "int \<Rightarrow> int \<Rightarrow> int \<Rightarrow> int \<Rightarrow> string" where
  "flowArgs sa si fa fi =
     ''@on_success_action = '' @ itoa sa @ '', @on_success_step_id = '' @ itoa si @
     '', @on_fail_action = '' @ itoa fa @ '', @on_fail_step_id = '' @ itoa fi"

definition addStepStmt :: "goval list \<Rightarrow> string \<Rightarrow> 'a JobStepDefinition_scheme \<Rightarrow> int \<Rightarrow> goval list \<times> string" where
  "addStepStmt args job req stepID =
     (let a = bindText '', @command = '' (sdCommand req)
                (bindText '', @subsystem = '' (sdSubsystem req)
                (bindText '', @step_name = '' (sdName req)
                (args, ''EXEC msdb.dbo.sp_add_jobstep @job_name = '' @ job)));
          b = plainText ('', '' @ flowArgs (sdOnSuccessAction req) (sdOnSuccessStepID req) (sdOnFailAction req) (sdOnFailStepID req) @
                '', @retry_attempts = '' @ itoa (sdRetryAttempts req) @ '', @retry_interval = '' @ itoa (sdRetryInterval req)) a;
          c = bindUnlessEmpty '', @output_file_name = '' (sdOutputFileName req)
                (bindUnlessEmpty '', @database_name = '' (sdDatabase req) b);
          d = stepExtraArgs req c
      in if stepID > 0 then plainText ('', @step_id = '' @ itoa stepID) d else d)"

definition deleteStepStmt :: "string \<Rightarrow> int \<Rightarrow> string" where
  "deleteStepStmt job stepID = ''EXEC msdb.dbo.sp_delete_jobstep @job_name = '' @ job @ '', @step_id = '' @ itoa stepID"

definition setFlowStmt :: "string \<Rightarrow> int \<Rightarrow> int \<Rightarrow> int \<Rightarrow> int \<Rightarrow> int \<Rightarrow> string" where
  "setFlowStmt job stepID sa si fa fi =
     ''EXEC msdb.dbo.sp_update_jobstep @job_name = '' @ job @ '', @step_id = '' @ itoa stepID @ '', '' @ flowArgs sa si fa fi"

definition setStartStepStmt :: "string \<Rightarrow> int \<Rightarrow> string" where
  "setStartStepStmt job stepID = ''EXEC msdb.dbo.sp_update_job @job_name = '' @ job @ '', @start_step_id = '' @ itoa stepID"

text \<open>The statement of \<open>JobStep.Alter\<close>, with the values it binds.\<close>

definition alterStepStmt :: "string \<Rightarrow> int \<Rightarrow> 'a JobStepDefinition_scheme \<Rightarrow> goval list \<times> string" where
  "alterStepStmt jobName stepID req =
     (let a = bindText ''EXEC msdb.dbo.sp_update_jobstep @job_name = '' jobName ([], []);
          b = bindText '', @command = '' (sdCommand req)
                (bindText '', @subsystem = '' (sdSubsystem req)
                (bindText '', @step_name = '' (sdName req) (plainText ('', @step_id = '' @ itoa stepID) a)));
          c = plainText ('', '' @ flowArgs (sdOnSuccessAction req) (sdOnSuccessStepID req) (sdOnFailAction req) (sdOnFailStepID req) @
                '', @retry_attempts = '' @ itoa (sdRetryAttempts req) @ '', @retry_interval = '' @ itoa (sdRetryInterval req)) b
      in bindText '', @output_file_name = '' (sdOutputFileName req)
           (bindUnlessEmpty '', @database_name = '' (sdDatabase req) c))"

section \<open>Reordering\<close>

text \<open>The statements of a reorder, before they are rendered.\<close>

datatype stepStmt =
    DeleteStep int
  | AddStep JobStepDefinition int
  | SetFlow int int int int int
  | SetStart int

definition stmtText :: "string \<Rightarrow> goval list \<Rightarrow> stepStmt \<Rightarrow> goval list \<times> string" where
  "stmtText job args q =
     (case q of
        DeleteStep k \<Rightarrow> (args, deleteStepStmt job k)
      | AddStep d k \<Rightarrow> addStepStmt args job d k
      | SetFlow k sa si fa fi \<Rightarrow> (args, setFlowStmt job k sa si fa fi)
      | SetStart k \<Rightarrow> (args, setStartStepStmt job k))"

fun stmtTexts :: "string \<Rightarrow> goval list \<Rightarrow> stepStmt list \<Rightarrow> goval list \<times> string list" where
  "stmtTexts job args [] = (args, [])"
| "stmtTexts job args (q # qs) =
     (case stmtText job args q of
        (args1, t) \<Rightarrow> (case stmtTexts job args1 qs of (args2, ts) \<Rightarrow> (args2, t # ts)))"

fun checkReorderLoop :: "int \<Rightarrow> int set \<Rightarrow> int list \<Rightarrow> goerr option" where
  "checkReorderLoop n seen [] = None"
| "checkReorderLoop n seen (i # is) =
     (if i < 1 \<or> n < i then Some (invalidf ''step id %d is outside 1..%d'' [ANum i, ANum n])
      else if i \<in> seen then Some (invalidf ''step id %d appears twice'' [ANum i])
      else checkReorderLoop n (insert i seen) is)"

definition checkReorder :: "int list \<Rightarrow> int \<Rightarrow> goerr option" where
  "checkReorder want n =
     (if int (length want) \<noteq> n
      then Some (invalidf ''order has %d steps, the job has %d'' [ANum (int (length want)), ANum n])
      else checkReorderLoop n {} want)"

definition reAddRequest :: "'a JobStepDefinition_scheme \<Rightarrow> JobStepDefinition" where
  "reAddRequest s =
     \<lparr>sdName = sdName s, sdSubsystem = sdSubsystem s, sdCommand = sdCommand s, sdDatabase = sdDatabase s,
      sdOnSuccessAction = (if sdOnSuccessAction s = goToStepAction then goToNextStepAction else sdOnSuccessAction s),
      sdOnSuccessStepID = 0,
      sdOnFailAction = (if sdOnFailAction s = goToStepAction then goToNextStepAction else sdOnFailAction s),
      sdOnFailStepID = 0,
      sdRetryAttempts = sdRetryAttempts s, sdRetryInterval = sdRetryInterval s, sdOutputFileName = sdOutputFileName s,
      sdFlags = sdFlags s, sdProxyName = sdProxyName s, sdAdditionalParameters = sdAdditionalParameters s,
      sdServer = sdServer s, sdDatabaseUserName = sdDatabaseUserName s, sdCmdExecSuccessCode = sdCmdExecSuccessCode s,
      sdOSRunPriority = sdOSRunPriority s\<rparr>"

text \<open>\<open>slices.Index\<close>, \<open>slices.Delete\<close> of one element and \<open>slices.Insert\<close> of one.\<close>

fun indexOf :: "'a list \<Rightarrow> 'a \<Rightarrow> nat option" where
  "indexOf [] x = None"
| "indexOf (y # ys) x = (if y = x then Some 0 else map_option Suc (indexOf ys x))"

definition deleteAt :: "nat \<Rightarrow> 'a list \<Rightarrow> 'a list" where
  "deleteAt i xs = take i xs @ drop (Suc i) xs"

definition insertAt :: "nat \<Rightarrow> 'a \<Rightarrow> 'a list \<Rightarrow> 'a list" where
  "insertAt i x xs = take i xs @ x # drop i xs"

definition byID :: "JobStep list \<Rightarrow> int \<Rightarrow> JobStep option" where
  "byID steps = map_of (rev (map (\<lambda>s. (jsStepID s, s)) steps))"

text \<open>
  The moves, from position \<open>t\<close> on: their statements and the order of the original numbers they end
  in.  \<open>None\<close> is the panic of a number that is not there.
\<close>

fun moves :: "(int \<Rightarrow> JobStep option) \<Rightarrow> int list \<Rightarrow> nat \<Rightarrow> int list \<Rightarrow> (stepStmt list \<times> int list) option" where
  "moves by [] t current = Some ([], current)"
| "moves by (w # want) t current =
     (if t < length current \<and> current ! t = w then moves by want (Suc t) current
      else (case (indexOf current w, by w) of
          (Some i, Some s) \<Rightarrow>
            (case moves by want (Suc t) (insertAt t w (deleteAt i current)) of
               None \<Rightarrow> None
             | Some (qs, c) \<Rightarrow>
                 Some (DeleteStep (int i + 1) # AddStep (reAddRequest s) (int t + 1) # qs, c))
        | _ \<Rightarrow> None))"

text \<open>\<open>position[id]\<close>, zero for a number that is not there.\<close>

definition positionIn :: "int list \<Rightarrow> int \<Rightarrow> int" where
  "positionIn current i = (case indexOf current i of Some k \<Rightarrow> int k + 1 | None \<Rightarrow> 0)"

definition repair :: "(int \<Rightarrow> JobStep option) \<Rightarrow> int list \<Rightarrow> int \<Rightarrow> stepStmt list" where
  "repair by current i =
     (case by i of
        None \<Rightarrow> []
      | Some s \<Rightarrow>
          if sdOnSuccessAction s \<noteq> goToStepAction \<and> sdOnFailAction s \<noteq> goToStepAction then []
          else [SetFlow (positionIn current i)
                  (sdOnSuccessAction s) (positionIn current (sdOnSuccessStepID s))
                  (sdOnFailAction s) (positionIn current (sdOnFailStepID s))])"

definition startStmts :: "int list \<Rightarrow> int \<Rightarrow> stepStmt list" where
  "startStmts current start =
     (if indexOf current start \<noteq> None \<and> positionIn current start \<noteq> start
      then [SetStart (positionIn current start)] else [])"

text \<open>
  \<open>ReorderSteps\<close> once the steps are read: an error, nothing to send, or the batch.  \<open>start\<close> is
  what reading the start step answers.
\<close>

definition reorderPlan :: "string \<Rightarrow> JobStep list \<Rightarrow> int list \<Rightarrow> int res \<Rightarrow> (goerr + stepStmt list option) option" where
  "reorderPlan name steps want start =
     (case checkReorder want (int (length steps)) of
        Some e \<Rightarrow> Some (Inl (Wrapped ''gosmo: reorder steps of job %q: %w'' [AText name] e))
      | None \<Rightarrow>
          (case moves (byID steps) want 0 (map jsStepID steps) of
             None \<Rightarrow> None
           | Some (qs, current) \<Rightarrow>
               (let stmts = qs @ concat (map (repair (byID steps) current) current)
                in if stmts = [] then Some (Inr None)
                   else (case start of
                       Inl e \<Rightarrow> Some (Inl e)
                     | Inr i \<Rightarrow> Some (Inr (Some (stmts @ startStmts current i)))))))"

definition ReorderSteps :: "'w driver \<Rightarrow> ctx \<Rightarrow> server \<Rightarrow> string \<Rightarrow> JobStep list res \<Rightarrow> (int \<Rightarrow> int list) \<Rightarrow> int res \<Rightarrow> 'w st \<Rightarrow>
    (goerr option \<times> 'w st) option" where
  "ReorderSteps D c srv name steps order start s =
     (case steps of
        Inl e \<Rightarrow> Some (Some e, s)
      | Inr ss \<Rightarrow>
          (case reorderPlan name ss (order (int (length ss))) start of
             None \<Rightarrow> None
           | Some (Inl e) \<Rightarrow> Some (Some e, s)
           | Some (Inr None) \<Rightarrow> Some (None, s)
           | Some (Inr (Some qs)) \<Rightarrow>
               (let (args, job) = boundArgs_str [] name; (vals, texts) = stmtTexts job args qs
                in case serverExecAtomic D c srv texts vals s of
                     (None, s1) \<Rightarrow> Some (None, s1)
                   | (Some e, s1) \<Rightarrow> Some (Some (Wrapped ''gosmo: reorder steps of job %q: %w'' [AText name] e), s1))))"

definition moveOrder :: "int \<Rightarrow> int \<Rightarrow> int \<Rightarrow> int list" where
  "moveOrder stepID newStepID n =
     (let order = filter (\<lambda>i. i \<noteq> stepID) [1..n];
          at = min (max (newStepID - 1) 0) (int (length order))
      in insertAt (nat at) stepID order)"

definition MoveStep :: "'w driver \<Rightarrow> ctx \<Rightarrow> server \<Rightarrow> string \<Rightarrow> JobStep list res \<Rightarrow> int \<Rightarrow> int \<Rightarrow> int res \<Rightarrow> 'w st \<Rightarrow>
    (goerr option \<times> 'w st) option" where
  "MoveStep D c srv name steps stepID newStepID start s =
     ReorderSteps D c srv name steps (moveOrder stepID newStepID) start s"

section \<open>What msdb does\<close>

text \<open>
  A job as msdb keeps it: the columns of each step, what it does on success and on failure (``go to
  step'' a number, or another action), and the start step.
\<close>

datatype flow = GoTo int | Act int

record msdbStep =
  mdCols :: JobStepDefinition
  mdSuccess :: flow
  mdFail :: flow

record msdbJob =
  mjSteps :: "msdbStep list"
  mjStart :: int

definition flowOf :: "int \<Rightarrow> int \<Rightarrow> flow" where
  "flowOf action i = (if action = goToStepAction then GoTo i else Act action)"

definition colsOf :: "'a JobStepDefinition_scheme \<Rightarrow> JobStepDefinition" where
  "colsOf d = (JobStepDefinition.truncate d)
     \<lparr>sdOnSuccessAction := 0, sdOnSuccessStepID := 0, sdOnFailAction := 0, sdOnFailStepID := 0\<rparr>"

definition msdbStepOf :: "'a JobStepDefinition_scheme \<Rightarrow> msdbStep" where
  "msdbStepOf d = \<lparr>mdCols = colsOf d, mdSuccess = flowOf (sdOnSuccessAction d) (sdOnSuccessStepID d),
     mdFail = flowOf (sdOnFailAction d) (sdOnFailStepID d)\<rparr>"

definition mapFlows :: "(flow \<Rightarrow> flow) \<Rightarrow> (flow \<Rightarrow> flow) \<Rightarrow> msdbStep \<Rightarrow> msdbStep" where
  "mapFlows f g st = st\<lparr>mdSuccess := f (mdSuccess st), mdFail := g (mdFail st)\<rparr>"

text \<open>
  References when step \<open>k\<close> is deleted: one to a later step follows it, one to \<open>k\<close> itself is reset
  to an action; and when a step is inserted at \<open>k\<close>.
\<close>

fun dropRef :: "int \<Rightarrow> int \<Rightarrow> flow \<Rightarrow> flow" where
  "dropRef k reset (GoTo r) = (if r = k then Act reset else if k < r then GoTo (r - 1) else GoTo r)"
| "dropRef k reset (Act a) = Act a"

fun shiftRef :: "int \<Rightarrow> flow \<Rightarrow> flow" where
  "shiftRef k (GoTo r) = (if k \<le> r then GoTo (r + 1) else GoTo r)"
| "shiftRef k (Act a) = Act a"

definition goesTo :: "int \<Rightarrow> int \<Rightarrow> int \<Rightarrow> int \<Rightarrow> bool" where
  "goesTo n k action i \<longleftrightarrow> action \<noteq> goToStepAction \<or> 1 \<le> i \<and> i \<le> n \<and> i \<noteq> k"

definition hasDatabase :: "'a JobStepDefinition_scheme \<Rightarrow> bool" where
  "hasDatabase d \<longleftrightarrow> sdSubsystem d = ''TSQL'' \<longrightarrow> sdDatabase d \<noteq> []"

text \<open>
  \<open>sp_delete_jobstep\<close> renumbers the later steps and adjusts the references; a reference to the step
  deleted becomes ``quit with success'' or ``quit with failure''.  \<open>sp_add_jobstep\<close> inserts a step
  of a new name, refusing one that goes to itself, and the references follow; a column not given
  is empty (the database of a T-SQL step excepted).  \<open>sp_update_jobstep\<close> with the flow alone changes
  the flow alone.  None of the three touches the start step, which \<open>sp_update_job\<close> sets.
\<close>

definition msdbLaws :: "(stepStmt \<Rightarrow> msdbJob \<Rightarrow> msdbJob option) \<Rightarrow> bool" where
  "msdbLaws proc \<longleftrightarrow>
     (\<forall>k j. 1 \<le> k \<longrightarrow> k \<le> int (length (mjSteps j)) \<longrightarrow>
        proc (DeleteStep k) j = Some (j\<lparr>mjSteps := map (mapFlows (dropRef k 1) (dropRef k 2)) (deleteAt (nat (k - 1)) (mjSteps j))\<rparr>)) \<and>
     (\<forall>d k j. 1 \<le> k \<longrightarrow> k \<le> int (length (mjSteps j)) + 1 \<longrightarrow> sdName d \<notin> sdName ` mdCols ` set (mjSteps j) \<longrightarrow>
        sdOnSuccessAction d \<noteq> goToStepAction \<longrightarrow> sdOnFailAction d \<noteq> goToStepAction \<longrightarrow> hasDatabase d \<longrightarrow>
        proc (AddStep d k) j = Some (j\<lparr>mjSteps := insertAt (nat (k - 1)) (msdbStepOf d) (map (mapFlows (shiftRef k) (shiftRef k)) (mjSteps j))\<rparr>)) \<and>
     (\<forall>k sa si fa fi j. 1 \<le> k \<longrightarrow> k \<le> int (length (mjSteps j)) \<longrightarrow>
        goesTo (int (length (mjSteps j))) k sa si \<longrightarrow> goesTo (int (length (mjSteps j))) k fa fi \<longrightarrow>
        proc (SetFlow k sa si fa fi) j = Some (j\<lparr>mjSteps := (mjSteps j)
          [nat (k - 1) := (mjSteps j ! nat (k - 1))\<lparr>mdSuccess := flowOf sa si, mdFail := flowOf fa fi\<rparr>]\<rparr>)) \<and>
     (\<forall>k j. 1 \<le> k \<longrightarrow> k \<le> int (length (mjSteps j)) \<longrightarrow> proc (SetStart k) j = Some (j\<lparr>mjStart := k\<rparr>))"

text \<open>A transactional batch: all the statements, or no change at all.\<close>

fun runBatch :: "(stepStmt \<Rightarrow> msdbJob \<Rightarrow> msdbJob option) \<Rightarrow> stepStmt list \<Rightarrow> msdbJob \<Rightarrow> msdbJob option" where
  "runBatch proc [] j = Some j"
| "runBatch proc (q # qs) j = (case proc q j of None \<Rightarrow> None | Some j1 \<Rightarrow> runBatch proc qs j1)"

lemma runBatch_append: "runBatch proc (qs @ rs) j = (case runBatch proc qs j of None \<Rightarrow> None | Some j1 \<Rightarrow> runBatch proc rs j1)"
  by (induction qs arbitrary: j) (simp_all split: option.splits)

section \<open>Permutations\<close>

lemma checkReorderLoop_None:
  "checkReorderLoop n seen is = None \<longleftrightarrow> distinct is \<and> set is \<inter> seen = {} \<and> (\<forall>i \<in> set is. 1 \<le> i \<and> i \<le> n)"
  by (induction n seen "is" rule: checkReorderLoop.induct) auto

lemma checkReorder_None: "checkReorder want n = None \<longleftrightarrow> int (length want) = n \<and> distinct want \<and> set want = {1..n}"
proof -
  have "set want = {1..n}" if "int (length want) = n" "distinct want" "\<forall>i \<in> set want. 1 \<le> i \<and> i \<le> n"
  proof (rule card_subset_eq)
    show "card (set want) = card {1..n}" using that(1,2) by (simp add: distinct_card)
  qed (use that in auto)
  then show ?thesis by (auto simp: checkReorder_def checkReorderLoop_None)
qed

lemma indexOf_None: "indexOf xs x = None \<longleftrightarrow> x \<notin> set xs"
  by (induction xs) auto

lemma indexOf_append: "x \<notin> set xs \<Longrightarrow> indexOf (xs @ ys) x = map_option (\<lambda>i. length xs + i) (indexOf ys x)"
  by (cases "indexOf ys x"; induction xs) auto

lemma indexOf_Some: "indexOf xs x = Some i \<Longrightarrow> i < length xs \<and> xs ! i = x"
  by (induction xs arbitrary: i) (auto split: if_splits simp: less_Suc_eq_0_disj)

lemma indexOf_nth: "distinct xs \<Longrightarrow> i < length xs \<Longrightarrow> indexOf xs (xs ! i) = Some i"
  by (induction xs arbitrary: i) (auto simp: less_Suc_eq_0_disj nth_Cons split: nat.splits)

lemma positionIn_nth: "distinct xs \<Longrightarrow> i < length xs \<Longrightarrow> positionIn xs (xs ! i) = int i + 1"
  by (simp add: positionIn_def indexOf_nth)

lemma positionIn_range: "x \<in> set xs \<Longrightarrow> 1 \<le> positionIn xs x \<and> positionIn xs x \<le> int (length xs)"
  using indexOf_Some [of xs x] by (cases "indexOf xs x") (auto simp: positionIn_def indexOf_None)

lemma positionIn_inject: "x \<in> set xs \<Longrightarrow> positionIn xs x = positionIn xs y \<Longrightarrow> y \<in> set xs \<Longrightarrow> x = y"
  using indexOf_Some [of xs x] indexOf_Some [of xs y]
  by (cases "indexOf xs x"; cases "indexOf xs y") (auto simp: positionIn_def indexOf_None)

lemma deleteAt_append: "length xs = i \<Longrightarrow> deleteAt i (xs @ x # ys) = xs @ ys"
  by (auto simp: deleteAt_def)

lemma insertAt_append: "length xs = i \<Longrightarrow> insertAt i x (xs @ ys) = xs @ x # ys"
  by (auto simp: insertAt_def)

section \<open>The moves\<close>

text \<open>
  The state between the moves: the steps are those of \<open>current\<close>, with every column, and with every
  flow that is no reference.
\<close>

definition keptStep :: "(int \<Rightarrow> JobStep option) \<Rightarrow> int \<Rightarrow> msdbStep \<Rightarrow> bool" where
  "keptStep by i st \<longleftrightarrow> (case by i of
     None \<Rightarrow> False
   | Some s \<Rightarrow> mdCols st = colsOf s \<and>
       (sdOnSuccessAction s \<noteq> goToStepAction \<longrightarrow> mdSuccess st = Act (sdOnSuccessAction s)) \<and>
       (sdOnFailAction s \<noteq> goToStepAction \<longrightarrow> mdFail st = Act (sdOnFailAction s)))"

definition kept :: "(int \<Rightarrow> JobStep option) \<Rightarrow> int list \<Rightarrow> msdbStep list \<Rightarrow> bool" where
  "kept by current sts \<longleftrightarrow> list_all2 (keptStep by) current sts"

text \<open>The steps a job was read with: names that differ, a database for every T-SQL step.\<close>

definition goodSteps :: "(int \<Rightarrow> JobStep option) \<Rightarrow> int set \<Rightarrow> bool" where
  "goodSteps by ids \<longleftrightarrow> (\<forall>i \<in> ids. by i \<noteq> None) \<and> (\<forall>i \<in> ids. hasDatabase (the (by i))) \<and>
     inj_on (\<lambda>i. sdName (the (by i))) ids"

lemma keptStep_drop: "keptStep by i st \<Longrightarrow> keptStep by i (mapFlows (dropRef k a) (dropRef k b) st)"
  by (auto simp: keptStep_def mapFlows_def split: option.splits)

lemma keptStep_shift: "keptStep by i st \<Longrightarrow> keptStep by i (mapFlows (shiftRef k) (shiftRef k) st)"
  by (auto simp: keptStep_def mapFlows_def split: option.splits)

lemma kept_map: "kept by is sts \<Longrightarrow> (\<And>i st. keptStep by i st \<Longrightarrow> keptStep by i (f st)) \<Longrightarrow> kept by is (map f sts)"
  unfolding kept_def list_all2_map2 by (erule list_all2_mono)

lemma kept_names: "kept by is sts \<Longrightarrow> sdName ` mdCols ` set sts = (\<lambda>i. sdName (the (by i))) ` set is"
proof -
  assume "kept by is sts"
  then have "list_all2 (\<lambda>i st. sdName (the (by i)) = sdName (mdCols st)) is sts"
    unfolding kept_def by (rule list_all2_mono) (auto simp: keptStep_def colsOf_def JobStepDefinition.defs split: option.splits)
  then have "map (\<lambda>i. sdName (the (by i))) is = map (\<lambda>st. sdName (mdCols st)) sts"
    by (simp add: list_all2_map1 list_all2_map2 flip: list.rel_eq)
  then show ?thesis by (metis image_image set_map)
qed

lemma reAdd_facts:
  "sdOnSuccessAction (reAddRequest s) \<noteq> goToStepAction" "sdOnFailAction (reAddRequest s) \<noteq> goToStepAction"
  "colsOf (reAddRequest s) = colsOf s" "sdName (reAddRequest s) = sdName s"
  "hasDatabase (reAddRequest s) = hasDatabase s"
  by (auto simp: reAddRequest_def goToStepAction_def goToNextStepAction_def colsOf_def hasDatabase_def JobStepDefinition.defs)

lemma keptStep_reAdd: "by i = Some s \<Longrightarrow> keptStep by i (msdbStepOf (reAddRequest s))"
  by (auto simp: keptStep_def msdbStepOf_def reAdd_facts flowOf_def) (simp_all add: reAddRequest_def)

text \<open>One move: the step at the end of \<open>B\<close> comes to the front of it.\<close>

lemma one_move:
  assumes laws: "msdbLaws proc" and good: "goodSteps by (set (A @ B @ w # C))" and d: "distinct (A @ B @ w # C)"
    and kept: "kept by (A @ B @ w # C) (mjSteps j)" and w: "by w = Some s"
  shows "\<exists>j1. runBatch proc [DeleteStep (int (length A + length B) + 1), AddStep (reAddRequest s) (int (length A) + 1)] j = Some j1 \<and>
    kept by (A @ w # B @ C) (mjSteps j1) \<and> mjStart j1 = mjStart j"
proof -
  let ?k = "int (length A + length B) + 1" and ?m = "int (length A) + 1"
  obtain SA SB sw SC where sts: "mjSteps j = SA @ SB @ sw # SC" "kept by A SA" "kept by B SB" "kept by C SC"
    using kept by (auto simp: kept_def list_all2_append1 list_all2_Cons1)
  have len: "length SA = length A" "length SB = length B" "length SC = length C"
    using sts(2-4) by (simp_all add: kept_def list_all2_lengthD [symmetric])
  let ?f = "mapFlows (dropRef ?k 1) (dropRef ?k 2)" and ?g = "mapFlows (shiftRef ?m) (shiftRef ?m)"
  have "nat (?k - 1) = length (SA @ SB)" by (simp add: len)
  then have del: "deleteAt (nat (?k - 1)) (mjSteps j) = SA @ SB @ SC"
    using deleteAt_append [of "SA @ SB" _ sw SC] by (simp add: sts(1))
  define j0 where "j0 = j\<lparr>mjSteps := map ?f (SA @ SB @ SC)\<rparr>"
  have first: "proc (DeleteStep ?k) j = Some j0"
    using laws del by (simp add: msdbLaws_def j0_def sts(1) len)
  have k0: "kept by (A @ B @ C) (mjSteps j0)"
    unfolding j0_def using sts(2-4) by (simp add: kept_def) (intro list_all2_appendI; use kept_map keptStep_drop in \<open>auto simp: kept_def\<close>)
  have "sdName s \<notin> sdName ` mdCols ` set (mjSteps j0)"
    using good d w unfolding kept_names [OF k0] by (auto simp: goodSteps_def inj_on_def)
  moreover have "hasDatabase s" using good w by (auto simp: goodSteps_def)
  moreover have "nat (?m - 1) = length (map (\<lambda>x. ?g (?f x)) SA)" by (simp add: len)
  then have "insertAt (nat (?m - 1)) (msdbStepOf (reAddRequest s)) (map ?g (mjSteps j0)) =
      map ?g (map ?f SA) @ msdbStepOf (reAddRequest s) # map ?g (map ?f (SB @ SC))"
    using insertAt_append [of "map ?g (map ?f SA)" "length SA"] by (simp add: j0_def len)
  ultimately have second: "proc (AddStep (reAddRequest s) ?m) j0 =
      Some (j0\<lparr>mjSteps := map ?g (map ?f SA) @ msdbStepOf (reAddRequest s) # map ?g (map ?f (SB @ SC))\<rparr>)"
    using laws by (simp add: msdbLaws_def reAdd_facts j0_def len)
  have both: "kept by xs sts' \<Longrightarrow> kept by xs (map ?g (map ?f sts'))" for xs sts'
    by (intro kept_map keptStep_drop keptStep_shift)
  have "kept by (A @ w # B @ C) (map ?g (map ?f SA) @ msdbStepOf (reAddRequest s) # map ?g (map ?f (SB @ SC)))"
    using both [OF sts(2)] both [OF sts(3)] both [OF sts(4)] keptStep_reAdd [of "by" w s, OF w]
    by (simp add: kept_def list_all2_appendI)
  then show ?thesis using first second by (simp add: j0_def)
qed

lemma moves_run:
  assumes laws: "msdbLaws proc" and good: "goodSteps by (set A \<union> set R)"
    and d: "distinct (A @ R)" "distinct want" "set want = set R" and kept: "kept by (A @ R) (mjSteps j)"
  shows "\<exists>qs j1. moves by want (length A) (A @ R) = Some (qs, A @ want) \<and> runBatch proc qs j = Some j1 \<and>
    kept by (A @ want) (mjSteps j1) \<and> mjStart j1 = mjStart j \<and> (qs = [] \<longrightarrow> want = R)"
  using good d kept
proof (induction want arbitrary: A R j)
  case Nil
  then show ?case by simp
next
  case (Cons w want)
  obtain B C where R: "R = B @ w # C" using Cons.prems(4) by (metis list.set_intros(1) split_list)
  have notin: "w \<notin> set A" "w \<notin> set B" "w \<notin> set C" using Cons.prems(2) R by auto
  have rest: "distinct ((A @ [w]) @ B @ C)" "distinct want" "set want = set (B @ C)"
    using Cons.prems(2-4) R by auto
  have ids: "set (A @ [w]) \<union> set (B @ C) = set A \<union> set R" using R by auto
  obtain s where w: "by w = Some s" using Cons.prems(1) R by (auto simp: goodSteps_def)
  show ?case
  proof (cases "B = []")
    case True
    have "(A @ R) ! length A = w" "length A < length (A @ R)" using True R by simp_all
    then have "moves by (w # want) (length A) (A @ R) = moves by want (length (A @ [w])) ((A @ [w]) @ B @ C)"
      using True R by simp
    then show ?thesis
      using Cons.IH [of "A @ [w]" "B @ C" j] Cons.prems(1,5) rest ids True R by auto
  next
    case False
    then have "(A @ R) ! length A = hd B" using R by (cases B) simp_all
    then have ne: "(A @ R) ! length A \<noteq> w" using notin False by (cases B) auto
    have i: "indexOf (A @ R) w = Some (length A + length B)"
      using indexOf_append [of w "A @ B" "w # C"] notin R by simp
    have moved: "insertAt (length A) w (deleteAt (length A + length B) (A @ R)) = (A @ [w]) @ B @ C"
      using deleteAt_append [of "A @ B" "length A + length B" w C] insertAt_append [of A "length A" w "B @ C"] R by simp
    have "kept by (A @ B @ w # C) (mjSteps j)" "goodSteps by (set (A @ B @ w # C))" "distinct (A @ B @ w # C)"
      using Cons.prems R by (auto simp: insert_commute)
    from one_move [OF laws this(2) this(3) this(1) w] obtain j0 where
      run: "runBatch proc [DeleteStep (int (length A + length B) + 1), AddStep (reAddRequest s) (int (length A) + 1)] j = Some j0"
        and k: "kept by ((A @ [w]) @ B @ C) (mjSteps j0)" "mjStart j0 = mjStart j" by auto
    obtain qs j1 where ih: "moves by want (length (A @ [w])) ((A @ [w]) @ B @ C) = Some (qs, (A @ [w]) @ want)"
      "runBatch proc qs j0 = Some j1" "kept by ((A @ [w]) @ want) (mjSteps j1)" "mjStart j1 = mjStart j0"
      using Cons.IH [of "A @ [w]" "B @ C" j0] Cons.prems(1) rest ids k(1) by auto
    let ?qs = "DeleteStep (int (length A + length B) + 1) # AddStep (reAddRequest s) (int (length A) + 1) # qs"
    have "moves by (w # want) (length A) (A @ R) = Some (?qs, A @ w # want)"
      using ne i w moved ih(1) by simp
    moreover have "runBatch proc ?qs j = Some j1" using runBatch_append [of proc "[_, _]" qs j] run ih(2) by simp
    ultimately show ?thesis using ih(3,4) k(2) by auto
  qed
qed

section \<open>The repair\<close>

text \<open>The step \<open>i\<close> should become: its columns, its actions, and its references through the new order.\<close>

definition movedFlow :: "int list \<Rightarrow> int \<Rightarrow> int \<Rightarrow> flow" where
  "movedFlow want action i = flowOf action (positionIn want i)"

definition movedStep :: "int list \<Rightarrow> JobStep \<Rightarrow> msdbStep" where
  "movedStep want s = \<lparr>mdCols = colsOf s, mdSuccess = movedFlow want (sdOnSuccessAction s) (sdOnSuccessStepID s),
     mdFail = movedFlow want (sdOnFailAction s) (sdOnFailStepID s)\<rparr>"

definition refers :: "JobStep \<Rightarrow> bool" where
  "refers s \<longleftrightarrow> sdOnSuccessAction s = goToStepAction \<or> sdOnFailAction s = goToStepAction"

text \<open>The state of the repair pass: the steps of \<open>D\<close> and those without references are as they should be.\<close>

definition repaired :: "(int \<Rightarrow> JobStep option) \<Rightarrow> int list \<Rightarrow> int set \<Rightarrow> msdbStep list \<Rightarrow> bool" where
  "repaired by want D sts \<longleftrightarrow> list_all2 (\<lambda>i st. keptStep by i st \<and>
     (i \<in> D \<or> \<not> refers (the (by i)) \<longrightarrow> st = movedStep want (the (by i)))) want sts"

lemma repaired_start: "kept by want sts \<Longrightarrow> repaired by want {} sts"
  unfolding kept_def repaired_def
  by (erule list_all2_mono) (auto simp: keptStep_def movedStep_def movedFlow_def flowOf_def refers_def split: option.splits)

text \<open>A job as read: every reference to another step of the job.\<close>

definition goodRefs :: "(int \<Rightarrow> JobStep option) \<Rightarrow> int set \<Rightarrow> bool" where
  "goodRefs by ids \<longleftrightarrow> (\<forall>i \<in> ids. \<forall>s. by i = Some s \<longrightarrow>
     (sdOnSuccessAction s = goToStepAction \<longrightarrow> sdOnSuccessStepID s \<in> ids - {i}) \<and>
     (sdOnFailAction s = goToStepAction \<longrightarrow> sdOnFailStepID s \<in> ids - {i}))"

lemma goesTo_moved:
  assumes "i \<in> set want" "action = goToStepAction \<longrightarrow> t \<in> set want - {i}"
  shows "goesTo (int (length want)) (positionIn want i) action (positionIn want t)"
  using assms positionIn_range [of t want] positionIn_inject [of i want t] by (auto simp: goesTo_def)

lemma one_repair:
  assumes laws: "msdbLaws proc" and refs: "goodRefs by (set want)" and d: "distinct want" and i: "i \<in> set want"
    and rep: "repaired by want D (mjSteps j)"
  shows "\<exists>j1. runBatch proc (repair by want i) j = Some j1 \<and> repaired by want (insert i D) (mjSteps j1) \<and> mjStart j1 = mjStart j"
proof -
  obtain k where k: "k < length want" "want ! k = i" using i by (metis in_set_conv_nth)
  have len: "length (mjSteps j) = length want" using rep by (simp add: repaired_def list_all2_lengthD)
  have at: "keptStep by i (mjSteps j ! k)" using rep k by (auto simp: repaired_def list_all2_conv_all_nth)
  then obtain s where s: "by i = Some s" by (auto simp: keptStep_def split: option.splits)
  have pos: "positionIn want i = int k + 1" using positionIn_nth [OF d k(1)] k(2) by simp
  have same: "want ! m = i \<longleftrightarrow> m = k" if "m < length want" for m using d k that nth_eq_iff_index_eq by blast
  show ?thesis
  proof (cases "refers s")
    case False
    then have "repair by want i = []" using s by (auto simp: repair_def refers_def)
    moreover have "repaired by want (insert i D) (mjSteps j)"
      using rep False s unfolding repaired_def by (elim list_all2_mono) auto
    ultimately show ?thesis by simp
  next
    case True
    let ?q = "SetFlow (int k + 1) (sdOnSuccessAction s) (positionIn want (sdOnSuccessStepID s))
      (sdOnFailAction s) (positionIn want (sdOnFailStepID s))"
    have q: "repair by want i = [?q]" using True s pos by (auto simp: repair_def refers_def)
    let ?st = "(mjSteps j ! k)\<lparr>mdSuccess := flowOf (sdOnSuccessAction s) (positionIn want (sdOnSuccessStepID s)),
      mdFail := flowOf (sdOnFailAction s) (positionIn want (sdOnFailStepID s))\<rparr>"
    have "goesTo (int (length want)) (int k + 1) (sdOnSuccessAction s) (positionIn want (sdOnSuccessStepID s))"
      "goesTo (int (length want)) (int k + 1) (sdOnFailAction s) (positionIn want (sdOnFailStepID s))"
      using goesTo_moved [OF i] refs i s pos by (auto simp: goodRefs_def)
    then have run: "proc ?q j = Some (j\<lparr>mjSteps := (mjSteps j)[k := ?st]\<rparr>)"
      using laws k(1) len by (simp add: msdbLaws_def)
    have st: "?st = movedStep want s" using at s by (simp add: keptStep_def movedStep_def movedFlow_def)
    have good: "keptStep by i ?st" unfolding st using s by (simp add: keptStep_def movedStep_def movedFlow_def flowOf_def)
    have "by (want ! k) = Some s" "keptStep by (want ! k) (movedStep want s)" using s k good [unfolded st] by simp_all
    then have "repaired by want (insert i D) ((mjSteps j)[k := movedStep want s])"
      using rep same len k(1) s
      by (auto simp: repaired_def list_all2_conv_all_nth nth_list_update)
    then show ?thesis using q run by (simp add: st)
  qed
qed

lemma repairs_run:
  assumes "msdbLaws proc" "goodRefs by (set want)" "distinct want" "set todo \<subseteq> set want" "repaired by want D (mjSteps j)"
  shows "\<exists>j1. runBatch proc (concat (map (repair by want) todo)) j = Some j1 \<and>
    repaired by want (D \<union> set todo) (mjSteps j1) \<and> mjStart j1 = mjStart j"
  using assms(4,5)
proof (induction todo arbitrary: D j)
  case (Cons i todo)
  obtain j0 where j0: "runBatch proc (repair by want i) j = Some j0" "repaired by want (insert i D) (mjSteps j0)" "mjStart j0 = mjStart j"
    using one_repair [OF assms(1-3), of i D j] Cons.prems by auto
  obtain j1 where "runBatch proc (concat (map (repair by want) todo)) j0 = Some j1"
    "repaired by want (insert i D \<union> set todo) (mjSteps j1)" "mjStart j1 = mjStart j0"
    using Cons.IH [OF _ j0(2)] Cons.prems by auto
  then show ?case using j0 by (simp add: runBatch_append)
qed simp

section \<open>The order asked for\<close>

text \<open>A job as it was read: numbered from 1, with names that differ and references to other steps of it.\<close>

definition jobRead :: "JobStep list \<Rightarrow> bool" where
  "jobRead steps \<longleftrightarrow> map jsStepID steps = [1..int (length steps)] \<and> distinct (map sdName steps) \<and>
     list_all hasDatabase steps \<and>
     list_all (\<lambda>s. goesTo (int (length steps)) (jsStepID s) (sdOnSuccessAction s) (sdOnSuccessStepID s) \<and>
                   goesTo (int (length steps)) (jsStepID s) (sdOnFailAction s) (sdOnFailStepID s)) steps"

definition msdbJobOf :: "JobStep list \<Rightarrow> int \<Rightarrow> msdbJob" where
  "msdbJobOf steps start = \<lparr>mjSteps = map msdbStepOf steps, mjStart = start\<rparr>"

definition stepAt :: "JobStep list \<Rightarrow> int \<Rightarrow> JobStep" where
  "stepAt steps i = steps ! nat (i - 1)"

lemma byID_read:
  assumes "map jsStepID steps = [1..int (length steps)]"
  shows "byID steps i = (if 1 \<le> i \<and> i \<le> int (length steps) then Some (stepAt steps i) else None)"
proof -
  let ?ps = "map (\<lambda>s. (jsStepID s, s)) steps"
  have f: "map fst ?ps = [1..int (length steps)]" using assms by (simp add: comp_def)
  then have d: "distinct (map fst ?ps)" by simp
  have m: "byID steps = map_of ?ps" unfolding byID_def
    by (subst map_of_inject_set) (use d in \<open>simp_all add: comp_def flip: rev_map\<close>)
  have id: "jsStepID (steps ! k) = int k + 1" if "k < length steps" for k
    using arg_cong [OF assms, of "\<lambda>xs. xs ! k"] that by (simp add: nth_upto)
  show ?thesis
  proof (cases "1 \<le> i \<and> i \<le> int (length steps)")
    case True
    then have k: "nat (i - 1) < length steps" by auto
    then have "(i, stepAt steps i) \<in> set ?ps" using id [OF k] True by (auto simp: stepAt_def in_set_conv_nth image_iff intro!: bexI [of _ "steps ! nat (i - 1)"])
    then show ?thesis using True d m by simp
  next
    case False
    then have "i \<notin> fst ` set ?ps" using f by (metis atLeastAtMost_iff set_map set_upto)
    then have "map_of ?ps i = None" by (simp add: map_of_eq_None_iff)
    then show ?thesis using False m by auto
  qed
qed

lemma read_good:
  assumes "jobRead steps"
  shows "goodSteps (byID steps) {1..int (length steps)}" "goodRefs (byID steps) {1..int (length steps)}"
proof -
  have found: "byID steps i = (if 1 \<le> i \<and> i \<le> int (length steps) then Some (stepAt steps i) else None)" for i
    using assms byID_read by (simp add: jobRead_def)
  have at: "stepAt steps i \<in> set steps" "jsStepID (stepAt steps i) = i" if "1 \<le> i" "i \<le> int (length steps)" for i
  proof -
    have k: "nat (i - 1) < length steps" using that by auto
    then show "stepAt steps i \<in> set steps" by (simp add: stepAt_def)
    have "map jsStepID steps ! nat (i - 1) = [1..int (length steps)] ! nat (i - 1)" using assms by (simp add: jobRead_def)
    then show "jsStepID (stepAt steps i) = i" using k that by (simp add: stepAt_def nth_upto)
  qed
  have "inj_on (\<lambda>i. sdName (the (byID steps i))) {1..int (length steps)}"
  proof (rule inj_onI)
    fix i j
    assume ij: "i \<in> {1..int (length steps)}" "j \<in> {1..int (length steps)}"
      "sdName (the (byID steps i)) = sdName (the (byID steps j))"
    then have "map sdName steps ! nat (i - 1) = map sdName steps ! nat (j - 1)"
      by (auto simp: found stepAt_def)
    then have "nat (i - 1) = nat (j - 1)"
      using assms ij nth_eq_iff_index_eq [of "map sdName steps" "nat (i - 1)" "nat (j - 1)"] by (auto simp: jobRead_def)
    then show "i = j" using ij by auto
  qed
  then show "goodSteps (byID steps) {1..int (length steps)}"
    using assms at by (auto simp: goodSteps_def found jobRead_def list_all_iff)
  show "goodRefs (byID steps) {1..int (length steps)}"
    using assms at by (auto simp: goodRefs_def found jobRead_def list_all_iff goesTo_def)
qed

lemma start_kept:
  assumes "map jsStepID steps = [1..int (length steps)]"
  shows "kept (byID steps) [1..int (length steps)] (map msdbStepOf steps)"
proof -
  have "list_all2 (keptStep (byID steps)) (map jsStepID steps) (map msdbStepOf steps)"
  proof (rule list_all2_all_nthI)
    fix k
    assume "k < length (map jsStepID steps)"
    then have k: "k < length steps" by simp
    have "map jsStepID steps ! k = int k + 1" using assms k by (simp add: nth_upto)
    then show "keptStep (byID steps) (map jsStepID steps ! k) (map msdbStepOf steps ! k)"
      using k byID_read [OF assms, of "int k + 1"]
      by (simp add: keptStep_def stepAt_def msdbStepOf_def flowOf_def)
  qed simp
  then show ?thesis using assms by (simp add: kept_def)
qed

lemma repaired_all:
  assumes "repaired by want (D \<union> set want) sts"
  shows "sts = map (\<lambda>i. movedStep want (the (by i))) want"
proof -
  have "list_all2 (\<lambda>i st. st = movedStep want (the (by i))) want sts"
    using assms unfolding repaired_def by (auto simp: list_all2_conv_all_nth)
  then show ?thesis by (simp add: list_all2_conv_all_nth nth_equalityI)
qed

text \<open>
  C26: \<open>ReorderSteps\<close> refuses exactly the orders that are no permutation of the job's step numbers, and
  for any other the batch it sends leaves the job in that order: each position holds every column and
  the actions of the step asked for, each ``go to step'' names the step it named before, wherever that
  is now, and so does the start step.  No statement of the batch is refused, and the batch is a
  transaction, so the job is never left between two of them.
\<close>

theorem ReorderSteps_moves_references:
  assumes laws: "msdbLaws proc" and read: "jobRead steps"
  shows "case reorderPlan name steps want (Inr start) of
      None \<Rightarrow> False
    | Some (Inl e) \<Rightarrow> \<not> (distinct want \<and> set want = {1..int (length steps)})
    | Some (Inr qs) \<Rightarrow> distinct want \<and> set want = {1..int (length steps)} \<and>
        runBatch proc (case qs of None \<Rightarrow> [] | Some q \<Rightarrow> q) (msdbJobOf steps start) =
          Some \<lparr>mjSteps = map (\<lambda>i. movedStep want (stepAt steps i)) want,
                mjStart = (if start \<in> set want then positionIn want start else start)\<rparr>"
proof (cases "checkReorder want (int (length steps))")
  case (Some e)
  have "\<not> (distinct want \<and> set want = {1..int (length steps)})"
  proof
    assume *: "distinct want \<and> set want = {1..int (length steps)}"
    then have "length want = length steps" using distinct_card [of want] by simp
    then have "checkReorder want (int (length steps)) = None" using * by (simp add: checkReorder_None)
    then show False using Some by simp
  qed
  then show ?thesis using Some by (simp add: reorderPlan_def)
next
  case None
  then have want: "length want = length steps" "distinct want" "set want = {1..int (length steps)}"
    by (simp_all add: checkReorder_None)
  have ids: "map jsStepID steps = [1..int (length steps)]" using read by (simp add: jobRead_def)
  let ?by = "byID steps" and ?j = "msdbJobOf steps start"
  obtain qs j1 where moves: "moves ?by want 0 (map jsStepID steps) = Some (qs, want)" "runBatch proc qs ?j = Some j1"
    "kept ?by want (mjSteps j1)" "mjStart j1 = start" "qs = [] \<longrightarrow> want = [1..int (length steps)]"
    using moves_run [OF laws, of ?by "[]" "[1..int (length steps)]" want ?j] read_good(1) [OF read] want start_kept [OF ids] ids
    by (auto simp: msdbJobOf_def)
  let ?rs = "concat (map (repair ?by want) want)"
  obtain j2 where repairs: "runBatch proc ?rs j1 = Some j2" "repaired ?by want ({} \<union> set want) (mjSteps j2)" "mjStart j2 = start"
    using repairs_run [OF laws, of ?by want want "{}" j1] read_good(2) [OF read] want repaired_start [OF moves(3)] moves(4) by auto
  have steps: "mjSteps j2 = map (\<lambda>i. movedStep want (stepAt steps i)) want"
    using repaired_all [OF repairs(2)] want byID_read [OF ids] by (auto intro!: map_cong)
  have both: "runBatch proc (qs @ ?rs) ?j = Some j2" using moves(2) repairs(1) by (simp add: runBatch_append)
  show ?thesis
  proof (cases "qs @ ?rs = []")
    case True
    have "positionIn want start = start" if "start \<in> set want"
    proof -
      have "want ! nat (start - 1) = start" "nat (start - 1) < length want"
        using that want moves(5) True by (auto simp: nth_upto)
      then show ?thesis using positionIn_nth [OF want(2), of "nat (start - 1)"] that want by auto
    qed
    then have "j2 = \<lparr>mjSteps = map (\<lambda>i. movedStep want (stepAt steps i)) want,
        mjStart = (if start \<in> set want then positionIn want start else start)\<rparr>"
      using steps repairs(3) by (cases j2) simp
    moreover have "j2 = ?j" using both unfolding True by simp
    ultimately show ?thesis using True None moves(1) want by (simp add: reorderPlan_def)
  next
    case False
    have "runBatch proc (startStmts want start) j2 = Some \<lparr>mjSteps = map (\<lambda>i. movedStep want (stepAt steps i)) want,
        mjStart = (if start \<in> set want then positionIn want start else start)\<rparr>"
    proof (cases "start \<in> set want \<and> positionIn want start \<noteq> start")
      case True
      then have "1 \<le> positionIn want start \<and> positionIn want start \<le> int (length (mjSteps j2))"
        using positionIn_range [of start want] steps by simp
      then have "proc (SetStart (positionIn want start)) j2 = Some (j2\<lparr>mjStart := positionIn want start\<rparr>)"
        using laws by (simp add: msdbLaws_def)
      then show ?thesis using True steps by (cases j2) (simp add: startStmts_def indexOf_None)
    next
      case False
      then show ?thesis using steps repairs(3) by (cases j2) (auto simp: startStmts_def indexOf_None)
    qed
    then have "runBatch proc ((qs @ ?rs) @ startStmts want start) ?j = Some \<lparr>mjSteps = map (\<lambda>i. movedStep want (stepAt steps i)) want,
        mjStart = (if start \<in> set want then positionIn want start else start)\<rparr>"
      using both by (simp only: runBatch_append) simp
    then show ?thesis using False None moves(1) want by (auto simp: reorderPlan_def Let_def)
  qed
qed

text \<open>A job of three steps, the last of which goes back to the first when it fails, and the procedures as documented.\<close>

definition msdbDoc :: "stepStmt \<Rightarrow> msdbJob \<Rightarrow> msdbJob option" where
  "msdbDoc q j =
     (case q of
        DeleteStep k \<Rightarrow> Some (j\<lparr>mjSteps := map (mapFlows (dropRef k 1) (dropRef k 2)) (deleteAt (nat (k - 1)) (mjSteps j))\<rparr>)
      | AddStep d k \<Rightarrow> Some (j\<lparr>mjSteps := insertAt (nat (k - 1)) (msdbStepOf d) (map (mapFlows (shiftRef k) (shiftRef k)) (mjSteps j))\<rparr>)
      | SetFlow k sa si fa fi \<Rightarrow> Some (j\<lparr>mjSteps := (mjSteps j)
          [nat (k - 1) := (mjSteps j ! nat (k - 1))\<lparr>mdSuccess := flowOf sa si, mdFail := flowOf fa fi\<rparr>]\<rparr>)
      | SetStart k \<Rightarrow> Some (j\<lparr>mjStart := k\<rparr>))"

definition sampleStep :: "int \<Rightarrow> string \<Rightarrow> int \<Rightarrow> int \<Rightarrow> JobStep" where
  "sampleStep i name fail to =
     \<lparr>sdName = name, sdSubsystem = ''TSQL'', sdCommand = ''SELECT 1'', sdDatabase = ''master'',
      sdOnSuccessAction = 3, sdOnSuccessStepID = 0, sdOnFailAction = fail, sdOnFailStepID = to,
      sdRetryAttempts = 0, sdRetryInterval = 0, sdOutputFileName = [], sdFlags = 0, sdProxyName = [],
      sdAdditionalParameters = [], sdServer = [], sdDatabaseUserName = [], sdCmdExecSuccessCode = 0,
      sdOSRunPriority = 0, jsStepID = i\<rparr>"

definition sampleSteps :: "JobStep list" where
  "sampleSteps = [sampleStep 1 ''one'' 2 0, sampleStep 2 ''two'' 2 0, sampleStep 3 ''three'' 4 1]"

lemma ReorderSteps_moves_references_witness:
  "\<exists>qs. reorderPlan ''job'' sampleSteps [3, 1, 2] (Inr 1) = Some (Inr qs) \<and>
     runBatch msdbDoc (case qs of None \<Rightarrow> [] | Some q \<Rightarrow> q) (msdbJobOf sampleSteps 1) =
       Some \<lparr>mjSteps = map (\<lambda>i. movedStep [3, 1, 2] (stepAt sampleSteps i)) [3, 1, 2], mjStart = 2\<rparr>"
proof -
  have laws: "msdbLaws msdbDoc" by (simp add: msdbLaws_def msdbDoc_def)
  have read: "jobRead sampleSteps"
    by (simp add: jobRead_def sampleSteps_def sampleStep_def hasDatabase_def goesTo_def goToStepAction_def upto_rec1)
  have want: "distinct [3, 1, 2 :: int] \<and> set [3, 1, 2] = {1..int (length sampleSteps)}"
    by (auto simp: sampleSteps_def)
  have start: "(if (1 :: int) \<in> set [3, 1, 2] then positionIn [3, 1, 2] 1 else 1) = 2" by (simp add: positionIn_def)
  let ?r = "reorderPlan ''job'' sampleSteps [3, 1, 2] (Inr 1)"
  note result = ReorderSteps_moves_references [OF laws read, where name = "''job''" and want = "[3, 1, 2]" and start = 1, unfolded start]
  show ?thesis
  proof (cases ?r)
    case None
    then show ?thesis using result by simp
  next
    case (Some x)
    show ?thesis
    proof (cases x)
      case (Inl e)
      then show ?thesis using result want Some by (simp only: option.case sum.case) simp
    next
      case (Inr qs)
      then show ?thesis using result Some by (simp only: option.case sum.case) blast
    qed
  qed
qed

text \<open>
  The order \<open>MoveStep\<close> asks for: a permutation, in which the step is at the position asked for, or
  the nearest there is, and the other steps keep theirs.
\<close>

lemma moveOrder_move:
  assumes "1 \<le> k" "k \<le> n"
  shows "distinct (moveOrder k m n)" "set (moveOrder k m n) = {1..n}"
    "positionIn (moveOrder k m n) k = min (max m 1) n"
    "filter (\<lambda>i. i \<noteq> k) (moveOrder k m n) = filter (\<lambda>i. i \<noteq> k) [1..n]"
proof -
  define rest where "rest = filter (\<lambda>i. i \<noteq> k) [1..n]"
  define p where "p = nat (min (max (m - 1) 0) (int (length rest)))"
  have order: "moveOrder k m n = take p rest @ k # drop p rest"
    by (simp add: moveOrder_def Let_def insertAt_def rest_def p_def)
  have rest: "distinct rest" "set rest = {1..n} - {k}" by (auto simp: rest_def)
  then have "card (set rest) = nat n - 1" using assms by (subst rest(2)) simp
  then have len: "length rest = nat n - 1" using rest(1) by (simp add: distinct_card)
  have split: "set (take p rest) \<union> set (drop p rest) = set rest" by (metis append_take_drop_id set_append)
  have notin: "k \<notin> set (take p rest)" "k \<notin> set (drop p rest)" using rest(2) split by auto
  have "distinct (take p rest @ drop p rest)" using rest(1) by simp
  then have "distinct (take p rest) \<and> distinct (drop p rest) \<and> set (take p rest) \<inter> set (drop p rest) = {}"
    by (simp only: distinct_append)
  then show "distinct (moveOrder k m n)" using notin unfolding order by auto
  have "set (moveOrder k m n) = insert k (set (take p rest) \<union> set (drop p rest))" unfolding order by simp
  also have "\<dots> = insert k ({1..n} - {k})" by (simp only: split rest(2))
  also have "\<dots> = {1..n}" using assms by auto
  finally show "set (moveOrder k m n) = {1..n}" .
  have "p \<le> length rest" by (simp add: p_def)
  then have "positionIn (moveOrder k m n) k = int p + 1"
    using indexOf_append [OF notin(1), of "k # drop p rest"] unfolding order by (simp add: positionIn_def)
  then show "positionIn (moveOrder k m n) k = min (max m 1) n" using assms len by (auto simp: p_def min_def max_def)
  have "filter (\<lambda>i. i \<noteq> k) (take p rest @ k # drop p rest) = filter (\<lambda>i. i \<noteq> k) (take p rest @ drop p rest)"
    by (simp del: append_take_drop_id)
  also have "\<dots> = filter (\<lambda>i. i \<noteq> k) rest" by (metis append_take_drop_id)
  also have "\<dots> = filter (\<lambda>i. i \<noteq> k) [1..n]" by (simp add: rest_def)
  finally show "filter (\<lambda>i. i \<noteq> k) (moveOrder k m n) = filter (\<lambda>i. i \<noteq> k) [1..n]" unfolding order .
qed

end
