(* ===== verification/Mirror.thy ===== *)
theory Mirror
  imports Calls
begin

text \<open>
  What every write and every scripted object shares: the handle a write mirrors its change onto
  (\<open>setIfApplied\<close>, \<open>setPtrIfApplied\<close> of \<open>script.go\<close>), what a constructor returns (\<open>createdObject\<close> of
  \<open>helpers.go\<close>), and the options and the verb handling of a script (\<open>ScriptOptions\<close>, \<open>verb\<close>,
  \<open>envelope\<close>, \<open>envelopeErr\<close> of \<open>scripter.go\<close>).
\<close>

section \<open>Mirrored fields\<close>

text \<open>The field's new value, of its old one and the value written.\<close>

definition setIfApplied :: "ctx \<Rightarrow> 'a \<Rightarrow> 'a \<Rightarrow> 'a" where
  "setIfApplied c old v = (if \<not> Scripting c then v else old)"

definition setPtrIfApplied :: "ctx \<Rightarrow> 'a \<Rightarrow> 'a option \<Rightarrow> 'a" where
  "setPtrIfApplied c old v = (case v of Some x \<Rightarrow> setIfApplied c old x | None \<Rightarrow> old)"

lemma set_applied [simp]:
  "\<not> Scripting c \<Longrightarrow> setIfApplied c old v = v" "Scripting c \<Longrightarrow> setIfApplied c old v = old"
  "Scripting c \<Longrightarrow> setPtrIfApplied c old p = old"
  by (auto simp: setIfApplied_def setPtrIfApplied_def split: option.splits)

text \<open>
  \<open>createdObject\<close>: what a constructor returns is the object read back, or the handle when nothing ran
  or nothing could be read yet.
\<close>

definition createdObject :: "ctx \<Rightarrow> 'k \<Rightarrow> ('w st \<Rightarrow> 'k res \<times> 'w st) \<Rightarrow> 'w st \<Rightarrow> 'k res \<times> 'w st" where
  "createdObject c handle read s =
     (if Scripting c then (Inr handle, s)
      else (case read s of
          (Inl e, s1) \<Rightarrow> ((if errors_is e ErrNotFound \<or> errors_is e ErrHandleNotLoaded then Inr handle else Inl e), s1)
        | (Inr k, s1) \<Rightarrow> (Inr k, s1)))"

section \<open>Scripts\<close>

datatype ScriptVerb = ScriptCreate | ScriptDrop | ScriptDropAndCreate | ScriptAlter

record ScriptOptions =
  soVerb :: ScriptVerb
  soHeaders :: bool
  soIfNotExists :: bool
  soScriptDrops :: bool
  soSchemaQualify :: bool
  soAnsiPadding :: bool
  soExtendedProperties :: bool
  soDeferReferences :: bool

definition DefaultScriptOptions :: ScriptOptions where
  "DefaultScriptOptions = \<lparr>soVerb = ScriptCreate, soHeaders = True, soIfNotExists = True, soScriptDrops = False,
     soSchemaQualify = True, soAnsiPadding = True, soExtendedProperties = True, soDeferReferences = False\<rparr>"

definition scriptVerb :: "ScriptOptions \<Rightarrow> ScriptVerb" where
  "scriptVerb opts = (if soVerb opts = ScriptCreate \<and> soScriptDrops opts then ScriptDrop else soVerb opts)"

definition envelopeErr :: "ScriptOptions \<Rightarrow> string \<Rightarrow> string \<Rightarrow> string res \<Rightarrow> string res" where
  "envelopeErr opts dropText guard create =
     (if scriptVerb opts = ScriptDrop then Inr dropText
      else res_bind create (\<lambda>body. Inr (
        (if scriptVerb opts = ScriptDropAndCreate then dropText @ [nl] else []) @
        (if guard \<noteq> [] \<and> soIfNotExists opts then guard else []) @ body)))"

definition envelope :: "ScriptOptions \<Rightarrow> string \<Rightarrow> string \<Rightarrow> string \<Rightarrow> string" where
  "envelope opts dropText guard body = (case envelopeErr opts dropText guard (Inr body) of Inl e \<Rightarrow> [] | Inr t \<Rightarrow> t)"

lemma envelope_text:
  "envelope opts dropText guard body =
     (if scriptVerb opts = ScriptDrop then dropText
      else (if scriptVerb opts = ScriptDropAndCreate then dropText @ [nl] else []) @
        (if guard \<noteq> [] \<and> soIfNotExists opts then guard else []) @ body)"
  by (simp add: envelope_def envelopeErr_def)

section \<open>Windows\<close>

definition onOff :: "bool \<Rightarrow> string" where
  "onOff v = (if v then ''ON'' else ''OFF'')"

text \<open>
  \<open>restoreWindow\<close> (\<open>audit.go\<close>): the statement that closes a window, unobserved and cut off from the
  caller's cancellation and deadline, which its first argument says.  A driver of Calls cannot be
  cancelled, so it is only in the laws of a server that it counts.
\<close>

definition restoreWindow :: "ctx \<Rightarrow> (bool \<Rightarrow> ctx \<Rightarrow> 's \<Rightarrow> 'r) \<Rightarrow> 's \<Rightarrow> 'r" where
  "restoreWindow c enable s = enable True (unobserved c) s"

end
