(* ===== verification/SymmetricKey.thy ===== *)
theory SymmetricKey
  imports Mirror
begin

text \<open>
  Symmetric keys (\<open>symmetric_key.go\<close>, and \<open>ProviderKey\<close> of \<open>cryptographic_provider.go\<close>): the
  statements that create a key and change its encryptions, and the batch that opens the keys they
  need before and closes them after, whatever fails.  The batch is a structure (\<open>keyBatch\<close>) with its
  text, and is run on a server that is a parameter: \<open>keyLaws\<close> states what the documentation says of
  opening and closing a key in a session.
\<close>

text \<open>The kinds of encryption are strings, as their type in the code is.\<close>

definition ByCertificate :: string where "ByCertificate = ''CERTIFICATE''"
definition ByAsymmetricKey :: string where "ByAsymmetricKey = ''ASYMMETRIC KEY''"
definition BySymmetricKey :: string where "BySymmetricKey = ''SYMMETRIC KEY''"
definition ByPassword :: string where "ByPassword = ''PASSWORD''"
definition ByMasterKey :: string where "ByMasterKey = ''MASTER KEY''"

definition encryptionKinds :: "string list" where
  "encryptionKinds = [ByCertificate, ByAsymmetricKey, BySymmetricKey, ByPassword, ByMasterKey]"

definition symmetricKeyEncryptionKind :: "string \<Rightarrow> string" where
  "symmetricKeyEncryptionKind desc =
     (if \<not> has_prefix desc ''ENCRYPTION BY '' then []
      else (let rest = drop (length ''ENCRYPTION BY '') desc
            in case find (has_prefix rest) encryptionKinds of Some k \<Rightarrow> k | None \<Rightarrow> []))"

definition validAlgorithm :: "string \<Rightarrow> bool" where
  "validAlgorithm a \<longleftrightarrow> a \<in> {''AES_128'', ''AES_192'', ''AES_256'', ''DES'', ''TRIPLE_DES'', ''TRIPLE_DES_3KEY'',
     ''RC2'', ''RC4'', ''RC4_128'', ''DESX''}"

text \<open>\<open>SymmetricKeyDecryptor\<close> with its \<open>Open\<close>, and \<open>SymmetricKeyEncryptor\<close>.\<close>

datatype decryptor = Decryptor (decKind: string) (decName: string) (decPassword: string) (decOpen: "decryptor option")

datatype encryptor = Encryptor (encKind: string) (encName: string) (encPassword: string) (encOpen: "decryptor option")

definition maxKeyChain :: nat where
  "maxKeyChain = 8"

definition namedKinds :: "string set" where
  "namedKinds = {ByCertificate, ByAsymmetricKey, BySymmetricKey}"

definition encryptorClause :: "encryptor \<Rightarrow> string res" where
  "encryptorClause e =
     (if encKind e = ByPassword then
        (if encPassword e = [] then Inl (invalidf ''encryption by password has no password'' [])
         else Inr (''PASSWORD = '' @ QuoteLiteral (encPassword e)))
      else if encKind e \<in> namedKinds then
        (if trim_space (encName e) = []
         then Inl (invalidf ''encryption by %s has no name'' [AText (map lower_char (encKind e))])
         else Inr (encKind e @ '' '' @ QuoteName (encName e)))
      else Inl (invalidf ''a symmetric key cannot be encrypted by %q'' [AText (encKind e)]))"

definition decryptorClause :: "decryptor \<Rightarrow> string res" where
  "decryptorClause d =
     (if decKind d = ByPassword then
        (if decPassword d = [] then Inl (invalidf ''decryption by password has no password'' [])
         else Inr (''PASSWORD = '' @ QuoteLiteral (decPassword d)))
      else if decKind d \<in> namedKinds then
        (if trim_space (decName d) = []
         then Inl (invalidf ''decryption by %s has no name'' [AText (map lower_char (decKind d))])
         else Inr (decKind d @ '' '' @ QuoteName (decName d) @
           (if decPassword d \<noteq> [] \<and> decKind d \<noteq> BySymmetricKey then '' WITH PASSWORD = '' @ QuoteLiteral (decPassword d) else [])))
      else Inl (invalidf ''a symmetric key cannot be opened by %q'' [AText (decKind d)]))"

text \<open>The passwords of a chain, no deeper than \<open>maxKeyChain\<close>.\<close>

fun chainPasswords :: "nat \<Rightarrow> decryptor option \<Rightarrow> string list" where
  "chainPasswords (Suc n) (Some d) = decPassword d # chainPasswords n (decOpen d)"
| "chainPasswords _ _ = []"

definition decryptorPasswords :: "decryptor option \<Rightarrow> string list" where
  "decryptorPasswords d = chainPasswords maxKeyChain d"

definition encryptorPasswords :: "encryptor \<Rightarrow> string list" where
  "encryptorPasswords e = encPassword e # decryptorPasswords (encOpen e)"

section \<open>Opening keys\<close>

record keyOpens =
  koNames :: "string list"
  koOpens :: "string list"

definition noOpens :: keyOpens where
  "noOpens = \<lparr>koNames = [], koOpens = []\<rparr>"

definition openText :: "string \<Rightarrow> string \<Rightarrow> string" where
  "openText name clause = ''OPEN SYMMETRIC KEY '' @ QuoteName name @ '' DECRYPTION BY '' @ clause"

fun addKey :: "keyOpens \<Rightarrow> string \<Rightarrow> decryptor option \<Rightarrow> nat \<Rightarrow> keyOpens res" where
  "addKey ks name None depth =
     (if name \<in> set (koNames ks) then Inr ks
      else Inl (errorf ''symmetric key %q has no decryptor to open it with'' [AText name]))"
| "addKey ks name (Some (Decryptor k n p op)) depth =
     (if name \<in> set (koNames ks) then Inr ks
      else if maxKeyChain \<le> depth
      then Inl (errorf ''symmetric key %q: decryptor chain deeper than %d'' [AText name, ANum (int maxKeyChain)])
      else (case (if k = BySymmetricKey then addKey ks n op (Suc depth) else Inr ks) of
          Inl e \<Rightarrow> Inl e
        | Inr ks1 \<Rightarrow>
            (case decryptorClause (Decryptor k n p op) of
               Inl e \<Rightarrow> Inl (Wrapped ''symmetric key %q: %w'' [AText name] e)
             | Inr c \<Rightarrow> Inr \<lparr>koNames = koNames ks1 @ [name], koOpens = koOpens ks1 @ [openText name c]\<rparr>)))"

definition addEncryptor :: "keyOpens \<Rightarrow> encryptor \<Rightarrow> keyOpens res" where
  "addEncryptor ks e = (if encKind e \<noteq> BySymmetricKey then Inr ks else addKey ks (encName e) (encOpen e) 0)"

text \<open>The text \<open>wrap\<close> builds, as its loops write it.\<close>

definition closeText :: "string \<Rightarrow> string" where
  "closeText name = ''CLOSE SYMMETRIC KEY '' @ QuoteName name"

definition guardedClose :: "string \<Rightarrow> string" where
  "guardedClose name =
     ''IF EXISTS (SELECT 1 FROM sys.openkeys WHERE database_id = DB_ID() AND key_name = N'' @ [squote] @
     escapeSingle name @ [squote] @ '')'' @ [nl] @ ''    '' @ closeText name"

definition endLine :: "string \<Rightarrow> string" where
  "endLine s = s @ '';'' @ [nl]"

definition wrap :: "keyOpens \<Rightarrow> string \<Rightarrow> string" where
  "wrap ks stmt =
     (if koNames ks = [] then stmt
      else ''BEGIN TRY'' @ [nl] @ concat (map endLine (koOpens ks)) @ endLine stmt @
        concat (map (\<lambda>v. endLine (closeText v)) (rev (koNames ks))) @
        ''END TRY'' @ [nl] @ ''BEGIN CATCH'' @ [nl] @
        concat (map (\<lambda>v. endLine (guardedClose v)) (rev (koNames ks))) @
        ''THROW;'' @ [nl] @ ''END CATCH;'')"

section \<open>The statements\<close>

record ProviderKey =
  pkProvider :: string
  pkKeyName :: string
  pkDisposition :: string

definition ProviderOpenExisting :: string where "ProviderOpenExisting = ''OPEN_EXISTING''"

definition providerClauses :: "ProviderKey \<Rightarrow> (string \<times> string list) res" where
  "providerClauses p =
     (if trim_space (pkProvider p) = [] then Inl (invalidf ''no cryptographic provider named'' [])
      else if trim_space (pkKeyName p) = [] then Inl (invalidf ''no provider key name'' [])
      else (let named = ''PROVIDER_KEY_NAME = '' @ QuoteLiteral (pkKeyName p); from = '' FROM PROVIDER '' @ QuoteName (pkProvider p)
            in if pkDisposition p = [] then Inr (from, [named])
               else if pkDisposition p \<in> {''CREATE_NEW'', ProviderOpenExisting}
               then Inr (from, [named, ''CREATION_DISPOSITION = '' @ pkDisposition p])
               else Inl (invalidf ''unknown creation disposition %q'' [AText (pkDisposition p)])))"

record CreateSymmetricKeyRequest =
  ckName :: string
  ckAuthorization :: string
  ckAlgorithm :: string
  ckKeySource :: string
  ckIdentityValue :: string
  ckEncryptions :: "encryptor list"
  ckFromProvider :: "ProviderKey option"

text \<open>The loop over the encryptions: the keys to open and the items.\<close>

fun encryptionLoop :: "string \<Rightarrow> encryptor list \<Rightarrow> keyOpens \<Rightarrow> string list \<Rightarrow> (keyOpens \<times> string list) res" where
  "encryptionLoop name [] ks items = Inr (ks, items)"
| "encryptionLoop name (e # es) ks items =
     (case encryptorClause e of
        Inl err \<Rightarrow> Inl (Wrapped ''symmetric key %q: %w'' [AText name] err)
      | Inr c \<Rightarrow>
          (case addEncryptor ks e of
             Inl err \<Rightarrow> Inl (Wrapped ''symmetric key %q: %w'' [AText name] err)
           | Inr ks1 \<Rightarrow> encryptionLoop name es ks1 (items @ [c])))"

definition createHead :: "CreateSymmetricKeyRequest \<Rightarrow> string" where
  "createHead spec = ''CREATE SYMMETRIC KEY '' @ QuoteName (ckName spec) @
     (if ckAuthorization spec \<noteq> [] then '' AUTHORIZATION '' @ QuoteName (ckAuthorization spec) else [])"

definition createProviderSymmetricKeyStatement :: "CreateSymmetricKeyRequest \<Rightarrow> ProviderKey \<Rightarrow> string res" where
  "createProviderSymmetricKeyStatement spec p =
     (if ckEncryptions spec \<noteq> []
      then Inl (invalidf ''symmetric key %q is held by a provider, so it takes no encryption'' [AText (ckName spec)])
      else if ckKeySource spec \<noteq> [] \<or> ckIdentityValue spec \<noteq> []
      then Inl (invalidf ''symmetric key %q is held by a provider, so it takes no KEY_SOURCE or IDENTITY_VALUE'' [AText (ckName spec)])
      else
        (let needed = (ckAlgorithm spec \<noteq> [] \<or> pkDisposition p \<noteq> ProviderOpenExisting)
         in if needed \<and> \<not> validAlgorithm (ckAlgorithm spec)
            then Inl (invalidf ''symmetric key %q: unknown algorithm %q'' [AText (ckName spec), AText (ckAlgorithm spec)])
            else (case providerClauses p of
                Inl e \<Rightarrow> Inl (Wrapped ''symmetric key %q: %w'' [AText (ckName spec)] e)
              | Inr (from, popts) \<Rightarrow>
                  Inr (createHead spec @ from @ '' WITH '' @
                    str_join '', '' ((if needed then [''ALGORITHM = '' @ ckAlgorithm spec] else []) @ popts)))))"

text \<open>What is built before it is wrapped: the keys to open, and the statement.\<close>

definition createKeyPlan :: "CreateSymmetricKeyRequest \<Rightarrow> (keyOpens \<times> string) res" where
  "createKeyPlan spec =
     (if trim_space (ckName spec) = [] then Inl (invalidf ''symmetric key has no name'' [])
      else (case ckFromProvider spec of
          Some p \<Rightarrow> res_bind (createProviderSymmetricKeyStatement spec p) (\<lambda>q. Inr (noOpens, q))
        | None \<Rightarrow>
            if \<not> validAlgorithm (ckAlgorithm spec)
            then Inl (invalidf ''symmetric key %q: unknown algorithm %q'' [AText (ckName spec), AText (ckAlgorithm spec)])
            else if ckEncryptions spec = [] then Inl (invalidf ''symmetric key %q has no encryption'' [AText (ckName spec)])
            else res_bind (encryptionLoop (ckName spec) (ckEncryptions spec) noOpens [])
              (\<lambda>(ks, items). Inr (ks,
                 createHead spec @ '' WITH ALGORITHM = '' @ ckAlgorithm spec @
                 (if ckKeySource spec \<noteq> [] then '', KEY_SOURCE = '' @ QuoteLiteral (ckKeySource spec) else []) @
                 (if ckIdentityValue spec \<noteq> [] then '', IDENTITY_VALUE = '' @ QuoteLiteral (ckIdentityValue spec) else []) @
                 '' ENCRYPTION BY '' @ str_join '', '' items))))"

definition createSymmetricKeyStatement :: "CreateSymmetricKeyRequest \<Rightarrow> string res" where
  "createSymmetricKeyStatement spec = res_bind (createKeyPlan spec) (\<lambda>(ks, q). Inr (wrap ks q))"

definition alterKeyPlan :: "string \<Rightarrow> string \<Rightarrow> encryptor \<Rightarrow> decryptor \<Rightarrow> (keyOpens \<times> string) res" where
  "alterKeyPlan name verb enc dec =
     res_bind (encryptorClause enc) (\<lambda>c.
     res_bind (addKey noOpens name (Some dec) 0) (\<lambda>ks.
     res_bind (addEncryptor ks enc) (\<lambda>ks1.
     Inr (ks1, ''ALTER SYMMETRIC KEY '' @ QuoteName name @ '' '' @ verb @ '' ENCRYPTION BY '' @ c))))"

definition alterEncryptionStatement :: "string \<Rightarrow> string \<Rightarrow> encryptor \<Rightarrow> decryptor \<Rightarrow> string res" where
  "alterEncryptionStatement name verb enc dec = res_bind (alterKeyPlan name verb enc dec) (\<lambda>(ks, q). Inr (wrap ks q))"

text \<open>Sending them: the text shown has the secrets replaced.\<close>

definition KeySourcePlaceholder :: string where "KeySourcePlaceholder = ''<insert key source here>''"
definition IdentityValuePlaceholder :: string where "IdentityValuePlaceholder = ''<insert identity value here>''"

definition keyShown :: "CreateSymmetricKeyRequest \<Rightarrow> string \<Rightarrow> string" where
  "keyShown spec stmt =
     redactSecrets (redactSecrets (redactSecrets stmt PasswordPlaceholder (concat (map encryptorPasswords (ckEncryptions spec))))
       KeySourcePlaceholder [ckKeySource spec]) IdentityValuePlaceholder [ckIdentityValue spec]"

text \<open>The handle and the read by name (one catalog query) are the caller's.\<close>

definition CreateSymmetricKey :: "'w driver \<Rightarrow> ctx \<Rightarrow> database \<Rightarrow> (string \<Rightarrow> 'k) \<Rightarrow> (string \<Rightarrow> 'w st \<Rightarrow> 'k res \<times> 'w st) \<Rightarrow>
    CreateSymmetricKeyRequest \<Rightarrow> 'w st \<Rightarrow> 'k res \<times> 'w st" where
  "CreateSymmetricKey D c d ref byName spec s =
     (case createSymmetricKeyStatement spec of
        Inl e \<Rightarrow> (Inl (Wrapped ''gosmo: create symmetric key in %q: %w'' [AText (dName d)] e), s)
      | Inr q \<Rightarrow>
          (case databaseExecSecret D c d q (keyShown spec q) s of
             (Some e, s1) \<Rightarrow>
               (Inl (Wrapped ''gosmo: create symmetric key %q in %q: %w'' [AText (ckName spec), AText (dName d)] e), s1)
           | (None, s1) \<Rightarrow> createdObject c (ref (ckName spec)) (byName (ckName spec)) s1))"

definition alterEncryption :: "'w driver \<Rightarrow> ctx \<Rightarrow> database \<Rightarrow> string \<Rightarrow> string \<Rightarrow> string \<Rightarrow> encryptor \<Rightarrow> decryptor \<Rightarrow> 'w st \<Rightarrow> goerr option \<times> 'w st" where
  "alterEncryption D c d name verb what enc dec s =
     (case alterEncryptionStatement name verb enc dec of
        Inl e \<Rightarrow> (Some (Wrapped ''gosmo: %s symmetric key %q in %q: %w'' [AText what, AText name, AText (dName d)] e), s)
      | Inr q \<Rightarrow>
          (case databaseExecPasswords D c d q (encryptorPasswords enc @ decryptorPasswords (Some dec)) s of
             (Some e, s1) \<Rightarrow> (Some (Wrapped ''gosmo: %s symmetric key %q in %q: %w'' [AText what, AText name, AText (dName d)] e), s1)
           | (None, s1) \<Rightarrow> (None, s1)))"

definition AddEncryption :: "'w driver \<Rightarrow> ctx \<Rightarrow> database \<Rightarrow> string \<Rightarrow> encryptor \<Rightarrow> decryptor \<Rightarrow> 'w st \<Rightarrow> goerr option \<times> 'w st" where
  "AddEncryption D c d name enc dec s = alterEncryption D c d name ''ADD'' ''add encryption to'' enc dec s"

definition DropEncryption :: "'w driver \<Rightarrow> ctx \<Rightarrow> database \<Rightarrow> string \<Rightarrow> encryptor \<Rightarrow> decryptor \<Rightarrow> 'w st \<Rightarrow> goerr option \<times> 'w st" where
  "DropEncryption D c d name enc dec s = alterEncryption D c d name ''DROP'' ''drop encryption from'' enc dec s"

definition dropSymmetricKey :: "'w driver \<Rightarrow> ctx \<Rightarrow> database \<Rightarrow> string \<Rightarrow> 'w st \<Rightarrow> goerr option \<times> 'w st" where
  "dropSymmetricKey D c d name s =
     (case databaseExec D c d (''DROP SYMMETRIC KEY '' @ QuoteName name) [] s of
        (Some e, s1) \<Rightarrow> (Some (Wrapped ''gosmo: drop symmetric key %q in %q: %w'' [AText name, AText (dName d)] e), s1)
      | (None, s1) \<Rightarrow> (None, s1))"

text \<open>The owner the handle shows is mirrored.\<close>

definition setKeyOwner :: "'w driver \<Rightarrow> ctx \<Rightarrow> database \<Rightarrow> string \<Rightarrow> string \<Rightarrow> string \<Rightarrow> 'w st \<Rightarrow>
    goerr option \<times> string \<times> 'w st" where
  "setKeyOwner D c d name owner newOwner s =
     (case databaseExec D c d (''ALTER AUTHORIZATION ON SYMMETRIC KEY::'' @ QuoteName name @ '' TO '' @ QuoteName newOwner) [] s of
        (Some e, s1) \<Rightarrow>
          (Some (Wrapped ''gosmo: change symmetric key %q owner to %q in %q: %w'' [AText name, AText newOwner, AText (dName d)] e),
           owner, s1)
      | (None, s1) \<Rightarrow> (None, setIfApplied c owner newOwner, s1))"


section \<open>The batch as a structure, and a server that runs it\<close>











section \<open>Lemmas\<close>












section \<open>What a plan holds\<close>














section \<open>The batches of the two statements\<close>











end
