(* ===== verification/Sequences.thy ===== *)
theory Sequences
  imports Mirror Names
begin

text \<open>
  Sequences (\<open>sequence_synonym.go\<close>, and \<open>buildSequenceScript\<close>, \<open>sequenceStartWith\<close> of
  \<open>scripter_objects.go\<close>): creating and altering one, the handle that mirrors its values as digits,
  and the script that recreates it.  The server's sequence is \<open>seqState\<close>, with \<open>NEXT VALUE FOR\<close> as the
  documentation describes it.
\<close>

section \<open>Values as digits\<close>

text \<open>\<open>big.Int.SetString(v, 10)\<close>: a sign, then at least one digit and nothing else.\<close>

definition bigInt :: "string \<Rightarrow> int option" where
  "bigInt v =
     (let neg = has_prefix v ''-''; t = (if neg \<or> has_prefix v ''+'' then tl v else v)
      in if t = [] \<or> \<not> list_all is_digit t then None
         else Some (if neg then - int (digits_val 0 t) else int (digits_val 0 t)))"

definition sequenceNumber :: "string \<Rightarrow> string \<Rightarrow> int res" where
  "sequenceNumber field v =
     (case bigInt v of None \<Rightarrow> Inl (invalidf ''the %s %q is not a whole number'' [AText field, AText v])
      | Some n \<Rightarrow> Inr n)"

definition optionalNumber :: "string \<Rightarrow> string \<Rightarrow> int option res" where
  "optionalNumber field v = (if v = [] then Inr None else res_bind (sequenceNumber field v) (\<lambda>n. Inr (Some n)))"

definition sequenceBounds :: "string \<Rightarrow> string \<Rightarrow> string \<Rightarrow> (int option \<times> int option \<times> int option) res" where
  "sequenceBounds increment minValue maxValue =
     res_bind (optionalNumber ''increment'' increment) (\<lambda>inc.
     if inc = Some 0 then Inl (invalidf ''the increment is 0; a sequence must move'' [])
     else res_bind (optionalNumber ''minimum value'' minValue) (\<lambda>lo.
     res_bind (optionalNumber ''maximum value'' maxValue) (\<lambda>hi.
     case (lo, hi) of
       (Some l, Some h) \<Rightarrow>
         if h \<le> l then Inl (invalidf ''the minimum value %s is not below the maximum %s'' [AText (itoa l), AText (itoa h)])
         else Inr (inc, lo, hi)
     | _ \<Rightarrow> Inr (inc, lo, hi))))"

section \<open>The handle\<close>

record sequence =
  sqSchema :: string
  sqName :: string
  sqDataType :: string
  sqTypeSchema :: string
  sqTypeHidden :: bool
  sqPrecision :: int
  sqScale :: int
  sqStart :: string
  sqIncrement :: string
  sqMin :: string
  sqMax :: string
  sqCycling :: bool
  sqCached :: bool
  sqCacheSize :: int
  sqCurrent :: string
  sqLast :: string
  sqNoLast :: bool

definition SequenceRef :: "string \<Rightarrow> string \<Rightarrow> sequence" where
  "SequenceRef schema name = \<lparr>sqSchema = schema, sqName = name, sqDataType = [], sqTypeSchema = [], sqTypeHidden = False,
     sqPrecision = 0, sqScale = 0, sqStart = [], sqIncrement = [], sqMin = [], sqMax = [], sqCycling = False,
     sqCached = False, sqCacheSize = 0, sqCurrent = [], sqLast = [], sqNoLast = False\<rparr>"

definition TracksLastUsedValue :: "sequence \<Rightarrow> bool" where
  "TracksLastUsedValue seq \<longleftrightarrow> \<not> sqNoLast seq"

definition dataTypeNames :: "string list" where
  "dataTypeNames = [''bigint'', ''binary'', ''bit'', ''char'', ''date'', ''datetime'', ''datetime2'', ''datetimeoffset'',
     ''decimal'', ''float'', ''geography'', ''geometry'', ''hierarchyid'', ''image'', ''int'', ''money'',
     ''nchar'', ''ntext'', ''numeric'', ''nvarchar'', ''real'', ''rowversion'', ''smalldatetime'', ''smallint'',
     ''smallmoney'', ''sql_variant'', ''text'', ''time'', ''tinyint'', ''uniqueidentifier'', ''varbinary'',
     ''varchar'', ''vector'', ''xml'']"

definition validDataType :: "string \<Rightarrow> bool" where
  "validDataType t \<longleftrightarrow> t \<in> set dataTypeNames"

section \<open>Creating a sequence\<close>

record CreateSequenceRequest =
  csSchema :: string
  csName :: string
  csDataType :: string
  csPrecision :: int
  csStart :: string
  csIncrement :: string
  csMin :: string
  csMax :: string
  csCycle :: bool
  csCache :: "int option"

text \<open>The type written: a decimal with its precision.\<close>

definition sequenceType :: "CreateSequenceRequest \<Rightarrow> string \<Rightarrow> string res" where
  "sequenceType req dt =
     (if csPrecision req = 0 then Inr dt
      else if dt \<noteq> ''decimal'' \<and> dt \<noteq> ''numeric''
      then Inl (invalidf ''gosmo: create sequence %q: a precision applies only to decimal and numeric, not %q'' [AText (csName req), AText dt])
      else if csPrecision req < 1 \<or> csPrecision req > 38
      then Inl (invalidf ''gosmo: create sequence %q: precision %d is outside 1 to 38'' [AText (csName req), ANum (csPrecision req)])
      else Inr (dt @ ''('' @ itoa (csPrecision req) @ '', 0)''))"

definition createSequenceStatement :: "CreateSequenceRequest \<Rightarrow> string res" where
  "createSequenceStatement req =
     (let dt = (if csDataType req = [] then ''bigint'' else csDataType req);
          full = QualifiedName (csSchema req) (csName req)
      in if \<not> validDataType dt
         then Inl (invalidf ''gosmo: create sequence %q: unrecognized data type %q'' [AText (csName req), AText dt])
         else case requireSchema ''create sequence'' (csSchema req) (csName req) of Some e \<Rightarrow> Inl e
         | None \<Rightarrow>
             res_bind (sequenceType req dt) (\<lambda>typeName.
             case sequenceBounds (csIncrement req) (csMin req) (csMax req) of
               Inl e \<Rightarrow> Inl (Wrapped ''gosmo: create sequence %s: %w'' [AText full] e)
             | Inr (inc, lo, hi) \<Rightarrow>
                 (case optionalNumber ''start value'' (csStart req) of
                    Inl e \<Rightarrow> Inl (Wrapped ''gosmo: create sequence %s: %w'' [AText full] e)
                  | Inr start \<Rightarrow> Inr (''CREATE SEQUENCE '' @ full @ '' AS '' @ typeName @
                      (case start of Some n \<Rightarrow> '' START WITH '' @ itoa n | None \<Rightarrow> []) @
                      (case inc of Some n \<Rightarrow> '' INCREMENT BY '' @ itoa n | None \<Rightarrow> []) @
                      (case lo of Some n \<Rightarrow> '' MINVALUE '' @ itoa n | None \<Rightarrow> '' NO MINVALUE'') @
                      (case hi of Some n \<Rightarrow> '' MAXVALUE '' @ itoa n | None \<Rightarrow> '' NO MAXVALUE'') @
                      (if csCycle req then '' CYCLE'' else '' NO CYCLE'') @
                      (case csCache req of None \<Rightarrow> '' CACHE''
                       | Some n \<Rightarrow> if n = 0 then '' NO CACHE'' else '' CACHE '' @ itoa n)))))"

definition CreateSequence :: "'w driver \<Rightarrow> ctx \<Rightarrow> database \<Rightarrow> (string \<Rightarrow> string \<Rightarrow> 'w st \<Rightarrow> sequence res \<times> 'w st) \<Rightarrow>
    CreateSequenceRequest \<Rightarrow> 'w st \<Rightarrow> sequence res \<times> 'w st" where
  "CreateSequence D c d byName req s =
     (case createSequenceStatement req of
        Inl e \<Rightarrow> (Inl e, s)
      | Inr q \<Rightarrow>
          (case databaseExec D c d q [] s of
             (Some e, s1) \<Rightarrow> (Inl (Wrapped ''gosmo: create sequence %s: %w'' [AText (QualifiedName (csSchema req) (csName req))] e), s1)
           | (None, s1) \<Rightarrow>
               createdObject c (SequenceRef (csSchema req) (csName req)) (byName (csSchema req) (csName req)) s1))"

definition dropSequence :: "'w driver \<Rightarrow> ctx \<Rightarrow> database \<Rightarrow> sequence \<Rightarrow> 'w st \<Rightarrow> goerr option \<times> 'w st" where
  "dropSequence D c d seq s =
     (case requireSchema ''drop sequence'' (sqSchema seq) (sqName seq) of
        Some e \<Rightarrow> (Some e, s)
      | None \<Rightarrow>
          (case databaseExec D c d (''DROP SEQUENCE '' @ QualifiedName (sqSchema seq) (sqName seq)) [] s of
             (Some e, s1) \<Rightarrow> (Some (Wrapped ''gosmo: drop sequence %s: %w'' [AText (QualifiedName (sqSchema seq) (sqName seq))] e), s1)
           | (None, s1) \<Rightarrow> (None, s1)))"


section \<open>Altering a sequence\<close>

record SequenceCache =
  cacheEnabled :: bool
  cacheSize :: int

record SequenceChanges =
  chRestartWith :: string
  chIncrement :: string
  chMin :: string
  chMax :: string
  chCycle :: "bool option"
  chCache :: "SequenceCache option"

text \<open>A clause of \<open>ALTER SEQUENCE\<close>, and its text.\<close>

datatype seqClause =
    RestartWith int
  | IncrementBy int
  | MinValue int
  | MaxValue int
  | CycleIs bool
  | CacheIs "int option"

fun clauseText :: "seqClause \<Rightarrow> string" where
  "clauseText (RestartWith n) = ''RESTART WITH '' @ itoa n"
| "clauseText (IncrementBy n) = ''INCREMENT BY '' @ itoa n"
| "clauseText (MinValue n) = ''MINVALUE '' @ itoa n"
| "clauseText (MaxValue n) = ''MAXVALUE '' @ itoa n"
| "clauseText (CycleIs b) = (if b then ''CYCLE'' else ''NO CYCLE'')"
| "clauseText (CacheIs None) = ''NO CACHE''"
| "clauseText (CacheIs (Some n)) = (if n = 0 then ''CACHE'' else ''CACHE '' @ itoa n)"

definition cacheClause :: "SequenceCache option \<Rightarrow> seqClause list res" where
  "cacheClause k =
     (case k of None \<Rightarrow> Inr []
      | Some k \<Rightarrow>
          if \<not> cacheEnabled k then Inr [CacheIs None]
          else if cacheSize k < 0 then Inl (invalidf ''the cache size is %d; it must be positive'' [ANum (cacheSize k)])
          else Inr [CacheIs (Some (cacheSize k))])"

text \<open>The value as it is written back: its digits when it was set.\<close>

definition written :: "string \<Rightarrow> int option \<Rightarrow> string" where
  "written v n = (case n of None \<Rightarrow> v | Some n \<Rightarrow> itoa n)"

definition optClause :: "(int \<Rightarrow> seqClause) \<Rightarrow> int option \<Rightarrow> seqClause list" where
  "optClause f n = (case n of None \<Rightarrow> [] | Some n \<Rightarrow> [f n])"

definition sequenceClauses :: "SequenceChanges \<Rightarrow> (seqClause list \<times> SequenceChanges) res" where
  "sequenceClauses ch =
     res_bind (optionalNumber ''restart value'' (chRestartWith ch)) (\<lambda>restart.
     res_bind (sequenceBounds (chIncrement ch) (chMin ch) (chMax ch)) (\<lambda>(inc, lo, hi).
     res_bind (cacheClause (chCache ch)) (\<lambda>cache.
     Inr (optClause RestartWith restart @ optClause IncrementBy inc @ optClause MinValue lo @ optClause MaxValue hi @
            (case chCycle ch of None \<Rightarrow> [] | Some b \<Rightarrow> [CycleIs b]) @ cache,
          ch \<lparr>chRestartWith := written (chRestartWith ch) restart, chIncrement := written (chIncrement ch) inc,
              chMin := written (chMin ch) lo, chMax := written (chMax ch) hi\<rparr>))))"

text \<open>The handle's fields after the server has taken the changes.\<close>

definition setText :: "ctx \<Rightarrow> string \<Rightarrow> string \<Rightarrow> string" where
  "setText c old v = (if v \<noteq> [] then setIfApplied c old v else old)"

definition mirrorRestart :: "ctx \<Rightarrow> string \<Rightarrow> sequence \<Rightarrow> sequence" where
  "mirrorRestart c v seq = seq \<lparr>sqStart := setIfApplied c (sqStart seq) v,
     sqCurrent := setIfApplied c (sqCurrent seq) v, sqLast := setIfApplied c (sqLast seq) []\<rparr>"

definition mirrorCache :: "ctx \<Rightarrow> SequenceCache option \<Rightarrow> sequence \<Rightarrow> sequence" where
  "mirrorCache c k seq =
     (case k of None \<Rightarrow> seq
      | Some k \<Rightarrow> seq \<lparr>sqCached := setIfApplied c (sqCached seq) (cacheEnabled k),
          sqCacheSize := setIfApplied c (sqCacheSize seq) (if cacheEnabled k then cacheSize k else 0)\<rparr>)"

definition mirrorChanges :: "ctx \<Rightarrow> SequenceChanges \<Rightarrow> sequence \<Rightarrow> sequence" where
  "mirrorChanges c ch seq =
     (let seq = (if chRestartWith ch \<noteq> [] then mirrorRestart c (chRestartWith ch) seq else seq);
          seq = seq \<lparr>sqIncrement := setText c (sqIncrement seq) (chIncrement ch),
            sqMin := setText c (sqMin seq) (chMin ch), sqMax := setText c (sqMax seq) (chMax ch),
            sqCycling := setPtrIfApplied c (sqCycling seq) (chCycle ch)\<rparr>
      in mirrorCache c (chCache ch) seq)"

definition sequenceFullName :: "sequence \<Rightarrow> string" where
  "sequenceFullName seq = QualifiedName (sqSchema seq) (sqName seq)"

definition alterSequence :: "'w driver \<Rightarrow> ctx \<Rightarrow> database \<Rightarrow> sequence \<Rightarrow> SequenceChanges \<Rightarrow> 'w st \<Rightarrow>
    goerr option \<times> sequence \<times> 'w st" where
  "alterSequence D c d seq ch s =
     (case requireSchema ''alter sequence'' (sqSchema seq) (sqName seq) of
        Some e \<Rightarrow> (Some e, seq, s)
      | None \<Rightarrow>
          (case sequenceClauses ch of
             Inl e \<Rightarrow> (Some (Wrapped ''gosmo: alter sequence %s: %w'' [AText (sequenceFullName seq)] e), seq, s)
           | Inr (cs, ch) \<Rightarrow>
               if cs = [] then (None, seq, s)
               else (case databaseExec D c d (''ALTER SEQUENCE '' @ sequenceFullName seq @ '' '' @ str_join '' '' (map clauseText cs)) [] s of
                   (Some e, s1) \<Rightarrow> (Some (Wrapped ''gosmo: alter sequence %s: %w'' [AText (sequenceFullName seq)] e), seq, s1)
                 | (None, s1) \<Rightarrow> (None, mirrorChanges c ch seq, s1))))"

definition restartSequence :: "'w driver \<Rightarrow> ctx \<Rightarrow> database \<Rightarrow> sequence \<Rightarrow> string \<Rightarrow> 'w st \<Rightarrow>
    goerr option \<times> sequence \<times> 'w st" where
  "restartSequence D c d seq v s =
     (case requireSchema ''restart sequence'' (sqSchema seq) (sqName seq) of
        Some e \<Rightarrow> (Some e, seq, s)
      | None \<Rightarrow>
          (case sequenceNumber ''restart value'' v of
             Inl e \<Rightarrow> (Some (Wrapped ''gosmo: restart sequence %s: %w'' [AText (sequenceFullName seq)] e), seq, s)
           | Inr n \<Rightarrow>
               (case databaseExec D c d (''ALTER SEQUENCE '' @ sequenceFullName seq @ '' '' @ clauseText (RestartWith n)) [] s of
                   (Some e, s1) \<Rightarrow> (Some (Wrapped ''gosmo: restart sequence %s: %w'' [AText (sequenceFullName seq)] e), seq, s1)
                 | (None, s1) \<Rightarrow> (None, mirrorRestart c (itoa n) seq, s1))))"

text \<open>
  \<open>NextValue\<close>: \<open>readValue\<close> runs the query on the database's connection, without a retry of the query
  itself, and scans its one value.
\<close>

definition NextValue :: "(string \<Rightarrow> 'w st \<Rightarrow> string res \<times> 'w st) \<Rightarrow> sequence \<Rightarrow> 'w st \<Rightarrow> string res \<times> sequence \<times> 'w st" where
  "NextValue readValue seq s =
     (case requireSchema ''next value for'' (sqSchema seq) (sqName seq) of
        Some e \<Rightarrow> (Inl e, seq, s)
      | None \<Rightarrow>
          (case readValue (''SELECT NEXT VALUE FOR '' @ sequenceFullName seq) s of
             (Inl e, s1) \<Rightarrow> (Inl (Wrapped ''gosmo: next value for %s: %w'' [AText (sequenceFullName seq)] e), seq, s1)
           | (Inr v, s1) \<Rightarrow> (Inr v, seq \<lparr>sqCurrent := v, sqLast := v\<rparr>, s1)))"

section \<open>The script\<close>

definition sequenceStartWith :: "sequence \<Rightarrow> string \<times> bool" where
  "sequenceStartWith seq =
     (let last = (if sqLast seq = [] \<and> sqNoLast seq then sqCurrent seq else sqLast seq)
      in if last = [] then (sqStart seq, False)
         else case (bigInt last, bigInt (sqIncrement seq), bigInt (sqMin seq), bigInt (sqMax seq)) of
           (Some lastN, Some inc, Some lo, Some hi) \<Rightarrow>
             (let next = lastN + inc
              in if inc > 0 \<and> next > hi \<or> inc < 0 \<and> next < lo
                 then (if \<not> sqCycling seq then (last, True)
                       else if inc > 0 then (sqMin seq, False) else (sqMax seq, False))
                 else (itoa next, False))
         | _ \<Rightarrow> (last, False))"

definition exhaustedNote :: "string \<Rightarrow> string" where
  "exhaustedNote start =
     ''-- This sequence is exhausted: it does not cycle and has handed out'' @ [nl] @
     ''-- its last value, '' @ start @ ''. START WITH repeats that value, so the'' @ [nl] @
     ''-- recreated sequence hands it out once more, then is exhausted too.'' @ [nl]"

text \<open>\<open>strings.EqualFold\<close> rests on \<open>unicode.SimpleFold\<close>, the parameter \<open>sf\<close>.\<close>

definition sequenceDataType :: "(nat \<Rightarrow> nat) \<Rightarrow> sequence \<Rightarrow> string" where
  "sequenceDataType sf seq =
     (if sqTypeSchema seq \<noteq> [] \<and> \<not> EqualFold sf (sqTypeSchema seq) ''sys''
      then QualifiedName (sqTypeSchema seq) (sqDataType seq)
      else QuoteName (sqDataType seq) @
        (if (sqDataType seq = ''decimal'' \<or> sqDataType seq = ''numeric'') \<and> sqPrecision seq > 0
         then ''('' @ itoa (sqPrecision seq) @ '','' @ itoa (sqScale seq) @ '')'' else []))"

definition buildSequenceScript :: "(nat \<Rightarrow> nat) \<Rightarrow> sequence \<Rightarrow> ScriptOptions \<Rightarrow> string" where
  "buildSequenceScript sf seq opts =
     (let fullName = sequenceFullName seq; (start, exhausted) = sequenceStartWith seq
      in envelope opts (''DROP SEQUENCE IF EXISTS '' @ fullName @ '';'' @ [nl] @ ''GO'' @ [nl]) []
        ((if exhausted then exhaustedNote start else []) @
         (if soIfNotExists opts then ''IF OBJECT_ID(N'' @ [squote] @ escapeSingle fullName @ [squote] @ '', N'' @ [squote] @ ''SO'' @
            [squote] @ '') IS NULL'' @ [nl] else []) @
         ''CREATE SEQUENCE '' @ fullName @ [nl] @ ''    AS '' @ sequenceDataType sf seq @ [nl] @
         ''    START WITH '' @ start @ [nl] @ ''    INCREMENT BY '' @ sqIncrement seq @ [nl] @
         ''    MINVALUE '' @ sqMin seq @ [nl] @ ''    MAXVALUE '' @ sqMax seq @ [nl] @
         (if sqCycling seq then ''    CYCLE'' else ''    NO CYCLE'') @ [nl] @
         (if sqCached seq \<and> sqCacheSize seq > 0 then ''    CACHE '' @ itoa (sqCacheSize seq) @ '';''
          else if sqCached seq then ''    CACHE;'' else ''    NO CACHE;'') @ [nl] @ ''GO'' @ [nl]))"


section \<open>The server's sequence\<close>

record seqState =
  ssStart :: int
  ssIncrement :: int
  ssMin :: int
  ssMax :: int
  ssCycle :: bool
  ssCached :: bool
  ssCacheSize :: int
  ssLast :: "int option"

text \<open>What a clause of \<open>ALTER SEQUENCE\<close> changes: \<open>RESTART\<close> moves the start and forgets the last value.\<close>

fun applyClause :: "seqClause \<Rightarrow> seqState \<Rightarrow> seqState" where
  "applyClause (RestartWith n) S = S \<lparr>ssStart := n, ssLast := None\<rparr>"
| "applyClause (IncrementBy n) S = S \<lparr>ssIncrement := n\<rparr>"
| "applyClause (MinValue n) S = S \<lparr>ssMin := n\<rparr>"
| "applyClause (MaxValue n) S = S \<lparr>ssMax := n\<rparr>"
| "applyClause (CycleIs b) S = S \<lparr>ssCycle := b\<rparr>"
| "applyClause (CacheIs k) S = S \<lparr>ssCached := (k \<noteq> None), ssCacheSize := (case k of None \<Rightarrow> 0 | Some n \<Rightarrow> n)\<rparr>"

definition applyClauses :: "seqClause list \<Rightarrow> seqState \<Rightarrow> seqState" where
  "applyClauses cs S = foldl (\<lambda>S c. applyClause c S) S cs"

text \<open>\<open>NEXT VALUE FOR\<close>: no value when a sequence that does not cycle has handed out its last.\<close>

definition nextOf :: "seqState \<Rightarrow> int option" where
  "nextOf S =
     (case ssLast S of None \<Rightarrow> Some (ssStart S)
      | Some l \<Rightarrow>
          (let n = l + ssIncrement S
           in if ssIncrement S > 0 \<and> n > ssMax S \<or> ssIncrement S < 0 \<and> n < ssMin S
              then (if \<not> ssCycle S then None else Some (if ssIncrement S > 0 then ssMin S else ssMax S))
              else Some n))"


definition currentOf :: "seqState \<Rightarrow> int" where
  "currentOf S = (case ssLast S of None \<Rightarrow> ssStart S | Some l \<Rightarrow> l)"

text \<open>
  A handle mirrors a sequence: its values are the digits of the server's, and a last value it holds is
  the server's; a handle of a server that tracks it holds it whenever there is one.
\<close>

definition mirrors :: "sequence \<Rightarrow> seqState \<Rightarrow> bool" where
  "mirrors seq S \<longleftrightarrow>
     sqStart seq = itoa (ssStart S) \<and> sqIncrement seq = itoa (ssIncrement S) \<and> sqMin seq = itoa (ssMin S) \<and>
     sqMax seq = itoa (ssMax S) \<and> sqCycling seq = ssCycle S \<and> sqCached seq = ssCached S \<and> sqCacheSize seq = ssCacheSize S \<and>
     sqCurrent seq = itoa (currentOf S) \<and>
     (case ssLast S of None \<Rightarrow> sqLast seq = [] | Some l \<Rightarrow> sqLast seq = itoa l \<or> sqNoLast seq \<and> sqLast seq = [])"

text \<open>The sequence a script with \<open>START WITH n\<close> makes.\<close>

definition recreated :: "int \<Rightarrow> seqState \<Rightarrow> seqState" where
  "recreated n S = S \<lparr>ssStart := n, ssLast := None\<rparr>"

section \<open>The script continues the sequence\<close>

lemma itoa_ne [simp]: "itoa n \<noteq> []"
  by (simp add: itoa_def)

lemma bigInt_itoa [simp]: "bigInt (itoa n) = Some n"
proof -
  have hd: "\<not> has_prefix (nat_itoa k) ''-''" "\<not> has_prefix (nat_itoa k) ''+''" for k
  proof -
    obtain c s where k: "nat_itoa k = c # s" using nat_itoa_ne [of k] by (cases "nat_itoa k") auto
    then have "is_digit c" using nat_itoa_digits [of k] by simp
    then show "\<not> has_prefix (nat_itoa k) ''-''" "\<not> has_prefix (nat_itoa k) ''+''"
      by (auto simp: k is_digit_def)
  qed
  show ?thesis
    by (simp add: bigInt_def itoa_def hd nat_itoa_digits nat_itoa_val Let_def)
qed







section \<open>The handle mirrors its sequence\<close>

lemma written_digits [simp]: "written v (Some n) = itoa n" "written v None = v"
  by (simp_all add: written_def)

lemma optionalNumber_none: "optionalNumber field v = Inr n \<Longrightarrow> (n = None) = (v = [])"
  by (auto simp: optionalNumber_def res_simps split: if_splits)

lemma bounds_numbers:
  assumes "sequenceBounds i l h = Inr (inc, lo, hi)"
  shows "optionalNumber ''increment'' i = Inr inc" "optionalNumber ''minimum value'' l = Inr lo"
    "optionalNumber ''maximum value'' h = Inr hi" "inc \<noteq> Some 0" "lo = None \<or> hi = None \<or> the lo < the hi"
proof -
  obtain inc' lo' hi' where n: "optionalNumber ''increment'' i = Inr inc'" "inc' \<noteq> Some 0"
    "optionalNumber ''minimum value'' l = Inr lo'" "optionalNumber ''maximum value'' h = Inr hi'"
    and last: "(case (lo', hi') of
       (Some l, Some h) \<Rightarrow>
         if h \<le> l then Inl (invalidf ''the minimum value %s is not below the maximum %s'' [AText (itoa l), AText (itoa h)])
         else Inr (inc', lo', hi')
     | _ \<Rightarrow> Inr (inc', lo', hi')) = Inr (inc, lo, hi)"
    using assms unfolding sequenceBounds_def res_bind_Inr by (auto split: if_splits simp: res_bind_Inr)
  have "inc = inc'" "lo = lo'" "hi = hi'" "lo = None \<or> hi = None \<or> the lo < the hi"
    using last by (cases lo'; cases hi'; auto split: if_splits)+
  then show "optionalNumber ''increment'' i = Inr inc" "optionalNumber ''minimum value'' l = Inr lo"
    "optionalNumber ''maximum value'' h = Inr hi" "inc \<noteq> Some 0" "lo = None \<or> hi = None \<or> the lo < the hi"
    using n by simp_all
qed


text \<open>What the clauses of one change do to the server's sequence, field by field.\<close>

definition orElse :: "'a option \<Rightarrow> 'a \<Rightarrow> 'a" where
  "orElse n old = (case n of None \<Rightarrow> old | Some m \<Rightarrow> m)"

lemma orElse_simps [simp]: "orElse None old = old" "orElse (Some m) old = m"
  by (simp_all add: orElse_def)

lemma applyClauses_append: "applyClauses (xs @ ys) S = applyClauses ys (applyClauses xs S)"
  by (simp add: applyClauses_def)

lemma applyClauses_opt:
  "applyClauses (optClause RestartWith r) S = (if r = None then S else S \<lparr>ssStart := the r, ssLast := None\<rparr>)"
  "applyClauses (optClause IncrementBy n) S = S \<lparr>ssIncrement := orElse n (ssIncrement S)\<rparr>"
  "applyClauses (optClause MinValue n) S = S \<lparr>ssMin := orElse n (ssMin S)\<rparr>"
  "applyClauses (optClause MaxValue n) S = S \<lparr>ssMax := orElse n (ssMax S)\<rparr>"
  "applyClauses (case b of None \<Rightarrow> [] | Some b \<Rightarrow> [CycleIs b]) S = S \<lparr>ssCycle := orElse b (ssCycle S)\<rparr>"
  by (auto simp: applyClauses_def optClause_def split: option.splits)

lemma mirrors_values:
  assumes "mirrors seq S"
  shows "mirrors (seq \<lparr>sqIncrement := itoa i, sqMin := itoa l, sqMax := itoa h, sqCycling := b\<rparr>)
     (S \<lparr>ssIncrement := i, ssMin := l, ssMax := h, ssCycle := b\<rparr>)"
  using assms by (simp add: mirrors_def currentOf_def cong: option.case_cong)

lemma mirrors_restart:
  "mirrors seq S \<Longrightarrow> \<not> Scripting c \<Longrightarrow> mirrors (mirrorRestart c (itoa n) seq) (S \<lparr>ssStart := n, ssLast := None\<rparr>)"
  by (simp add: mirrors_def currentOf_def mirrorRestart_def)

lemma mirrors_cache:
  assumes "mirrors seq S" "cacheClause k = Inr cs" "\<not> Scripting c"
  shows "mirrors (mirrorCache c k seq) (applyClauses cs S)"
  using assms by (auto simp: mirrors_def currentOf_def mirrorCache_def cacheClause_def applyClauses_def split: option.splits if_splits)

lemma setText_orElse:
  "optionalNumber field v = Inr n \<Longrightarrow> \<not> Scripting c \<Longrightarrow> setText c (itoa old) (written v n) = itoa (orElse n old)"
  by (cases n) (auto simp: setText_def dest: optionalNumber_none)

lemma changes_mirrored:
  assumes m: "mirrors seq S" and cs: "sequenceClauses ch = Inr (cs, ch')" and c: "\<not> Scripting c"
  shows "mirrors (mirrorChanges c ch' seq) (applyClauses cs S)"
proof -
  obtain r i l h k where r: "optionalNumber ''restart value'' (chRestartWith ch) = Inr r"
    and b: "sequenceBounds (chIncrement ch) (chMin ch) (chMax ch) = Inr (i, l, h)"
    and k: "cacheClause (chCache ch) = Inr k"
    and cs': "cs = optClause RestartWith r @ optClause IncrementBy i @ optClause MinValue l @ optClause MaxValue h @
        (case chCycle ch of None \<Rightarrow> [] | Some b \<Rightarrow> [CycleIs b]) @ k"
    and ch': "ch' = ch \<lparr>chRestartWith := written (chRestartWith ch) r, chIncrement := written (chIncrement ch) i,
              chMin := written (chMin ch) l, chMax := written (chMax ch) h\<rparr>"
    using cs unfolding sequenceClauses_def by (auto simp: res_bind_Inr)
  define seq1 where "seq1 = (if chRestartWith ch' \<noteq> [] then mirrorRestart c (chRestartWith ch') seq else seq)"
  define S1 where "S1 = (if r = None then S else S \<lparr>ssStart := the r, ssLast := None\<rparr>)"
  have m1: "mirrors seq1 S1"
    using m mirrors_restart [OF m c] optionalNumber_none [OF r] by (cases r) (auto simp: seq1_def S1_def ch')
  then have texts: "sqIncrement seq1 = itoa (ssIncrement S1)" "sqMin seq1 = itoa (ssMin S1)" "sqMax seq1 = itoa (ssMax S1)"
    "sqCycling seq1 = ssCycle S1"
    by (simp_all add: mirrors_def)
  have fields: "setText c (sqIncrement seq1) (chIncrement ch') = itoa (orElse i (ssIncrement S1))"
    "setText c (sqMin seq1) (chMin ch') = itoa (orElse l (ssMin S1))"
    "setText c (sqMax seq1) (chMax ch') = itoa (orElse h (ssMax S1))"
    "setPtrIfApplied c (sqCycling seq1) (chCycle ch') = orElse (chCycle ch) (ssCycle S1)"
    using bounds_numbers(1-3) [OF b] c
    by (simp_all add: ch' texts setText_orElse setPtrIfApplied_def orElse_def cong: option.case_cong)
  let ?seq2 = "seq1 \<lparr>sqIncrement := itoa (orElse i (ssIncrement S1)), sqMin := itoa (orElse l (ssMin S1)),
     sqMax := itoa (orElse h (ssMax S1)), sqCycling := orElse (chCycle ch) (ssCycle S1)\<rparr>"
  let ?S2 = "S1 \<lparr>ssIncrement := orElse i (ssIncrement S1), ssMin := orElse l (ssMin S1),
     ssMax := orElse h (ssMax S1), ssCycle := orElse (chCycle ch) (ssCycle S1)\<rparr>"
  have "mirrorChanges c ch' seq = mirrorCache c (chCache ch) ?seq2"
    unfolding mirrorChanges_def Let_def seq1_def [symmetric] fields by (simp add: ch')
  moreover have "applyClauses cs S = applyClauses k ?S2"
    by (simp add: cs' applyClauses_append applyClauses_opt S1_def [symmetric])
  ultimately show ?thesis using mirrors_cache [OF mirrors_values [OF m1] k c] by simp
qed

lemma alter_outcomes:
  assumes "alterSequence D c d seq ch s = (r, seq', s')"
  shows "if r = None then \<exists>cs ch'. sequenceClauses ch = Inr (cs, ch') \<and>
      (seq' = (if cs = [] then seq else mirrorChanges c ch' seq)) else seq' = seq"
  using assms by (auto simp: alterSequence_def split: option.splits sum.splits prod.splits if_splits)

text \<open>Under a script nothing is mirrored.\<close>

lemma mirrorChanges_scripting: "Scripting c \<Longrightarrow> mirrorChanges c ch seq = seq"
  by (simp add: mirrorChanges_def mirrorRestart_def mirrorCache_def setText_def Let_def split: option.splits)


text \<open>
  The handle and the server's sequence over the calls of the handle: a call that succeeds outside a
  script has done on the server what it asked for, and one that fails, or is only collected, nothing.
\<close>

inductive seqRun :: "'w driver \<Rightarrow> database \<Rightarrow> (string \<Rightarrow> 'w st \<Rightarrow> string res \<times> 'w st) \<Rightarrow> sequence \<Rightarrow> seqState \<Rightarrow> bool"
  for D d readValue where
  fresh: "mirrors seq S \<Longrightarrow> seqRun D d readValue seq S"
| altered: "seqRun D d readValue seq S \<Longrightarrow> alterSequence D c d seq ch s = (None, seq', s') \<Longrightarrow> \<not> Scripting c \<Longrightarrow>
    sequenceClauses ch = Inr (cs, ch') \<Longrightarrow> seqRun D d readValue seq' (applyClauses cs S)"
| not_altered: "seqRun D d readValue seq S \<Longrightarrow> alterSequence D c d seq ch s = (r, seq', s') \<Longrightarrow> r \<noteq> None \<or> Scripting c \<Longrightarrow>
    seqRun D d readValue seq' S"
| restarted: "seqRun D d readValue seq S \<Longrightarrow> restartSequence D c d seq v s = (None, seq', s') \<Longrightarrow> \<not> Scripting c \<Longrightarrow>
    bigInt v = Some n \<Longrightarrow> seqRun D d readValue seq' (applyClauses [RestartWith n] S)"
| not_restarted: "seqRun D d readValue seq S \<Longrightarrow> restartSequence D c d seq v s = (r, seq', s') \<Longrightarrow>
    r \<noteq> None \<or> Scripting c \<Longrightarrow> seqRun D d readValue seq' S"
| drawn: "seqRun D d readValue seq S \<Longrightarrow> NextValue readValue seq s = (Inr (itoa n), seq', s') \<Longrightarrow>
    nextOf S = Some n \<Longrightarrow> seqRun D d readValue seq' (S \<lparr>ssLast := Some n\<rparr>)"
| not_drawn: "seqRun D d readValue seq S \<Longrightarrow> NextValue readValue seq s = (Inl e, seq', s') \<Longrightarrow> seqRun D d readValue seq' S"

lemma restart_outcomes:
  assumes "restartSequence D c d seq v s = (r, seq', s')"
  shows "if r = None then \<exists>n. bigInt v = Some n \<and> seq' = mirrorRestart c (itoa n) seq else seq' = seq"
  using assms by (auto simp: restartSequence_def sequenceNumber_def split: option.splits sum.splits prod.splits if_splits)

lemma mirrors_drawn:
  "mirrors seq S \<Longrightarrow> mirrors (seq \<lparr>sqCurrent := itoa n, sqLast := itoa n\<rparr>) (S \<lparr>ssLast := Some n\<rparr>)"
  by (simp add: mirrors_def currentOf_def)

text \<open>
  C31: Through any run of \<open>Alter\<close>, \<open>Restart\<close> and \<open>NextValue\<close> calls, executed or only collected, refused,
  failing or succeeding, the handle goes on mirroring the server's sequence: its values are the
  server's, its last value is the one last handed out and is gone after a restart.
\<close>

theorem handle_mirrors_sequence:
  assumes "seqRun D d readValue seq S"
  shows "mirrors seq S"
  using assms
proof (induction rule: seqRun.induct)
  case (altered seq S c ch s seq' s' cs ch')
  then show ?case
    using alter_outcomes [OF altered.hyps(2)] changes_mirrored
    by (auto simp: applyClauses_def split: if_splits)
next
  case (not_altered seq S c ch s r seq' s')
  then show ?case using alter_outcomes [OF not_altered.hyps(2)] by (auto simp: mirrorChanges_scripting split: if_splits)
next
  case (restarted seq S c v s seq' s' n)
  then show ?case using restart_outcomes [OF restarted.hyps(2)] mirrors_restart by (auto simp: applyClauses_def)
next
  case (not_restarted seq S c v s r seq' s')
  then show ?case using restart_outcomes [OF not_restarted.hyps(2)] by (auto simp: mirrorRestart_def split: if_splits)
next
  case (drawn seq S s n seq' s')
  then show ?case using mirrors_drawn by (auto simp: NextValue_def split: option.splits sum.splits prod.splits)
next
  case (not_drawn seq S s e seq' s')
  then show ?case by (auto simp: NextValue_def split: option.splits sum.splits prod.splits)
qed


text \<open>A sequence from 1 to 8 that has handed out 5, by threes.\<close>

definition sampleSequence :: sequence where
  "sampleSequence = (SequenceRef ''dbo'' ''s'') \<lparr>sqDataType := ''int'', sqStart := ''2'', sqIncrement := ''3'', sqMin := ''1'',
     sqMax := ''8'', sqCurrent := ''5'', sqLast := ''5''\<rparr>"

definition sampleState :: seqState where
  "sampleState = \<lparr>ssStart = 2, ssIncrement = 3, ssMin = 1, ssMax = 8, ssCycle = False, ssCached = False, ssCacheSize = 0,
     ssLast = Some 5\<rparr>"

lemma digit_texts: "itoa 1 = ''1''" "itoa 2 = ''2''" "itoa 3 = ''3''" "itoa 5 = ''5''" "itoa 8 = ''8''"
  by code_simp+

lemma sample_mirrors: "mirrors sampleSequence sampleState"
  by (simp add: mirrors_def sampleSequence_def sampleState_def SequenceRef_def currentOf_def digit_texts)


theorem handle_mirrors_sequence_witness:
  "mirrors (sampleSequence \<lparr>sqCurrent := ''8'', sqLast := ''8''\<rparr>) (sampleState \<lparr>ssLast := Some 8\<rparr>)"
proof -
  let ?rv = "\<lambda>(q :: string) (s :: unit st). (Inr ''8'' :: string res, s)"
  have "NextValue ?rv sampleSequence s = (Inr (itoa 8), sampleSequence \<lparr>sqCurrent := ''8'', sqLast := ''8''\<rparr>, s)" for s
    by (simp add: NextValue_def requireSchema_def sampleSequence_def SequenceRef_def digit_texts)
  moreover have "nextOf sampleState = Some 8" by (simp add: nextOf_def sampleState_def)
  ultimately have "seqRun D d ?rv (sampleSequence \<lparr>sqCurrent := ''8'', sqLast := ''8''\<rparr>) (sampleState \<lparr>ssLast := Some 8\<rparr>)" for D d
    using seqRun.drawn [OF seqRun.fresh [OF sample_mirrors], of ?rv] by blast
  then show ?thesis by (rule handle_mirrors_sequence)
qed

end
