(* ===== verification/Versions.thy ===== *)
theory Versions
  imports Main
begin

text \<open>
  Version gates (\<open>version_gate.go\<close>, the versions of \<open>types.go\<close>): an unread version, and an Azure
  edition, count as the newest.
\<close>

definition SQLServer2016 :: int where "SQLServer2016 = 13"
definition SQLServer2017 :: int where "SQLServer2017 = 14"
definition SQLServer2019 :: int where "SQLServer2019 = 15"
definition SQLServer2022 :: int where "SQLServer2022 = 16"
definition SQLServer2025 :: int where "SQLServer2025 = 17"

record ServerInfo =
  siVersionMajor :: int
  siVersionBuild :: int
  siAzure :: bool

definition featureMajor :: "ServerInfo option \<Rightarrow> int" where
  "featureMajor i = (case i of None \<Rightarrow> 0 | Some i \<Rightarrow> if siAzure i then 0 else siVersionMajor i)"

definition majorAtLeast :: "int \<Rightarrow> int \<Rightarrow> bool" where
  "majorAtLeast major v \<longleftrightarrow> major = 0 \<or> v \<le> major"

definition majorBefore :: "int \<Rightarrow> int \<Rightarrow> bool" where
  "majorBefore major v \<longleftrightarrow> \<not> majorAtLeast major v"

definition majorKnownAtLeast :: "int \<Rightarrow> int \<Rightarrow> bool" where
  "majorKnownAtLeast major v \<longleftrightarrow> major \<noteq> 0 \<and> v \<le> major"

definition buildAtLeast :: "ServerInfo option \<Rightarrow> int \<Rightarrow> int \<Rightarrow> bool" where
  "buildAtLeast info v build \<longleftrightarrow>
     (let major = featureMajor info
      in majorAtLeast major v \<and>
         (major \<noteq> v \<or> (case info of None \<Rightarrow> True | Some i \<Rightarrow> build \<le> siVersionBuild i)))"

definition colSince :: "int \<Rightarrow> int \<Rightarrow> string \<Rightarrow> string \<Rightarrow> string" where
  "colSince major since col zero = (if \<not> majorAtLeast major since then zero else col)"

definition bitSince :: "int \<Rightarrow> int \<Rightarrow> string \<Rightarrow> string" where
  "bitSince major since col = colSince major since col ''CAST(0 AS bit)''"

definition hasColumnSince :: "int \<Rightarrow> int \<Rightarrow> bool" where
  "hasColumnSince major since \<longleftrightarrow> majorAtLeast major since"

text \<open>The order of releases: a major, then a build; one that was not read, or Azure's, is above all.\<close>

definition releaseAtLeast :: "ServerInfo option \<Rightarrow> int \<times> int \<Rightarrow> bool" where
  "releaseAtLeast info r \<longleftrightarrow>
     featureMajor info = 0 \<or>
     (case info of None \<Rightarrow> True
      | Some i \<Rightarrow> fst r < siVersionMajor i \<or> fst r = siVersionMajor i \<and> snd r \<le> siVersionBuild i)"

lemma build_gate_is_release_order: "0 < v \<Longrightarrow> buildAtLeast info v build = releaseAtLeast info (v, build)"
  by (auto simp: buildAtLeast_def releaseAtLeast_def majorAtLeast_def featureMajor_def Let_def split: option.splits)

end
