(* ===== verification/Governor.thy ===== *)
theory Governor
  imports Mirror Versions Floats Utf8 "HOL-Library.Word"
begin

unbundle bit_operations_syntax

text \<open>
  Resource Governor (\<open>resource_governor_write.go\<close> and \<open>scripter_resource_governor.go\<close>): the options of
  pools and workload groups as a \<open>WITH\<close> list, their writes and what the handle mirrors of them, the
  script that recreates them from what differs from the defaults, and the affinity masks of the
  catalog written as lists of scheduler ids.  The shortest decimal text of a float is a parameter
  (\<open>fmtF\<close>, \<open>strconv.FormatFloat(v, 'f', -1, 64)\<close>), as are the Unicode case maps \<open>up\<close> and \<open>lo\<close> of strings.
\<close>

section \<open>Lists of ids\<close>

text \<open>The runs of consecutive numbers of a sorted list, from the run \<open>lo\<close> to \<open>hi\<close> that is open.\<close>

fun runsFrom :: "int \<Rightarrow> int \<Rightarrow> int list \<Rightarrow> (int \<times> int) list" where
  "runsFrom lo hi [] = [(lo, hi)]"
| "runsFrom lo hi (x # xs) = (if x = hi + 1 then runsFrom lo x xs else (lo, hi) # runsFrom x x xs)"

fun runs :: "int list \<Rightarrow> (int \<times> int) list" where
  "runs [] = []"
| "runs (x # xs) = runsFrom x x xs"

definition runText :: "int \<times> int \<Rightarrow> string" where
  "runText r = (if fst r = snd r then itoa (fst r) else itoa (fst r) @ '' TO '' @ itoa (snd r))"

definition idRuns :: "int list \<Rightarrow> (int \<times> int) list" where
  "idRuns ids = runs (remdups_adj (sort ids))"

definition idRanges :: "int list \<Rightarrow> string" where
  "idRanges ids = str_join '', '' (map runText (idRuns ids))"

section \<open>Affinity of the catalog\<close>

text \<open>
  The lowest bit, and the loop \<open>for m := uint64(mask); m != 0; m &= m - 1\<close>.
\<close>

definition trailingZeros :: "64 word \<Rightarrow> nat" where
  "trailingZeros m = length (takeWhile (\<lambda>n. \<not> bit m n) [0..<64])"

lemma and_pred_less: "m \<noteq> 0 \<Longrightarrow> unat (m AND (m - 1)) < unat (m :: 64 word)"
proof -
  assume "m \<noteq> 0"
  then have "unat (m - 1) < unat m" by (simp add: unat_gt_0 unat_minus_one)
  moreover have "m AND (m - 1) \<le> m - 1" by (rule word_and_le1)
  ultimately show ?thesis by (simp add: word_le_nat_alt)
qed

function maskBits :: "64 word \<Rightarrow> nat list" where
  "maskBits m = (if m = 0 then [] else trailingZeros m # maskBits (m AND (m - 1)))"
  by pat_completeness auto
termination by (relation "measure unat") (auto simp: and_pred_less)

declare maskBits.simps [simp del]

text \<open>The visible schedulers of each group, as a map: its entries, each group once.\<close>

definition groupSize :: "(int \<times> nat) list \<Rightarrow> int \<Rightarrow> nat" where
  "groupSize n g = (case map_of n g of None \<Rightarrow> 0 | Some c \<Rightarrow> c)"

definition groupBase :: "(int \<times> nat) list \<Rightarrow> int \<Rightarrow> nat" where
  "groupBase n g = sum_list (map snd (filter (\<lambda>(k, c). k < g) n))"

text \<open>\<open>schedulerGroupSizes\<close>: the schedulers counted by group, from the group of each.\<close>

fun countGroup :: "int \<Rightarrow> (int \<times> nat) list \<Rightarrow> (int \<times> nat) list" where
  "countGroup g [] = [(g, 1)]"
| "countGroup g ((k, c) # n) = (if k = g then (k, c + 1) # n else (k, c) # countGroup g n)"

definition schedulerGroupSizes :: "int list res \<Rightarrow> (int \<times> nat) list res" where
  "schedulerGroupSizes scheds =
     (case scheds of
        Inr gs \<Rightarrow> Inr (foldl (\<lambda>n g. countGroup g n) [] gs)
      | Inl e \<Rightarrow>
          Inl (case AsSQLError e of
              Some se \<Rightarrow> if Number se = 297 \<or> Number se = 300
                then Caused ErrUnsupported ''mapping affinity beyond processor group 0 reads sys.dm_os_schedulers, which needs VIEW SERVER STATE (VIEW SERVER PERFORMANCE STATE from SQL Server 2022): %w'' [] e
                else e
            | None \<Rightarrow> e))"

text \<open>
  Where the ids of a group begin, and how many it has: for group 0, without asking.  What is scripted is
  the noun and the name that its text, \<open>%s %q\<close>, shows.
\<close>

definition groupPlace :: "fmt_arg list \<Rightarrow> int \<Rightarrow> (int \<times> nat) list res option \<Rightarrow> (nat \<times> nat) res" where
  "groupPlace what g sizes =
     (if g = 0 then Inr (0, 64)
      else case sizes of
        None \<Rightarrow> Inl (unsupportedf ''gosmo: script %s %q: affinity in processor group %d cannot be mapped to scheduler ids from the catalog'' (what @ [ANum g]))
      | Some (Inl e) \<Rightarrow> Inl (Wrapped ''gosmo: script %s %q: %w'' what e)
      | Some (Inr n) \<Rightarrow>
          if groupSize n g = 0
          then Inl (unsupportedf ''gosmo: script %s %q: affinity names processor group %d, which has no visible schedulers'' (what @ [ANum g]))
          else Inr (groupBase n g, groupSize n g))"

definition bitIds :: "fmt_arg list \<Rightarrow> int \<Rightarrow> nat \<times> nat \<Rightarrow> 64 word \<Rightarrow> int list res" where
  "bitIds what g place m =
     (case find (\<lambda>b. snd place \<le> b) (maskBits m) of
        Some b \<Rightarrow> Inl (unsupportedf ''gosmo: script %s %q: affinity bit %d is past processor group %d's %d visible schedulers''
          (what @ [ANum (int b), ANum g, ANum (int (snd place))]))
      | None \<Rightarrow> Inr (map (\<lambda>b. int (fst place + b)) (maskBits m)))"

fun affinityIds :: "fmt_arg list \<Rightarrow> (int \<times> 64 word) list \<Rightarrow> (int \<times> nat) list res option \<Rightarrow> int list res" where
  "affinityIds what [] sizes = Inr []"
| "affinityIds what ((g, m) # gs) sizes =
     (if m = 0 then affinityIds what gs sizes
      else res_bind (groupPlace what g sizes) (\<lambda>place.
        res_bind (bitIds what g place m) (\<lambda>ids.
        res_bind (affinityIds what gs sizes) (\<lambda>rest. Inr (ids @ rest)))))"

definition affinityList :: "fmt_arg list \<Rightarrow> (int \<times> 64 word) list \<Rightarrow> (int \<times> nat) list res option \<Rightarrow> string res" where
  "affinityList what gs sizes = res_bind (affinityIds what gs sizes) (\<lambda>ids. Inr (idRanges ids))"


section \<open>The WITH list\<close>

text \<open>\<open>rgOptions\<close>: the items so far.\<close>

definition rgInt :: "string \<Rightarrow> int option \<Rightarrow> string list" where
  "rgInt name v = (case v of None \<Rightarrow> [] | Some n \<Rightarrow> [name @ '' = '' @ itoa n])"

definition rgFloat :: "(gofloat \<Rightarrow> string) \<Rightarrow> string \<Rightarrow> gofloat option \<Rightarrow> string list" where
  "rgFloat fmtF name v = (case v of None \<Rightarrow> [] | Some q \<Rightarrow> [name @ '' = '' @ fmtF q])"

definition rgWith :: "string list \<Rightarrow> string" where
  "rgWith parts = (if parts = [] then [] else '' WITH ('' @ str_join '', '' parts @ '')'')"

record PoolAffinity =
  paSchedulers :: "int list"
  paNUMANodes :: "int list"

definition affinityItem :: "string \<Rightarrow> PoolAffinity \<Rightarrow> string res" where
  "affinityItem word a =
     (if paSchedulers a \<noteq> [] \<and> paNUMANodes a \<noteq> []
      then Inl (invalidf ''affinity names both %s ids and NUMA nodes; set one'' [AText (map lower_char word)])
      else case find (\<lambda>i. i < 0) (paSchedulers a @ paNUMANodes a) of
        Some i \<Rightarrow> Inl (invalidf ''affinity id %d is negative'' [ANum i])
      | None \<Rightarrow>
          Inr (if paNUMANodes a \<noteq> [] then ''AFFINITY NUMANODE = ('' @ idRanges (paNUMANodes a) @ '')''
               else if paSchedulers a \<noteq> [] then ''AFFINITY '' @ word @ '' = ('' @ idRanges (paSchedulers a) @ '')''
               else ''AFFINITY '' @ word @ '' = AUTO''))"

definition withAffinity :: "string list \<Rightarrow> string \<Rightarrow> PoolAffinity option \<Rightarrow> string list res" where
  "withAffinity parts word a =
     (case a of None \<Rightarrow> Inr parts | Some a \<Rightarrow> res_bind (affinityItem word a) (\<lambda>item. Inr (parts @ [item])))"

section \<open>The kinds of pool\<close>

record poolKind =
  pkNoun :: string
  pkDdl :: string
  pkView :: string
  pkWord :: string

definition resourcePoolKind :: poolKind where
  "resourcePoolKind = \<lparr>pkNoun = ''resource pool'', pkDdl = ''RESOURCE POOL'',
     pkView = ''sys.resource_governor_resource_pools'', pkWord = ''SCHEDULER''\<rparr>"

definition externalPoolKind :: poolKind where
  "externalPoolKind = \<lparr>pkNoun = ''external resource pool'', pkDdl = ''EXTERNAL RESOURCE POOL'',
     pkView = ''sys.resource_governor_external_resource_pools'', pkWord = ''CPU''\<rparr>"

definition createPool :: "'w driver \<Rightarrow> ctx \<Rightarrow> server \<Rightarrow> poolKind \<Rightarrow> string \<Rightarrow> string list res \<Rightarrow> 'p \<Rightarrow>
    (string \<Rightarrow> 'w st \<Rightarrow> 'p res \<times> 'w st) \<Rightarrow> 'w st \<Rightarrow> 'p res \<times> 'w st" where
  "createPool D c srv k name rendering ref byName s =
     (if trim_space name = [] then (Inl (invalidf ''gosmo: create %s: pool has no name'' [AText (pkNoun k)]), s)
      else case rendering of
        Inl e \<Rightarrow> (Inl (Wrapped ''gosmo: create %s %q: %w'' [AText (pkNoun k), AText name] e), s)
      | Inr w \<Rightarrow>
          (case serverExec D c srv (''CREATE '' @ pkDdl k @ '' '' @ QuoteName name @ rgWith w) [] s of
             (Some e, s1) \<Rightarrow> (Inl (Wrapped ''gosmo: create %s %q: %w'' [AText (pkNoun k), AText name] e), s1)
           | (None, s1) \<Rightarrow> createdObject c ref (byName name) s1))"

definition alterPool :: "'w driver \<Rightarrow> ctx \<Rightarrow> server \<Rightarrow> poolKind \<Rightarrow> string \<Rightarrow> string list res \<Rightarrow> 'w st \<Rightarrow>
    (bool \<times> goerr option) \<times> 'w st" where
  "alterPool D c srv k name rendering s =
     (case rendering of
        Inl e \<Rightarrow> ((False, Some (Wrapped ''gosmo: alter %s %q: %w'' [AText (pkNoun k), AText name] e)), s)
      | Inr w \<Rightarrow>
          if w = [] then ((False, None), s)
          else (case serverExec D c srv (''ALTER '' @ pkDdl k @ '' '' @ QuoteName name @ rgWith w) [] s of
              (Some e, s1) \<Rightarrow> ((False, Some (Wrapped ''gosmo: alter %s %q: %w'' [AText (pkNoun k), AText name] e)), s1)
            | (None, s1) \<Rightarrow> ((True, None), s1)))"

definition dropPool :: "'w driver \<Rightarrow> ctx \<Rightarrow> server \<Rightarrow> poolKind \<Rightarrow> string \<Rightarrow> 'w st \<Rightarrow> goerr option \<times> 'w st" where
  "dropPool D c srv k name s =
     (case serverExec D c srv (''DROP '' @ pkDdl k @ '' '' @ QuoteName name) [] s of
        (Some e, s1) \<Rightarrow> (Some (Wrapped ''gosmo: drop %s %q: %w'' [AText (pkNoun k), AText name] e), s1)
      | (None, s1) \<Rightarrow> (None, s1))"

definition systemMaxID :: int where "systemMaxID = 2"

definition isSystemID :: "int \<Rightarrow> bool" where
  "isSystemID i \<longleftrightarrow> 0 < i \<and> i \<le> systemMaxID"

definition rgReconfigureNote :: string where
  "rgReconfigureNote =
     ''-- Takes effect after ALTER RESOURCE GOVERNOR RECONFIGURE, which also enables a disabled governor.'' @ [nl]"

definition systemRGScript :: "string \<Rightarrow> string \<Rightarrow> string \<Rightarrow> string list \<Rightarrow> string \<Rightarrow> string" where
  "systemRGScript alter kind name parts using_pools =
     (if parts = [] \<and> using_pools = []
      then ''-- '' @ kind @ '' '' @ CommentSafe (QuoteName name) @ '' is built in and has its default settings.'' @ [nl]
      else alter @ '' '' @ QuoteName name @ rgWith parts @ using_pools @ '';'' @ [nl] @ ''GO'' @ [nl])"

definition refuseSystemDrop :: "ScriptOptions \<Rightarrow> string \<Rightarrow> string \<Rightarrow> goerr option" where
  "refuseSystemDrop opts kind name =
     (if scriptVerb opts = ScriptDrop \<or> scriptVerb opts = ScriptDropAndCreate
      then Some (unsupportedf ''gosmo: script %s %q: a built-in %s cannot be dropped'' [AText kind, AText name, AText kind])
      else None)"

text \<open>The tests of the view before a statement, dropping or creating.\<close>

definition existsTest :: "string \<Rightarrow> string \<Rightarrow> string \<Rightarrow> string" where
  "existsTest word view name = ''IF '' @ word @ '' (SELECT 1 FROM '' @ view @ '' WHERE name = N'' @ [squote] @ escapeSingle name @
     [squote] @ '')'' @ [nl]"

definition poolScript :: "poolKind \<Rightarrow> string \<Rightarrow> int \<Rightarrow> (int \<times> 64 word) list \<Rightarrow> string list \<Rightarrow> ScriptOptions \<Rightarrow>
    (int \<times> nat) list res option \<Rightarrow> string res" where
  "poolScript k name pid gs parts opts sizes =
     res_bind (affinityList [AText (pkNoun k), AText name] gs sizes) (\<lambda>aff.
     let w = parts @ (if aff \<noteq> [] then [''AFFINITY '' @ pkWord k @ '' = ('' @ aff @ '')''] else [])
     in if isSystemID pid
        then (case refuseSystemDrop opts (pkNoun k) name of Some e \<Rightarrow> Inl e
              | None \<Rightarrow> Inr (systemRGScript (''ALTER '' @ pkDdl k) (pkNoun k) name w []))
        else Inr (envelope opts
          (existsTest ''EXISTS'' (pkView k) name @ ''    DROP '' @ pkDdl k @ '' '' @ QuoteName name @ '';'' @ [nl] @ ''GO'' @ [nl])
          (existsTest ''NOT EXISTS'' (pkView k) name)
          (''CREATE '' @ pkDdl k @ '' '' @ QuoteName name @ rgWith w @ '';'' @ [nl] @ ''GO'' @ [nl] @ rgReconfigureNote)))"


section \<open>Resource pools\<close>

record ResourcePoolOptions =
  poMinCPU :: "int option"
  poMaxCPU :: "int option"
  poCapCPU :: "int option"
  poMinMemory :: "int option"
  poMaxMemory :: "int option"
  poMinIOPS :: "int option"
  poMaxIOPS :: "int option"
  poAffinity :: "PoolAffinity option"

definition renderPool :: "ResourcePoolOptions \<Rightarrow> string list res" where
  "renderPool opts = withAffinity
     (rgInt ''MIN_CPU_PERCENT'' (poMinCPU opts) @ rgInt ''MAX_CPU_PERCENT'' (poMaxCPU opts) @
      rgInt ''CAP_CPU_PERCENT'' (poCapCPU opts) @ rgInt ''MIN_MEMORY_PERCENT'' (poMinMemory opts) @
      rgInt ''MAX_MEMORY_PERCENT'' (poMaxMemory opts) @ rgInt ''MIN_IOPS_PER_VOLUME'' (poMinIOPS opts) @
      rgInt ''MAX_IOPS_PER_VOLUME'' (poMaxIOPS opts)) (pkWord resourcePoolKind) (poAffinity opts)"

record ResourcePool =
  rpID :: int
  rpName :: string
  rpMinCPU :: int
  rpMaxCPU :: int
  rpCapCPU :: int
  rpMinMemory :: int
  rpMaxMemory :: int
  rpMinIOPS :: int
  rpMaxIOPS :: int
  rpAffinity :: "(int \<times> 64 word) list"

definition ResourcePoolRef :: "string \<Rightarrow> ResourcePool" where
  "ResourcePoolRef name = \<lparr>rpID = 0, rpName = name, rpMinCPU = 0, rpMaxCPU = 0, rpCapCPU = 0, rpMinMemory = 0,
     rpMaxMemory = 0, rpMinIOPS = 0, rpMaxIOPS = 0, rpAffinity = []\<rparr>"

definition CreateResourcePool :: "'w driver \<Rightarrow> ctx \<Rightarrow> server \<Rightarrow> (string \<Rightarrow> 'w st \<Rightarrow> ResourcePool res \<times> 'w st) \<Rightarrow> string \<Rightarrow>
    ResourcePoolOptions \<Rightarrow> 'w st \<Rightarrow> ResourcePool res \<times> 'w st" where
  "CreateResourcePool D c srv byName name opts s =
     createPool D c srv resourcePoolKind name (renderPool opts) (ResourcePoolRef name) byName s"

definition mirrorPool :: "ctx \<Rightarrow> ResourcePoolOptions \<Rightarrow> ResourcePool \<Rightarrow> ResourcePool" where
  "mirrorPool c opts p = p \<lparr>rpMinCPU := setPtrIfApplied c (rpMinCPU p) (poMinCPU opts),
     rpMaxCPU := setPtrIfApplied c (rpMaxCPU p) (poMaxCPU opts), rpCapCPU := setPtrIfApplied c (rpCapCPU p) (poCapCPU opts),
     rpMinMemory := setPtrIfApplied c (rpMinMemory p) (poMinMemory opts),
     rpMaxMemory := setPtrIfApplied c (rpMaxMemory p) (poMaxMemory opts),
     rpMinIOPS := setPtrIfApplied c (rpMinIOPS p) (poMinIOPS opts),
     rpMaxIOPS := setPtrIfApplied c (rpMaxIOPS p) (poMaxIOPS opts)\<rparr>"

definition alterResourcePool :: "'w driver \<Rightarrow> ctx \<Rightarrow> server \<Rightarrow> ResourcePool \<Rightarrow> ResourcePoolOptions \<Rightarrow> 'w st \<Rightarrow>
    goerr option \<times> ResourcePool \<times> 'w st" where
  "alterResourcePool D c srv p opts s =
     (case alterPool D c srv resourcePoolKind (rpName p) (renderPool opts) s of
        ((executed, err), s1) \<Rightarrow> if \<not> executed then (err, p, s1) else (None, mirrorPool c opts p, s1))"

definition unlessDefault :: "int \<Rightarrow> int \<Rightarrow> int option" where
  "unlessDefault v deflt = (if v \<noteq> deflt then Some v else None)"

definition poolNonDefault :: "ResourcePool \<Rightarrow> ResourcePoolOptions" where
  "poolNonDefault p = \<lparr>poMinCPU = unlessDefault (rpMinCPU p) 0, poMaxCPU = unlessDefault (rpMaxCPU p) 100,
     poCapCPU = unlessDefault (rpCapCPU p) 100, poMinMemory = unlessDefault (rpMinMemory p) 0,
     poMaxMemory = unlessDefault (rpMaxMemory p) 100, poMinIOPS = unlessDefault (rpMinIOPS p) 0,
     poMaxIOPS = unlessDefault (rpMaxIOPS p) 0, poAffinity = None\<rparr>"

definition poolItems :: "string list res \<Rightarrow> string list" where
  "poolItems r = (case r of Inl e \<Rightarrow> [] | Inr w \<Rightarrow> w)"

definition buildResourcePoolScript :: "ResourcePool \<Rightarrow> ScriptOptions \<Rightarrow> (int \<times> nat) list res option \<Rightarrow> string res" where
  "buildResourcePoolScript p opts sizes =
     poolScript resourcePoolKind (rpName p) (rpID p) (rpAffinity p) (poolItems (renderPool (poolNonDefault p))) opts sizes"

section \<open>External resource pools\<close>

record ExternalPoolOptions =
  eoMaxCPU :: "int option"
  eoMaxMemory :: "int option"
  eoMaxProcesses :: "int option"
  eoAffinity :: "PoolAffinity option"

definition renderExternal :: "ExternalPoolOptions \<Rightarrow> string list res" where
  "renderExternal opts = withAffinity
     (rgInt ''MAX_CPU_PERCENT'' (eoMaxCPU opts) @ rgInt ''MAX_MEMORY_PERCENT'' (eoMaxMemory opts) @
      rgInt ''MAX_PROCESSES'' (eoMaxProcesses opts)) (pkWord externalPoolKind) (eoAffinity opts)"

record ExternalResourcePool =
  epID :: int
  epName :: string
  epMaxCPU :: int
  epMaxMemory :: int
  epMaxProcesses :: int
  epAffinity :: "(int \<times> 64 word) list"

definition ExternalResourcePoolRef :: "string \<Rightarrow> ExternalResourcePool" where
  "ExternalResourcePoolRef name = \<lparr>epID = 0, epName = name, epMaxCPU = 0, epMaxMemory = 0, epMaxProcesses = 0, epAffinity = []\<rparr>"

definition CreateExternalResourcePool :: "'w driver \<Rightarrow> ctx \<Rightarrow> server \<Rightarrow>
    (string \<Rightarrow> 'w st \<Rightarrow> ExternalResourcePool res \<times> 'w st) \<Rightarrow> string \<Rightarrow> ExternalPoolOptions \<Rightarrow> 'w st \<Rightarrow>
    ExternalResourcePool res \<times> 'w st" where
  "CreateExternalResourcePool D c srv byName name opts s =
     createPool D c srv externalPoolKind name (renderExternal opts) (ExternalResourcePoolRef name) byName s"

definition mirrorExternal :: "ctx \<Rightarrow> ExternalPoolOptions \<Rightarrow> ExternalResourcePool \<Rightarrow> ExternalResourcePool" where
  "mirrorExternal c opts p = p \<lparr>epMaxCPU := setPtrIfApplied c (epMaxCPU p) (eoMaxCPU opts),
     epMaxMemory := setPtrIfApplied c (epMaxMemory p) (eoMaxMemory opts),
     epMaxProcesses := setPtrIfApplied c (epMaxProcesses p) (eoMaxProcesses opts)\<rparr>"

definition alterExternalPool :: "'w driver \<Rightarrow> ctx \<Rightarrow> server \<Rightarrow> ExternalResourcePool \<Rightarrow> ExternalPoolOptions \<Rightarrow> 'w st \<Rightarrow>
    goerr option \<times> ExternalResourcePool \<times> 'w st" where
  "alterExternalPool D c srv p opts s =
     (case alterPool D c srv externalPoolKind (epName p) (renderExternal opts) s of
        ((executed, err), s1) \<Rightarrow> if \<not> executed then (err, p, s1) else (None, mirrorExternal c opts p, s1))"

definition externalNonDefault :: "ExternalResourcePool \<Rightarrow> ExternalPoolOptions" where
  "externalNonDefault p = \<lparr>eoMaxCPU = unlessDefault (epMaxCPU p) 100, eoMaxMemory = unlessDefault (epMaxMemory p) 20,
     eoMaxProcesses = unlessDefault (epMaxProcesses p) 0, eoAffinity = None\<rparr>"

definition buildExternalPoolScript :: "ExternalResourcePool \<Rightarrow> ScriptOptions \<Rightarrow> (int \<times> nat) list res option \<Rightarrow> string res" where
  "buildExternalPoolScript p opts sizes =
     poolScript externalPoolKind (epName p) (epID p) (epAffinity p) (poolItems (renderExternal (externalNonDefault p))) opts sizes"


section \<open>Workload groups\<close>

record WorkloadGroupOptions =
  woImportance :: "string option"
  woMaxGrant :: "gofloat option"
  woMaxCPUTime :: "int option"
  woGrantTimeout :: "int option"
  woMaxDOP :: "int option"
  woMaxRequests :: "int option"
  woTempdbPercent :: "gofloat option"
  woTempdbMB :: "gofloat option"
  woClearPercent :: bool
  woClearMB :: bool
  woPool :: "string option"
  woExternalPool :: "string option"

definition noGroupOptions :: WorkloadGroupOptions where
  "noGroupOptions = \<lparr>woImportance = None, woMaxGrant = None, woMaxCPUTime = None, woGrantTimeout = None, woMaxDOP = None,
     woMaxRequests = None, woTempdbPercent = None, woTempdbMB = None, woClearPercent = False, woClearMB = False,
     woPool = None, woExternalPool = None\<rparr>"

text \<open>\<open>v != float64(int64(v))\<close>: not a whole number of an \<open>int64\<close>.\<close>

fun fractional :: "gofloat \<Rightarrow> bool" where
  "fractional (Fin q) = (\<not> (of_int \<lfloor>q\<rfloor> = q \<and> - (2 ^ 63) \<le> q \<and> q < 2 ^ 63))"
| "fractional NegZero = False"
| "fractional _ = True"

definition groupRefusal :: "(string \<Rightarrow> string) \<Rightarrow> (gofloat \<Rightarrow> string) \<Rightarrow> WorkloadGroupOptions \<Rightarrow> int \<Rightarrow> goerr option" where
  "groupRefusal up fmtF opts major = first_failing [
     ((case woImportance opts of None \<Rightarrow> False | Some i \<Rightarrow> up i \<notin> {''LOW'', ''MEDIUM'', ''HIGH''}),
      invalidf ''importance %q is not Low, Medium or High'' [AText (case woImportance opts of None \<Rightarrow> [] | Some i \<Rightarrow> i)]),
     ((case woMaxGrant opts of None \<Rightarrow> False | Some v \<Rightarrow> fractional v \<and> majorBefore major SQLServer2019),
      unsupportedVersionf ''a fractional request max memory grant percent (%s) needs SQL Server 2019 or later; this instance is major %d''
        [AText (case woMaxGrant opts of None \<Rightarrow> [] | Some v \<Rightarrow> fmtF v), ANum major]),
     (woTempdbPercent opts \<noteq> None \<and> woClearPercent opts \<or> woTempdbMB opts \<noteq> None \<and> woClearMB opts,
      invalidf ''a tempdb limit is both set and cleared'' []),
     ((woTempdbPercent opts \<noteq> None \<or> woTempdbMB opts \<noteq> None \<or> woClearPercent opts \<or> woClearMB opts) \<and>
        majorBefore major SQLServer2025,
      unsupportedVersionf ''tempdb limits on a workload group need SQL Server 2025 or later; this instance is major %d'' [ANum major])]"

definition groupItems :: "(string \<Rightarrow> string) \<Rightarrow> (gofloat \<Rightarrow> string) \<Rightarrow> WorkloadGroupOptions \<Rightarrow> string list" where
  "groupItems up fmtF opts =
     (case woImportance opts of None \<Rightarrow> [] | Some i \<Rightarrow> [''IMPORTANCE = '' @ up i]) @
     rgFloat fmtF ''REQUEST_MAX_MEMORY_GRANT_PERCENT'' (woMaxGrant opts) @
     rgInt ''REQUEST_MAX_CPU_TIME_SEC'' (woMaxCPUTime opts) @
     rgInt ''REQUEST_MEMORY_GRANT_TIMEOUT_SEC'' (woGrantTimeout opts) @
     rgInt ''MAX_DOP'' (woMaxDOP opts) @ rgInt ''GROUP_MAX_REQUESTS'' (woMaxRequests opts) @
     rgFloat fmtF ''GROUP_MAX_TEMPDB_DATA_PERCENT'' (woTempdbPercent opts) @
     (if woClearPercent opts then [''GROUP_MAX_TEMPDB_DATA_PERCENT = NULL''] else []) @
     rgFloat fmtF ''GROUP_MAX_TEMPDB_DATA_MB'' (woTempdbMB opts) @
     (if woClearMB opts then [''GROUP_MAX_TEMPDB_DATA_MB = NULL''] else [])"

definition usingPools :: "WorkloadGroupOptions \<Rightarrow> string" where
  "usingPools opts =
     (let us = (case woPool opts of None \<Rightarrow> [] | Some p \<Rightarrow> [QuoteName p]) @
            (case woExternalPool opts of None \<Rightarrow> [] | Some p \<Rightarrow> [''EXTERNAL '' @ QuoteName p])
      in if us = [] then [] else '' USING '' @ str_join '', '' us)"

definition renderGroup :: "(string \<Rightarrow> string) \<Rightarrow> (gofloat \<Rightarrow> string) \<Rightarrow> WorkloadGroupOptions \<Rightarrow> int \<Rightarrow> (string list \<times> string) res" where
  "renderGroup up fmtF opts major =
     (case groupRefusal up fmtF opts major of Some e \<Rightarrow> Inl e
      | None \<Rightarrow> Inr (groupItems up fmtF opts, usingPools opts))"

record WorkloadGroup =
  wgID :: int
  wgName :: string
  wgPoolName :: string
  wgExternalPoolName :: string
  wgImportance :: string
  wgMaxGrant :: gofloat
  wgMaxCPUTime :: int
  wgGrantTimeout :: int
  wgMaxDOP :: int
  wgMaxRequests :: int
  wgTempdbPercent :: "gofloat option"
  wgTempdbMB :: "gofloat option"

definition WorkloadGroupRef :: "string \<Rightarrow> WorkloadGroup" where
  "WorkloadGroupRef name = \<lparr>wgID = 0, wgName = name, wgPoolName = [], wgExternalPoolName = [], wgImportance = [],
     wgMaxGrant = Fin 0, wgMaxCPUTime = 0, wgGrantTimeout = 0, wgMaxDOP = 0, wgMaxRequests = 0,
     wgTempdbPercent = None, wgTempdbMB = None\<rparr>"

definition CreateWorkloadGroup :: "(string \<Rightarrow> string) \<Rightarrow> (gofloat \<Rightarrow> string) \<Rightarrow> int \<Rightarrow> 'w driver \<Rightarrow> ctx \<Rightarrow> server \<Rightarrow>
    (string \<Rightarrow> 'w st \<Rightarrow> WorkloadGroup res \<times> 'w st) \<Rightarrow> string \<Rightarrow> WorkloadGroupOptions \<Rightarrow> 'w st \<Rightarrow> WorkloadGroup res \<times> 'w st" where
  "CreateWorkloadGroup up fmtF major D c srv byName name opts s =
     (if trim_space name = [] then (Inl (invalidf ''gosmo: create workload group: group has no name'' []), s)
      else case renderGroup up fmtF opts major of
        Inl e \<Rightarrow> (Inl (Wrapped ''gosmo: create workload group %q: %w'' [AText name] e), s)
      | Inr (w, us) \<Rightarrow>
          (case serverExec D c srv (''CREATE WORKLOAD GROUP '' @ QuoteName name @ rgWith w @ us) [] s of
             (Some e, s1) \<Rightarrow> (Inl (Wrapped ''gosmo: create workload group %q: %w'' [AText name] e), s1)
           | (None, s1) \<Rightarrow> createdObject c (WorkloadGroupRef name) (byName name) s1))"

text \<open>The catalog's spelling of an importance: its first letter upper, the others lower.\<close>

definition catalogImportance :: "(string \<Rightarrow> string) \<Rightarrow> (string \<Rightarrow> string) \<Rightarrow> string \<Rightarrow> string" where
  "catalogImportance up lo i = up (take 1 (lo i)) @ drop 1 (lo i)"

definition mirrorLimit :: "ctx \<Rightarrow> gofloat option \<Rightarrow> gofloat option \<Rightarrow> bool \<Rightarrow> gofloat option" where
  "mirrorLimit c old v clear =
     (let new = (if v \<noteq> None then setIfApplied c old v else old)
      in if clear then setIfApplied c new None else new)"

definition mirrorGroup :: "(string \<Rightarrow> string) \<Rightarrow> (string \<Rightarrow> string) \<Rightarrow> ctx \<Rightarrow> WorkloadGroupOptions \<Rightarrow> WorkloadGroup \<Rightarrow> WorkloadGroup" where
  "mirrorGroup up lo c opts g = g \<lparr>
     wgImportance := setPtrIfApplied c (wgImportance g) (map_option (catalogImportance up lo) (woImportance opts)),
     wgMaxGrant := setPtrIfApplied c (wgMaxGrant g) (woMaxGrant opts),
     wgMaxCPUTime := setPtrIfApplied c (wgMaxCPUTime g) (woMaxCPUTime opts),
     wgGrantTimeout := setPtrIfApplied c (wgGrantTimeout g) (woGrantTimeout opts),
     wgMaxDOP := setPtrIfApplied c (wgMaxDOP g) (woMaxDOP opts),
     wgMaxRequests := setPtrIfApplied c (wgMaxRequests g) (woMaxRequests opts),
     wgTempdbPercent := mirrorLimit c (wgTempdbPercent g) (woTempdbPercent opts) (woClearPercent opts),
     wgTempdbMB := mirrorLimit c (wgTempdbMB g) (woTempdbMB opts) (woClearMB opts),
     wgPoolName := setPtrIfApplied c (wgPoolName g) (woPool opts),
     wgExternalPoolName := setPtrIfApplied c (wgExternalPoolName g) (woExternalPool opts)\<rparr>"

definition alterWorkloadGroup :: "(string \<Rightarrow> string) \<Rightarrow> (string \<Rightarrow> string) \<Rightarrow> (gofloat \<Rightarrow> string) \<Rightarrow> int \<Rightarrow> 'w driver \<Rightarrow> ctx \<Rightarrow>
    server \<Rightarrow> WorkloadGroup \<Rightarrow> WorkloadGroupOptions \<Rightarrow> 'w st \<Rightarrow> goerr option \<times> WorkloadGroup \<times> 'w st" where
  "alterWorkloadGroup up lo fmtF major D c srv g opts s =
     (case renderGroup up fmtF opts major of
        Inl e \<Rightarrow> (Some (Wrapped ''gosmo: alter workload group %q: %w'' [AText (wgName g)] e), g, s)
      | Inr (w, us) \<Rightarrow>
          if w = [] \<and> us = [] then (None, g, s)
          else (case serverExec D c srv (''ALTER WORKLOAD GROUP '' @ QuoteName (wgName g) @ rgWith w @ us) [] s of
              (Some e, s1) \<Rightarrow> (Some (Wrapped ''gosmo: alter workload group %q: %w'' [AText (wgName g)] e), g, s1)
            | (None, s1) \<Rightarrow> (None, mirrorGroup up lo c opts g, s1)))"

definition dropWorkloadGroup :: "'w driver \<Rightarrow> ctx \<Rightarrow> server \<Rightarrow> string \<Rightarrow> 'w st \<Rightarrow> goerr option \<times> 'w st" where
  "dropWorkloadGroup D c srv name s =
     (case serverExec D c srv (''DROP WORKLOAD GROUP '' @ QuoteName name) [] s of
        (Some e, s1) \<Rightarrow> (Some (Wrapped ''gosmo: drop workload group %q: %w'' [AText name] e), s1)
      | (None, s1) \<Rightarrow> (None, s1))"

text \<open>\<open>EqualFold\<close> on an importance; \<open>sf\<close> is \<open>unicode.SimpleFold\<close>.\<close>

definition groupNonDefault :: "(nat \<Rightarrow> nat) \<Rightarrow> WorkloadGroup \<Rightarrow> WorkloadGroupOptions" where
  "groupNonDefault sf g = noGroupOptions \<lparr>
     woImportance := (if wgImportance g \<noteq> [] \<and> \<not> EqualFold sf (wgImportance g) ''Medium'' then Some (wgImportance g) else None),
     woMaxGrant := (if wgMaxGrant g \<noteq> Fin 25 then Some (wgMaxGrant g) else None),
     woMaxCPUTime := unlessDefault (wgMaxCPUTime g) 0, woGrantTimeout := unlessDefault (wgGrantTimeout g) 0,
     woMaxDOP := unlessDefault (wgMaxDOP g) 0, woMaxRequests := unlessDefault (wgMaxRequests g) 0,
     woTempdbPercent := wgTempdbPercent g, woTempdbMB := wgTempdbMB g,
     woPool := (if wgPoolName g \<noteq> [] \<and> wgPoolName g \<noteq> ''default'' then Some (wgPoolName g)
        else if wgExternalPoolName g \<noteq> [] \<and> wgExternalPoolName g \<noteq> ''default'' then Some ''default'' else None),
     woExternalPool := (if wgExternalPoolName g \<noteq> [] \<and> wgExternalPoolName g \<noteq> ''default'' then Some (wgExternalPoolName g)
        else None)\<rparr>"

definition buildWorkloadGroupScript :: "(nat \<Rightarrow> nat) \<Rightarrow> (string \<Rightarrow> string) \<Rightarrow> (gofloat \<Rightarrow> string) \<Rightarrow> WorkloadGroup \<Rightarrow>
    ScriptOptions \<Rightarrow> string res" where
  "buildWorkloadGroupScript sf up fmtF g opts =
     (let view = ''sys.resource_governor_workload_groups''
      in case renderGroup up fmtF (groupNonDefault sf g) 0 of
        Inl e \<Rightarrow> Inl (Wrapped ''gosmo: script workload group %q: %w'' [AText (wgName g)] e)
      | Inr (w, us) \<Rightarrow>
          if isSystemID (wgID g)
          then (case refuseSystemDrop opts ''workload group'' (wgName g) of Some e \<Rightarrow> Inl e
                | None \<Rightarrow> Inr (systemRGScript ''ALTER WORKLOAD GROUP'' ''workload group'' (wgName g) w us))
          else Inr (envelope opts
            (existsTest ''EXISTS'' view (wgName g) @ ''    DROP WORKLOAD GROUP '' @ QuoteName (wgName g) @ '';'' @ [nl] @ ''GO'' @ [nl])
            (existsTest ''NOT EXISTS'' view (wgName g))
            (''CREATE WORKLOAD GROUP '' @ QuoteName (wgName g) @ rgWith w @ us @ '';'' @ [nl] @ ''GO'' @ [nl] @ rgReconfigureNote)))"

section \<open>The governor\<close>

record ResourceGovernor =
  rgEnabled :: bool
  rgClassifierID :: int
  rgClassifierSchema :: string
  rgClassifierName :: string
  rgMaxIO :: int

definition alterGovernor :: "'w driver \<Rightarrow> ctx \<Rightarrow> server \<Rightarrow> string \<Rightarrow> string \<Rightarrow> 'w st \<Rightarrow> goerr option \<times> 'w st" where
  "alterGovernor D c srv clause what s =
     (case serverExec D c srv (''ALTER RESOURCE GOVERNOR '' @ clause) [] s of
        (Some e, s1) \<Rightarrow> (Some (Wrapped ''gosmo: %s: %w'' [AText what] e), s1)
      | (None, s1) \<Rightarrow> (None, s1))"

text \<open>A statement on the governor, and what it mirrors when it ran.\<close>

definition governorWrite :: "'w driver \<Rightarrow> ctx \<Rightarrow> server \<Rightarrow> string \<Rightarrow> string \<Rightarrow> (ResourceGovernor \<Rightarrow> ResourceGovernor) \<Rightarrow>
    ResourceGovernor \<Rightarrow> 'w st \<Rightarrow> goerr option \<times> ResourceGovernor \<times> 'w st" where
  "governorWrite D c srv clause what mirror rg s =
     (case alterGovernor D c srv clause what s of
        (Some e, s1) \<Rightarrow> (Some e, rg, s1)
      | (None, s1) \<Rightarrow> (None, mirror rg, s1))"

definition Reconfigure :: "'w driver \<Rightarrow> ctx \<Rightarrow> server \<Rightarrow> ResourceGovernor \<Rightarrow> 'w st \<Rightarrow> goerr option \<times> ResourceGovernor \<times> 'w st" where
  "Reconfigure D c srv rg s = governorWrite D c srv ''RECONFIGURE'' ''reconfigure resource governor''
     (\<lambda>r. r \<lparr>rgEnabled := setIfApplied c (rgEnabled r) True\<rparr>) rg s"

definition EnableGovernor :: "'w driver \<Rightarrow> ctx \<Rightarrow> server \<Rightarrow> ResourceGovernor \<Rightarrow> 'w st \<Rightarrow> goerr option \<times> ResourceGovernor \<times> 'w st" where
  "EnableGovernor D c srv rg s = governorWrite D c srv ''RECONFIGURE'' ''enable resource governor''
     (\<lambda>r. r \<lparr>rgEnabled := setIfApplied c (rgEnabled r) True\<rparr>) rg s"

definition DisableGovernor :: "'w driver \<Rightarrow> ctx \<Rightarrow> server \<Rightarrow> ResourceGovernor \<Rightarrow> 'w st \<Rightarrow> goerr option \<times> ResourceGovernor \<times> 'w st" where
  "DisableGovernor D c srv rg s = governorWrite D c srv ''DISABLE'' ''disable resource governor''
     (\<lambda>r. r \<lparr>rgEnabled := setIfApplied c (rgEnabled r) False\<rparr>) rg s"

definition ResetStatistics :: "'w driver \<Rightarrow> ctx \<Rightarrow> server \<Rightarrow> 'w st \<Rightarrow> goerr option \<times> 'w st" where
  "ResetStatistics D c srv s = alterGovernor D c srv ''RESET STATISTICS'' ''reset resource governor statistics'' s"

definition SetClassifier :: "'w driver \<Rightarrow> ctx \<Rightarrow> server \<Rightarrow> string \<Rightarrow> string \<Rightarrow> ResourceGovernor \<Rightarrow> 'w st \<Rightarrow>
    goerr option \<times> ResourceGovernor \<times> 'w st" where
  "SetClassifier D c srv schema name rg s =
     (if name \<noteq> [] \<and> schema = []
      then (Some (Wrapped ''gosmo: set resource governor classifier %q: %w'' [AText name] (Bare ErrSchemaRequired)), rg, s)
      else governorWrite D c srv
        (''WITH (CLASSIFIER_FUNCTION = '' @ (if name \<noteq> [] then QuoteName schema @ ''.'' @ QuoteName name else ''NULL'') @ '')'')
        ''set resource governor classifier''
        (\<lambda>r. r \<lparr>rgClassifierID := (if name = [] then setIfApplied c (rgClassifierID r) 0 else rgClassifierID r),
                rgClassifierSchema := setIfApplied c (rgClassifierSchema r) (if name = [] then [] else schema),
                rgClassifierName := setIfApplied c (rgClassifierName r) name\<rparr>) rg s)"

definition SetMaxOutstandingIO :: "'w driver \<Rightarrow> ctx \<Rightarrow> server \<Rightarrow> int \<Rightarrow> ResourceGovernor \<Rightarrow> 'w st \<Rightarrow>
    goerr option \<times> ResourceGovernor \<times> 'w st" where
  "SetMaxOutstandingIO D c srv n rg s = governorWrite D c srv
     (''WITH (MAX_OUTSTANDING_IO_PER_VOLUME = '' @ (if n \<noteq> 0 then itoa n else ''DEFAULT'') @ '')'')
     ''set resource governor max outstanding I/O per volume''
     (\<lambda>r. r \<lparr>rgMaxIO := setIfApplied c (rgMaxIO r) n\<rparr>) rg s"

definition buildGovernorScript :: "ResourceGovernor \<Rightarrow> ScriptOptions \<Rightarrow> string res" where
  "buildGovernorScript rg opts =
     (if scriptVerb opts = ScriptDrop \<or> scriptVerb opts = ScriptDropAndCreate
      then Inl (unsupportedf ''gosmo: script resource governor: the configuration cannot be dropped'' [])
      else Inr (
        (if rgClassifierName rg \<noteq> []
         then ''ALTER RESOURCE GOVERNOR WITH (CLASSIFIER_FUNCTION = '' @ QuoteName (rgClassifierSchema rg) @ ''.'' @
           QuoteName (rgClassifierName rg) @ '');'' @ [nl] @ ''GO'' @ [nl] else []) @
        (if rgMaxIO rg \<noteq> 0
         then ''ALTER RESOURCE GOVERNOR WITH (MAX_OUTSTANDING_IO_PER_VOLUME = '' @ itoa (rgMaxIO rg) @ '');'' @ [nl] @ ''GO'' @ [nl]
         else []) @
        (if rgEnabled rg then ''ALTER RESOURCE GOVERNOR RECONFIGURE;'' else ''ALTER RESOURCE GOVERNOR DISABLE;'') @
        [nl] @ ''GO'' @ [nl]))"


section \<open>The bits of a mask\<close>






section \<open>Lists of ids\<close>







section \<open>The affinity reads back\<close>









section \<open>The script restores the settings\<close>

text \<open>The value of a setting in a \<open>WITH\<close> list, as text: its item's, or its default's.\<close>

definition settingText :: "string list \<Rightarrow> string \<Rightarrow> string \<Rightarrow> string" where
  "settingText parts name deflt =
     (case find (\<lambda>t. has_prefix t (name @ '' = '')) parts of
        None \<Rightarrow> deflt
      | Some t \<Rightarrow> drop (length (name @ '' = '')) t)"

lemma settingText_steps:
  "settingText [] name deflt = deflt"
  "settingText (t # parts) name deflt =
     (if has_prefix t (name @ '' = '') then drop (length (name @ '' = '')) t else settingText parts name deflt)"
  by (simp_all add: settingText_def)

lemma item_prefix:
  assumes "CHR '' '' \<notin> set name" "CHR '' '' \<notin> set name'"
  shows "has_prefix (name @ '' = '' @ t) (name' @ '' = '') = (name = name')"
proof
  assume "has_prefix (name @ '' = '' @ t) (name' @ '' = '')"
  then obtain u where "name @ '' = '' @ t = name' @ '' = '' @ u" by (auto simp: has_prefix_iff)
  then have "takeWhile (\<lambda>c. c \<noteq> CHR '' '') (name @ '' = '' @ t) = takeWhile (\<lambda>c. c \<noteq> CHR '' '') (name' @ '' = '' @ u)"
    by simp
  moreover have "takeWhile (\<lambda>c. c \<noteq> CHR '' '') (n @ '' = '' @ v) = n" if "CHR '' '' \<notin> set n" for n v
    using that by (induction n) auto
  ultimately show "name = name'" using assms by simp
qed (auto simp: has_prefix_iff)

text \<open>Reading past the item of another setting, and at one's own.\<close>

lemma settingText_int:
  assumes "CHR '' '' \<notin> set name" "CHR '' '' \<notin> set name'"
  shows "settingText (rgInt name v @ parts) name' deflt =
     (if name = name' \<and> v \<noteq> None then itoa (the v) else settingText parts name' deflt)"
  using item_prefix [OF assms] by (cases v) (auto simp: rgInt_def settingText_steps)

lemma settingText_float:
  assumes "CHR '' '' \<notin> set name" "CHR '' '' \<notin> set name'"
  shows "settingText (rgFloat fmtF name v @ parts) name' deflt =
     (if name = name' \<and> v \<noteq> None then fmtF (the v) else settingText parts name' deflt)"
  using item_prefix [OF assms] by (cases v) (auto simp: rgFloat_def settingText_steps)

lemma settingText_last:
  assumes "CHR '' '' \<notin> set name" "CHR '' '' \<notin> set name'"
  shows "settingText (rgInt name v) name' deflt = (if name = name' \<and> v \<noteq> None then itoa (the v) else deflt)"
  using settingText_int [OF assms, of v "[]" deflt] by (cases v) (auto simp: settingText_steps)

lemma settingText_float_last:
  assumes "CHR '' '' \<notin> set name" "CHR '' '' \<notin> set name'"
  shows "settingText (rgFloat fmtF name v) name' deflt = (if name = name' \<and> v \<noteq> None then fmtF (the v) else deflt)"
  using settingText_float [OF assms, of fmtF v "[]" deflt] by (cases v) (auto simp: settingText_steps)

lemma settingText_unless:
  assumes "CHR '' '' \<notin> set name" "CHR '' '' \<notin> set name'"
  shows "settingText (rgInt name (unlessDefault v d) @ parts) name' deflt =
      (if name = name' \<and> v \<noteq> d then itoa v else settingText parts name' deflt)"
    "settingText (rgInt name (unlessDefault v d)) name' deflt = (if name = name' \<and> v \<noteq> d then itoa v else deflt)"
  using settingText_int [OF assms] settingText_last [OF assms] by (simp_all add: unlessDefault_def)

lemma pool_settings:
  "list_all (\<lambda>(name, deflt, v). settingText (poolItems (renderPool (poolNonDefault p))) name (itoa deflt) = itoa v)
    [(''MIN_CPU_PERCENT'', 0, rpMinCPU p), (''MAX_CPU_PERCENT'', 100, rpMaxCPU p), (''CAP_CPU_PERCENT'', 100, rpCapCPU p),
     (''MIN_MEMORY_PERCENT'', 0, rpMinMemory p), (''MAX_MEMORY_PERCENT'', 100, rpMaxMemory p),
     (''MIN_IOPS_PER_VOLUME'', 0, rpMinIOPS p), (''MAX_IOPS_PER_VOLUME'', 0, rpMaxIOPS p)]"
  by (simp add: renderPool_def withAffinity_def poolItems_def poolNonDefault_def settingText_unless)


lemma external_settings:
  "list_all (\<lambda>(name, deflt, v). settingText (poolItems (renderExternal (externalNonDefault p))) name (itoa deflt) = itoa v)
    [(''MAX_CPU_PERCENT'', 100, epMaxCPU p), (''MAX_MEMORY_PERCENT'', 20, epMaxMemory p),
     (''MAX_PROCESSES'', 0, epMaxProcesses p)]"
  by (simp add: renderExternal_def withAffinity_def poolItems_def externalNonDefault_def settingText_unless)

lemma group_accepted:
  "groupRefusal up fmtF (groupNonDefault sf g) 0 = None \<or>
    (up (wgImportance g) \<notin> {''LOW'', ''MEDIUM'', ''HIGH''} \<and> wgImportance g \<noteq> [] \<and> \<not> EqualFold sf (wgImportance g) ''Medium'')"
  by (auto simp: groupRefusal_def first_failing_None groupNonDefault_def noGroupOptions_def majorBefore_def majorAtLeast_def)

lemma importance_setting:
  "CHR '' '' \<notin> set name \<Longrightarrow> settingText ((case i of None \<Rightarrow> [] | Some i \<Rightarrow> [''IMPORTANCE = '' @ up i]) @ parts) name deflt =
     (if name = ''IMPORTANCE'' \<and> i \<noteq> None then up (the i) else settingText parts name deflt)"
  using item_prefix [of "''IMPORTANCE''" name] by (cases i) (auto simp: settingText_steps)

lemma group_settings:
  fixes up :: "string \<Rightarrow> string" and fmtF :: "gofloat \<Rightarrow> string" and sf :: "nat \<Rightarrow> nat" and g :: WorkloadGroup
  defines "w \<equiv> groupItems up fmtF (groupNonDefault sf g)"
  shows "settingText w ''IMPORTANCE'' ''MEDIUM'' =
      (if wgImportance g = [] \<or> EqualFold sf (wgImportance g) ''Medium'' then ''MEDIUM'' else up (wgImportance g))"
    "settingText w ''REQUEST_MAX_MEMORY_GRANT_PERCENT'' (fmtF (Fin 25)) = fmtF (wgMaxGrant g)"
    "list_all (\<lambda>(name, v). settingText w name (itoa 0) = itoa v)
      [(''REQUEST_MAX_CPU_TIME_SEC'', wgMaxCPUTime g), (''REQUEST_MEMORY_GRANT_TIMEOUT_SEC'', wgGrantTimeout g),
       (''MAX_DOP'', wgMaxDOP g), (''GROUP_MAX_REQUESTS'', wgMaxRequests g)]"
    "list_all (\<lambda>(name, v). settingText w name [] = (case v of None \<Rightarrow> [] | Some q \<Rightarrow> fmtF q))
      [(''GROUP_MAX_TEMPDB_DATA_PERCENT'', wgTempdbPercent g), (''GROUP_MAX_TEMPDB_DATA_MB'', wgTempdbMB g)]"
  unfolding w_def groupItems_def groupNonDefault_def noGroupOptions_def
  by (auto simp: importance_setting settingText_unless settingText_float settingText_float_last split: option.splits)

text \<open>
  The script of a pool or a workload group restores every setting: read from the \<open>WITH\<close> list, with
  the server's default where the list is silent, each setting has the value the object had, whichever
  settings are at their defaults; and a workload group is refused only for an importance that is none.
\<close>

theorem scripted_settings_restore:
  "list_all (\<lambda>(name, deflt, v). settingText (poolItems (renderPool (poolNonDefault p))) name (itoa deflt) = itoa v)
     [(''MIN_CPU_PERCENT'', 0, rpMinCPU p), (''MAX_CPU_PERCENT'', 100, rpMaxCPU p), (''CAP_CPU_PERCENT'', 100, rpCapCPU p),
      (''MIN_MEMORY_PERCENT'', 0, rpMinMemory p), (''MAX_MEMORY_PERCENT'', 100, rpMaxMemory p),
      (''MIN_IOPS_PER_VOLUME'', 0, rpMinIOPS p), (''MAX_IOPS_PER_VOLUME'', 0, rpMaxIOPS p)] \<and>
   list_all (\<lambda>(name, deflt, v). settingText (poolItems (renderExternal (externalNonDefault e))) name (itoa deflt) = itoa v)
     [(''MAX_CPU_PERCENT'', 100, epMaxCPU e), (''MAX_MEMORY_PERCENT'', 20, epMaxMemory e),
      (''MAX_PROCESSES'', 0, epMaxProcesses e)] \<and>
   (case renderGroup up fmtF (groupNonDefault sf g) 0 of
      Inl err \<Rightarrow> up (wgImportance g) \<notin> {''LOW'', ''MEDIUM'', ''HIGH''}
    | Inr (w, us) \<Rightarrow>
        settingText w ''IMPORTANCE'' ''MEDIUM'' =
          (if wgImportance g = [] \<or> EqualFold sf (wgImportance g) ''Medium'' then ''MEDIUM'' else up (wgImportance g)) \<and>
        settingText w ''REQUEST_MAX_MEMORY_GRANT_PERCENT'' (fmtF (Fin 25)) = fmtF (wgMaxGrant g) \<and>
        list_all (\<lambda>(name, v). settingText w name (itoa 0) = itoa v)
          [(''REQUEST_MAX_CPU_TIME_SEC'', wgMaxCPUTime g), (''REQUEST_MEMORY_GRANT_TIMEOUT_SEC'', wgGrantTimeout g),
           (''MAX_DOP'', wgMaxDOP g), (''GROUP_MAX_REQUESTS'', wgMaxRequests g)] \<and>
        list_all (\<lambda>(name, v). settingText w name [] = (case v of None \<Rightarrow> [] | Some q \<Rightarrow> fmtF q))
          [(''GROUP_MAX_TEMPDB_DATA_PERCENT'', wgTempdbPercent g), (''GROUP_MAX_TEMPDB_DATA_MB'', wgTempdbMB g)])"
  using pool_settings [of p] external_settings [of e] group_settings [of up fmtF sf g] group_accepted [of up fmtF sf g]
  by (auto simp only: renderGroup_def sum.case prod.case split: option.split)

end
