(* ===== verification/DatabaseMail.thy ===== *)
theory DatabaseMail
  imports Mirror Names Transaction
begin

text \<open>
  Database Mail (\<open>database_mail_write.go\<close>, \<open>SetConfiguration\<close>, \<open>Start\<close> and \<open>Stop\<close> of
  \<open>database_mail_service.go\<close>, and \<open>scripter_database_mail.go\<close>): accounts and their credentials,
  profiles, the accounts of a profile brought to a wanted order by one batch, grants, and the scripts
  that recreate them.  A write of a password is a pair: what runs, and what is shown.
\<close>

section \<open>The arguments of a procedure\<close>

text \<open>\<open>procArgs\<close>: each argument adds its part, or none.\<close>

definition argRaw :: "string \<Rightarrow> string \<Rightarrow> string list" where
  "argRaw name v = [name @ '' = '' @ v]"

definition argStr :: "string \<Rightarrow> string \<Rightarrow> string list" where
  "argStr name v = argRaw name (QuoteLiteral v)"

definition argStrPtr :: "string \<Rightarrow> string option \<Rightarrow> string list" where
  "argStrPtr name v = (case v of None \<Rightarrow> [] | Some t \<Rightarrow> argStr name t)"

definition argStrSet :: "string \<Rightarrow> string \<Rightarrow> string list" where
  "argStrSet name v = (if v \<noteq> [] then argStr name v else [])"

definition argInt :: "string \<Rightarrow> int \<Rightarrow> string list" where
  "argInt name v = argRaw name (itoa v)"

definition argIntPtr :: "string \<Rightarrow> int option \<Rightarrow> string list" where
  "argIntPtr name v = (case v of None \<Rightarrow> [] | Some n \<Rightarrow> argInt name n)"

definition argBit :: "string \<Rightarrow> bool \<Rightarrow> string list" where
  "argBit name v = argInt name (boolToInt v)"

definition argBitPtr :: "string \<Rightarrow> bool option \<Rightarrow> string list" where
  "argBitPtr name v = (case v of None \<Rightarrow> [] | Some b \<Rightarrow> argBit name b)"

definition procExec :: "string list \<Rightarrow> string \<Rightarrow> string" where
  "procExec parts proc = ''EXEC msdb.dbo.'' @ proc @ (if parts \<noteq> [] then '' '' @ str_join '', '' parts else [])"

section \<open>Accounts\<close>

datatype MailAuthentication = MailAuthAnonymous | MailAuthBasic | MailAuthWindows | MailAuthOther int

record MailCredentials =
  mcAuthentication :: MailAuthentication
  mcUserName :: string
  mcPassword :: string

definition validateCredentials :: "MailCredentials \<Rightarrow> goerr option" where
  "validateCredentials c =
     (case mcAuthentication c of
        MailAuthAnonymous \<Rightarrow> None
      | MailAuthWindows \<Rightarrow> None
      | MailAuthBasic \<Rightarrow>
          if trim_space (mcUserName c) = [] then Some (invalidf ''basic authentication needs a user name'' []) else None
      | MailAuthOther n \<Rightarrow> Some (invalidf ''unknown authentication %v'' [ANum n]))"

text \<open>The arguments of the credentials, with the password given: the real one, or the placeholder.\<close>

definition credentialArgs :: "MailCredentials \<Rightarrow> string \<Rightarrow> string list" where
  "credentialArgs c password =
     argBit ''@use_default_credentials'' (mcAuthentication c = MailAuthWindows) @
     (if mcAuthentication c = MailAuthBasic then argStr ''@username'' (mcUserName c) @ argStr ''@password'' password else [])"

record CreateMailAccountRequest =
  maName :: string
  maEmail :: string
  maDisplay :: string
  maReplyTo :: string
  maDescription :: string
  maServer :: string
  maPort :: int
  maSSL :: bool
  maTimeout :: int
  maCredentials :: MailCredentials

definition accountCreateWith :: "CreateMailAccountRequest \<Rightarrow> string \<Rightarrow> string list" where
  "accountCreateWith req password =
     procExec (argStr ''@account_name'' (maName req) @ argStr ''@email_address'' (maEmail req) @
       argStrSet ''@display_name'' (maDisplay req) @ argStrSet ''@replyto_address'' (maReplyTo req) @
       argStrSet ''@description'' (maDescription req) @ argStr ''@mailserver_name'' (maServer req) @
       (if maPort req \<noteq> 0 then argInt ''@port'' (maPort req) else []) @ argBit ''@enable_ssl'' (maSSL req) @
       credentialArgs (maCredentials req) password) ''sysmail_add_account_sp'' #
     (if maTimeout req \<noteq> 0
      then [procExec (argStr ''@account_name'' (maName req) @ argInt ''@timeout'' (maTimeout req) @
        argBit ''@no_credential_change'' True) ''sysmail_update_account_sp''] else [])"

definition mailAccountCreateStmts :: "CreateMailAccountRequest \<Rightarrow> string list \<times> string list" where
  "mailAccountCreateStmts req =
     (accountCreateWith req (mcPassword (maCredentials req)), accountCreateWith req PasswordPlaceholder)"

record MailAccount =
  acName :: string
  acDescription :: string
  acEmail :: string
  acDisplay :: string
  acReplyTo :: string
  acServer :: string
  acPort :: int
  acSSL :: bool
  acUserName :: string
  acCredentialID :: int
  acUseDefault :: bool
  acTimeout :: int

definition AccountRef :: "string \<Rightarrow> MailAccount" where
  "AccountRef name = \<lparr>acName = name, acDescription = [], acEmail = [], acDisplay = [], acReplyTo = [], acServer = [],
     acPort = 0, acSSL = False, acUserName = [], acCredentialID = 0, acUseDefault = False, acTimeout = 0\<rparr>"

definition accountAuthentication :: "MailAccount \<Rightarrow> MailAuthentication" where
  "accountAuthentication a =
     (if acUseDefault a then MailAuthWindows
      else if acUserName a \<noteq> [] \<or> acCredentialID a \<noteq> 0 then MailAuthBasic else MailAuthAnonymous)"

definition CreateAccount :: "'w driver \<Rightarrow> ctx \<Rightarrow> server \<Rightarrow> (string \<Rightarrow> 'w st \<Rightarrow> MailAccount res \<times> 'w st) \<Rightarrow>
    CreateMailAccountRequest \<Rightarrow> 'w st \<Rightarrow> MailAccount res \<times> 'w st" where
  "CreateAccount D c srv byName req s =
     (if trim_space (maName req) = [] then (Inl (invalidf ''gosmo: create mail account: account has no name'' []), s)
      else if trim_space (maEmail req) = []
      then (Inl (invalidf ''gosmo: create mail account %q: account has no e-mail address'' [AText (maName req)]), s)
      else if trim_space (maServer req) = []
      then (Inl (invalidf ''gosmo: create mail account %q: account has no mail server'' [AText (maName req)]), s)
      else case validateCredentials (maCredentials req) of
        Some e \<Rightarrow> (Inl (Wrapped ''gosmo: create mail account %q: %w'' [AText (maName req)] e), s)
      | None \<Rightarrow>
          (let (run, shown) = mailAccountCreateStmts req
           in case (if length run = 1 then serverExecSecret D c srv (hd run) (hd shown) s
                    else serverExecSecretAtomic D c srv run shown s) of
             (Some e, s1) \<Rightarrow> (Inl (Wrapped ''gosmo: create mail account %q: %w'' [AText (maName req)] e), s1)
           | (None, s1) \<Rightarrow> createdObject c (AccountRef (maName req)) (byName (maName req)) s1))"

record MailAccountChanges =
  mxName :: "string option"
  mxEmail :: "string option"
  mxDisplay :: "string option"
  mxReplyTo :: "string option"
  mxDescription :: "string option"
  mxServer :: "string option"
  mxPort :: "int option"
  mxSSL :: "bool option"
  mxTimeout :: "int option"
  mxCredentials :: "MailCredentials option"

definition noAccountChanges :: "MailAccountChanges \<Rightarrow> bool" where
  "noAccountChanges ch \<longleftrightarrow> mxName ch = None \<and> mxEmail ch = None \<and> mxDisplay ch = None \<and> mxReplyTo ch = None \<and>
     mxDescription ch = None \<and> mxServer ch = None \<and> mxPort ch = None \<and> mxSSL ch = None \<and> mxTimeout ch = None \<and>
     mxCredentials ch = None"

definition accountAlterWith :: "string \<Rightarrow> MailAccountChanges \<Rightarrow> (MailCredentials \<Rightarrow> string) \<Rightarrow> string" where
  "accountAlterWith name ch password =
     (case mxName ch of None \<Rightarrow> []
      | Some n \<Rightarrow> ''DECLARE @account_id int = (SELECT account_id FROM msdb.dbo.sysmail_account WHERE name = '' @ QuoteLiteral name @
          '');'' @ [nl] @ ''IF @account_id IS NULL RAISERROR(14607, 16, 1, '' @ [squote] @ ''account'' @ [squote] @ '') ELSE '') @
     procExec (
       (case mxName ch of None \<Rightarrow> argStr ''@account_name'' name
        | Some n \<Rightarrow> argRaw ''@account_id'' ''@account_id'' @ argStr ''@account_name'' n) @
       argStrPtr ''@email_address'' (mxEmail ch) @ argStrPtr ''@display_name'' (mxDisplay ch) @
       argStrPtr ''@replyto_address'' (mxReplyTo ch) @ argStrPtr ''@description'' (mxDescription ch) @
       argStrPtr ''@mailserver_name'' (mxServer ch) @ argIntPtr ''@port'' (mxPort ch) @
       argBitPtr ''@enable_ssl'' (mxSSL ch) @ argIntPtr ''@timeout'' (mxTimeout ch) @
       (case mxCredentials ch of None \<Rightarrow> argBit ''@no_credential_change'' True | Some cred \<Rightarrow> credentialArgs cred (password cred)))
       ''sysmail_update_account_sp''"

definition mailAccountAlterStmt :: "string \<Rightarrow> MailAccountChanges \<Rightarrow> string \<times> string" where
  "mailAccountAlterStmt name ch = (accountAlterWith name ch mcPassword, accountAlterWith name ch (\<lambda>cred. PasswordPlaceholder))"

definition mirrorCredentials :: "ctx \<Rightarrow> MailCredentials option \<Rightarrow> MailAccount \<Rightarrow> MailAccount" where
  "mirrorCredentials c cred a =
     (case cred of None \<Rightarrow> a
      | Some cred \<Rightarrow>
          (let a = a \<lparr>acUseDefault := setIfApplied c (acUseDefault a) (mcAuthentication cred = MailAuthWindows)\<rparr>
           in if mcAuthentication cred = MailAuthBasic
              then a \<lparr>acUserName := setIfApplied c (acUserName a) (trim_space (mcUserName cred))\<rparr>
              else a \<lparr>acUserName := setIfApplied c (acUserName a) [], acCredentialID := setIfApplied c (acCredentialID a) 0\<rparr>))"

definition mirrorAccount :: "ctx \<Rightarrow> MailAccountChanges \<Rightarrow> MailAccount \<Rightarrow> MailAccount" where
  "mirrorAccount c ch a = mirrorCredentials c (mxCredentials ch) (a \<lparr>
     acName := setPtrIfApplied c (acName a) (mxName ch), acEmail := setPtrIfApplied c (acEmail a) (mxEmail ch),
     acDisplay := setPtrIfApplied c (acDisplay a) (mxDisplay ch), acReplyTo := setPtrIfApplied c (acReplyTo a) (mxReplyTo ch),
     acDescription := setPtrIfApplied c (acDescription a) (mxDescription ch),
     acServer := setPtrIfApplied c (acServer a) (mxServer ch), acPort := setPtrIfApplied c (acPort a) (mxPort ch),
     acSSL := setPtrIfApplied c (acSSL a) (mxSSL ch), acTimeout := setPtrIfApplied c (acTimeout a) (mxTimeout ch)\<rparr>)"

definition alterAccount :: "'w driver \<Rightarrow> ctx \<Rightarrow> server \<Rightarrow> MailAccount \<Rightarrow> MailAccountChanges \<Rightarrow> 'w st \<Rightarrow>
    goerr option \<times> MailAccount \<times> 'w st" where
  "alterAccount D c srv a ch s =
     (let wrap = Wrapped ''gosmo: alter mail account %q: %w'' [AText (acName a)]
      in if noAccountChanges ch then (None, a, s)
         else if (case mxName ch of None \<Rightarrow> False | Some n \<Rightarrow> trim_space n = [])
         then (Some (invalidf ''gosmo: alter mail account %q: new name is empty'' [AText (acName a)]), a, s)
         else case (case mxCredentials ch of None \<Rightarrow> None | Some cred \<Rightarrow> validateCredentials cred) of
           Some e \<Rightarrow> (Some (wrap e), a, s)
         | None \<Rightarrow>
             (let (run, shown) = mailAccountAlterStmt (acName a) ch
              in case serverExecSecret D c srv run shown s of
                (Some e, s1) \<Rightarrow> (Some (wrap e), a, s1)
              | (None, s1) \<Rightarrow> (None, mirrorAccount c ch a, s1)))"

definition dropAccount :: "'w driver \<Rightarrow> ctx \<Rightarrow> server \<Rightarrow> string \<Rightarrow> 'w st \<Rightarrow> goerr option \<times> 'w st" where
  "dropAccount D c srv name s =
     (case serverExec D c srv (procExec (argStr ''@account_name'' name) ''sysmail_delete_account_sp'') [] s of
        (Some e, s1) \<Rightarrow> (Some (Wrapped ''gosmo: drop mail account %q: %w'' [AText name] e), s1)
      | (None, s1) \<Rightarrow> (None, s1))"


section \<open>Profiles\<close>

record MailProfileAccount =
  paAccountID :: int
  paAccountName :: string
  paSequence :: int

record MailProfile =
  mpID :: int
  mpName :: string
  mpDescription :: string
  mpPublic :: bool
  mpDefault :: bool
  mpAccounts :: "MailProfileAccount list"

definition ProfileRef :: "string \<Rightarrow> MailProfile" where
  "ProfileRef name = \<lparr>mpID = 0, mpName = name, mpDescription = [], mpPublic = False, mpDefault = False, mpAccounts = []\<rparr>"

definition mailProfileCreateStmt :: "string \<Rightarrow> string \<Rightarrow> string" where
  "mailProfileCreateStmt name description =
     procExec (argStr ''@profile_name'' name @ argStrSet ''@description'' description) ''sysmail_add_profile_sp''"

definition CreateProfile :: "'w driver \<Rightarrow> ctx \<Rightarrow> server \<Rightarrow> (string \<Rightarrow> 'w st \<Rightarrow> MailProfile res \<times> 'w st) \<Rightarrow> string \<Rightarrow> string \<Rightarrow>
    'w st \<Rightarrow> MailProfile res \<times> 'w st" where
  "CreateProfile D c srv byName name description s =
     (if trim_space name = [] then (Inl (invalidf ''gosmo: create mail profile: profile has no name'' []), s)
      else (case serverExec D c srv (mailProfileCreateStmt name description) [] s of
          (Some e, s1) \<Rightarrow> (Inl (Wrapped ''gosmo: create mail profile %q: %w'' [AText name] e), s1)
        | (None, s1) \<Rightarrow> createdObject c (ProfileRef name) (byName name) s1))"

definition profileAlterStmt :: "string \<Rightarrow> string option \<Rightarrow> string option \<Rightarrow> string" where
  "profileAlterStmt name newName description =
     (case newName of None \<Rightarrow> []
      | Some n \<Rightarrow> ''DECLARE @profile_id int = (SELECT profile_id FROM msdb.dbo.sysmail_profile WHERE name = '' @ QuoteLiteral name @
          '');'' @ [nl] @ ''IF @profile_id IS NULL RAISERROR(14607, 16, 1, '' @ [squote] @ ''profile'' @ [squote] @ '') ELSE '') @
     procExec (
       (case newName of None \<Rightarrow> argStr ''@profile_name'' name
        | Some n \<Rightarrow> argRaw ''@profile_id'' ''@profile_id'' @ argStr ''@profile_name'' n) @
       argStrPtr ''@description'' description) ''sysmail_update_profile_sp''"

definition alterProfile :: "'w driver \<Rightarrow> ctx \<Rightarrow> server \<Rightarrow> MailProfile \<Rightarrow> string option \<Rightarrow> string option \<Rightarrow> 'w st \<Rightarrow>
    goerr option \<times> MailProfile \<times> 'w st" where
  "alterProfile D c srv p newName description s =
     (if newName = None \<and> description = None then (None, p, s)
      else if (case newName of None \<Rightarrow> False | Some n \<Rightarrow> trim_space n = [])
      then (Some (invalidf ''gosmo: alter mail profile %q: new name is empty'' [AText (mpName p)]), p, s)
      else (case serverExec D c srv (profileAlterStmt (mpName p) newName description) [] s of
          (Some e, s1) \<Rightarrow> (Some (Wrapped ''gosmo: alter mail profile %q: %w'' [AText (mpName p)] e), p, s1)
        | (None, s1) \<Rightarrow> (None, p \<lparr>mpName := setPtrIfApplied c (mpName p) newName,
            mpDescription := setPtrIfApplied c (mpDescription p) description\<rparr>, s1)))"

definition dropProfile :: "'w driver \<Rightarrow> ctx \<Rightarrow> server \<Rightarrow> string \<Rightarrow> 'w st \<Rightarrow> goerr option \<times> 'w st" where
  "dropProfile D c srv name s =
     (case serverExec D c srv (procExec (argStr ''@profile_name'' name) ''sysmail_delete_profile_sp'') [] s of
        (Some e, s1) \<Rightarrow> (Some (Wrapped ''gosmo: drop mail profile %q: %w'' [AText name] e), s1)
      | (None, s1) \<Rightarrow> (None, s1))"

section \<open>The accounts of a profile\<close>

text \<open>A call that changes the links of a profile, and its text.\<close>

datatype linkStmt = DeleteLink string | UpdateLink string int | AddLink string int

definition mailProfileAccountStmt :: "string \<Rightarrow> string \<Rightarrow> string \<Rightarrow> int option \<Rightarrow> string" where
  "mailProfileAccountStmt proc profile account seq =
     procExec (argStr ''@profile_name'' profile @ argStr ''@account_name'' account @ argIntPtr ''@sequence_number'' seq) proc"

fun linkText :: "string \<Rightarrow> linkStmt \<Rightarrow> string" where
  "linkText profile (DeleteLink a) = mailProfileAccountStmt ''sysmail_delete_profileaccount_sp'' profile a None"
| "linkText profile (UpdateLink a n) = mailProfileAccountStmt ''sysmail_update_profileaccount_sp'' profile a (Some n)"
| "linkText profile (AddLink a n) = mailProfileAccountStmt ''sysmail_add_profileaccount_sp'' profile a (Some n)"

text \<open>\<open>AddAccount\<close>, \<open>RemoveAccount\<close> and \<open>SetAccountSequence\<close> send one call each.\<close>

definition linkFailure :: "string \<Rightarrow> linkStmt \<Rightarrow> goerr \<Rightarrow> goerr" where
  "linkFailure profile st e =
     (case st of
        AddLink a n \<Rightarrow> Wrapped ''gosmo: add account %q to mail profile %q: %w'' [AText a, AText profile] e
      | DeleteLink a \<Rightarrow> Wrapped ''gosmo: remove account %q from mail profile %q: %w'' [AText a, AText profile] e
      | UpdateLink a n \<Rightarrow> Wrapped ''gosmo: set sequence of account %q in mail profile %q: %w'' [AText a, AText profile] e)"

definition linkWrite :: "'w driver \<Rightarrow> ctx \<Rightarrow> server \<Rightarrow> string \<Rightarrow> linkStmt \<Rightarrow> 'w st \<Rightarrow> goerr option \<times> 'w st" where
  "linkWrite D c srv profile st s =
     (case serverExec D c srv (linkText profile st) [] s of
        (Some e, s1) \<Rightarrow> (Some (linkFailure profile st e), s1)
      | (None, s1) \<Rightarrow> (None, s1))"

text \<open>The first loop: the links not wanted; and \<open>have\<close>, where a later link of a key replaces an earlier.\<close>

definition unwanted :: "(string \<Rightarrow> string) \<Rightarrow> MailProfileAccount list \<Rightarrow> string list \<Rightarrow> linkStmt list" where
  "unwanted key current want =
     map (\<lambda>pa. DeleteLink (paAccountName pa)) (filter (\<lambda>pa. key (paAccountName pa) \<notin> key ` set want) current)"

definition linkMap :: "(string \<Rightarrow> string) \<Rightarrow> MailProfileAccount list \<Rightarrow> string \<Rightarrow> int option" where
  "linkMap key current = foldl (\<lambda>m pa. m(key (paAccountName pa) \<mapsto> paSequence pa)) Map.empty current"

text \<open>The second: renumbered in place, and added at the end.\<close>

fun placeLoop :: "(string \<Rightarrow> string) \<Rightarrow> (string \<Rightarrow> int option) \<Rightarrow> int \<Rightarrow> string list \<Rightarrow> linkStmt list \<times> linkStmt list" where
  "placeLoop key linked seq [] = ([], [])"
| "placeLoop key linked seq (name # want) =
     (case placeLoop key linked (seq + 1) want of
        (moves, adds) \<Rightarrow>
          (case linked (key name) of
             None \<Rightarrow> (moves, AddLink name seq # adds)
           | Some old \<Rightarrow> if old \<noteq> seq then (UpdateLink name seq # moves, adds) else (moves, adds)))"

definition mailSetAccounts :: "(string \<Rightarrow> string) \<Rightarrow> MailProfileAccount list \<Rightarrow> string list \<Rightarrow> linkStmt list" where
  "mailSetAccounts key current want =
     (case placeLoop key (linkMap key current) 1 want of
        (moves, adds) \<Rightarrow> unwanted key current want @ moves @ adds)"

definition mailSetAccountsStmts :: "(nat \<Rightarrow> nat) \<Rightarrow> string \<Rightarrow> string \<Rightarrow> MailProfileAccount list \<Rightarrow> string list \<Rightarrow> string list" where
  "mailSetAccountsStmts sf collation profile current want =
     map (linkText profile) (mailSetAccounts (NameKey sf collation) current want)"

fun listedTwice :: "(string \<Rightarrow> string) \<Rightarrow> string set \<Rightarrow> string list \<Rightarrow> string option" where
  "listedTwice key seen [] = None"
| "listedTwice key seen (name # names) =
     (if key name \<in> seen then Some name else listedTwice key (insert (key name) seen) names)"

text \<open>\<open>SetAccounts\<close>; \<open>links\<close> reads the profile's links, in their order.\<close>

definition SetAccounts :: "(nat \<Rightarrow> nat) \<Rightarrow> string \<Rightarrow> 'w driver \<Rightarrow> ctx \<Rightarrow> server \<Rightarrow>
    ('w st \<Rightarrow> MailProfileAccount list res \<times> 'w st) \<Rightarrow> MailProfile \<Rightarrow> string list \<Rightarrow> 'w st \<Rightarrow>
    goerr option \<times> MailProfile \<times> 'w st" where
  "SetAccounts sf collation D c srv links p accounts s =
     (case listedTwice (NameKey sf collation) {} accounts of
        Some name \<Rightarrow> (Some (invalidf ''gosmo: set accounts of mail profile %q: account %q is listed twice''
          [AText (mpName p), AText name]), p, s)
      | None \<Rightarrow>
          (case links s of
             (Inl e, s1) \<Rightarrow> (Some e, p, s1)
           | (Inr current, s1) \<Rightarrow>
               (let stmts = mailSetAccountsStmts sf collation (mpName p) current accounts;
                    mirrored = (\<lambda>now. p \<lparr>mpAccounts := setIfApplied c (mpAccounts p) now\<rparr>)
                in if stmts = [] then (None, mirrored current, s1)
                   else (case serverExecAtomic D c srv stmts [] s1 of
                       (Some e, s2) \<Rightarrow> (Some (Wrapped ''gosmo: set accounts of mail profile %q: %w'' [AText (mpName p)] e), p, s2)
                     | (None, s2) \<Rightarrow>
                         if Scripting c then (None, p, s2)
                         else (case links s2 of
                             (Inl e, s3) \<Rightarrow> (Some e, p, s3)
                           | (Inr now, s3) \<Rightarrow> (None, mirrored now, s3))))))"


section \<open>Grants\<close>

definition MailPublicPrincipal :: string where "MailPublicPrincipal = ''public''"

datatype MailProfileDefault = MailNotDefaultProfile | MailDefaultProfile | MailDefaultOther int

definition isDefaultArg :: "MailProfileDefault \<Rightarrow> bool res" where
  "isDefaultArg d =
     (case d of MailNotDefaultProfile \<Rightarrow> Inr False | MailDefaultProfile \<Rightarrow> Inr True
      | MailDefaultOther n \<Rightarrow> Inl (invalidf ''unrecognized default %d'' [ANum n]))"

definition mailPrincipalProfileStmt :: "string \<Rightarrow> string \<Rightarrow> string \<Rightarrow> bool option \<Rightarrow> string" where
  "mailPrincipalProfileStmt proc profile who isDefault =
     procExec (argStr ''@principal_name'' who @ argStr ''@profile_name'' profile @ argBitPtr ''@is_default'' isDefault) proc"

definition GrantProfile :: "'w driver \<Rightarrow> ctx \<Rightarrow> server \<Rightarrow> MailProfile \<Rightarrow> string \<Rightarrow> MailProfileDefault \<Rightarrow> 'w st \<Rightarrow>
    goerr option \<times> MailProfile \<times> 'w st" where
  "GrantProfile D c srv p who d s =
     (let wrap = Wrapped ''gosmo: grant mail profile %q to %q: %w'' [AText (mpName p), AText who]
      in case isDefaultArg d of Inl e \<Rightarrow> (Some (wrap e), p, s)
       | Inr b \<Rightarrow>
           (case serverExec D c srv (mailPrincipalProfileStmt ''sysmail_add_principalprofile_sp'' (mpName p) who (Some b)) [] s of
              (Some e, s1) \<Rightarrow> (Some (wrap e), p, s1)
            | (None, s1) \<Rightarrow> (None, if who = MailPublicPrincipal
                then p \<lparr>mpPublic := setIfApplied c (mpPublic p) True, mpDefault := setIfApplied c (mpDefault p) b\<rparr> else p, s1)))"

definition SetGrantDefault :: "'w driver \<Rightarrow> ctx \<Rightarrow> server \<Rightarrow> MailProfile \<Rightarrow> string \<Rightarrow> MailProfileDefault \<Rightarrow> 'w st \<Rightarrow>
    goerr option \<times> MailProfile \<times> 'w st" where
  "SetGrantDefault D c srv p who d s =
     (let wrap = Wrapped ''gosmo: set default of mail profile %q for %q: %w'' [AText (mpName p), AText who]
      in case isDefaultArg d of Inl e \<Rightarrow> (Some (wrap e), p, s)
       | Inr b \<Rightarrow>
           (case serverExec D c srv (mailPrincipalProfileStmt ''sysmail_update_principalprofile_sp'' (mpName p) who (Some b)) [] s of
              (Some e, s1) \<Rightarrow> (Some (wrap e), p, s1)
            | (None, s1) \<Rightarrow> (None, if who = MailPublicPrincipal
                then p \<lparr>mpDefault := setIfApplied c (mpDefault p) b\<rparr> else p, s1)))"

definition RevokeProfile :: "'w driver \<Rightarrow> ctx \<Rightarrow> server \<Rightarrow> MailProfile \<Rightarrow> string \<Rightarrow> 'w st \<Rightarrow>
    goerr option \<times> MailProfile \<times> 'w st" where
  "RevokeProfile D c srv p who s =
     (case serverExec D c srv (mailPrincipalProfileStmt ''sysmail_delete_principalprofile_sp'' (mpName p) who None) [] s of
        (Some e, s1) \<Rightarrow> (Some (Wrapped ''gosmo: revoke mail profile %q from %q: %w'' [AText (mpName p), AText who] e), p, s1)
      | (None, s1) \<Rightarrow> (None, if who = MailPublicPrincipal
          then p \<lparr>mpPublic := setIfApplied c (mpPublic p) False, mpDefault := setIfApplied c (mpDefault p) False\<rparr> else p, s1))"

section \<open>System parameters, start and stop\<close>

record MailConfigurationChanges =
  mgRetryAttempts :: "int option"
  mgRetryDelay :: "int option"
  mgExeLifeTime :: "int option"
  mgEncoding :: "string option"
  mgLogging :: "int option"
  mgMaxFileSize :: "int option"
  mgProhibited :: "string option"

definition configureStmt :: "string \<Rightarrow> string \<Rightarrow> string" where
  "configureStmt name v = procExec (argStr ''@parameter_name'' name @ argStr ''@parameter_value'' v) ''sysmail_configure_sp''"

definition configParam :: "string \<Rightarrow> string option \<Rightarrow> string list" where
  "configParam name v = (case v of None \<Rightarrow> [] | Some t \<Rightarrow> [configureStmt name t])"

definition configStmts :: "MailConfigurationChanges \<Rightarrow> string list" where
  "configStmts ch =
     configParam ''AccountRetryAttempts'' (map_option itoa (mgRetryAttempts ch)) @
     configParam ''AccountRetryDelay'' (map_option itoa (mgRetryDelay ch)) @
     configParam ''DatabaseMailExeMinimumLifeTime'' (map_option itoa (mgExeLifeTime ch)) @
     configParam ''DefaultAttachmentEncoding'' (mgEncoding ch) @
     configParam ''LoggingLevel'' (map_option itoa (mgLogging ch)) @
     configParam ''MaxFileSize'' (map_option itoa (mgMaxFileSize ch)) @
     configParam ''ProhibitedExtensions'' (mgProhibited ch)"

text \<open>One call after the other, up to the first that fails.\<close>

fun execEach :: "'w driver \<Rightarrow> ctx \<Rightarrow> server \<Rightarrow> string list \<Rightarrow> 'w st \<Rightarrow> goerr option \<times> 'w st" where
  "execEach D c srv [] s = (None, s)"
| "execEach D c srv (q # qs) s =
     (case serverExec D c srv q [] s of
        (Some e, s1) \<Rightarrow> (Some (Wrapped ''gosmo: set mail configuration: %w'' [] e), s1)
      | (None, s1) \<Rightarrow> execEach D c srv qs s1)"

definition SetConfiguration :: "'w driver \<Rightarrow> ctx \<Rightarrow> server \<Rightarrow> MailConfigurationChanges \<Rightarrow> 'w st \<Rightarrow> goerr option \<times> 'w st" where
  "SetConfiguration D c srv ch s =
     (case mgLogging ch of
        Some n \<Rightarrow> if n < 1 \<or> 3 < n
          then (Some (invalidf ''gosmo: set mail configuration: logging level %d is not 1, 2 or 3'' [ANum n]), s)
          else execEach D c srv (configStmts ch) s
      | None \<Rightarrow> execEach D c srv (configStmts ch) s)"

definition StartMail :: "'w driver \<Rightarrow> ctx \<Rightarrow> server \<Rightarrow> 'w st \<Rightarrow> goerr option \<times> 'w st" where
  "StartMail D c srv s =
     (case serverExec D c srv ''EXEC msdb.dbo.sysmail_start_sp'' [] s of
        (Some e, s1) \<Rightarrow> (Some (Wrapped ''gosmo: start database mail: %w'' [] e), s1) | (None, s1) \<Rightarrow> (None, s1))"

definition StopMail :: "'w driver \<Rightarrow> ctx \<Rightarrow> server \<Rightarrow> 'w st \<Rightarrow> goerr option \<times> 'w st" where
  "StopMail D c srv s =
     (case serverExec D c srv ''EXEC msdb.dbo.sysmail_stop_sp'' [] s of
        (Some e, s1) \<Rightarrow> (Some (Wrapped ''gosmo: stop database mail: %w'' [] e), s1) | (None, s1) \<Rightarrow> (None, s1))"

section \<open>Scripts\<close>

definition mailPasswordNote :: string where
  "mailPasswordNote = ''-- The account'' @ [squote] @ ''s password cannot be scripted. Replace '' @ PasswordPlaceholder @
     '' before running.'' @ [nl]"

definition mailExistsGuard :: "string \<Rightarrow> string \<Rightarrow> string" where
  "mailExistsGuard from cond = ''IF NOT EXISTS (SELECT 1 FROM '' @ from @ '' WHERE '' @ cond @ '')'' @ [nl]"

definition mailAccountWhere :: "string \<Rightarrow> string" where
  "mailAccountWhere name = ''name = '' @ QuoteLiteral name"

definition mailStmt :: "ScriptOptions \<Rightarrow> string \<Rightarrow> string \<Rightarrow> string" where
  "mailStmt opts guard stmt =
     (if soIfNotExists opts \<and> guard \<noteq> [] then guard else []) @ stmt @ '';'' @ [nl] @ ''GO'' @ [nl]"

definition accountRequest :: "MailAccount \<Rightarrow> CreateMailAccountRequest" where
  "accountRequest a = \<lparr>maName = acName a, maEmail = acEmail a, maDisplay = acDisplay a, maReplyTo = acReplyTo a,
     maDescription = acDescription a, maServer = acServer a, maPort = acPort a, maSSL = acSSL a, maTimeout = acTimeout a,
     maCredentials = \<lparr>mcAuthentication = accountAuthentication a, mcUserName = acUserName a, mcPassword = []\<rparr>\<rparr>"

definition mailAccountCreate :: "MailAccount \<Rightarrow> ScriptOptions \<Rightarrow> string" where
  "mailAccountCreate a opts =
     (if accountAuthentication a = MailAuthBasic then mailPasswordNote else []) @
     (case snd (mailAccountCreateStmts (accountRequest a)) of
        [] \<Rightarrow> []
      | q # qs \<Rightarrow> mailStmt opts (mailExistsGuard ''msdb.dbo.sysmail_account'' (mailAccountWhere (acName a))) q @
          concat (map (mailStmt opts []) qs))"

definition buildMailAccountScript :: "MailAccount \<Rightarrow> ScriptOptions \<Rightarrow> string" where
  "buildMailAccountScript a opts =
     envelope opts
       (''IF EXISTS (SELECT 1 FROM msdb.dbo.sysmail_account WHERE '' @ mailAccountWhere (acName a) @ '')'' @ [nl] @
        ''    EXEC msdb.dbo.sysmail_delete_account_sp @account_name = '' @ QuoteLiteral (acName a) @ '';'' @ [nl] @ ''GO'' @ [nl])
       [] (mailAccountCreate a opts)"

record MailPrincipalProfile =
  ppProfileID :: int
  ppSID :: "nat list"
  ppName :: string
  ppDefault :: bool

definition grantIsPublic :: "MailPrincipalProfile \<Rightarrow> bool" where
  "grantIsPublic g \<longleftrightarrow> ppSID g = [0]"

text \<open>The text \<open>%X\<close> gives of a SID is \<open>hex\<close>.\<close>

definition profileGrant :: "(nat list \<Rightarrow> string) \<Rightarrow> MailProfile \<Rightarrow> ScriptOptions \<Rightarrow> MailPrincipalProfile \<Rightarrow> string" where
  "profileGrant hex p opts g =
     (if ppProfileID g \<noteq> mpID p then []
      else if ppName g = [] then ''-- A grant to a principal no longer in msdb (SID 0x'' @ hex (ppSID g) @ '') is not scripted.'' @ [nl]
      else mailStmt opts
        (mailExistsGuard (''msdb.dbo.sysmail_principalprofile pp'' @ [nl] @
           ''              JOIN msdb.dbo.sysmail_profile p ON p.profile_id = pp.profile_id'')
          (''p.name = '' @ QuoteLiteral (mpName p) @ '' AND pp.principal_sid = '' @
           (if grantIsPublic g then ''0x00''
            else ''(SELECT sid FROM msdb.sys.database_principals WHERE name = '' @ QuoteLiteral (ppName g) @ '')'')))
        (mailPrincipalProfileStmt ''sysmail_add_principalprofile_sp'' (mpName p) (ppName g) (Some (ppDefault g))))"

definition profileLink :: "MailProfile \<Rightarrow> ScriptOptions \<Rightarrow> MailProfileAccount \<Rightarrow> string" where
  "profileLink p opts pa =
     mailStmt opts
       (mailExistsGuard (''msdb.dbo.sysmail_profileaccount pa'' @ [nl] @
          ''              JOIN msdb.dbo.sysmail_profile p ON p.profile_id = pa.profile_id'' @ [nl] @
          ''              JOIN msdb.dbo.sysmail_account a ON a.account_id = pa.account_id'')
         (''p.name = '' @ QuoteLiteral (mpName p) @ '' AND a.name = '' @ QuoteLiteral (paAccountName pa)))
       (linkText (mpName p) (AddLink (paAccountName pa) (paSequence pa)))"

definition mailProfileCreate :: "(nat list \<Rightarrow> string) \<Rightarrow> MailProfile \<Rightarrow> MailPrincipalProfile list \<Rightarrow> ScriptOptions \<Rightarrow> string" where
  "mailProfileCreate hex p grants opts =
     mailStmt opts (mailExistsGuard ''msdb.dbo.sysmail_profile'' (''name = '' @ QuoteLiteral (mpName p)))
       (mailProfileCreateStmt (mpName p) (mpDescription p)) @
     concat (map (profileLink p opts) (mpAccounts p)) @ concat (map (profileGrant hex p opts) grants)"

definition buildMailProfileScript :: "(nat list \<Rightarrow> string) \<Rightarrow> MailProfile \<Rightarrow> MailPrincipalProfile list \<Rightarrow> ScriptOptions \<Rightarrow> string" where
  "buildMailProfileScript hex p grants opts =
     envelope opts
       (''IF EXISTS (SELECT 1 FROM msdb.dbo.sysmail_profile WHERE name = '' @ QuoteLiteral (mpName p) @ '')'' @ [nl] @
        ''    EXEC msdb.dbo.sysmail_delete_profile_sp @profile_name = '' @ QuoteLiteral (mpName p) @ '';'' @ [nl] @ ''GO'' @ [nl])
       [] (mailProfileCreate hex p grants opts)"

text \<open>The parameters as read, and the change that sets every one of them.\<close>

record MailConfiguration =
  cfRetryAttempts :: int
  cfRetryDelay :: int
  cfExeLifeTime :: int
  cfEncoding :: string
  cfLogging :: int
  cfMaxFileSize :: int
  cfProhibited :: string

definition configurationOptions :: "MailConfiguration \<Rightarrow> MailConfigurationChanges" where
  "configurationOptions cfg = \<lparr>mgRetryAttempts = Some (cfRetryAttempts cfg), mgRetryDelay = Some (cfRetryDelay cfg),
     mgExeLifeTime = Some (cfExeLifeTime cfg), mgEncoding = Some (cfEncoding cfg), mgLogging = Some (cfLogging cfg),
     mgMaxFileSize = Some (cfMaxFileSize cfg), mgProhibited = Some (cfProhibited cfg)\<rparr>"

definition buildDatabaseMailScript :: "(nat list \<Rightarrow> string) \<Rightarrow> MailAccount list \<Rightarrow> MailProfile list \<Rightarrow> MailPrincipalProfile list \<Rightarrow>
    MailConfiguration \<Rightarrow> ScriptOptions \<Rightarrow> string" where
  "buildDatabaseMailScript hex accts profiles grants cfg opts =
     ''-- Database Mail accounts'' @ [nl] @ (if accts = [] then ''-- (none)'' @ [nl] else []) @
     concat (map (\<lambda>a. mailAccountCreate a opts) accts) @
     [nl] @ ''-- Database Mail profiles'' @ [nl] @ (if profiles = [] then ''-- (none)'' @ [nl] else []) @
     concat (map (\<lambda>p. mailProfileCreate hex p grants opts) profiles) @
     [nl] @ ''-- Database Mail system parameters'' @ [nl] @
     concat (map (mailStmt opts []) (configStmts (configurationOptions cfg)))"

section \<open>The accounts of a profile, brought to their order\<close>


















section \<open>Passwords\<close>

definition withPassword :: "string \<Rightarrow> CreateMailAccountRequest \<Rightarrow> CreateMailAccountRequest" where
  "withPassword pw req = req\<lparr>maCredentials := (maCredentials req)\<lparr>mcPassword := pw\<rparr>\<rparr>"

definition changePassword :: "string \<Rightarrow> MailAccountChanges \<Rightarrow> MailAccountChanges" where
  "changePassword pw ch = ch\<lparr>mxCredentials := map_option (mcPassword_update (\<lambda>_. pw)) (mxCredentials ch)\<rparr>"

lemma validateCredentials_password [simp]:
  "validateCredentials (mcPassword_update f c) = validateCredentials c"
  by (cases c) (simp add: validateCredentials_def)

lemma withPassword_fields [simp]:
  "maName (withPassword pw req) = maName req" "maEmail (withPassword pw req) = maEmail req"
  "maServer (withPassword pw req) = maServer req"
  "validateCredentials (maCredentials (withPassword pw req)) = validateCredentials (maCredentials req)"
  by (cases req; simp add: withPassword_def)+

text \<open>What is shown of the two writes of credentials, and how many statements run, say nothing of the password.\<close>

lemma shown_create: "snd (mailAccountCreateStmts (withPassword pw req)) = snd (mailAccountCreateStmts req)"
  "length (fst (mailAccountCreateStmts (withPassword pw req))) = length (fst (mailAccountCreateStmts req))"
  by (simp_all add: mailAccountCreateStmts_def accountCreateWith_def withPassword_def credentialArgs_def)

lemma shown_alter: "snd (mailAccountAlterStmt name (changePassword pw ch)) = snd (mailAccountAlterStmt name ch)"
  by (cases "mxCredentials ch")
    (simp_all add: mailAccountAlterStmt_def accountAlterWith_def changePassword_def credentialArgs_def)

lemma captured_shown:
  assumes "Scripting c" "\<not> cSecrets c"
  shows "serverExecSecret D c srv q shown s = serverExecSecret D c srv q' shown s"
  using assms by (simp add: serverExecSecret_def serverExecShown_def capture_def capturedForm_def)

lemma captured_shown_atomic:
  assumes "Scripting c" "\<not> cSecrets c"
  shows "serverExecSecretAtomic D c srv qs shown s = serverExecSecretAtomic D c srv qs' shown s"
  unfolding serverExecSecretAtomic_def
  using assms captured_shown [OF assms, of D srv "atomicBatch qs" "atomicBatch shown" s "atomicBatch qs'"] by simp

lemma mirrorAccount_password: "mirrorAccount c (changePassword pw ch) a = mirrorAccount c ch a"
  by (cases "mxCredentials ch") (simp_all add: mirrorAccount_def mirrorCredentials_def changePassword_def Let_def)

lemma noAccountChanges_password: "noAccountChanges (changePassword pw ch) = noAccountChanges ch"
  by (simp add: noAccountChanges_def changePassword_def)

text \<open>C34: a script leaks no mail password.  Under a script capture that does not ask for secrets, creating an
  account and altering one's credentials give the same result, the same handle and the same captured
  statements whatever the password is, on every branch: accounts that need one statement and accounts that
  need two, and every refusal.\<close>

theorem scripted_mail_ignores_password:
  assumes "Scripting c" "\<not> cSecrets c"
  shows "CreateAccount D c srv byName (withPassword pw req) s = CreateAccount D c srv byName req s \<and>
    alterAccount D c srv a (changePassword pw ch) s = alterAccount D c srv a ch s"
proof
  obtain run shown where p: "mailAccountCreateStmts req = (run, shown)" by (metis surj_pair)
  obtain run' where p': "mailAccountCreateStmts (withPassword pw req) = (run', shown)" "length run' = length run"
    using shown_create [of pw req] p by (metis fst_conv prod.collapse snd_conv)
  show "CreateAccount D c srv byName (withPassword pw req) s = CreateAccount D c srv byName req s"
    by (simp only: CreateAccount_def p p' Let_def prod.case withPassword_fields
      captured_shown [OF assms, of D srv "hd run'" "hd shown" s "hd run"]
      captured_shown_atomic [OF assms, of D srv run' shown s run])
  obtain q shown where r: "mailAccountAlterStmt (acName a) ch = (q, shown)" by (metis surj_pair)
  obtain q' where r': "mailAccountAlterStmt (acName a) (changePassword pw ch) = (q', shown)"
    using shown_alter [of "acName a" pw ch] r by (metis prod.collapse snd_conv)
  have m: "mxName (changePassword pw ch) = mxName ch" by (simp add: changePassword_def)
  have v: "(case mxCredentials (changePassword pw ch) of None \<Rightarrow> None | Some cred \<Rightarrow> validateCredentials cred) =
      (case mxCredentials ch of None \<Rightarrow> None | Some cred \<Rightarrow> validateCredentials cred)"
    by (cases "mxCredentials ch") (simp_all add: changePassword_def)
  show "alterAccount D c srv a (changePassword pw ch) s = alterAccount D c srv a ch s"
    unfolding alterAccount_def noAccountChanges_password m v r r' mirrorAccount_password Let_def prod.case
      captured_shown [OF assms, of D srv q' shown s q] by (rule refl)
qed

definition sampleMailRequest :: CreateMailAccountRequest where
  "sampleMailRequest = \<lparr>maName = ''ops'', maEmail = ''o@x'', maDisplay = [], maReplyTo = [], maDescription = [],
     maServer = ''smtp'', maPort = 587, maSSL = True, maTimeout = 30,
     maCredentials = \<lparr>mcAuthentication = MailAuthBasic, mcUserName = ''u'', mcPassword = ''first''\<rparr>\<rparr>"

definition scriptingCtx :: ctx where
  "scriptingCtx = \<lparr>cScript = True, cServerName = None, cSecrets = False, cObservers = [], cTx = None\<rparr>"

definition rotateMailPassword :: MailAccountChanges where
  "rotateMailPassword = \<lparr>mxName = None, mxEmail = None, mxDisplay = None, mxReplyTo = None, mxDescription = None,
     mxServer = None, mxPort = None, mxSSL = None, mxTimeout = None,
     mxCredentials = Some \<lparr>mcAuthentication = MailAuthBasic, mcUserName = ''u'', mcPassword = ''first''\<rparr>\<rparr>"

theorem scripted_mail_ignores_password_witness:
  "\<forall>(D :: unit driver) srv byName s.
     CreateAccount D scriptingCtx srv byName (withPassword ''second'' sampleMailRequest) s =
       CreateAccount D scriptingCtx srv byName sampleMailRequest s \<and>
     alterAccount D scriptingCtx srv (AccountRef ''ops'') (changePassword ''second'' rotateMailPassword) s =
       alterAccount D scriptingCtx srv (AccountRef ''ops'') rotateMailPassword s"
proof -
  have "Scripting scriptingCtx" "\<not> cSecrets scriptingCtx" by (simp_all add: scriptingCtx_def Scripting_def)
  then show ?thesis using scripted_mail_ignores_password [of scriptingCtx] by blast
qed

end
