(* ===== verification/EventSessions.thy ===== *)
theory EventSessions
  imports Mirror Names Transaction "HOL-Library.Char_ord" "HOL-Library.List_Lexorder"
begin

text \<open>
  Extended Events sessions (\<open>extended_events_script.go\<close>, the types of \<open>extended_events.go\<close>): creating a session, the difference between a session and the
  definition wanted, and \<open>Alter\<close>, which applies it and stops a running session for the options that
  cannot be changed while it runs.  A statement of \<open>Alter\<close> is a structure with its text, so that a
  server can run it.  \<open>lo\<close> is \<open>strings.ToLower\<close>, \<open>sf\<close> is \<open>unicode.SimpleFold\<close>.
\<close>

section \<open>Sessions\<close>

record SessionField =
  sfName :: string
  sfValue :: string
  sfString :: bool

record SessionEvent =
  sePackage :: string
  seName :: string
  sePredicate :: string
  seActions :: "string list"
  seFields :: "SessionField list"

record SessionTarget =
  stPackage :: string
  stName :: string
  stFields :: "SessionField list"

definition eventName :: "SessionEvent \<Rightarrow> string" where
  "eventName e = sePackage e @ ''.'' @ seName e"

definition targetName :: "SessionTarget \<Rightarrow> string" where
  "targetName t = stPackage t @ ''.'' @ stName t"

text \<open>A \<open>time.Duration\<close> is its nanoseconds; a division by a second truncates.\<close>

definition aSecond :: int where "aSecond = 1000000000"

definition seconds :: "int \<Rightarrow> int" where
  "seconds d = (if d < 0 then - (- d div aSecond) else d div aSecond)"

definition XEInfinite :: int where "XEInfinite = -1"

record EventSessionDefinition =
  edName :: string
  edEvents :: "SessionEvent list"
  edTargets :: "SessionTarget list"
  edRetention :: string
  edLatency :: int
  edMaxMemory :: int
  edMaxEventSize :: int
  edPartition :: string
  edCausality :: bool
  edStartup :: bool
  edMaxDuration :: int

record EventSession =
  esDatabase :: "database option"
  esName :: string
  esStartup :: bool
  esRunning :: bool
  esRetention :: string
  esLatency :: int
  esMaxMemory :: int
  esMaxEventSize :: int
  esPartition :: string
  esCausality :: bool
  esMaxDuration :: int
  esEvents :: "SessionEvent list"
  esTargets :: "SessionTarget list"


definition Definition :: "EventSession \<Rightarrow> EventSessionDefinition" where
  "Definition es = \<lparr>edName = esName es, edEvents = esEvents es, edTargets = esTargets es, edRetention = esRetention es,
     edLatency = (if esLatency es = 0 then XEInfinite else esLatency es), edMaxMemory = esMaxMemory es,
     edMaxEventSize = esMaxEventSize es, edPartition = esPartition es, edCausality = esCausality es,
     edStartup = esStartup es, edMaxDuration = esMaxDuration es\<rparr>"

text \<open>The scope of a session: its catalog view of sessions, and the words that name it.\<close>

definition scopeOn :: "EventSession \<Rightarrow> string" where
  "scopeOn es = (case esDatabase es of None \<Rightarrow> ''ON SERVER'' | Some d \<Rightarrow> ''ON DATABASE'')"

definition scopeSessions :: "EventSession \<Rightarrow> string" where
  "scopeSessions es = (case esDatabase es of None \<Rightarrow> ''sys.server_event_sessions'' | Some d \<Rightarrow> ''sys.database_event_sessions'')"

section \<open>The values of fields\<close>

text \<open>
  \<open>xeNumericValue\<close>: a number, with a fraction and an exponent, or a boolean word in any case -- where
  the long s of Unicode, which folds to an s, is a letter of false too.
\<close>

definition boolWord :: "string \<Rightarrow> bool" where
  "boolWord v \<longleftrightarrow> map lower_char v \<in> {''true'', ''false'', ''fal'' @ [CHR 0xC5, CHR 0xBF] @ ''e''}"

definition dropSign :: "string \<Rightarrow> string" where
  "dropSign v = (case v of [] \<Rightarrow> [] | c # t \<Rightarrow> if c = CHR ''+'' \<or> c = CHR ''-'' then t else v)"

definition exponentShape :: "string \<Rightarrow> bool" where
  "exponentShape v \<longleftrightarrow> v = [] \<or> (lower_char (hd v) = CHR ''e'' \<and> dropSign (tl v) \<noteq> [] \<and> list_all is_digit (dropSign (tl v)))"

definition numberShape :: "string \<Rightarrow> bool" where
  "numberShape v \<longleftrightarrow>
     (let t = dropSign v; i = takeWhile is_digit t; r = dropWhile is_digit t
      in if has_prefix r ''.'' then
           (let f = takeWhile is_digit (tl r) in (i \<noteq> [] \<or> f \<noteq> []) \<and> exponentShape (dropWhile is_digit (tl r)))
         else i \<noteq> [] \<and> exponentShape r)"

definition numericValue :: "string \<Rightarrow> bool" where
  "numericValue v \<longleftrightarrow> numberShape v \<or> boolWord v"

definition validateField :: "SessionField \<Rightarrow> goerr option" where
  "validateField f =
     (if \<not> sfString f \<and> \<not> numericValue (sfValue f)
      then Some (invalidf ''field %s: value %q is not a number'' [AText (sfName f), AText (sfValue f)]) else None)"

fun checkFields :: "string \<Rightarrow> SessionField list \<Rightarrow> goerr option" where
  "checkFields owner [] = None"
| "checkFields owner (f # fs) =
     (case validateField f of Some e \<Rightarrow> Some (Wrapped ''%s: %w'' [AText owner] e) | None \<Rightarrow> checkFields owner fs)"

fun firstError :: "('a \<Rightarrow> goerr option) \<Rightarrow> 'a list \<Rightarrow> goerr option" where
  "firstError f [] = None"
| "firstError f (x # xs) = (case f x of Some e \<Rightarrow> Some e | None \<Rightarrow> firstError f xs)"

definition checkDefinition :: "EventSessionDefinition \<Rightarrow> goerr option" where
  "checkDefinition spec =
     (case firstError (\<lambda>e. checkFields (''event '' @ eventName e) (seFields e)) (edEvents spec) of
        Some e \<Rightarrow> Some e
      | None \<Rightarrow> firstError (\<lambda>t. checkFields (''target '' @ targetName t) (stFields t)) (edTargets spec))"

section \<open>Clauses\<close>

definition fieldLiteral :: "SessionField \<Rightarrow> string" where
  "fieldLiteral f = (if sfString f then QuoteLiteral (sfValue f) else ''('' @ sfValue f @ '')'')"

definition setClause :: "SessionField list \<Rightarrow> string" where
  "setClause fs = ''SET '' @ str_join '','' (map (\<lambda>f. sfName f @ ''='' @ fieldLiteral f) fs)"

definition eventClause :: "SessionEvent \<Rightarrow> string" where
  "eventClause e =
     (let parts = (if seFields e \<noteq> [] then [setClause (seFields e)] else []) @
            (if seActions e \<noteq> [] then [''ACTION('' @ str_join '','' (seActions e) @ '')''] else []) @
            (if sePredicate e \<noteq> [] then [''WHERE '' @ sePredicate e] else [])
      in if parts = [] then eventName e else eventName e @ ''('' @ str_join ([nl] @ ''    '') parts @ '')'')"

definition targetClauseOf :: "SessionTarget \<Rightarrow> string" where
  "targetClauseOf t = (if stFields t = [] then targetName t else targetName t @ ''('' @ setClause (stFields t) @ '')'')"

definition latencyKeyword :: "int \<Rightarrow> string" where
  "latencyKeyword d = (if d = XEInfinite then ''INFINITE'' else itoa (seconds d) @ '' SECONDS'')"

definition durationKeyword :: "int \<Rightarrow> string" where
  "durationKeyword d = (if d \<le> 0 then ''UNLIMITED'' else itoa (seconds d) @ '' SECONDS'')"

text \<open>An option of the \<open>WITH\<close> list, and its text.\<close>

datatype sessionOption =
    MaxMemory int | RetentionMode string | DispatchLatency int | MaxEventSize int | PartitionMode string
  | TrackCausality bool | StartupState bool | MaxDuration int

fun optionText :: "sessionOption \<Rightarrow> string" where
  "optionText (MaxMemory n) = ''MAX_MEMORY='' @ itoa n @ '' KB''"
| "optionText (RetentionMode m) = ''EVENT_RETENTION_MODE='' @ m"
| "optionText (DispatchLatency d) = ''MAX_DISPATCH_LATENCY='' @ latencyKeyword d"
| "optionText (MaxEventSize n) = ''MAX_EVENT_SIZE='' @ itoa n @ '' KB''"
| "optionText (PartitionMode m) = ''MEMORY_PARTITION_MODE='' @ m"
| "optionText (TrackCausality b) = ''TRACK_CAUSALITY='' @ onOff b"
| "optionText (StartupState b) = ''STARTUP_STATE='' @ onOff b"
| "optionText (MaxDuration d) = ''MAX_DURATION='' @ durationKeyword d"

definition createOptions :: "EventSessionDefinition \<Rightarrow> sessionOption list" where
  "createOptions spec =
     (if edMaxMemory spec > 0 then [MaxMemory (edMaxMemory spec)] else []) @
     (if edRetention spec \<noteq> [] then [RetentionMode (edRetention spec)] else []) @
     (if edLatency spec \<noteq> 0 then [DispatchLatency (edLatency spec)] else []) @
     [MaxEventSize (edMaxEventSize spec)] @
     (if edPartition spec \<noteq> [] then [PartitionMode (edPartition spec)] else []) @
     [TrackCausality (edCausality spec), StartupState (edStartup spec)] @
     (if edMaxDuration spec > 0 then [MaxDuration (edMaxDuration spec)] else [])"

definition optionsText :: "sessionOption list \<Rightarrow> string" where
  "optionsText opts = [nl] @ ''WITH ('' @ str_join '','' (map optionText opts) @ '')''"

definition validateDefinition :: "EventSessionDefinition \<Rightarrow> goerr option" where
  "validateDefinition spec =
     (if trim_space (edName spec) = [] then Some (invalidf ''event session has no name'' [])
      else if edEvents spec = [] then Some (invalidf ''event session %q has no events'' [AText (edName spec)])
      else case find (\<lambda>e. sePackage e = [] \<or> seName e = []) (edEvents spec) of
        Some e \<Rightarrow> Some (invalidf ''event session %q: event %q has no package or name'' [AText (edName spec), AText (eventName e)])
      | None \<Rightarrow>
          (case find (\<lambda>t. stPackage t = [] \<or> stName t = []) (edTargets spec) of
             Some t \<Rightarrow> Some (invalidf ''event session %q: target %q has no package or name'' [AText (edName spec), AText (targetName t)])
           | None \<Rightarrow> map_option (Wrapped ''event session %q: %w'' [AText (edName spec)]) (checkDefinition spec)))"

definition createSessionStatement :: "EventSessionDefinition \<Rightarrow> string \<Rightarrow> string res" where
  "createSessionStatement spec on =
     (case validateDefinition spec of Some e \<Rightarrow> Inl e
      | None \<Rightarrow> Inr (''CREATE EVENT SESSION '' @ QuoteName (edName spec) @ '' '' @ on @
          str_join '','' (map (\<lambda>e. [nl] @ ''ADD EVENT '' @ eventClause e) (edEvents spec)) @
          str_join '','' (map (\<lambda>t. [nl] @ ''ADD TARGET '' @ targetClauseOf t) (edTargets spec)) @
          optionsText (createOptions spec)))"

section \<open>The difference of a session and a definition\<close>

definition sortedFold :: "(string \<Rightarrow> string) \<Rightarrow> string list \<Rightarrow> string list" where
  "sortedFold lo xs = sort (map lo xs)"

definition fieldKey :: "(string \<Rightarrow> string) \<Rightarrow> SessionField \<Rightarrow> string" where
  "fieldKey lo f = lo (sfName f) @ ''='' @ sfValue f"

definition fieldsEqual :: "(string \<Rightarrow> string) \<Rightarrow> SessionField list \<Rightarrow> SessionField list \<Rightarrow> bool" where
  "fieldsEqual lo a b \<longleftrightarrow> length a = length b \<and> sort (map (fieldKey lo) a) = sort (map (fieldKey lo) b)"

definition eventsEqual :: "(string \<Rightarrow> string) \<Rightarrow> SessionEvent \<Rightarrow> SessionEvent \<Rightarrow> bool" where
  "eventsEqual lo a b \<longleftrightarrow> sePredicate a = sePredicate b \<and> sortedFold lo (seActions a) = sortedFold lo (seActions b) \<and>
     fieldsEqual lo (seFields a) (seFields b)"

text \<open>A part of an \<open>ALTER EVENT SESSION\<close>; a statement of \<open>Alter\<close>, and its text.\<close>

datatype sessionPart = DropEvent string | AddEvent SessionEvent | DropTarget string | AddTarget SessionTarget

fun partText :: "sessionPart \<Rightarrow> string" where
  "partText (DropEvent n) = ''DROP EVENT '' @ n"
| "partText (AddEvent e) = ''ADD EVENT '' @ eventClause e"
| "partText (DropTarget n) = ''DROP TARGET '' @ n"
| "partText (AddTarget t) = ''ADD TARGET '' @ targetClauseOf t"

datatype sessionStmt = AlterParts "sessionPart list" | AlterOptions "sessionOption list" | SetState bool

definition alterHead :: "EventSession \<Rightarrow> string" where
  "alterHead es = ''ALTER EVENT SESSION '' @ QuoteName (esName es) @ '' '' @ scopeOn es"

fun sessionText :: "EventSession \<Rightarrow> sessionStmt \<Rightarrow> string" where
  "sessionText es (AlterParts ps) = alterHead es @ [nl] @ str_join ('','' @ [nl]) (map partText ps)"
| "sessionText es (AlterOptions opts) = alterHead es @ optionsText opts"
| "sessionText es (SetState b) = alterHead es @ '' STATE = '' @ (if b then ''START'' else ''STOP'')"

text \<open>
  The two loops over what is wanted, for the events and for the targets alike: \<open>held\<close> is the map of
  what the session has by its folded name, \<open>same\<close> the comparison; what is dropped, by its old name, and
  what is added.
\<close>

fun wantLoop :: "('a \<Rightarrow> string) \<Rightarrow> ('a \<Rightarrow> 'a \<Rightarrow> bool) \<Rightarrow> (string \<Rightarrow> 'a option) \<Rightarrow> 'a list \<Rightarrow> 'a list \<times> 'a list" where
  "wantLoop key same held [] = ([], [])"
| "wantLoop key same held (e # es) =
     (case wantLoop key same held es of
        (drops, adds) \<Rightarrow>
          (case held (key e) of
             Some old \<Rightarrow> if same old e then (drops, adds) else (old # drops, e # adds)
           | None \<Rightarrow> (drops, e # adds)))"

definition heldMap :: "('a \<Rightarrow> string) \<Rightarrow> 'a list \<Rightarrow> string \<Rightarrow> 'a option" where
  "heldMap key cur = foldl (\<lambda>m e. m(key e \<mapsto> e)) Map.empty cur"

definition diffParts :: "('a \<Rightarrow> string) \<Rightarrow> ('a \<Rightarrow> 'a \<Rightarrow> bool) \<Rightarrow> 'a list \<Rightarrow> 'a list \<Rightarrow> 'a list \<times> 'a list" where
  "diffParts key same cur want =
     (case wantLoop key same (heldMap key cur) want of
        (drops, adds) \<Rightarrow> (drops @ filter (\<lambda>e. key e \<notin> key ` set want) cur, adds))"

definition eventKey :: "(string \<Rightarrow> string) \<Rightarrow> SessionEvent \<Rightarrow> string" where
  "eventKey lo e = lo (eventName e)"

definition targetKey :: "(string \<Rightarrow> string) \<Rightarrow> SessionTarget \<Rightarrow> string" where
  "targetKey lo t = lo (targetName t)"

definition sameTarget :: "(string \<Rightarrow> string) \<Rightarrow> SessionTarget \<Rightarrow> SessionTarget \<Rightarrow> bool" where
  "sameTarget lo a b = fieldsEqual lo (stFields a) (stFields b)"

text \<open>The options a running session refuses, when they change.\<close>

definition stoppedOptions :: "(nat \<Rightarrow> nat) \<Rightarrow> EventSessionDefinition \<Rightarrow> EventSession \<Rightarrow> sessionOption list" where
  "stoppedOptions sf spec cur =
     (if edMaxMemory spec > 0 \<and> edMaxMemory spec \<noteq> esMaxMemory cur then [MaxMemory (edMaxMemory spec)] else []) @
     (if edRetention spec \<noteq> [] \<and> \<not> EqualFold sf (edRetention spec) (esRetention cur) then [RetentionMode (edRetention spec)] else []) @
     (if edLatency spec \<noteq> 0 \<and> edLatency spec \<noteq> edLatency (Definition cur) then [DispatchLatency (edLatency spec)] else []) @
     (if edMaxEventSize spec \<noteq> esMaxEventSize cur then [MaxEventSize (edMaxEventSize spec)] else []) @
     (if edPartition spec \<noteq> [] \<and> \<not> EqualFold sf (edPartition spec) (esPartition cur) then [PartitionMode (edPartition spec)] else []) @
     (if edCausality spec \<noteq> esCausality cur then [TrackCausality (edCausality spec)] else []) @
     (if edMaxDuration spec \<noteq> esMaxDuration cur then [MaxDuration (edMaxDuration spec)] else [])"

record eventSessionAlter =
  eaStatements :: "sessionStmt list"
  eaStoppedOnly :: "sessionOption list"

definition alterStatements :: "(string \<Rightarrow> string) \<Rightarrow> (nat \<Rightarrow> nat) \<Rightarrow> EventSessionDefinition \<Rightarrow> EventSession \<Rightarrow> eventSessionAlter" where
  "alterStatements lo sf spec cur =
     (let (dropEvents, addEvents) = diffParts (eventKey lo) (eventsEqual lo) (esEvents cur) (edEvents spec);
          (dropTargets, addTargets) = diffParts (targetKey lo) (sameTarget lo) (esTargets cur) (edTargets spec)
      in \<lparr>eaStatements =
            map AlterParts (filter (\<lambda>g. g \<noteq> [])
              [map (\<lambda>e. DropEvent (eventName e)) dropEvents, map (\<lambda>t. DropTarget (targetName t)) dropTargets,
               map AddEvent addEvents, map AddTarget addTargets]) @
            (if edStartup spec \<noteq> esStartup cur then [AlterOptions [StartupState (edStartup spec)]] else []),
          eaStoppedOnly = stoppedOptions sf spec cur\<rparr>)"

section \<open>Writes\<close>

definition scopeSupported :: "bool \<Rightarrow> EventSession \<Rightarrow> goerr option" where
  "scopeSupported azure es =
     (if esDatabase es \<noteq> None \<and> \<not> azure
      then Some (unsupportedVersionf ''database-scoped event sessions require Azure SQL Database or Managed Instance'' [])
      else None)"

definition sessionExec :: "'w driver \<Rightarrow> bool \<Rightarrow> ctx \<Rightarrow> server \<Rightarrow> EventSession \<Rightarrow> string \<Rightarrow> 'w st \<Rightarrow> goerr option \<times> 'w st" where
  "sessionExec D azure c srv es q s =
     (case esDatabase es of
        None \<Rightarrow> serverExec D c srv q [] s
      | Some d \<Rightarrow>
          (case scopeSupported azure es of Some e \<Rightarrow> (Some e, s)
           | None \<Rightarrow> databaseExec D c d q [] s))"

definition createEventSession :: "'w driver \<Rightarrow> bool \<Rightarrow> ctx \<Rightarrow> server \<Rightarrow> EventSession \<Rightarrow> EventSessionDefinition \<Rightarrow>
    ('w st \<Rightarrow> EventSession res \<times> 'w st) \<Rightarrow> 'w st \<Rightarrow> EventSession res \<times> 'w st" where
  "createEventSession D azure c srv ref spec read s =
     (case createSessionStatement spec (scopeOn ref) of
        Inl e \<Rightarrow> (Inl (Wrapped ''gosmo: create event session: %w'' [] e), s)
      | Inr q \<Rightarrow>
          (case sessionExec D azure c srv ref q s of
             (Some e, s1) \<Rightarrow> (Inl (Wrapped ''gosmo: create event session %q: %w'' [AText (edName spec)] e), s1)
           | (None, s1) \<Rightarrow> createdObject c ref read s1))"

definition AddTargetTo :: "'w driver \<Rightarrow> bool \<Rightarrow> ctx \<Rightarrow> server \<Rightarrow> EventSession \<Rightarrow> SessionTarget \<Rightarrow> 'w st \<Rightarrow>
    goerr option \<times> EventSession \<times> 'w st" where
  "AddTargetTo D azure c srv es t s =
     (if stPackage t = [] \<or> stName t = []
      then (Some (invalidf ''gosmo: add target to event session %q: target %q has no package or name''
             [AText (esName es), AText (targetName t)]), es, s)
      else case checkFields (''target '' @ targetName t) (stFields t) of
        Some e \<Rightarrow> (Some (Wrapped ''gosmo: add target to event session %q: %w'' [AText (esName es)] e), es, s)
      | None \<Rightarrow>
          (case sessionExec D azure c srv es (sessionText es (AlterParts [AddTarget t])) s of
             (Some e, s1) \<Rightarrow>
               (Some (Wrapped ''gosmo: add target %s to event session %q: %w'' [AText (targetName t), AText (esName es)] e), es, s1)
           | (None, s1) \<Rightarrow> (None, es \<lparr>esTargets := setIfApplied c (esTargets es) (esTargets es @ [t])\<rparr>, s1)))"

definition dropSession :: "'w driver \<Rightarrow> bool \<Rightarrow> ctx \<Rightarrow> server \<Rightarrow> EventSession \<Rightarrow> 'w st \<Rightarrow> goerr option \<times> 'w st" where
  "dropSession D azure c srv es s =
     (case sessionExec D azure c srv es (''DROP EVENT SESSION '' @ QuoteName (esName es) @ '' '' @ scopeOn es) s of
        (Some e, s1) \<Rightarrow> (Some (Wrapped ''gosmo: drop event session %q: %w'' [AText (esName es)] e), s1)
      | (None, s1) \<Rightarrow> (None, s1))"

text \<open>
  \<open>Alter\<close> over what sends a statement, named as a handle names the session.  Its first argument says
  that the context was cut off from the caller's cancellation, as \<open>restoreWindow\<close> does.
\<close>

type_synonym 's sender = "bool \<Rightarrow> ctx \<Rightarrow> EventSession \<Rightarrow> sessionStmt \<Rightarrow> 's \<Rightarrow> goerr option \<times> 's"

definition setState :: "'s sender \<Rightarrow> bool \<Rightarrow> ctx \<Rightarrow> bool \<Rightarrow> EventSession \<times> 's \<Rightarrow> goerr option \<times> EventSession \<times> 's" where
  "setState send detached c start es_s =
     (case es_s of (es, s) \<Rightarrow>
       (case send detached c es (SetState start) s of
          (Some e, s1) \<Rightarrow>
            (Some (Wrapped ''gosmo: %s event session %q: %w'' [AText (if start then ''start'' else ''stop''), AText (esName es)] e), es, s1)
        | (None, s1) \<Rightarrow> (None, es \<lparr>esRunning := setIfApplied c (esRunning es) start\<rparr>, s1)))"

fun sendAll :: "'s sender \<Rightarrow> ctx \<Rightarrow> EventSession \<Rightarrow> string \<Rightarrow> sessionStmt list \<Rightarrow> 's \<Rightarrow> goerr option \<times> 's" where
  "sendAll send c h name [] s = (None, s)"
| "sendAll send c h name (q # qs) s =
     (case send False c h q s of
        (Some e, s1) \<Rightarrow> (Some (Wrapped ''gosmo: alter event session %q: %w'' [AText name] e), s1)
      | (None, s1) \<Rightarrow> sendAll send c h name qs s1)"

definition stopWindow :: "'s sender \<Rightarrow> ctx \<Rightarrow> EventSession \<Rightarrow> sessionStmt \<Rightarrow> EventSession \<times> 's \<Rightarrow> goerr option \<times> EventSession \<times> 's" where
  "stopWindow send c h q es_s =
     (case setState send False (unobserved c) False es_s of
        (Some e, es, s) \<Rightarrow> (Some e, es, s)
      | (None, es, s) \<Rightarrow>
          (case sendAll send c h (esName es) [q] s of
             (Some e, s1) \<Rightarrow> (Some e, snd (restoreWindow c (\<lambda>detached c1. setState send detached c1 True) (es, s1)))
           | (None, s1) \<Rightarrow> restoreWindow c (\<lambda>detached c1. setState send detached c1 True) (es, s1)))"

definition alterSession :: "(string \<Rightarrow> string) \<Rightarrow> (nat \<Rightarrow> nat) \<Rightarrow> 's sender \<Rightarrow> ctx \<Rightarrow> ('s \<Rightarrow> EventSession res \<times> 's) \<Rightarrow>
    EventSession \<Rightarrow> EventSessionDefinition \<Rightarrow> 's \<Rightarrow> goerr option \<times> EventSession \<times> 's" where
  "alterSession lo sf send c read es spec s =
     (case checkDefinition spec of
        Some e \<Rightarrow> (Some (Wrapped ''gosmo: alter event session %q: %w'' [AText (esName es)] e), es, s)
      | None \<Rightarrow>
          (case read s of
             (Inl e, s1) \<Rightarrow> (Some e, es, s1)
           | (Inr cur, s1) \<Rightarrow>
               (let diff = alterStatements lo sf spec cur
                in case sendAll send c cur (esName es) (eaStatements diff) s1 of
                  (Some e, s2) \<Rightarrow> (Some e, es, s2)
                | (None, s2) \<Rightarrow>
                    if eaStoppedOnly diff = [] then (None, es, s2)
                    else if \<not> esRunning cur
                    then (case sendAll send c cur (esName es) [AlterOptions (eaStoppedOnly diff)] s2 of (err, s3) \<Rightarrow> (err, es, s3))
                    else stopWindow send c cur (AlterOptions (eaStoppedOnly diff)) (es, s2))))"

text \<open>The code's \<open>Alter\<close>: each statement as its text, through the chokepoint.\<close>

definition AlterSession :: "(string \<Rightarrow> string) \<Rightarrow> (nat \<Rightarrow> nat) \<Rightarrow> 'w driver \<Rightarrow> bool \<Rightarrow> ctx \<Rightarrow> server \<Rightarrow>
    ('w st \<Rightarrow> EventSession res \<times> 'w st) \<Rightarrow> EventSession \<Rightarrow> EventSessionDefinition \<Rightarrow> 'w st \<Rightarrow>
    goerr option \<times> EventSession \<times> 'w st" where
  "AlterSession lo sf D azure c srv read es spec s =
     alterSession lo sf (\<lambda>detached c1 h q. sessionExec D azure c1 srv es (sessionText h q)) c read es spec s"

definition StartSession :: "'w driver \<Rightarrow> bool \<Rightarrow> ctx \<Rightarrow> server \<Rightarrow> EventSession \<Rightarrow> 'w st \<Rightarrow> goerr option \<times> EventSession \<times> 'w st" where
  "StartSession D azure c srv es s =
     setState (\<lambda>detached c1 h q. sessionExec D azure c1 srv es (sessionText h q)) False c True (es, s)"

definition StopSession :: "'w driver \<Rightarrow> bool \<Rightarrow> ctx \<Rightarrow> server \<Rightarrow> EventSession \<Rightarrow> 'w st \<Rightarrow> goerr option \<times> EventSession \<times> 'w st" where
  "StopSession D azure c srv es s =
     setState (\<lambda>detached c1 h q. sessionExec D azure c1 srv es (sessionText h q)) False c False (es, s)"

section \<open>The script\<close>

definition sessionExists :: "EventSession \<Rightarrow> string" where
  "sessionExists es = ''SELECT 1 FROM '' @ scopeSessions es @ '' WHERE name = N'' @ [squote] @ escapeSingle (esName es) @ [squote]"

definition buildEventSessionScript :: "EventSession \<Rightarrow> ScriptOptions \<Rightarrow> string res" where
  "buildEventSessionScript es opts =
     envelopeErr opts
       (''IF EXISTS ('' @ sessionExists es @ '')'' @ [nl] @ ''    DROP EVENT SESSION '' @ QuoteName (esName es) @ '' '' @ scopeOn es @
        '';'' @ [nl] @ ''GO'' @ [nl])
       (''IF NOT EXISTS ('' @ sessionExists es @ '')'' @ [nl])
       (case createSessionStatement (Definition es) (scopeOn es) of
          Inl e \<Rightarrow> Inl (Wrapped ''gosmo: script event session %q: %w'' [AText (esName es)] e)
        | Inr q \<Rightarrow> Inr (q @ '';'' @ [nl] @ ''GO'' @ [nl]))"

section \<open>A session on the server\<close>









fun anyTime :: "sessionOption \<Rightarrow> bool" where
  "anyTime (StartupState b) = True"
| "anyTime _ = False"







section \<open>The parts reach what is wanted\<close>





lemma heldMap_Nil [simp]: "heldMap key [] = Map.empty"
  by (simp add: heldMap_def)








lemma fieldsEqual_refl [simp]: "fieldsEqual lo a a"
  by (simp add: fieldsEqual_def)














lemma stopped_options_kinds: "list_all (\<lambda>x. \<not> anyTime x) (stoppedOptions sf spec cur)"
  by (simp add: stoppedOptions_def)


section \<open>A session that ran runs again\<close>

















end
