(* ===== verification/Audits.thy ===== *)
theory Audits
  imports Mirror Names
begin

text \<open>
  Server audits and audit specifications (\<open>audit.go\<close>, \<open>audit_specification.go\<close>,
  \<open>database_audit_specification.go\<close> and their scripts in \<open>scripter_server.go\<close> and
  \<open>scripter_security.go\<close>).  Every write but the switch is refused while an audit is on, so a write
  opens a window: it switches the audit off, does its work and switches it on again.  A statement on an
  audit is a structure with its text, so that a server can run it.  An error is the list of its parts,
  empty when there is none, because \<open>Rename\<close> joins two.  \<open>up\<close> is \<open>strings.ToUpper\<close>, \<open>sf\<close> is
  \<open>unicode.SimpleFold\<close>.
\<close>

section \<open>Audits and their statements\<close>

text \<open>A handle has the fields that its writes and its script use; ids, times and the file's name are only read.\<close>

definition AuditToFile :: string where "AuditToFile = ''FILE''"
definition AuditFailureShutdown :: string where "AuditFailureShutdown = ''SHUTDOWN SERVER INSTANCE''"
definition AuditUnlimited :: int where "AuditUnlimited = 2147483647"

record ServerAudit =
  saName :: string
  saType :: string
  saOnFailure :: string
  saQueueDelay :: int
  saPredicate :: string
  saEnabled :: bool
  saLogFilePath :: string
  saMaxFileSize :: int
  saMaxRolloverFiles :: int
  saMaxFiles :: int
  saReserve :: bool

definition ServerAuditRef :: "string \<Rightarrow> ServerAudit" where
  "ServerAuditRef name = \<lparr>saName = name, saType = [], saOnFailure = [], saQueueDelay = 0, saPredicate = [], saEnabled = False,
     saLogFilePath = [], saMaxFileSize = 0, saMaxRolloverFiles = 0, saMaxFiles = 0, saReserve = False\<rparr>"

record ServerAuditDefinition =
  adName :: string
  adType :: string
  adQueueDelay :: int
  adOnFailure :: string
  adPredicate :: string
  adFilePath :: string
  adMaxFileSize :: int
  adMaxRolloverFiles :: int
  adMaxFiles :: int
  adReserve :: bool

definition auditDestinationKeyword :: "string \<Rightarrow> string" where
  "auditDestinationKeyword t = replace_all (trim_space t) '' '' ''_''"

definition auditFailureKeyword :: "(nat \<Rightarrow> nat) \<Rightarrow> string \<Rightarrow> string" where
  "auditFailureKeyword sf f =
     (if EqualFold sf (trim_space f) AuditFailureShutdown then ''SHUTDOWN'' else replace_all (trim_space f) '' '' ''_'')"

definition auditFileOptions :: "ServerAuditDefinition \<Rightarrow> string list" where
  "auditFileOptions spec =
     (if adFilePath spec \<noteq> [] then [''FILEPATH = N'' @ [squote] @ escapeSingle (adFilePath spec) @ [squote]] else []) @
     [if adMaxFileSize spec > 0 then ''MAXSIZE = '' @ itoa (adMaxFileSize spec) @ '' MB'' else ''MAXSIZE = UNLIMITED''] @
     [if adMaxFiles spec > 0 then ''MAX_FILES = '' @ itoa (adMaxFiles spec)
      else if adMaxRolloverFiles spec > 0 \<and> adMaxRolloverFiles spec \<noteq> AuditUnlimited
      then ''MAX_ROLLOVER_FILES = '' @ itoa (adMaxRolloverFiles spec) else ''MAX_ROLLOVER_FILES = UNLIMITED''] @
     [''RESERVE_DISK_SPACE = '' @ onOff (adReserve spec)]"

definition auditTargetClause :: "(nat \<Rightarrow> nat) \<Rightarrow> ServerAuditDefinition \<Rightarrow> string" where
  "auditTargetClause sf spec =
     (if adType spec = [] then []
      else if \<not> EqualFold sf (adType spec) AuditToFile then [nl] @ ''TO '' @ auditDestinationKeyword (adType spec)
      else [nl] @ ''TO FILE'' @ [nl] @ ''( '' @ str_join ('','' @ [nl] @ ''  '') (auditFileOptions spec) @ '' )'')"

definition auditWithClause :: "(nat \<Rightarrow> nat) \<Rightarrow> ServerAuditDefinition \<Rightarrow> string" where
  "auditWithClause sf spec =
     [nl] @ ''WITH ( '' @ str_join '', '' ([''QUEUE_DELAY = '' @ itoa (adQueueDelay spec)] @
       (if adOnFailure spec \<noteq> [] then [''ON_FAILURE = '' @ auditFailureKeyword sf (adOnFailure spec)] else [])) @ '' )''"

definition createServerAuditStatement :: "(nat \<Rightarrow> nat) \<Rightarrow> ServerAuditDefinition \<Rightarrow> string res" where
  "createServerAuditStatement sf spec =
     (if trim_space (adName spec) = [] then Inl (invalidf ''server audit has no name'' [])
      else if adType spec = [] then Inl (invalidf ''server audit %q has no destination'' [AText (adName spec)])
      else if EqualFold sf (adType spec) AuditToFile \<and> adFilePath spec = []
      then Inl (invalidf ''server audit %q has no file path'' [AText (adName spec)])
      else Inr (''CREATE SERVER AUDIT '' @ QuoteName (adName spec) @ auditTargetClause sf spec @ auditWithClause sf spec @
        (if adPredicate spec \<noteq> [] then [nl] @ ''WHERE '' @ adPredicate spec else [])))"

text \<open>
  A statement on an audit, and its text: the switch of \<open>setStateNamed\<close>, the two of
  \<open>alterServerAuditStatements\<close>, and those of \<open>Rename\<close> and \<open>Drop\<close>.
\<close>

datatype auditStmt =
    AuditState string bool
  | AuditSettings string ServerAuditDefinition
  | AuditRemoveWhere string
  | AuditRename string string
  | AuditDrop string

fun auditText :: "(nat \<Rightarrow> nat) \<Rightarrow> auditStmt \<Rightarrow> string" where
  "auditText sf (AuditState name on) = ''ALTER SERVER AUDIT '' @ QuoteName name @ '' WITH ( STATE = '' @ onOff on @ '' )''"
| "auditText sf (AuditSettings name spec) =
     ''ALTER SERVER AUDIT '' @ QuoteName name @ auditTargetClause sf spec @ auditWithClause sf spec @
     (if adPredicate spec \<noteq> [] then [nl] @ ''WHERE '' @ adPredicate spec else [])"
| "auditText sf (AuditRemoveWhere name) = ''ALTER SERVER AUDIT '' @ QuoteName name @ '' REMOVE WHERE''"
| "auditText sf (AuditRename name newName) = ''ALTER SERVER AUDIT '' @ QuoteName name @ '' MODIFY NAME = '' @ QuoteName newName"
| "auditText sf (AuditDrop name) = ''DROP SERVER AUDIT '' @ QuoteName name"

definition alterServerAuditStatements :: "ServerAuditDefinition \<Rightarrow> string \<Rightarrow> auditStmt list" where
  "alterServerAuditStatements spec name =
     (if adPredicate spec \<noteq> [] then [AuditSettings name spec] else [AuditSettings name spec, AuditRemoveWhere name])"

definition CreateServerAudit :: "(nat \<Rightarrow> nat) \<Rightarrow> 'w driver \<Rightarrow> ctx \<Rightarrow> server \<Rightarrow> (string \<Rightarrow> 'w st \<Rightarrow> ServerAudit res \<times> 'w st) \<Rightarrow>
    ServerAuditDefinition \<Rightarrow> 'w st \<Rightarrow> ServerAudit res \<times> 'w st" where
  "CreateServerAudit sf D c srv byName spec s =
     (case createServerAuditStatement sf spec of
        Inl e \<Rightarrow> (Inl (Wrapped ''gosmo: create server audit: %w'' [] e), s)
      | Inr q \<Rightarrow>
          (case serverExec D c srv q [] s of
             (Some e, s1) \<Rightarrow> (Inl (Wrapped ''gosmo: create server audit %q: %w'' [AText (adName spec)] e), s1)
           | (None, s1) \<Rightarrow> createdObject c (ServerAuditRef (adName spec)) (byName (adName spec)) s1))"

section \<open>Windows\<close>

text \<open>
  The handles, by number; the names that windows will switch on again, a cell each, which a rename inside
  rewrites; and what is behind the statements.  A context in a window carries the number of its cell.
\<close>

record 's auditRun =
  arHandles :: "nat \<Rightarrow> ServerAudit"
  arCells :: "string list"
  arServer :: 's

type_synonym 's auditSender = "bool \<Rightarrow> ctx \<Rightarrow> auditStmt \<Rightarrow> 's \<Rightarrow> goerr option \<times> 's"

type_synonym 's auditReader = "string \<Rightarrow> 's \<Rightarrow> bool res \<times> 's"

definition changeHandle :: "nat \<Rightarrow> (ServerAudit \<Rightarrow> ServerAudit) \<Rightarrow> 's auditRun \<Rightarrow> 's auditRun" where
  "changeHandle h f r = r\<lparr>arHandles := (arHandles r)(h := f (arHandles r h))\<rparr>"

definition handleName :: "'s auditRun \<Rightarrow> nat \<Rightarrow> string" where
  "handleName r h = saName (arHandles r h)"

definition setStateNamed :: "'s auditSender \<Rightarrow> nat \<Rightarrow> string \<Rightarrow> bool \<Rightarrow> bool \<Rightarrow> ctx \<Rightarrow> 's auditRun \<Rightarrow> goerr list \<times> 's auditRun" where
  "setStateNamed send h name on detached c r =
     (case send detached c (AuditState name on) (arServer r) of
        (Some e, s) \<Rightarrow> ([Wrapped ''gosmo: set server audit %q state: %w'' [AText name] e], r\<lparr>arServer := s\<rparr>)
      | (None, s) \<Rightarrow> ([], changeHandle h (\<lambda>a. a\<lparr>saEnabled := setIfApplied c (saEnabled a) on\<rparr>) (r\<lparr>arServer := s\<rparr>)))"

definition auditWindow :: "nat \<Rightarrow> nat option \<Rightarrow> 's auditRun \<Rightarrow> nat option" where
  "auditWindow h window r =
     (case window of None \<Rightarrow> None | Some i \<Rightarrow> if arCells r ! i \<noteq> handleName r h then None else Some i)"

definition withAuditDisabled :: "'s auditSender \<Rightarrow> 's auditReader \<Rightarrow> nat \<Rightarrow> ctx \<Rightarrow> nat option \<Rightarrow>
    (nat option \<Rightarrow> 's auditRun \<Rightarrow> goerr list \<times> 's auditRun) \<Rightarrow> 's auditRun \<Rightarrow> goerr list \<times> 's auditRun" where
  "withAuditDisabled send enabled h c window fn r =
     (case auditWindow h window r of
        Some i \<Rightarrow> fn window r
      | None \<Rightarrow>
          (case enabled (handleName r h) (arServer r) of
             (Inl e, s) \<Rightarrow> ([e], r\<lparr>arServer := s\<rparr>)
           | (Inr on, s) \<Rightarrow>
               (let i = length (arCells r);
                    r1 = r\<lparr>arServer := s, arCells := arCells r @ [handleName r h]\<rparr>
                in if \<not> on then fn (Some i) r1
                   else (case setStateNamed send h (handleName r h) False False (unobserved c) r1 of
                       ([], r2) \<Rightarrow>
                         (case fn (Some i) r2 of
                            ([], r3) \<Rightarrow> restoreWindow c (setStateNamed send h (arCells r3 ! i) True) r3
                          | (e # es, r3) \<Rightarrow> (e # es, snd (restoreWindow c (setStateNamed send h (arCells r3 ! i) True) r3)))
                     | (errs, r2) \<Rightarrow> (errs, r2)))))"

text \<open>\<open>Alter\<close>: its statements one after the other, in a window.\<close>

fun sendSettings :: "'s auditSender \<Rightarrow> ctx \<Rightarrow> string \<Rightarrow> auditStmt list \<Rightarrow> 's auditRun \<Rightarrow> goerr list \<times> 's auditRun" where
  "sendSettings send c name [] r = ([], r)"
| "sendSettings send c name (q # qs) r =
     (case send False c q (arServer r) of
        (Some e, s) \<Rightarrow> ([Wrapped ''gosmo: alter server audit %q: %w'' [AText name] e], r\<lparr>arServer := s\<rparr>)
      | (None, s) \<Rightarrow> sendSettings send c name qs (r\<lparr>arServer := s\<rparr>))"

definition alterAudit :: "'s auditSender \<Rightarrow> 's auditReader \<Rightarrow> nat \<Rightarrow> ServerAuditDefinition \<Rightarrow> ctx \<Rightarrow> nat option \<Rightarrow>
    's auditRun \<Rightarrow> goerr list \<times> 's auditRun" where
  "alterAudit send enabled h spec c window r =
     withAuditDisabled send enabled h c window
       (\<lambda>w r. sendSettings send c (handleName r h) (alterServerAuditStatements spec (handleName r h)) r) r"

text \<open>\<open>Rename\<close>, which restores under the name the audit has by then.\<close>

definition renameWork :: "'s auditSender \<Rightarrow> nat \<Rightarrow> string \<Rightarrow> ctx \<Rightarrow> nat option \<Rightarrow> bool \<Rightarrow> 's auditRun \<Rightarrow>
    goerr list \<times> 's auditRun" where
  "renameWork send h newName c cell restore r =
     (let old = handleName r h
      in case send False c (AuditRename old newName) (arServer r) of
        (Some e, s) \<Rightarrow>
          (let err = [Wrapped ''gosmo: rename server audit %q: %w'' [AText old] e]; r1 = r\<lparr>arServer := s\<rparr>
           in if restore then (case restoreWindow c (setStateNamed send h old True) r1 of (errs, r2) \<Rightarrow> (err @ errs, r2))
              else (err, r1))
      | (None, s) \<Rightarrow>
          (let r1 = changeHandle h (\<lambda>a. a\<lparr>saName := setIfApplied c (saName a) newName\<rparr>) (r\<lparr>arServer := s\<rparr>);
               r2 = (case cell of None \<Rightarrow> r1 | Some i \<Rightarrow> r1\<lparr>arCells := (arCells r1)[i := newName]\<rparr>)
           in if restore then restoreWindow c (setStateNamed send h newName True) r2 else ([], r2)))"

definition renameAudit :: "'s auditSender \<Rightarrow> 's auditReader \<Rightarrow> nat \<Rightarrow> string \<Rightarrow> ctx \<Rightarrow> nat option \<Rightarrow>
    's auditRun \<Rightarrow> goerr list \<times> 's auditRun" where
  "renameAudit send enabled h newName c window r =
     (if trim_space newName = []
      then ([invalidf ''gosmo: rename server audit %q: new name is empty'' [AText (handleName r h)]], r)
      else case auditWindow h window r of
        Some i \<Rightarrow> renameWork send h newName c (Some i) False r
      | None \<Rightarrow>
          (case enabled (handleName r h) (arServer r) of
             (Inl e, s) \<Rightarrow> ([e], r\<lparr>arServer := s\<rparr>)
           | (Inr on, s) \<Rightarrow>
               if \<not> on then renameWork send h newName c None False (r\<lparr>arServer := s\<rparr>)
               else (case setStateNamed send h (handleName r h) False False (unobserved c) (r\<lparr>arServer := s\<rparr>) of
                   ([], r1) \<Rightarrow> renameWork send h newName c None True r1
                 | (errs, r1) \<Rightarrow> (errs, r1))))"


text \<open>The code's sender: the text, through the chokepoint.\<close>

definition textSender :: "(nat \<Rightarrow> nat) \<Rightarrow> 'w driver \<Rightarrow> server \<Rightarrow> 'w st auditSender" where
  "textSender sf D srv detached c q s = serverExec D c srv (auditText sf q) [] s"

section \<open>Scripts of audits\<close>

definition auditExists :: "string \<Rightarrow> string \<Rightarrow> string \<Rightarrow> string" where
  "auditExists test view name = ''IF '' @ test @ '' (SELECT 1 FROM '' @ view @ '' WHERE name = N'' @ [squote] @ escapeSingle name @ [squote] @ '')''"

text \<open>The drop of an audit or a specification, which switches it off first.\<close>

definition auditDropText :: "string \<Rightarrow> string \<Rightarrow> string \<Rightarrow> string" where
  "auditDropText view kind name =
     auditExists ''EXISTS'' view name @ [nl] @ ''BEGIN'' @ [nl] @
     ''    ALTER '' @ kind @ '' '' @ QuoteName name @ '' WITH ( STATE = OFF );'' @ [nl] @
     ''    DROP '' @ kind @ '' '' @ QuoteName name @ '';'' @ [nl] @ ''END'' @ [nl] @ ''GO'' @ [nl]"

definition auditCreateText :: "ScriptOptions \<Rightarrow> string \<Rightarrow> string \<Rightarrow> string \<Rightarrow> string" where
  "auditCreateText opts view name create =
     (if soIfNotExists opts
      then auditExists ''NOT EXISTS'' view name @ [nl] @ ''BEGIN'' @ [nl] @ create @ [nl] @ ''END'' @ [nl] @ ''GO'' @ [nl]
      else create @ [nl] @ ''GO'' @ [nl])"

definition auditDefinitionOf :: "ServerAudit \<Rightarrow> ServerAuditDefinition" where
  "auditDefinitionOf a = \<lparr>adName = saName a, adType = saType a, adQueueDelay = saQueueDelay a, adOnFailure = saOnFailure a,
     adPredicate = saPredicate a, adFilePath = trim_right (saLogFilePath a) [CHR 0x5C, CHR ''/''], adMaxFileSize = saMaxFileSize a,
     adMaxRolloverFiles = saMaxRolloverFiles a, adMaxFiles = saMaxFiles a, adReserve = saReserve a\<rparr>"

definition buildServerAuditScript :: "(nat \<Rightarrow> nat) \<Rightarrow> ServerAudit \<Rightarrow> ScriptOptions \<Rightarrow> string" where
  "buildServerAuditScript sf a opts =
     envelope opts (auditDropText ''sys.server_audits'' ''SERVER AUDIT'' (saName a)) []
       (auditCreateText opts ''sys.server_audits'' (saName a)
          (case createServerAuditStatement sf (auditDefinitionOf a) of Inl e \<Rightarrow> [] | Inr q \<Rightarrow> q) @
        (if saEnabled a then [nl] @ ''ALTER SERVER AUDIT '' @ QuoteName (saName a) @ '' WITH ( STATE = ON );'' @ [nl] @ ''GO'' @ [nl]
         else []))"

section \<open>What a window restores\<close>

text \<open>
  A program over one handle: its writes, in windows of its own or of their own, one after the other
  until one fails.
\<close>

datatype auditOp = OpSettings ServerAuditDefinition | OpRename string | OpWithin "auditOp list"

fun runOp :: "'s auditSender \<Rightarrow> 's auditReader \<Rightarrow> nat \<Rightarrow> ctx \<Rightarrow> auditOp \<Rightarrow> nat option \<Rightarrow> 's auditRun \<Rightarrow> goerr list \<times> 's auditRun"
  and runOps :: "'s auditSender \<Rightarrow> 's auditReader \<Rightarrow> nat \<Rightarrow> ctx \<Rightarrow> auditOp list \<Rightarrow> nat option \<Rightarrow> 's auditRun \<Rightarrow>
    goerr list \<times> 's auditRun" where
  "runOp send enabled h c (OpSettings spec) w r = alterAudit send enabled h spec c w r"
| "runOp send enabled h c (OpRename name) w r = renameAudit send enabled h name c w r"
| "runOp send enabled h c (OpWithin ps) w r = withAuditDisabled send enabled h c w (\<lambda>w r. runOps send enabled h c ps w r) r"
| "runOps send enabled h c [] w r = ([], r)"
| "runOps send enabled h c (p # ps) w r =
     (case runOp send enabled h c p w r of ([], r1) \<Rightarrow> runOps send enabled h c ps w r1 | (e # es, r1) \<Rightarrow> (e # es, r1))"

text \<open>
  The server, as its documentation has it: \<open>audits s n\<close> is whether the audit \<open>n\<close> is on, when there is one.
  A statement that fails changes no audit, and every statement but the switch is refused while the audit
  is on.
\<close>

definition auditLaws :: "'s auditSender \<Rightarrow> 's auditReader \<Rightarrow> ('s \<Rightarrow> string \<Rightarrow> bool option) \<Rightarrow> bool" where
  "auditLaws send enabled audits \<longleftrightarrow>
     (\<forall>d c q s e s'. send d c q s = (Some e, s') \<longrightarrow> audits s' = audits s) \<and>
     (\<forall>d c n on s s'. \<not> Scripting c \<longrightarrow> send d c (AuditState n on) s = (None, s') \<longrightarrow> audits s n \<noteq> None \<and> audits s' n = Some on) \<and>
     (\<forall>d c n spec s s'. \<not> Scripting c \<longrightarrow> send d c (AuditSettings n spec) s = (None, s') \<longrightarrow>
        audits s n = Some False \<and> audits s' n = Some False) \<and>
     (\<forall>d c n s s'. \<not> Scripting c \<longrightarrow> send d c (AuditRemoveWhere n) s = (None, s') \<longrightarrow>
        audits s n = Some False \<and> audits s' n = Some False) \<and>
     (\<forall>d c n m s s'. \<not> Scripting c \<longrightarrow> send d c (AuditRename n m) s = (None, s') \<longrightarrow>
        audits s n = Some False \<and> audits s' m = Some False) \<and>
     (\<forall>n s e s'. enabled n s = (Inl e, s') \<longrightarrow> audits s' = audits s) \<and>
     (\<forall>n s v s'. enabled n s = (Inr v, s') \<longrightarrow> audits s n = Some v \<and> audits s' = audits s)"

text \<open>An audit that exists can be switched on by a statement that cannot be cancelled.\<close>

definition switchWorks :: "'s auditSender \<Rightarrow> ('s \<Rightarrow> string \<Rightarrow> bool option) \<Rightarrow> bool" where
  "switchWorks send audits \<longleftrightarrow> (\<forall>c n s. audits s n \<noteq> None \<longrightarrow> fst (send True c (AuditState n True) s) = None)"

definition auditView :: "('s \<Rightarrow> string \<Rightarrow> bool option) \<Rightarrow> nat \<Rightarrow> 's auditRun \<Rightarrow> bool option" where
  "auditView audits h r = audits (arServer r) (handleName r h)"

definition inside :: "nat \<Rightarrow> nat \<Rightarrow> 's auditRun \<Rightarrow> bool" where
  "inside h i r \<longleftrightarrow> i < length (arCells r) \<and> arCells r ! i = handleName r h"

definition keepsInside :: "('s \<Rightarrow> string \<Rightarrow> bool option) \<Rightarrow> nat \<Rightarrow> (nat option \<Rightarrow> 's auditRun \<Rightarrow> goerr list \<times> 's auditRun) \<Rightarrow> bool" where
  "keepsInside audits h fn \<longleftrightarrow>
     (\<forall>i r errs r'. inside h i r \<longrightarrow> fn (Some i) r = (errs, r') \<longrightarrow> inside h i r' \<and> auditView audits h r' = auditView audits h r)"

lemma scripting_unobserved [simp]: "Scripting (unobserved c) = Scripting c"
  by (simp add: Scripting_def unobserved_def)

lemma handleName_changes [simp]:
  "handleName (r\<lparr>arServer := s\<rparr>) h = handleName r h" "handleName (r\<lparr>arCells := cs\<rparr>) h = handleName r h"
  "handleName (changeHandle h (\<lambda>a. a\<lparr>saEnabled := v a\<rparr>) r) k = handleName r k"
  "handleName (changeHandle h (\<lambda>a. a\<lparr>saName := f a\<rparr>) r) h = f (arHandles r h)"
  by (auto simp: handleName_def changeHandle_def)

lemma changeHandle_rest [simp]: "arCells (changeHandle h f r) = arCells r" "arServer (changeHandle h f r) = arServer r"
  by (simp_all add: changeHandle_def)

lemma auditWindow_inside [simp]: "inside h i r \<Longrightarrow> auditWindow h (Some i) r = Some i" "auditWindow h None r = None"
  by (simp_all add: auditWindow_def inside_def)

lemma withAuditDisabled_inside: "inside h i r \<Longrightarrow> withAuditDisabled send enabled h c (Some i) fn r = fn (Some i) r"
  by (simp add: withAuditDisabled_def)

text \<open>What the switch does: it leaves names and cells alone, and fails or sets the state.\<close>

lemma setStateNamed_effect:
  assumes "auditLaws send enabled audits" "\<not> Scripting c" "setStateNamed send h n on d c r = (errs, r')"
  shows "arCells r' = arCells r" "handleName r' k = handleName r k"
    "errs = [] \<Longrightarrow> audits (arServer r) n \<noteq> None \<and> audits (arServer r') n = Some on"
    "errs \<noteq> [] \<Longrightarrow> audits (arServer r') = audits (arServer r)"
  using assms unfolding setStateNamed_def auditLaws_def
  by (auto split: prod.splits option.splits simp: handleName_def changeHandle_def)

lemma restore_effect:
  assumes laws: "auditLaws send enabled audits" and c: "\<not> Scripting c"
    and run: "restoreWindow c (setStateNamed send h n True) r = (errs, r')" and n: "n = handleName r h"
    and there: "auditView audits h r = Some False" and ok: "errs = [] \<or> switchWorks send audits"
  shows "auditView audits h r' = Some True"
proof -
  have run': "setStateNamed send h n True True (unobserved c) r = (errs, r')"
    using run by (simp add: restoreWindow_def)
  have "errs = []"
  proof (rule ccontr)
    assume "errs \<noteq> []"
    then have "switchWorks send audits" using ok by simp
    then have "fst (send True (unobserved c) (AuditState n True) (arServer r)) = None"
      using there n unfolding switchWorks_def auditView_def by (metis option.distinct(1))
    then show False using run' \<open>errs \<noteq> []\<close> by (auto simp: setStateNamed_def split: prod.splits)
  qed
  then show ?thesis
    using setStateNamed_effect(2,3) [OF laws _ run'] c n by (simp add: auditView_def)
qed

lemma withAuditDisabled_outside:
  assumes laws: "auditLaws send enabled audits" and c: "\<not> Scripting c" and fn: "keepsInside audits h fn"
    and run: "withAuditDisabled send enabled h c None fn r = (errs, r')" and ok: "errs = [] \<or> switchWorks send audits"
  shows "auditView audits h r' = auditView audits h r"
proof (cases "enabled (handleName r h) (arServer r)")
  case (Pair v s)
  show ?thesis
  proof (cases v)
    case (Inl e)
    then show ?thesis using run Pair laws by (auto simp: withAuditDisabled_def auditView_def auditLaws_def)
  next
    case (Inr on)
    define r1 where "r1 = r\<lparr>arServer := s, arCells := arCells r @ [handleName r h]\<rparr>"
    let ?i = "length (arCells r)"
    have view: "auditView audits h r = Some on" "auditView audits h r1 = Some on"
      using laws Pair Inr by (auto simp: r1_def auditView_def auditLaws_def)
    have in1: "inside h ?i r1" by (simp add: inside_def r1_def)
    show ?thesis
    proof (cases on)
      case False
      then have "fn (Some ?i) r1 = (errs, r')"
        using run Pair Inr by (simp add: withAuditDisabled_def r1_def)
      then show ?thesis using fn in1 view False by (simp add: keepsInside_def)
    next
      case True
      obtain errs2 r2 where off: "setStateNamed send h (handleName r h) False False (unobserved c) r1 = (errs2, r2)"
        by (cases "setStateNamed send h (handleName r h) False False (unobserved c) r1")
      note eff = setStateNamed_effect [OF laws _ off]
      show ?thesis
      proof (cases errs2)
        case (Cons e es)
        then have "r' = r2" using run Pair Inr True off by (auto simp: withAuditDisabled_def r1_def Let_def)
        then show ?thesis using eff(2,4) c Cons view by (simp add: auditView_def)
      next
        case Nil
        have in2: "inside h ?i r2" using in1 eff(1,2) c by (simp add: inside_def)
        have view2: "auditView audits h r2 = Some False"
          using eff(2,3) c Nil by (simp add: auditView_def r1_def)
        obtain errs3 r3 where body: "fn (Some ?i) r2 = (errs3, r3)" by (cases "fn (Some ?i) r2")
        have in3: "inside h ?i r3" and view3: "auditView audits h r3 = Some False"
          using fn in2 body view2 by (auto simp: keepsInside_def)
        obtain errs4 r4 where shut: "restoreWindow c (setStateNamed send h (arCells r3 ! ?i) True) r3 = (errs4, r4)"
          by (cases "restoreWindow c (setStateNamed send h (arCells r3 ! ?i) True) r3")
        have fin: "r' = r4 \<and> (errs3 = [] \<and> errs = errs4 \<or> errs3 \<noteq> [] \<and> errs = errs3)"
          using run Pair Inr True off Nil body shut
          by (auto simp: withAuditDisabled_def r1_def Let_def split: list.splits)
        have "auditView audits h r4 = Some True"
          by (rule restore_effect [OF laws c shut _ view3]) (use in3 fin ok in \<open>auto simp: inside_def\<close>)
        then show ?thesis using fin view True by simp
      qed
    qed
  qed
qed

lemma sendSettings_keeps:
  assumes "auditLaws send enabled audits" "\<not> Scripting c"
  shows "set qs \<subseteq> {AuditSettings (handleName r h) spec, AuditRemoveWhere (handleName r h)} \<Longrightarrow>
    sendSettings send c n qs r = (errs, r') \<Longrightarrow>
    arCells r' = arCells r \<and> arHandles r' = arHandles r \<and> auditView audits h r' = auditView audits h r"
proof (induction qs arbitrary: r)
  case Nil
  then show ?case by simp
next
  case (Cons q qs)
  obtain v s where sent: "send False c q (arServer r) = (v, s)" by (cases "send False c q (arServer r)")
  have q: "q = AuditSettings (handleName r h) spec \<or> q = AuditRemoveWhere (handleName r h)"
    using Cons.prems(1) by auto
  have same: "audits s (handleName r h) = audits (arServer r) (handleName r h)"
    using assms sent q by (cases v) (auto simp: auditLaws_def)
  show ?case
  proof (cases v)
    case (Some e)
    then show ?thesis using Cons.prems(2) sent same by (auto simp: auditView_def)
  next
    case None
    then have "sendSettings send c n qs (r\<lparr>arServer := s\<rparr>) = (errs, r')" using Cons.prems(2) sent by simp
    then show ?thesis using Cons.IH [of "r\<lparr>arServer := s\<rparr>"] Cons.prems(1) same by (simp add: auditView_def)
  qed
qed

lemma alterWork_keeps:
  assumes "auditLaws send enabled audits" "\<not> Scripting c"
  shows "keepsInside audits h
    (\<lambda>w r. sendSettings send c (handleName r h) (alterServerAuditStatements spec (handleName r h)) r)"
  unfolding keepsInside_def
proof (intro allI impI)
  fix i r errs r'
  assume i: "inside h i r" and run: "sendSettings send c (handleName r h) (alterServerAuditStatements spec (handleName r h)) r = (errs, r')"
  have "set (alterServerAuditStatements spec (handleName r h)) \<subseteq> {AuditSettings (handleName r h) spec, AuditRemoveWhere (handleName r h)}"
    by (simp add: alterServerAuditStatements_def)
  then show "inside h i r' \<and> auditView audits h r' = auditView audits h r"
    using sendSettings_keeps [OF assms _ run] i by (auto simp: inside_def handleName_def)
qed

lemma renameWork_effect:
  assumes laws: "auditLaws send enabled audits" and c: "\<not> Scripting c"
    and run: "renameWork send h m c cell False r = (errs, r')"
  shows "auditView audits h r' = auditView audits h r"
    "cell = Some i \<Longrightarrow> inside h i r \<Longrightarrow> inside h i r'"
proof -
  have m: "audits s (handleName r h) = Some False \<and> audits s' m = Some False"
    if "send False c (AuditRename (handleName r h) m) s = (None, s')" for s s'
    using laws c that unfolding auditLaws_def by metis
  have f: "audits s' = audits s" if "send False c q s = (Some e, s')" for q s s' e
    using laws that unfolding auditLaws_def by metis
  show "auditView audits h r' = auditView audits h r"
    using run c by (auto simp: renameWork_def Let_def auditView_def split: prod.splits option.splits dest: m f)
  show "cell = Some i \<Longrightarrow> inside h i r \<Longrightarrow> inside h i r'"
    using run c by (auto simp: renameWork_def Let_def inside_def split: prod.splits option.splits)
qed

lemma renameWork_restores:
  assumes laws: "auditLaws send enabled audits" and c: "\<not> Scripting c"
    and run: "renameWork send h m c None True r = (errs, r')" and off: "auditView audits h r = Some False"
    and ok: "errs = [] \<or> switchWorks send audits"
  shows "auditView audits h r' = Some True"
proof (cases "send False c (AuditRename (handleName r h) m) (arServer r)")
  case (Pair v s)
  show ?thesis
  proof (cases v)
    case (Some e)
    obtain errs2 r2 where shut: "restoreWindow c (setStateNamed send h (handleName r h) True) (r\<lparr>arServer := s\<rparr>) = (errs2, r2)"
      by (cases "restoreWindow c (setStateNamed send h (handleName r h) True) (r\<lparr>arServer := s\<rparr>)")
    have "audits s = audits (arServer r)" using laws Pair Some unfolding auditLaws_def by metis
    moreover have "r' = r2" "switchWorks send audits"
      using run Pair Some shut ok by (auto simp: renameWork_def Let_def)
    ultimately show ?thesis using restore_effect [OF laws c shut] off by (simp add: auditView_def)
  next
    case None
    define r1 where "r1 = changeHandle h (\<lambda>a. a\<lparr>saName := setIfApplied c (saName a) m\<rparr>) (r\<lparr>arServer := s\<rparr>)"
    have "audits s m = Some False" using laws c Pair None unfolding auditLaws_def by metis
    then have "auditView audits h r1 = Some False" "handleName r1 h = m"
      using c by (simp_all add: r1_def auditView_def)
    moreover have "restoreWindow c (setStateNamed send h m True) r1 = (errs, r')"
      using run Pair None by (simp add: renameWork_def Let_def r1_def)
    ultimately show ?thesis using restore_effect [OF laws c] ok by metis
  qed
qed

lemma renameAudit_inside:
  assumes "auditLaws send enabled audits" "\<not> Scripting c"
  shows "keepsInside audits h (\<lambda>w r. renameAudit send enabled h m c w r)"
  unfolding keepsInside_def
proof (intro allI impI)
  fix i r errs r'
  assume i: "inside h i r" and run: "renameAudit send enabled h m c (Some i) r = (errs, r')"
  show "inside h i r' \<and> auditView audits h r' = auditView audits h r"
  proof (cases "trim_space m = []")
    case True
    then show ?thesis using run i by (simp add: renameAudit_def)
  next
    case False
    then have "renameWork send h m c (Some i) False r = (errs, r')" using run i by (simp add: renameAudit_def)
    then show ?thesis using renameWork_effect [OF assms] i by metis
  qed
qed

lemma renameAudit_outside:
  assumes laws: "auditLaws send enabled audits" and c: "\<not> Scripting c"
    and run: "renameAudit send enabled h m c None r = (errs, r')" and ok: "errs = [] \<or> switchWorks send audits"
  shows "auditView audits h r' = auditView audits h r"
proof (cases "trim_space m = []")
  case True
  then show ?thesis using run by (simp add: renameAudit_def)
next
  case False
  obtain v s where read: "enabled (handleName r h) (arServer r) = (v, s)"
    by (cases "enabled (handleName r h) (arServer r)")
  have same: "audits s = audits (arServer r)" using laws read unfolding auditLaws_def by (cases v) metis+
  show ?thesis
  proof (cases v)
    case (Inl e)
    then show ?thesis using run False read same by (auto simp: renameAudit_def auditView_def)
  next
    case (Inr on)
    have on: "auditView audits h r = Some on" using laws read Inr unfolding auditLaws_def auditView_def by metis
    show ?thesis
    proof (cases on)
      case off: False
      then have "renameWork send h m c None False (r\<lparr>arServer := s\<rparr>) = (errs, r')"
        using run False read Inr by (simp add: renameAudit_def)
      from renameWork_effect(1) [OF laws c this] same show ?thesis by (simp add: auditView_def)
    next
      case True
      obtain errs2 r2 where off: "setStateNamed send h (handleName r h) False False (unobserved c) (r\<lparr>arServer := s\<rparr>) = (errs2, r2)"
        by (cases "setStateNamed send h (handleName r h) False False (unobserved c) (r\<lparr>arServer := s\<rparr>)")
      note eff = setStateNamed_effect [OF laws _ off]
      show ?thesis
      proof (cases errs2)
        case (Cons e es)
        then have "r' = r2" using run False read Inr True off by (auto simp: renameAudit_def)
        then show ?thesis using eff(2,4) c Cons same by (simp add: auditView_def)
      next
        case Nil
        then have "renameWork send h m c None True r2 = (errs, r')"
          using run False read Inr True off by (simp add: renameAudit_def)
        moreover have "auditView audits h r2 = Some False" using eff(2,3) c Nil by (simp add: auditView_def)
        ultimately show ?thesis using renameWork_restores [OF laws c] ok on True by metis
      qed
    qed
  qed
qed

text \<open>A program keeps what its window holds, and so whatever its windows switched off.\<close>

lemma keepsInside_list:
  assumes "\<And>p. p \<in> set ps \<Longrightarrow> keepsInside audits h (\<lambda>w r. runOp send enabled h c p w r)"
  shows "keepsInside audits h (\<lambda>w r. runOps send enabled h c ps w r)"
  using assms
proof (induction ps)
  case Nil
  show ?case by (simp add: keepsInside_def)
next
  case (Cons q qs)
  have rest: "keepsInside audits h (\<lambda>w r. runOps send enabled h c qs w r)" using Cons by simp
  have one: "keepsInside audits h (\<lambda>w r. runOp send enabled h c q w r)" using Cons.prems by simp
  show ?case
    unfolding keepsInside_def
  proof (intro allI impI)
    fix i r errs r'
    assume i: "inside h i r" and run: "runOps send enabled h c (q # qs) (Some i) r = (errs, r')"
    obtain errs1 r1 where first: "runOp send enabled h c q (Some i) r = (errs1, r1)"
      by (cases "runOp send enabled h c q (Some i) r")
    then have in1: "inside h i r1" "auditView audits h r1 = auditView audits h r"
      using one i by (auto simp: keepsInside_def)
    show "inside h i r' \<and> auditView audits h r' = auditView audits h r"
    proof (cases errs1)
      case Nil
      then have "runOps send enabled h c qs (Some i) r1 = (errs, r')" using run first by simp
      then show ?thesis using rest in1 by (simp add: keepsInside_def)
    next
      case (Cons e es)
      then show ?thesis using run first in1 by simp
    qed
  qed
qed

lemma keepsInside_op:
  assumes "auditLaws send enabled audits" "\<not> Scripting c"
  shows "keepsInside audits h (\<lambda>w r. runOp send enabled h c p w r)"
proof (induction p)
  case (OpSettings spec)
  show ?case
    using alterWork_keeps [OF assms, of h spec] by (simp add: alterAudit_def withAuditDisabled_inside keepsInside_def)
next
  case (OpRename m)
  show ?case using renameAudit_inside [OF assms, of h m] by (simp add: keepsInside_def)
next
  case (OpWithin qs)
  have "keepsInside audits h (\<lambda>w r. runOps send enabled h c qs w r)"
    by (rule keepsInside_list) (use OpWithin in simp)
  then show ?case by (simp add: withAuditDisabled_inside keepsInside_def)
qed

lemma runOp_outside:
  assumes "auditLaws send enabled audits" "\<not> Scripting c" "runOp send enabled h c p None r = (errs, r')"
    "errs = [] \<or> switchWorks send audits"
  shows "auditView audits h r' = auditView audits h r"
proof (cases p)
  case (OpSettings spec)
  then show ?thesis
    using withAuditDisabled_outside [OF assms(1,2) alterWork_keeps [OF assms(1,2)] _ assms(4)] assms(3)
    by (simp add: alterAudit_def)
next
  case (OpRename m)
  then show ?thesis using renameAudit_outside [OF assms(1,2) _ assms(4)] assms(3) by simp
next
  case (OpWithin ps)
  have "keepsInside audits h (\<lambda>w r. runOps send enabled h c ps w r)"
    by (rule keepsInside_list) (rule keepsInside_op [OF assms(1,2)])
  from withAuditDisabled_outside [OF assms(1,2) this _ assms(4)] show ?thesis using assms(3) OpWithin by simp
qed

lemma runOps_outside:
  assumes "auditLaws send enabled audits" "\<not> Scripting c"
  shows "runOps send enabled h c ps None r = (errs, r') \<Longrightarrow> errs = [] \<or> switchWorks send audits \<Longrightarrow>
    auditView audits h r' = auditView audits h r"
proof (induction ps arbitrary: r)
  case Nil
  then show ?case by simp
next
  case (Cons p ps)
  obtain errs1 r1 where first: "runOp send enabled h c p None r = (errs1, r1)"
    by (cases "runOp send enabled h c p None r")
  show ?case
  proof (cases errs1)
    case Nil
    then have "runOps send enabled h c ps None r1 = (errs, r')" using Cons.prems(1) first by simp
    then show ?thesis
      using Cons.IH Cons.prems(2) runOp_outside [OF assms first] Nil by simp
  next
    case (Cons e es)
    then show ?thesis using Cons.prems first runOp_outside [OF assms first] by simp
  qed
qed

section \<open>Auditing is on afterwards if it was on before\<close>

text \<open>
  C37: however a program of settings, renames and nested windows over one audit goes, the audit, under the
  name it has then, is on after it exactly if it was on before: when the program reports no error, and
  also when it stops half-way, as long as the switch itself still works.  The server refuses each of those
  writes while the audit is on.
\<close>

theorem window_restores_audit:
  assumes "auditLaws send enabled audits" "\<not> Scripting c"
    and "errs = [] \<or> switchWorks send audits"
    and "runOps send enabled h c ps None r = (errs, r')"
  shows "audits (arServer r') (handleName r' h) = audits (arServer r) (handleName r h)"
  using runOps_outside [OF assms(1,2,4,3)] by (simp add: auditView_def)

text \<open>A server of audits by name, each on or off, whose last rows count; it refuses what the documentation says.\<close>

type_synonym auditRows = "string \<Rightarrow> bool option"

definition sampleRefused :: goerr where
  "sampleRefused = errorf ''This command requires audit to be disabled.'' []"

fun sampleSend :: "auditRows auditSender" where
  "sampleSend d c (AuditState n on) s = (if s n = None then (Some sampleRefused, s) else (None, s(n := Some on)))"
| "sampleSend d c (AuditSettings n spec) s = (if s n = Some False \<and> 0 \<le> adQueueDelay spec then (None, s) else (Some sampleRefused, s))"
| "sampleSend d c (AuditRemoveWhere n) s = (if s n = Some False then (None, s) else (Some sampleRefused, s))"
| "sampleSend d c (AuditRename n m) s =
     (if s n = Some False \<and> s m = None then (None, s(n := None, m := Some False)) else (Some sampleRefused, s))"
| "sampleSend d c (AuditDrop n) s = (if s n = Some False then (None, s(n := None)) else (Some sampleRefused, s))"

definition sampleEnabled :: "auditRows auditReader" where
  "sampleEnabled n s = ((case s n of None \<Rightarrow> Inl sampleRefused | Some v \<Rightarrow> Inr v), s)"

definition sampleRun :: "auditRows auditRun" where
  "sampleRun = \<lparr>arHandles = (\<lambda>h. ServerAuditRef (if h = 0 then ''a'' else ''b'')), arCells = [],
     arServer = [''a'' \<mapsto> True, ''b'' \<mapsto> True]\<rparr>"

definition badDefinition :: ServerAuditDefinition where
  "badDefinition = (auditDefinitionOf (ServerAuditRef ''a''))\<lparr>adQueueDelay := -1\<rparr>"

definition emptyCtx :: ctx where
  "emptyCtx = \<lparr>cScript = False, cServerName = None, cSecrets = False, cObservers = [], cTx = None\<rparr>"

lemma sample_laws: "auditLaws sampleSend sampleEnabled (\<lambda>s. s)"
proof -
  have fails: "s' = s" if "sampleSend d c q s = (Some e, s')" for d c q s e s'
    using that by (cases "(d, c, q, s)" rule: sampleSend.cases) (auto split: if_splits)
  show ?thesis
    unfolding auditLaws_def
    by (intro conjI allI impI) (auto simp: sampleEnabled_def dest: fails split: if_splits option.splits)
qed

lemma sample_switch: "switchWorks sampleSend (\<lambda>s. s)"
  by (simp add: switchWorks_def)

definition sampleProgram :: "auditOp list" where
  "sampleProgram = [OpRename ''c'',
     OpWithin [OpSettings (auditDefinitionOf (ServerAuditRef ''a'')), OpRename ''d'', OpSettings badDefinition]]"

lemma sample_names: "trim_space ''c'' = ''c''" "trim_space ''d'' = ''d''"
  by (rule trim_space_ascii; simp add: is_ascii_def isSpaceRune_def byte_def)+

lemma sample_run:
  "\<exists>r'. runOps sampleSend sampleEnabled 0 emptyCtx sampleProgram None sampleRun =
     ([Wrapped ''gosmo: alter server audit %q: %w'' [AText ''d''] sampleRefused], r') \<and> handleName r' 0 = ''d''"
  by (simp add: sampleProgram_def sampleRun_def renameAudit_def sample_names sampleEnabled_def setStateNamed_def
      renameWork_def handleName_def changeHandle_def ServerAuditRef_def emptyCtx_def unobserved_def Let_def Scripting_def
      setIfApplied_def restoreWindow_def withAuditDisabled_def auditWindow_def alterAudit_def alterServerAuditStatements_def
      auditDefinitionOf_def badDefinition_def fun_upd_def nth_append)

lemma window_restores_audit_witness:
  "(let (errs, r') = runOps sampleSend sampleEnabled 0 emptyCtx sampleProgram None sampleRun
    in errs \<noteq> [] \<and> handleName r' 0 = ''d'' \<and> arServer r' ''d'' = Some True)"
proof -
  obtain r' where run: "runOps sampleSend sampleEnabled 0 emptyCtx sampleProgram None sampleRun =
     ([Wrapped ''gosmo: alter server audit %q: %w'' [AText ''d''] sampleRefused], r')" "handleName r' 0 = ''d''"
    using sample_run by auto
  have "\<not> Scripting emptyCtx" by (simp add: Scripting_def emptyCtx_def)
  from window_restores_audit [OF sample_laws this disjI2 [OF sample_switch] run(1)]
  have "arServer r' (handleName r' 0) = Some True"
    by (simp add: sampleRun_def handleName_def ServerAuditRef_def)
  then show ?thesis using run by simp
qed



end
