(* ===== verification/AuditSpecs.thy ===== *)
theory AuditSpecs
  imports Audits Clauses "HOL-Library.Char_ord"
begin

text \<open>
  Audit specifications of a server and of a database (\<open>audit_specification.go\<close>,
  \<open>database_audit_specification.go\<close>, and their scripts in \<open>scripter_server.go\<close> and
  \<open>scripter_security.go\<close>): which groups and actions an audit records.  The two kinds share their disable
  window through a scope, a record of closures over the handle and what is behind it.  A context carries
  the key of the window it is in, empty outside of one.  \<open>up\<close> is \<open>strings.ToUpper\<close>.
\<close>

section \<open>Clauses\<close>

definition groupChar :: "char \<Rightarrow> bool" where
  "groupChar ch \<longleftrightarrow> CHR ''A'' \<le> ch \<and> ch \<le> CHR ''Z'' \<or> CHR ''a'' \<le> ch \<and> ch \<le> CHR ''z'' \<or>
     CHR ''0'' \<le> ch \<and> ch \<le> CHR ''9'' \<or> ch = CHR ''_''"

definition validateAuditActionGroup :: "string \<Rightarrow> goerr option" where
  "validateAuditActionGroup g =
     (if g = [] then Some (invalidf ''empty audit action group'' [])
      else if list_all groupChar g then None
      else Some (invalidf ''invalid audit action group %q'' [AText g]))"

fun actionGroupParts :: "string \<Rightarrow> string list \<Rightarrow> string list res" where
  "actionGroupParts verb [] = Inr []"
| "actionGroupParts verb (g # gs) =
     (case validateAuditActionGroup g of
        Some e \<Rightarrow> Inl e
      | None \<Rightarrow> res_bind (actionGroupParts verb gs) (\<lambda>parts. Inr ((verb @ '' ('' @ g @ '')'') # parts)))"

definition clauseSeparator :: string where
  "clauseSeparator = '','' @ [nl] @ ''    ''"

definition auditActionGroupClauses :: "string \<Rightarrow> string list \<Rightarrow> string res" where
  "auditActionGroupClauses verb groups = res_bind (actionGroupParts verb groups) (\<lambda>parts. Inr (str_join clauseSeparator parts))"

record DatabaseAuditAction =
  daActionName :: string
  daClassDesc :: string
  daSchemaName :: string
  daObjectName :: string
  daPrincipal :: string

definition actionFullName :: "DatabaseAuditAction \<Rightarrow> string" where
  "actionFullName a = QualifiedName (daSchemaName a) (daObjectName a)"

definition auditSecurableClasses :: "string \<Rightarrow> string option" where
  "auditSecurableClasses = [''OBJECT'' \<mapsto> ''OBJECT'', ''OBJECT_OR_COLUMN'' \<mapsto> ''OBJECT'', ''SCHEMA'' \<mapsto> ''SCHEMA'',
     ''DATABASE'' \<mapsto> ''DATABASE'']"

definition actionClause :: "(string \<Rightarrow> string) \<Rightarrow> DatabaseAuditAction \<Rightarrow> string res" where
  "actionClause up a =
     (case validateAuditActionGroup (daActionName a) of
        Some e \<Rightarrow> Inl (Wrapped ''invalid audit action: %w'' [] e)
      | None \<Rightarrow>
          (let class = up (trim_space (daClassDesc a))
           in case auditSecurableClasses (if class = [] then ''OBJECT'' else class) of
                None \<Rightarrow> Inl (invalidf ''invalid audit securable class %q'' [AText (daClassDesc a)])
              | Some keyword \<Rightarrow>
                  if trim_space (daObjectName a) = []
                  then Inl (invalidf ''audit action %s names no securable'' [AText (daActionName a)])
                  else (let grantee = if trim_space (daPrincipal a) = [] then ''public'' else daPrincipal a
                        in Inr (daActionName a @ '' ON '' @ keyword @ ''::'' @ actionFullName a @ '' BY '' @ QuoteName grantee))))"

fun actionParts :: "(string \<Rightarrow> string) \<Rightarrow> string \<Rightarrow> DatabaseAuditAction list \<Rightarrow> string list res" where
  "actionParts up verb [] = Inr []"
| "actionParts up verb (a # as) =
     res_bind (actionClause up a) (\<lambda>clause.
       res_bind (actionParts up verb as) (\<lambda>parts. Inr ((verb @ '' ('' @ clause @ '')'') # parts)))"

definition databaseAuditClauses :: "(string \<Rightarrow> string) \<Rightarrow> string \<Rightarrow> string list \<Rightarrow> DatabaseAuditAction list \<Rightarrow> string res" where
  "databaseAuditClauses up verb groups actions =
     res_bind (actionGroupParts verb groups) (\<lambda>gs.
       res_bind (actionParts up verb actions) (\<lambda>as. Inr (str_join clauseSeparator (gs @ as))))"

section \<open>Handles and requests\<close>

record ServerAuditSpecification =
  ssName :: string
  ssAuditName :: string
  ssEnabled :: bool
  ssActionGroups :: "string list"

record CreateServerAuditSpecificationRequest =
  csSpecName :: string
  csAuditName :: string
  csActionGroups :: "string list"
  csEnabled :: bool

record DatabaseAuditSpecification =
  dsDatabase :: database
  dsName :: string
  dsAuditName :: string
  dsEnabled :: bool
  dsActionGroups :: "string list"
  dsActions :: "DatabaseAuditAction list"

record CreateDatabaseAuditSpecificationRequest =
  cdName :: string
  cdAuditName :: string
  cdActionGroups :: "string list"
  cdActions :: "DatabaseAuditAction list"
  cdEnabled :: bool

definition ServerAuditSpecificationRef :: "string \<Rightarrow> ServerAuditSpecification" where
  "ServerAuditSpecificationRef name = \<lparr>ssName = name, ssAuditName = [], ssEnabled = False, ssActionGroups = []\<rparr>"

definition DatabaseAuditSpecificationRef :: "database \<Rightarrow> string \<Rightarrow> DatabaseAuditSpecification" where
  "DatabaseAuditSpecificationRef d name =
     \<lparr>dsDatabase = d, dsName = name, dsAuditName = [], dsEnabled = False, dsActionGroups = [], dsActions = []\<rparr>"

definition stateClause :: "bool \<Rightarrow> string" where
  "stateClause on = [nl] @ ''WITH ( STATE = '' @ onOff on @ '' )''"

definition createServerSpecStatement :: "CreateServerAuditSpecificationRequest \<Rightarrow> string res" where
  "createServerSpecStatement spec =
     (if trim_space (csSpecName spec) = [] then Inl (invalidf ''server audit specification has no name'' [])
      else if trim_space (csAuditName spec) = []
      then Inl (invalidf ''server audit specification %q names no audit'' [AText (csSpecName spec)])
      else (let stmt = ''CREATE SERVER AUDIT SPECIFICATION '' @ QuoteName (csSpecName spec) @ [nl] @ ''FOR SERVER AUDIT '' @
                  QuoteName (csAuditName spec)
            in if csActionGroups spec = [] then Inr (stmt @ stateClause (csEnabled spec))
               else res_bind (auditActionGroupClauses ''ADD'' (csActionGroups spec)) (\<lambda>clauses.
                 Inr (stmt @ [nl] @ ''    '' @ clauses @ stateClause (csEnabled spec)))))"

definition createDatabaseSpecStatement :: "(string \<Rightarrow> string) \<Rightarrow> CreateDatabaseAuditSpecificationRequest \<Rightarrow> string res" where
  "createDatabaseSpecStatement up spec =
     (if trim_space (cdName spec) = [] then Inl (invalidf ''database audit specification has no name'' [])
      else if trim_space (cdAuditName spec) = []
      then Inl (invalidf ''database audit specification %q names no audit'' [AText (cdName spec)])
      else (let stmt = ''CREATE DATABASE AUDIT SPECIFICATION '' @ QuoteName (cdName spec) @ [nl] @ ''FOR SERVER AUDIT '' @
                  QuoteName (cdAuditName spec)
            in if cdActionGroups spec = [] \<and> cdActions spec = [] then Inr (stmt @ stateClause (cdEnabled spec))
               else res_bind (databaseAuditClauses up ''ADD'' (cdActionGroups spec) (cdActions spec)) (\<lambda>clauses.
                 Inr (stmt @ [nl] @ ''    '' @ clauses @ stateClause (cdEnabled spec)))))"

definition CreateServerAuditSpecification :: "'w driver \<Rightarrow> ctx \<Rightarrow> server \<Rightarrow>
    (string \<Rightarrow> 'w st \<Rightarrow> ServerAuditSpecification res \<times> 'w st) \<Rightarrow> CreateServerAuditSpecificationRequest \<Rightarrow> 'w st \<Rightarrow>
    ServerAuditSpecification res \<times> 'w st" where
  "CreateServerAuditSpecification D c srv byName spec s =
     (case createServerSpecStatement spec of
        Inl e \<Rightarrow> (Inl (Wrapped ''gosmo: create server audit specification: %w'' [] e), s)
      | Inr q \<Rightarrow>
          (case serverExec D c srv q [] s of
             (Some e, s1) \<Rightarrow> (Inl (Wrapped ''gosmo: create server audit specification %q: %w'' [AText (csSpecName spec)] e), s1)
           | (None, s1) \<Rightarrow> createdObject c (ServerAuditSpecificationRef (csSpecName spec)) (byName (csSpecName spec)) s1))"

definition CreateDatabaseAuditSpecification :: "(string \<Rightarrow> string) \<Rightarrow> 'w driver \<Rightarrow> ctx \<Rightarrow> database \<Rightarrow>
    (string \<Rightarrow> 'w st \<Rightarrow> DatabaseAuditSpecification res \<times> 'w st) \<Rightarrow> CreateDatabaseAuditSpecificationRequest \<Rightarrow> 'w st \<Rightarrow>
    DatabaseAuditSpecification res \<times> 'w st" where
  "CreateDatabaseAuditSpecification up D c d byName spec s =
     (case createDatabaseSpecStatement up spec of
        Inl e \<Rightarrow> (Inl (Wrapped ''gosmo: create database audit specification: %w'' [] e), s)
      | Inr q \<Rightarrow>
          (case databaseExec D c d q [] s of
             (Some e, s1) \<Rightarrow> (Inl (Wrapped ''gosmo: create database audit specification %q in %q: %w''
                [AText (cdName spec), AText (dName d)] e), s1)
           | (None, s1) \<Rightarrow> createdObject c (DatabaseAuditSpecificationRef d (cdName spec)) (byName (cdName spec)) s1))"

section \<open>The shared window\<close>

record 'r auditSpecScope =
  scKeyword :: string
  scSpecName :: string
  scWindowKey :: string
  scExec :: "ctx \<Rightarrow> string \<Rightarrow> 'r \<Rightarrow> goerr option \<times> 'r"
  scIsEnabled :: "ctx \<Rightarrow> 'r \<Rightarrow> bool res \<times> 'r"
  scSetEnabled :: "bool \<Rightarrow> ctx \<Rightarrow> bool \<Rightarrow> 'r \<Rightarrow> goerr option \<times> 'r"

definition inWindow :: "'r auditSpecScope \<Rightarrow> string \<Rightarrow> bool" where
  "inWindow sc key \<longleftrightarrow> key = scWindowKey sc"

definition specWithDisabled :: "'r auditSpecScope \<Rightarrow> ctx \<Rightarrow> string \<Rightarrow> (string \<Rightarrow> 'r \<Rightarrow> goerr option \<times> 'r) \<Rightarrow> 'r \<Rightarrow>
    goerr option \<times> 'r" where
  "specWithDisabled sc c key fn r =
     (if inWindow sc key then fn key r
      else case scIsEnabled sc c r of
        (Inl e, r1) \<Rightarrow> (Some e, r1)
      | (Inr on, r1) \<Rightarrow>
          if \<not> on then fn (scWindowKey sc) r1
          else (case scSetEnabled sc False (unobserved c) False r1 of
              (Some e, r2) \<Rightarrow> (Some e, r2)
            | (None, r2) \<Rightarrow>
                (case fn (scWindowKey sc) r2 of
                   (Some e, r3) \<Rightarrow> (Some e, snd (restoreWindow c (\<lambda>detached c. scSetEnabled sc detached c True) r3))
                 | (None, r3) \<Rightarrow> restoreWindow c (\<lambda>detached c. scSetEnabled sc detached c True) r3)))"

text \<open>\<open>strings.ToLower\<close> of the keyword, which is ASCII.\<close>

definition specAlter :: "'r auditSpecScope \<Rightarrow> ctx \<Rightarrow> string \<Rightarrow> string \<Rightarrow> 'r \<Rightarrow> goerr option \<times> 'r" where
  "specAlter sc c key stmt r =
     specWithDisabled sc c key (\<lambda>key r.
       (case scExec sc c stmt r of
          (Some e, r1) \<Rightarrow> (Some (Wrapped ''gosmo: alter %s audit specification %q: %w''
             [AText (map lower_char (scKeyword sc)), AText (scSpecName sc)] e), r1)
        | (None, r1) \<Rightarrow> (None, r1))) r"

definition specSetAudit :: "'r auditSpecScope \<Rightarrow> ctx \<Rightarrow> string \<Rightarrow> string \<Rightarrow> 'r \<Rightarrow> goerr option \<times> 'r" where
  "specSetAudit sc c key auditName r =
     (if trim_space auditName = []
      then (Some (invalidf ''gosmo: alter %s audit specification %q: audit name is empty''
          [AText (map lower_char (scKeyword sc)), AText (scSpecName sc)]), r)
      else specAlter sc c key (''ALTER '' @ scKeyword sc @ '' AUDIT SPECIFICATION '' @ QuoteName (scSpecName sc) @ [nl] @
        ''FOR SERVER AUDIT '' @ QuoteName auditName) r)"

section \<open>A server's specification\<close>

text \<open>What is behind a scope: the handle and the driver's state; the catalog's answer is a parameter.\<close>

type_synonym ('h, 'w) specRun = "'h \<times> 'w st"

definition serverSetEnabled :: "'w driver \<Rightarrow> server \<Rightarrow> ctx \<Rightarrow> bool \<Rightarrow> (ServerAuditSpecification, 'w) specRun \<Rightarrow>
    goerr option \<times> (ServerAuditSpecification, 'w) specRun" where
  "serverSetEnabled D srv c on r =
     (case r of (h, s) \<Rightarrow>
        (case serverExec D c srv (''ALTER SERVER AUDIT SPECIFICATION '' @ QuoteName (ssName h) @ '' WITH ( STATE = '' @ onOff on @ '' )'') [] s of
           (Some e, s1) \<Rightarrow> (Some (Wrapped ''gosmo: set server audit specification %q state: %w'' [AText (ssName h)] e), (h, s1))
         | (None, s1) \<Rightarrow> (None, (h\<lparr>ssEnabled := setIfApplied c (ssEnabled h) on\<rparr>, s1))))"

definition serverScope :: "'w driver \<Rightarrow> server \<Rightarrow> (string \<Rightarrow> 'w st \<Rightarrow> bool res \<times> 'w st) \<Rightarrow> string \<Rightarrow>
    (ServerAuditSpecification, 'w) specRun auditSpecScope" where
  "serverScope D srv enabled name = \<lparr>scKeyword = ''SERVER'', scSpecName = name, scWindowKey = name,
     scExec = (\<lambda>c q (h, s). case serverExec D c srv q [] s of (e, s1) \<Rightarrow> (e, (h, s1))),
     scIsEnabled = (\<lambda>c (h, s). case enabled (ssName h) s of (v, s1) \<Rightarrow> (v, (h, s1))),
     scSetEnabled = (\<lambda>detached c on r. serverSetEnabled D srv c on r)\<rparr>"

definition alterActionGroups :: "'w driver \<Rightarrow> server \<Rightarrow> (string \<Rightarrow> 'w st \<Rightarrow> bool res \<times> 'w st) \<Rightarrow> ctx \<Rightarrow> string \<Rightarrow> string \<Rightarrow>
    string list \<Rightarrow> (ServerAuditSpecification, 'w) specRun \<Rightarrow> goerr option \<times> (ServerAuditSpecification, 'w) specRun" where
  "alterActionGroups D srv enabled c key verb groups r =
     (if groups = [] then (None, r)
      else case auditActionGroupClauses verb groups of
        Inl e \<Rightarrow> (Some (Wrapped ''gosmo: alter server audit specification %q: %w'' [AText (ssName (fst r))] e), r)
      | Inr clauses \<Rightarrow> specAlter (serverScope D srv enabled (ssName (fst r))) c key
          (''ALTER SERVER AUDIT SPECIFICATION '' @ QuoteName (ssName (fst r)) @ [nl] @ ''    '' @ clauses) r)"

definition serverSetAudit :: "'w driver \<Rightarrow> server \<Rightarrow> (string \<Rightarrow> 'w st \<Rightarrow> bool res \<times> 'w st) \<Rightarrow> ctx \<Rightarrow> string \<Rightarrow> string \<Rightarrow>
    (ServerAuditSpecification, 'w) specRun \<Rightarrow> goerr option \<times> (ServerAuditSpecification, 'w) specRun" where
  "serverSetAudit D srv enabled c key auditName r =
     (case specSetAudit (serverScope D srv enabled (ssName (fst r))) c key auditName r of
        (Some e, r1) \<Rightarrow> (Some e, r1)
      | (None, (h, s)) \<Rightarrow> (None, (h\<lparr>ssAuditName := setIfApplied c (ssAuditName h) auditName\<rparr>, s)))"

definition serverSpecDrop :: "'w driver \<Rightarrow> server \<Rightarrow> (string \<Rightarrow> 'w st \<Rightarrow> bool res \<times> 'w st) \<Rightarrow> ctx \<Rightarrow>
    (ServerAuditSpecification, 'w) specRun \<Rightarrow> goerr option \<times> (ServerAuditSpecification, 'w) specRun" where
  "serverSpecDrop D srv enabled c r =
     (case enabled (ssName (fst r)) (snd r) of
        (Inl e, s1) \<Rightarrow> (Some e, (fst r, s1))
      | (Inr on, s1) \<Rightarrow>
          (case (if on then serverSetEnabled D srv c False (fst r, s1) else (None, (fst r, s1))) of
             (Some e, r2) \<Rightarrow> (Some e, r2)
           | (None, (h, s2)) \<Rightarrow>
               (case serverExec D c srv (''DROP SERVER AUDIT SPECIFICATION '' @ QuoteName (ssName h)) [] s2 of
                  (Some e, s3) \<Rightarrow> (Some (Wrapped ''gosmo: drop server audit specification %q: %w'' [AText (ssName h)] e), (h, s3))
                | (None, s3) \<Rightarrow> (None, (h, s3)))))"

section \<open>A database's specification\<close>

definition databaseSetEnabled :: "'w driver \<Rightarrow> ctx \<Rightarrow> bool \<Rightarrow> (DatabaseAuditSpecification, 'w) specRun \<Rightarrow>
    goerr option \<times> (DatabaseAuditSpecification, 'w) specRun" where
  "databaseSetEnabled D c on r =
     (case r of (h, s) \<Rightarrow>
        (case databaseExec D c (dsDatabase h)
            (''ALTER DATABASE AUDIT SPECIFICATION '' @ QuoteName (dsName h) @ '' WITH ( STATE = '' @ onOff on @ '' )'') [] s of
           (Some e, s1) \<Rightarrow> (Some (Wrapped ''gosmo: set database audit specification %q state: %w'' [AText (dsName h)] e), (h, s1))
         | (None, s1) \<Rightarrow> (None, (h\<lparr>dsEnabled := setIfApplied c (dsEnabled h) on\<rparr>, s1))))"

definition databaseScope :: "'w driver \<Rightarrow> (string \<Rightarrow> 'w st \<Rightarrow> bool res \<times> 'w st) \<Rightarrow> DatabaseAuditSpecification \<Rightarrow>
    (DatabaseAuditSpecification, 'w) specRun auditSpecScope" where
  "databaseScope D enabled spec = \<lparr>scKeyword = ''DATABASE'', scSpecName = dsName spec,
     scWindowKey = dName (dsDatabase spec) @ ''.'' @ dsName spec,
     scExec = (\<lambda>c q (h, s). case databaseExec D c (dsDatabase h) q [] s of (e, s1) \<Rightarrow> (e, (h, s1))),
     scIsEnabled = (\<lambda>c (h, s). case enabled (dsName h) s of (v, s1) \<Rightarrow> (v, (h, s1))),
     scSetEnabled = (\<lambda>detached c on r. databaseSetEnabled D c on r)\<rparr>"

definition alterActions :: "(string \<Rightarrow> string) \<Rightarrow> 'w driver \<Rightarrow> (string \<Rightarrow> 'w st \<Rightarrow> bool res \<times> 'w st) \<Rightarrow> ctx \<Rightarrow> string \<Rightarrow> string \<Rightarrow>
    string list \<Rightarrow> DatabaseAuditAction list \<Rightarrow> (DatabaseAuditSpecification, 'w) specRun \<Rightarrow>
    goerr option \<times> (DatabaseAuditSpecification, 'w) specRun" where
  "alterActions up D enabled c key verb groups actions r =
     (if groups = [] \<and> actions = [] then (None, r)
      else case databaseAuditClauses up verb groups actions of
        Inl e \<Rightarrow> (Some (Wrapped ''gosmo: alter database audit specification %q: %w'' [AText (dsName (fst r))] e), r)
      | Inr clauses \<Rightarrow> specAlter (databaseScope D enabled (fst r)) c key
          (''ALTER DATABASE AUDIT SPECIFICATION '' @ QuoteName (dsName (fst r)) @ [nl] @ ''    '' @ clauses) r)"

definition databaseSetAudit :: "'w driver \<Rightarrow> (string \<Rightarrow> 'w st \<Rightarrow> bool res \<times> 'w st) \<Rightarrow> ctx \<Rightarrow> string \<Rightarrow> string \<Rightarrow>
    (DatabaseAuditSpecification, 'w) specRun \<Rightarrow> goerr option \<times> (DatabaseAuditSpecification, 'w) specRun" where
  "databaseSetAudit D enabled c key auditName r =
     (case specSetAudit (databaseScope D enabled (fst r)) c key auditName r of
        (Some e, r1) \<Rightarrow> (Some e, r1)
      | (None, (h, s)) \<Rightarrow> (None, (h\<lparr>dsAuditName := setIfApplied c (dsAuditName h) auditName\<rparr>, s)))"

definition databaseSpecDrop :: "'w driver \<Rightarrow> (string \<Rightarrow> 'w st \<Rightarrow> bool res \<times> 'w st) \<Rightarrow> ctx \<Rightarrow>
    (DatabaseAuditSpecification, 'w) specRun \<Rightarrow> goerr option \<times> (DatabaseAuditSpecification, 'w) specRun" where
  "databaseSpecDrop D enabled c r =
     (case enabled (dsName (fst r)) (snd r) of
        (Inl e, s1) \<Rightarrow> (Some e, (fst r, s1))
      | (Inr on, s1) \<Rightarrow>
          (case (if on then databaseSetEnabled D c False (fst r, s1) else (None, (fst r, s1))) of
             (Some e, r2) \<Rightarrow> (Some e, r2)
           | (None, (h, s2)) \<Rightarrow>
               (case databaseExec D c (dsDatabase h) (''DROP DATABASE AUDIT SPECIFICATION '' @ QuoteName (dsName h)) [] s2 of
                  (Some e, s3) \<Rightarrow> (Some (Wrapped ''gosmo: drop database audit specification %q: %w'' [AText (dsName h)] e), (h, s3))
                | (None, s3) \<Rightarrow> (None, (h, s3)))))"

section \<open>Scripts of specifications\<close>

definition orphaned :: "string \<Rightarrow> string \<Rightarrow> goerr" where
  "orphaned kind name = errorf (''gosmo: script '' @ kind @ '' %q: it names no audit'') [AText name]"

definition buildServerAuditSpecificationScript :: "ServerAuditSpecification \<Rightarrow> ScriptOptions \<Rightarrow> string res" where
  "buildServerAuditSpecificationScript h opts =
     envelopeErr opts (auditDropText ''sys.server_audit_specifications'' ''SERVER AUDIT SPECIFICATION'' (ssName h)) []
       (if ssAuditName h = [] then Inl (orphaned ''server audit specification'' (ssName h))
        else case createServerSpecStatement \<lparr>csSpecName = ssName h, csAuditName = ssAuditName h,
            csActionGroups = ssActionGroups h, csEnabled = ssEnabled h\<rparr> of
          Inl e \<Rightarrow> Inl (Wrapped ''gosmo: script server audit specification %q: %w'' [AText (ssName h)] e)
        | Inr q \<Rightarrow> Inr (auditCreateText opts ''sys.server_audit_specifications'' (ssName h) q))"

definition buildDatabaseAuditSpecificationScript :: "(string \<Rightarrow> string) \<Rightarrow> DatabaseAuditSpecification \<Rightarrow> ScriptOptions \<Rightarrow> string res" where
  "buildDatabaseAuditSpecificationScript up h opts =
     envelopeErr opts (auditDropText ''sys.database_audit_specifications'' ''DATABASE AUDIT SPECIFICATION'' (dsName h)) []
       (if dsAuditName h = [] then Inl (orphaned ''database audit specification'' (dsName h))
        else case createDatabaseSpecStatement up \<lparr>cdName = dsName h, cdAuditName = dsAuditName h,
            cdActionGroups = dsActionGroups h, cdActions = dsActions h, cdEnabled = dsEnabled h\<rparr> of
          Inl e \<Rightarrow> Inl (Wrapped ''gosmo: script database audit specification %q: %w'' [AText (dsName h)] e)
        | Inr q \<Rightarrow> Inr (auditCreateText opts ''sys.database_audit_specifications'' (dsName h) q))"

section \<open>What a specification's statement says\<close>

definition keywordText :: "string \<Rightarrow> bool" where
  "keywordText g \<longleftrightarrow> g \<noteq> [] \<and> list_all groupChar g"

definition securableKeyword :: "(string \<Rightarrow> string) \<Rightarrow> DatabaseAuditAction \<Rightarrow> string option" where
  "securableKeyword up a =
     (let class = up (trim_space (daClassDesc a)) in auditSecurableClasses (if class = [] then ''OBJECT'' else class))"

definition actionAccepted :: "(string \<Rightarrow> string) \<Rightarrow> DatabaseAuditAction \<Rightarrow> bool" where
  "actionAccepted up a \<longleftrightarrow> keywordText (daActionName a) \<and> securableKeyword up a \<noteq> None \<and> trim_space (daObjectName a) \<noteq> []"

definition auditedPrincipal :: "DatabaseAuditAction \<Rightarrow> string" where
  "auditedPrincipal a = (if trim_space (daPrincipal a) = [] then ''public'' else daPrincipal a)"

text \<open>The pieces of a group, of an action, and of a whole statement.\<close>

definition groupPieces :: "string \<Rightarrow> piece list" where
  "groupPieces g = [Raw (''ADD ('' @ g @ '')'')]"

definition actionPieces :: "(string \<Rightarrow> string) \<Rightarrow> DatabaseAuditAction \<Rightarrow> piece list" where
  "actionPieces up a =
     Raw (''ADD ('' @ daActionName a @ '' ON '' @ the (securableKeyword up a) @ ''::'') #
     (if daSchemaName a = [] then [Ident (daObjectName a)] else [Ident (daSchemaName a), Raw ''.'', Ident (daObjectName a)]) @
     [Raw '' BY '', Ident (auditedPrincipal a), Raw '')'']"

definition auditPieces :: "(string \<Rightarrow> string) \<Rightarrow> CreateDatabaseAuditSpecificationRequest \<Rightarrow> piece list" where
  "auditPieces up spec =
     [Raw ''CREATE DATABASE AUDIT SPECIFICATION '', Ident (cdName spec), Raw ([nl] @ ''FOR SERVER AUDIT ''), Ident (cdAuditName spec)] @
     (if cdActionGroups spec = [] \<and> cdActions spec = [] then []
      else Raw ([nl] @ ''    '') #
        joinPieces clauseSeparator (map groupPieces (cdActionGroups spec) @ map (actionPieces up) (cdActions spec))) @
     [Raw (stateClause (cdEnabled spec))]"

definition actionValues :: "DatabaseAuditAction \<Rightarrow> string list" where
  "actionValues a = filter (\<lambda>n. n \<noteq> []) [daSchemaName a] @ [daObjectName a, auditedPrincipal a]"

definition specAccepted :: "(string \<Rightarrow> string) \<Rightarrow> CreateDatabaseAuditSpecificationRequest \<Rightarrow> bool" where
  "specAccepted up spec \<longleftrightarrow> trim_space (cdName spec) \<noteq> [] \<and> trim_space (cdAuditName spec) \<noteq> [] \<and>
     list_all keywordText (cdActionGroups spec) \<and> list_all (actionAccepted up) (cdActions spec)"

text \<open>The same request with every name replaced.\<close>

definition plainAction :: "DatabaseAuditAction \<Rightarrow> DatabaseAuditAction" where
  "plainAction a = a\<lparr>daSchemaName := (if daSchemaName a = [] then [] else ''x''), daObjectName := ''x'', daPrincipal := ''x''\<rparr>"

definition plainSpec :: "CreateDatabaseAuditSpecificationRequest \<Rightarrow> CreateDatabaseAuditSpecificationRequest" where
  "plainSpec spec = spec\<lparr>cdName := ''x'', cdAuditName := ''x'', cdActions := map plainAction (cdActions spec)\<rparr>"

lemma trim_x [simp]: "trim_space ''x'' = ''x''"
  by (rule trim_space_ascii; simp add: is_ascii_def isSpaceRune_def byte_def)+

lemma validate_keyword: "validateAuditActionGroup g = None \<longleftrightarrow> keywordText g"
  by (simp add: validateAuditActionGroup_def keywordText_def)

lemma validate_error: "validateAuditActionGroup g = Some e \<Longrightarrow> errors_is e ErrInvalidRequest"
  by (auto simp: validateAuditActionGroup_def split: if_splits)

lemma groupParts_spec:
  "(if list_all keywordText gs then actionGroupParts verb gs = Inr (map (\<lambda>g. verb @ '' ('' @ g @ '')'') gs)
    else \<exists>e. actionGroupParts verb gs = Inl e \<and> errors_is e ErrInvalidRequest)"
proof (induction gs)
  case (Cons g gs)
  show ?case
  proof (cases "validateAuditActionGroup g")
    case None
    then show ?thesis using Cons validate_keyword [of g] by (auto split: if_splits)
  next
    case (Some e)
    then show ?thesis using validate_keyword [of g] validate_error [OF Some] by auto
  qed
qed simp

lemma actionClause_spec:
  "(if actionAccepted up a
    then actionClause up a = Inr (daActionName a @ '' ON '' @ the (securableKeyword up a) @ ''::'' @ actionFullName a @ '' BY '' @
      QuoteName (auditedPrincipal a))
    else \<exists>e. actionClause up a = Inl e \<and> errors_is e ErrInvalidRequest)"
proof (cases "validateAuditActionGroup (daActionName a)")
  case None
  then show ?thesis
    using validate_keyword [of "daActionName a"]
    by (cases "securableKeyword up a")
      (auto simp: actionClause_def actionAccepted_def securableKeyword_def auditedPrincipal_def Let_def)
next
  case (Some e)
  then show ?thesis
    using validate_keyword [of "daActionName a"] validate_error [OF Some] by (auto simp: actionClause_def actionAccepted_def)
qed

lemma actionParts_spec:
  "(if list_all (actionAccepted up) as then actionParts up verb as = Inr (map (\<lambda>a. verb @ '' ('' @ daActionName a @ '' ON '' @
      the (securableKeyword up a) @ ''::'' @ actionFullName a @ '' BY '' @ QuoteName (auditedPrincipal a) @ '')'') as)
    else \<exists>e. actionParts up verb as = Inl e \<and> errors_is e ErrInvalidRequest)"
proof (induction as)
  case (Cons a as)
  show ?case using actionClause_spec [of up a] Cons by (auto split: if_splits)
qed simp

lemma createSpec_spec:
  "(if specAccepted up spec then createDatabaseSpecStatement up spec = Inr (render (auditPieces up spec))
    else \<exists>e. createDatabaseSpecStatement up spec = Inl e \<and> errors_is e ErrInvalidRequest)"
proof -
  note g = groupParts_spec [of "cdActionGroups spec" "''ADD''"]
  note a = actionParts_spec [of up "cdActions spec" "''ADD''"]
  have r: "map render (map groupPieces gs @ map (actionPieces up) as) =
     map (\<lambda>g. ''ADD'' @ '' ('' @ g @ '')'') gs @ map (\<lambda>a. ''ADD'' @ '' ('' @ daActionName a @ '' ON '' @
      the (securableKeyword up a) @ ''::'' @ actionFullName a @ '' BY '' @ QuoteName (auditedPrincipal a) @ '')'') as" for gs as
    by (simp add: groupPieces_def actionPieces_def actionFullName_def QualifiedName_def comp_def)
  show ?thesis
  proof (cases "trim_space (cdName spec) = [] \<or> trim_space (cdAuditName spec) = []")
    case True
    then show ?thesis by (auto simp: specAccepted_def createDatabaseSpecStatement_def)
  next
    case False
    show ?thesis
    proof (cases "list_all keywordText (cdActionGroups spec) \<and> list_all (actionAccepted up) (cdActions spec)")
      case True
      then show ?thesis
        using False g a r [of "cdActionGroups spec" "cdActions spec"]
        by (auto simp: specAccepted_def createDatabaseSpecStatement_def Let_def databaseAuditClauses_def auditPieces_def render_join
            simp del: map_append)
    next
      case bad: False
      then have "\<not> (cdActionGroups spec = [] \<and> cdActions spec = [])" by auto
      moreover have "\<exists>e. databaseAuditClauses up ''ADD'' (cdActionGroups spec) (cdActions spec) = Inl e \<and> errors_is e ErrInvalidRequest"
        using g a bad by (cases "list_all keywordText (cdActionGroups spec)") (auto simp: databaseAuditClauses_def)
      ultimately show ?thesis using False bad by (auto simp: specAccepted_def createDatabaseSpecStatement_def Let_def)
    qed
  qed
qed

lemma keyword_plain:
  "list_all groupChar g \<Longrightarrow> d \<noteq> Some squote \<Longrightarrow> plain p g d"
proof (induction g arbitrary: p)
  case (Cons ch g)
  have "firstOf g d \<noteq> Some squote" using Cons.prems by (cases g) (auto simp: groupChar_def char_consts less_eq_char_def)
  then show ?case using Cons by (auto simp: groupChar_def char_consts less_eq_char_def)
qed simp

lemma securable_keywords: "securableKeyword up a = Some k \<Longrightarrow> k = ''OBJECT'' \<or> k = ''SCHEMA'' \<or> k = ''DATABASE''"
  by (auto simp: securableKeyword_def auditSecurableClasses_def Let_def split: if_splits)

lemma plain_group: "keywordText g \<Longrightarrow> plain p (''ADD ('' @ g @ '')'') d"
proof -
  assume "keywordText g"
  then have "plain q g (Some (CHR '')''))" for q
    using keyword_plain [of g "Some (CHR '')'')" q] by (simp add: keywordText_def char_consts)
  then show ?thesis by (simp add: plain_append char_consts)
qed

lemma okClause_group: "keywordText g \<Longrightarrow> okClause (groupPieces g)"
  using plain_group by (auto simp: okClause_def groupPieces_def)

lemma plain_action_head:
  assumes "keywordText g" "k = ''OBJECT'' \<or> k = ''SCHEMA'' \<or> k = ''DATABASE''"
  shows "plain p (''ADD ('' @ g @ '' ON '' @ k @ ''::'') (Some (CHR ''[''))"
proof -
  have "plain q g (Some (CHR '' ''))" for q using keyword_plain [of g "Some (CHR '' '')" q] assms(1) by (simp add: keywordText_def char_consts)
  then show ?thesis using assms(2) by (auto simp: plain_append char_consts)
qed

lemma okClause_action:
  assumes "actionAccepted up a"
  shows "okClause (actionPieces up a)"
proof -
  obtain k where k: "securableKeyword up a = Some k" using assms by (auto simp: actionAccepted_def)
  have "plain p (''ADD ('' @ daActionName a @ '' ON '' @ k @ ''::'') (Some (CHR ''[''))" for p
    by (rule plain_action_head [OF _ securable_keywords [OF k]]) (use assms in \<open>simp add: actionAccepted_def\<close>)
  then show ?thesis
    using k by (auto simp: okClause_def actionPieces_def clause_simps)
qed

lemma sepText_clauses: "sepText clauseSeparator"
  by (auto simp: sepText_def clauseSeparator_def sepc_def nl_def char_consts)

lemma wf_auditPieces:
  assumes "specAccepted up spec"
  shows "wfPieces None (auditPieces up spec)"
proof -
  have ok: "okClause (joinPieces clauseSeparator (map groupPieces (cdActionGroups spec) @ map (actionPieces up) (cdActions spec)))"
    by (rule okClause_join [OF sepText_clauses])
      (use assms okClause_group okClause_action in \<open>auto simp: specAccepted_def list_all_iff\<close>)
  have state: "plain p (stateClause b) None" "firstOf (stateClause b) None = Some nl" for p b
    by (auto simp: stateClause_def onOff_def nl_def char_consts)
  show ?thesis
    using okClauseD [OF ok, of "Some (CHR '' '')" "Some nl"] state
    by (auto simp: auditPieces_def wfD_None [symmetric] clause_simps nl_def)
qed

lemma pieceVals_spec:
  "pieceVals (auditPieces up spec) = cdName spec # cdAuditName spec # concat (map actionValues (cdActions spec))"
proof -
  have "pieceVals (groupPieces g) = []" for g by (simp add: groupPieces_def)
  moreover have "pieceVals (actionPieces up a) = actionValues a" for a by (simp add: actionPieces_def actionValues_def)
  ultimately show ?thesis by (auto simp: auditPieces_def pieceVals_join comp_def)
qed

lemma plainAction_keeps:
  "daActionName (plainAction a) = daActionName a" "securableKeyword up (plainAction a) = securableKeyword up a"
  "(daSchemaName (plainAction a) = []) = (daSchemaName a = [])"
  by (simp_all add: plainAction_def securableKeyword_def)

lemma plainSpec_accepted: "specAccepted up spec \<Longrightarrow> specAccepted up (plainSpec spec)"
  by (auto simp: specAccepted_def plainSpec_def list_all_iff actionAccepted_def plainAction_keeps) (simp add: plainAction_def)

lemma plainSpec_shape: "map blankPiece (auditPieces up (plainSpec spec)) = map blankPiece (auditPieces up spec)"
proof -
  have "map blankPiece (actionPieces up (plainAction a)) = map blankPiece (actionPieces up a)" for a
    by (simp add: actionPieces_def plainAction_keeps)
  then show ?thesis by (simp add: auditPieces_def plainSpec_def blank_join comp_def)
qed

text \<open>
  C39: creating a database audit specification.  Exactly the requests are sent that have a name and an
  audit, whose groups and actions are bare keywords, and whose securables are named and of a class that is
  audited; any other is refused as invalid.  What is sent quotes the specification, the audit, and the
  schema, the object and the principal of every action, in this order, leaves nothing open, and is
  otherwise the same whatever these names hold.
\<close>

theorem audit_specification_faithful:
  "(if specAccepted up spec
    then \<exists>q q'. createDatabaseSpecStatement up spec = Inr q \<and> allClosed q \<and>
      quotedValues q = cdName spec # cdAuditName spec # concat (map actionValues (cdActions spec)) \<and>
      createDatabaseSpecStatement up (plainSpec spec) = Inr q' \<and> skeleton q = skeleton q'
    else \<exists>e. createDatabaseSpecStatement up spec = Inl e \<and> errors_is e ErrInvalidRequest)"
proof (cases "specAccepted up spec")
  case True
  note r = rendered [OF wf_auditPieces [OF True] refl] rendered [OF wf_auditPieces [OF plainSpec_accepted [OF True]] refl]
  show ?thesis
    using True r createSpec_spec [of up spec] createSpec_spec [of up "plainSpec spec"] plainSpec_accepted [OF True]
      pieceSkeleton_shape [OF plainSpec_shape [of up spec]] pieceVals_spec [of up spec] by simp
qed (use createSpec_spec [of up spec] in simp)

section \<open>What a specification's window restores\<close>

text \<open>A scope on a server: \<open>state r\<close> is whether the specification is on, when there is one.\<close>

definition scopeLaws :: "'r auditSpecScope \<Rightarrow> ('r \<Rightarrow> bool option) \<Rightarrow> bool" where
  "scopeLaws sc state \<longleftrightarrow>
     (\<forall>d c on r e r'. scSetEnabled sc d c on r = (Some e, r') \<longrightarrow> state r' = state r) \<and>
     (\<forall>d c on r r'. \<not> Scripting c \<longrightarrow> scSetEnabled sc d c on r = (None, r') \<longrightarrow> state r \<noteq> None \<and> state r' = Some on) \<and>
     (\<forall>c r e r'. scIsEnabled sc c r = (Inl e, r') \<longrightarrow> state r' = state r) \<and>
     (\<forall>c r v r'. scIsEnabled sc c r = (Inr v, r') \<longrightarrow> state r = Some v \<and> state r' = state r)"

definition scopeSwitches :: "'r auditSpecScope \<Rightarrow> ('r \<Rightarrow> bool option) \<Rightarrow> bool" where
  "scopeSwitches sc state \<longleftrightarrow> (\<forall>c r. state r \<noteq> None \<longrightarrow> fst (scSetEnabled sc True c True r) = None)"

text \<open>
  A specification's window restores.  Whatever runs in the window of \<open>withDisabled\<close>, if it leaves a
  specification that is off off, then after the window the specification is on exactly if it was on
  before: when no error is returned, and also when one is, as long as the switch itself still works.  What
  runs only ever runs on a specification that is off.
\<close>

theorem specification_window_restores:
  assumes laws: "scopeLaws sc state" and c: "\<not> Scripting c" "\<not> inWindow sc key"
    and work: "\<forall>r. state r = Some False \<longrightarrow> state (snd (fn (scWindowKey sc) r)) = Some False"
    and run: "specWithDisabled sc c key fn r = (err, r')"
    and ok: "err = None \<or> scopeSwitches sc state"
  shows "state r' = state r"
proof (cases "scIsEnabled sc c r")
  case (Pair v r1)
  show ?thesis
  proof (cases v)
    case (Inl e)
    then show ?thesis using run Pair laws c by (auto simp: specWithDisabled_def scopeLaws_def)
  next
    case (Inr on)
    have read: "state r = Some on" "state r1 = Some on" using laws Pair Inr unfolding scopeLaws_def by metis+
    show ?thesis
    proof (cases on)
      case False
      then have "r' = snd (fn (scWindowKey sc) r1)" using run Pair Inr c by (simp add: specWithDisabled_def)
      then show ?thesis using work read False by simp
    next
      case True
      obtain e2 r2 where off: "scSetEnabled sc False (unobserved c) False r1 = (e2, r2)"
        by (cases "scSetEnabled sc False (unobserved c) False r1")
      show ?thesis
      proof (cases e2)
        case (Some e)
        then have "r' = r2" using run Pair Inr True c off by (simp add: specWithDisabled_def)
        moreover have "state r2 = state r1" using laws off Some unfolding scopeLaws_def by metis
        ultimately show ?thesis using read by simp
      next
        case None
        obtain e3 r3 where body: "fn (scWindowKey sc) r2 = (e3, r3)" by (cases "fn (scWindowKey sc) r2")
        obtain e4 r4 where on4: "scSetEnabled sc True (unobserved c) True r3 = (e4, r4)"
          by (cases "scSetEnabled sc True (unobserved c) True r3")
        have "state r2 = Some False"
          using laws off None c scripting_unobserved [of c] unfolding scopeLaws_def by metis
        then have off3: "state r3 = Some False" using work body by (metis snd_conv)
        have fin: "r' = r4" "err = None \<longrightarrow> e4 = None"
          using run Pair Inr True c off None body on4 by (auto simp: specWithDisabled_def restoreWindow_def split: option.splits)
        have "e4 = None"
        proof (cases "err = None")
          case False
          with ok have "scopeSwitches sc state" by blast
          then have "fst (scSetEnabled sc True (unobserved c) True r3) = None"
            using off3 unfolding scopeSwitches_def by (metis option.distinct(1))
          then show ?thesis using on4 by simp
        qed (use fin in simp)
        then have "state r4 = Some True"
          using laws on4 c scripting_unobserved [of c] unfolding scopeLaws_def by metis
        then show ?thesis using fin read True by simp
      qed
    qed
  qed
qed

end
