(* ===== verification/BulkTypes.thy ===== *)
theory BulkTypes
  imports BulkValue
begin

text \<open>
  The types of a bulk load's columns: what \<open>BulkColumn.Converter\<close> (\<open>bulkvalue.go\<close>) returns for a value
  its column's check knows is a value of the column's own type, at the column's length; every other value
  goes to the driver as it is, which reports it.
\<close>

section \<open>Types of columns\<close>



definition numberTypes :: "string set" where
  "numberTypes = {''tinyint'', ''smallint'', ''int'', ''bigint'', ''decimal'', ''numeric'', ''money'', ''smallmoney'', ''float'', ''real''}"


















section \<open>A converter returns values of its column's type\<close>

lemma numberTypes_mem [simp]:
  "''tinyint'' \<in> numberTypes" "''smallint'' \<in> numberTypes" "''int'' \<in> numberTypes" "''bigint'' \<in> numberTypes"
  "''decimal'' \<in> numberTypes" "''numeric'' \<in> numberTypes" "''money'' \<in> numberTypes" "''smallmoney'' \<in> numberTypes"
  "''float'' \<in> numberTypes" "''real'' \<in> numberTypes"
  by (simp_all add: numberTypes_def)











end
