(* ===== verification/Spec2Isabelle.thy ===== *)
theory Spec2Isabelle
  imports RestorePlan Transaction ObjectOrder Retarget Permission BulkLoad AgentSteps SymmetricKey Sequences
    Governor DatabaseMail EventSessions AuditSpecs BulkTypes
begin

text \<open>
  A model of gosmo, a Go library that administers SQL Server over a \<open>database/sql\<close> connection.
  The library keeps almost no state of its own.  Its methods build T-SQL text from names and
  values of their caller, send it through a few chokepoints that can also capture it, report it
  to observers or place it in a transaction, and read rows and error messages back.  What makes
  it correct is therefore: that a name or a value can never be read as code; that each statement
  reaches the database it is meant for, once, and is reported as it was sent; that requests which
  make no sense are refused before anything is sent; and a few algorithms -- planning a restore,
  ordering the objects of a script, matching names under a collation, reading addresses, moving a
  pool off a database that cannot be opened.  The theories follow these parts.

  \<^bold>\<open>Conventions.\<close>  Definitions carry the names of the code they model where Isabelle allows it.
  A Go string is a \<open>string\<close> of bytes; runes are decoded explicitly (Utf8).  A function with an
  error result returns \<open>'a res\<close>, the error on the left: \<open>goerr\<close> (Prelude) keeps the sentinel, the
  format and its arguments rather than the rendered text.  A Go map is an association list in the
  order its iteration takes, or a function; where that order could matter a theorem says that it
  does not.  An \<open>int\<close> is a mathematical integer, with the wrap-around written out where a sum can
  leave 64 bits (\<open>wrap64\<close> in Dsn).  Tables of the Unicode standard (\<open>sf\<close> for
  \<open>unicode.SimpleFold\<close>, \<open>lo\<close> for \<open>strings.ToLower\<close>) and the driver are parameters; what is assumed
  of a folding is \<open>simpleFold\<close>, which the ASCII folding satisfies, and what is assumed of the server
  inside a transaction are the laws \<open>sessionLaws\<close> and \<open>durableLaws\<close>, which a toy server satisfies.

  \<^bold>\<open>Text.\<close>  Prelude, GoStrings and Utf8 are the shared part: errors, results, byte strings, runes.
  Quote models \<open>tsql/quote.go\<close> and \<open>quoting.go\<close> (quoting and reading back of identifiers and
  literals, multi-part names, reserved words); its locale \<open>delimited\<close> states what one kind of
  quoting promises.  Scan models \<open>tsql/scan.go\<close>, the scanner that splits a statement into code,
  quoted texts and comments.  Pieces proves the contract between the two, in the locale \<open>scanned\<close>
  interpreted for each kind of quoting: a statement assembled from code and quoted pieces reads
  back as those pieces.  Clauses extends it to statements built clause by clause, and is what the
  statement builders below are checked with.  Comment models \<open>tsql/comment.go\<close>.

  \<^bold>\<open>Captured statements.\<close>  Redact and Bind model the redaction of secrets and the inlining of bound
  values of \<open>script.go\<close>; Script the rendering of a captured script, checked against a model of the
  query tool that runs it.  Errors models \<open>errors.go\<close> and \<open>retry.go\<close>; a retry loop runs
  \<open>readRetryAttempts\<close> times at most, so no fuel is needed.  Names models \<open>collation.go\<close>,
  \<open>server_path.go\<close> and the name lookup of \<open>helpers.go\<close>; the orbit of a rune under folding is
  searched for \<open>orbitFuel\<close> = 8 steps, twice the longest orbit of the standard, and \<open>simpleFold\<close>
  states that this is enough.

  \<^bold>\<open>Sending.\<close>  Calls models the chokepoints of \<open>script.go\<close>, \<open>database.go\<close>, \<open>server.go\<close> and
  \<open>proc_read.go\<close> as functions on a state (collector, observers' reports, the transaction, the world
  behind the driver).  Transaction models \<open>InTransaction\<close> and composes every call into a step
  relation; its invariant is that the tracked database is the session's.

  \<^bold>\<open>Backup and restore.\<close>  BackupRestore models the options and statements of \<open>backup.go\<close>,
  \<open>restore.go\<close> and \<open>backup_headers.go\<close> with the exclusive-access batches of \<open>database.go\<close>; for each
  builder an abstract predicate says which options make sense, and the theorem that exactly
  those are accepted.  RestorePlan models \<open>restore_plan.go\<close>: the plan, stated against a declarative
  description of a restore sequence (\<open>planFor\<close>), and the relocation of files, whose search for a
  free path is given one more try than there are paths taken and is shown never to run out.

  \<^bold>\<open>Connections.\<close>  Address, Url and Dsn model the addresses of \<open>connection.go\<close> and the connection
  strings of \<open>connection_dsn.go\<close>, \<open>auth.go\<close> and \<open>kerberos.go\<close>, with the part of \<open>net/url\<close> they
  use and a reader of the URL as the driver's.  Retarget models \<open>connection_retarget.go\<close> as a step
  relation over dials in flight at once.

  \<^bold>\<open>Ordering and permissions.\<close>  Heap models \<open>container/heap\<close>, with the contract of a priority queue
  as the locale \<open>pqueue\<close>; ObjectOrder models \<open>scripter_database_objects_order.go\<close> on it, stated
  against a greedy description of the order (\<open>leastOrder\<close>, \<open>reported\<close>).  Permission models
  \<open>permission_options.go\<close> with its name tables and both \<open>ApplyPermission\<close>, which go through the
  chokepoints of Calls.

  \<^bold>\<open>Bulk loading.\<close>  Floats models the floating-point numbers of Go by the rationals they stand for,
  with the rounding of a conversion to 24 or 53 bits and of \<open>FormatFloat\<close>.  BulkValue models
  \<open>bulkvalue.go\<close>: the check of each column type, stated against the number a value stands for
  (\<open>wholeNumber\<close>, \<open>readsAmount\<close>); money's \<open>uint64\<close> is a \<open>64 word\<close>.  The encoders of code pages,
  \<open>strconv.ParseFloat\<close>, the shortest texts of floats and the driver's \<open>uniqueidentifier\<close> are a
  parameter (\<open>bulkLib\<close>), and a time is in a Location of one offset.  BulkTypes shows what a converter
  returns to be of its column's type.  BulkLoad models \<open>bulkcopy.go\<close>:
  the load over the answers of a server (\<open>bulkServer\<close>), with the session it holds.

  \<^bold>\<open>Agent.\<close>  AgentSteps models \<open>agent_job_step.go\<close>: the statements that change the steps of a job,
  and \<open>ReorderSteps\<close>, whose batch is run on the procedures of msdb, a parameter of which \<open>msdbLaws\<close>
  states the documented behaviour; it satisfies the order asked for (\<open>movedStep\<close>).

  \<^bold>\<open>Objects and their scripts.\<close>  Mirror models what every write and script shares: a handle takes a
  change only when the statement ran, a constructor returns the object or its handle, and the verbs and
  options of a script.  Versions models \<open>version_gate.go\<close>.  SymmetricKey models \<open>symmetric_key.go\<close>: a key
  is opened before it is used and closed after, the keys it needs found by a recursion that
  \<open>maxKeyChain\<close> bounds; the batch is run on a session of which \<open>keyLaws\<close> states how statements report
  and what they open.  Sequences models the sequences of \<open>sequence_synonym.go\<close> and their script, against
  the state of a sequence on the server (\<open>seqState\<close>).  Governor models \<open>resource_governor_write.go\<close>
  and \<open>scripter_resource_governor.go\<close>; an affinity mask is a \<open>64 word\<close>, and the loop that clears its
  lowest bit ends because the mask gets smaller.  DatabaseMail models the writes and the script of
  Database Mail, the order of a profile's accounts against a map from account to number.

  \<^bold>\<open>Sessions and audits.\<close>  A server refuses to change some objects while they are on, so a write stops
  the object, changes it and starts it again (\<open>restoreWindow\<close> in Mirror).  EventSessions models
  \<open>extended_events_script.go\<close>: the difference of a session and a definition, against the state of a session
  on the server (\<open>sessionState\<close>), and \<open>Alter\<close> over a sender of which \<open>eventLaws\<close> states what the switch
  does.  Audits models the writes and windows of \<open>audit.go\<close>; the names that windows restore are cells, which
  a rename rewrites, and programs over one handle (\<open>auditOp\<close>) are run under \<open>auditLaws\<close>.  AuditSpecs models
  \<open>audit_specification.go\<close> and \<open>database_audit_specification.go\<close>, whose two kinds share one window through a
  record of closures; its statements are checked with Clauses.

  \<^bold>\<open>Not modelled.\<close>  Catalog readers, monitoring and the object model they fill: what they answer is
  the server's, and the scanning of their rows is \<open>database/sql\<close>.  The other scripters render such rows
  through templates; the quoting, scanning, ordering and capture they rest on are here.  Statements
  of the other subsystems (the rest of Agent, availability groups, replication, full-text, logins and
  certificates) go through the modelled quoting and chokepoints.  Opening a pool,
  Entra sign-in, dialling and progress reading are I/O of other packages.
\<close>

end
